(* ===== verification/Py_Prelude.thy ===== *)
theory Py_Prelude
  imports Main "HOL-Library.Product_Lexorder"
begin

text \<open>
  Shared ground of the development: the Python string operations the service calls
  (\<^verbatim>\<open>str.strip\<close>, \<^verbatim>\<open>str.lower\<close>, \<^verbatim>\<open>int(text)\<close>, the decimal rendering of an integer),
  and the facts on lists that several components use.

  A Python \<^verbatim>\<open>str\<close> is the list of its code points; the alphabet of the model is the 256 code
  points of \<^typ>\<open>char\<close>, so \<^const>\<open>length\<close> counts what \<^verbatim>\<open>len\<close> counts. Python integers are
  \<^typ>\<open>int\<close>, counts that cannot be negative are \<^typ>\<open>nat\<close>.
\<close>

named_theorems keeps_intro \<open>preservation of an invariant by the combinators of a session\<close>
named_theorems tame_intro \<open>actions that leave the locals of a service alone\<close>
named_theorems throws_intro \<open>the exceptions an action can raise\<close>
named_theorems row_defs \<open>the SET lists and WHERE clauses of the statements\<close>

type_synonym uuid = nat
type_synonym timestamp = int  \<comment> \<open>microseconds since the epoch, UTC\<close>

definition seconds :: "int \<Rightarrow> int" where
  "seconds n = n * 1000000"

section \<open>Strings\<close>

definition py_isspace :: "char \<Rightarrow> bool" where
  "py_isspace c \<longleftrightarrow> (let n = (of_char c :: nat) in
     9 \<le> n \<and> n \<le> 13 \<or> 28 \<le> n \<and> n \<le> 32 \<or> n = 133 \<or> n = 160)"

definition strip_where :: "(char \<Rightarrow> bool) \<Rightarrow> string \<Rightarrow> string" where
  "strip_where p s = rev (dropWhile p (rev (dropWhile p s)))"

definition py_strip :: "string \<Rightarrow> string" where
  "py_strip s = strip_where py_isspace s"

definition lower_char :: "char \<Rightarrow> char" where
  "lower_char c = (let n = (of_char c :: nat) in
     if 65 \<le> n \<and> n \<le> 90 \<or> 192 \<le> n \<and> n \<le> 222 \<and> n \<noteq> 215 then char_of (n + 32) else c)"

definition py_lower :: "string \<Rightarrow> string" where
  "py_lower s = map lower_char s"

text \<open>\<^verbatim>\<open>value or None\<close> on a string: the empty string is falsy.\<close>

definition or_none :: "string \<Rightarrow> string option" where
  "or_none s = (if s = [] then None else Some s)"

lemma dropWhile_idem [simp]: "dropWhile p (dropWhile p xs) = dropWhile p xs"
  by (induction xs) auto

lemma rev_dropWhile_hd:
  "dropWhile p xs = xs \<Longrightarrow> dropWhile p (rev (dropWhile p (rev xs))) = rev (dropWhile p (rev xs))"
proof (cases "rev (dropWhile p (rev xs))")
  case (Cons y ys)
  assume keep: "dropWhile p xs = xs"
  have "takeWhile p (rev xs) @ dropWhile p (rev xs) = rev xs" by simp
  then have "rev (dropWhile p (rev xs)) @ rev (takeWhile p (rev xs)) = xs"
    by (metis rev_append rev_rev_ident)
  with Cons have "xs = y # (ys @ rev (takeWhile p (rev xs)))" by simp
  with keep have "\<not> p y"
    by (metis dropWhile.simps(2) dropWhile_eq_Cons_conv list.inject)
  with Cons show ?thesis by simp
next
  case Nil
  show ?thesis by (simp only: Nil dropWhile.simps)
qed

lemma strip_where_idem: "strip_where p (strip_where p s) = strip_where p s"
  by (simp add: strip_where_def rev_dropWhile_hd)

lemma py_strip_idem [simp]: "py_strip (py_strip s) = py_strip s"
  by (simp add: py_strip_def strip_where_idem)

lemma py_strip_Nil [simp]: "py_strip [] = []"
  by (simp add: py_strip_def strip_where_def)

lemma length_strip_where: "length (strip_where p s) \<le> length s"
proof -
  have "length (dropWhile p (rev (dropWhile p s))) \<le> length (dropWhile p s)"
    by (metis length_dropWhile_le length_rev)
  also have "\<dots> \<le> length s" by (rule length_dropWhile_le)
  finally show ?thesis by (simp add: strip_where_def)
qed

section \<open>Decimal numerals\<close>

fun nat_digits :: "nat \<Rightarrow> nat list" where
  "nat_digits n = (if n < 10 then [n] else nat_digits (n div 10) @ [n mod 10])"

declare nat_digits.simps [simp del]

definition digits_value :: "nat list \<Rightarrow> nat" where
  "digits_value ds = foldl (\<lambda>n d. 10 * n + d) 0 ds"

definition digit_char :: "nat \<Rightarrow> char" where
  "digit_char d = char_of (48 + d)"

definition digit_value :: "char \<Rightarrow> nat option" where
  "digit_value c = (let n = (of_char c :: nat) in if 48 \<le> n \<and> n \<le> 57 then Some (n - 48) else None)"

definition nat_str :: "nat \<Rightarrow> string" where
  "nat_str n = map digit_char (nat_digits n)"

definition int_str :: "int \<Rightarrow> string" where
  "int_str i = (if i < 0 then CHR ''-'' # nat_str (nat (- i)) else nat_str (nat i))"

lemma nat_digits_not_Nil [simp]: "nat_digits n \<noteq> []"
  by (subst nat_digits.simps) simp

lemma nat_digits_small: "d \<in> set (nat_digits n) \<Longrightarrow> d < 10"
proof (induction n rule: nat_digits.induct)
  case (1 n)
  then show ?case by (cases "n < 10") (auto simp: nat_digits.simps [of n])
qed

lemma digits_value_snoc [simp]: "digits_value (ds @ [d]) = 10 * digits_value ds + d"
  by (simp add: digits_value_def)

lemma digits_value_nat_digits [simp]: "digits_value (nat_digits n) = n"
proof (induction n rule: nat_digits.induct)
  case (1 n)
  show ?case
  proof (cases "n < 10")
    case True
    then show ?thesis by (simp add: nat_digits.simps [of n] digits_value_def)
  next
    case False
    with 1 show ?thesis by (simp add: nat_digits.simps [of n])
  qed
qed

lemma digits_value_append: "digits_value (xs @ ys) = digits_value xs * 10 ^ length ys + digits_value ys"
proof (induction ys rule: rev_induct)
  case Nil
  then show ?case by (simp add: digits_value_def)
next
  case (snoc y ys)
  have "digits_value (xs @ ys @ [y]) = 10 * digits_value (xs @ ys) + y"
    by (metis append.assoc digits_value_snoc)
  then show ?case by (simp add: snoc.IH algebra_simps)
qed

lemma digits_value_replicate_0 [simp]: "digits_value (replicate k 0) = 0"
  by (induction k) (simp_all add: digits_value_def)

lemma digit_value_digit_char [simp]: "d < 10 \<Longrightarrow> digit_value (digit_char d) = Some d"
  by (simp add: digit_value_def digit_char_def Let_def)

text \<open>
  \<^verbatim>\<open>int(text)\<close> in base 10: surrounding white space is skipped (the converter does not skip the
  four separator code points 28 to 31 that \<^verbatim>\<open>str.strip\<close> does), an optional sign, digits with
  single underscores between them, and at most 4300 digits. \<^const>\<open>None\<close> is the ValueError.
\<close>

definition int_isspace :: "char \<Rightarrow> bool" where
  "int_isspace c \<longleftrightarrow> (let n = (of_char c :: nat) in
     9 \<le> n \<and> n \<le> 13 \<or> n = 32 \<or> n = 133 \<or> n = 160)"

fun parse_digits :: "string \<Rightarrow> nat list option" where
  "parse_digits [] = None"
| "parse_digits [c] = map_option (\<lambda>d. [d]) (digit_value c)"
| "parse_digits (c # c' # cs) =
     (case digit_value c of
        None \<Rightarrow> None
      | Some d \<Rightarrow> map_option (Cons d) (parse_digits (if c' = CHR ''_'' then cs else c' # cs)))"

definition parse_nat :: "string \<Rightarrow> nat option" where
  "parse_nat s = (case parse_digits s of
     None \<Rightarrow> None
   | Some ds \<Rightarrow> if length ds > 4300 then None else Some (digits_value ds))"

definition py_int :: "string \<Rightarrow> int option" where
  "py_int s =
     (case strip_where int_isspace s of
        [] \<Rightarrow> None
      | c # cs \<Rightarrow>
          if c = CHR ''-'' then map_option (\<lambda>n. - int n) (parse_nat cs)
          else if c = CHR ''+'' then map_option int (parse_nat cs)
          else map_option int (parse_nat (c # cs)))"

lemma parse_digits_digit_chars:
  "ds \<noteq> [] \<Longrightarrow> \<forall>d \<in> set ds. d < 10 \<Longrightarrow> parse_digits (map digit_char ds) = Some ds"
proof (induction ds rule: induct_list012)
  case (3 d d' ds)
  have "digit_char d' \<noteq> CHR ''_''"
  proof
    assume "digit_char d' = CHR ''_''"
    then have "digit_value (digit_char d') = digit_value (CHR ''_'')" by simp
    then show False using 3(4) by (simp add: digit_value_def [of "CHR ''_''"])
  qed
  with 3 show ?case by simp
qed simp_all

lemma parse_digits_nat_str [simp]: "parse_digits (nat_str n) = Some (nat_digits n)"
  unfolding nat_str_def by (rule parse_digits_digit_chars) (auto dest: nat_digits_small)

lemma int_isspace_digit: "d < 10 \<Longrightarrow> \<not> int_isspace (digit_char d)"
  by (simp add: int_isspace_def digit_char_def Let_def)

lemma dropWhile_none: "\<forall>c \<in> set s. \<not> p c \<Longrightarrow> dropWhile p s = s"
  by (cases s) auto

lemma strip_where_none: "\<forall>c \<in> set s. \<not> p c \<Longrightarrow> strip_where p s = s"
  by (simp add: strip_where_def dropWhile_none)

lemma py_int_nat_str: "length (nat_digits n) \<le> 4300 \<Longrightarrow> py_int (nat_str n) = Some (int n)"
proof -
  assume short: "length (nat_digits n) \<le> 4300"
  have plain: "strip_where int_isspace (nat_str n) = nat_str n"
    by (rule strip_where_none) (use int_isspace_digit nat_digits_small in \<open>force simp: nat_str_def\<close>)
  obtain d ds where ds: "nat_digits n = d # ds" by (cases "nat_digits n") auto
  then have "d < 10" by (metis list.set_intros(1) nat_digits_small)
  then have sign: "digit_char d \<noteq> CHR ''-''" "digit_char d \<noteq> CHR ''+''"
    by (auto simp: digit_char_def dest!: arg_cong [where f = "of_char :: char \<Rightarrow> nat"])
  have "parse_nat (nat_str n) = Some n"
    using short by (simp add: parse_nat_def)
  with plain sign show ?thesis by (simp add: py_int_def nat_str_def ds)
qed

section \<open>Lists\<close>

lemma filter_length_split:
  "length (filter p xs) + length (filter (\<lambda>x. \<not> p x) xs) = length xs"
  by (induction xs) auto

lemma map_if_none [simp]: "\<forall>x \<in> set xs. \<not> p x \<Longrightarrow> map (\<lambda>x. if p x then f x else x) xs = xs"
  by (induction xs) auto

lemma distinct_map_filter: "distinct (map f xs) \<Longrightarrow> distinct (map f (filter p xs))"
  by (induction xs) auto

lemma distinct_key_filter:
  "distinct (map k xs) \<Longrightarrow> x \<in> set xs \<Longrightarrow> filter (\<lambda>y. k y = k x) xs = [x]"
proof (induction xs)
  case (Cons y ys)
  then show ?case
    by (cases "x = y") (auto simp: filter_empty_conv image_iff)
qed simp

lemma distinct_key_eq:
  "distinct (map k xs) \<Longrightarrow> x \<in> set xs \<Longrightarrow> y \<in> set xs \<Longrightarrow> k x = k y \<Longrightarrow> x = y"
  by (metis distinct_map inj_onD)

lemma find_by_key: "distinct (map k xs) \<Longrightarrow> x \<in> set xs \<Longrightarrow> List.find (\<lambda>y. k y = k x) xs = Some x"
  by (induction xs) (auto simp: image_iff)

end
