(* ===== verification/Py_Dates.thy ===== *)
theory Py_Dates
  imports Py_Prelude
begin

text \<open>
  Calendar values: \<^verbatim>\<open>datetime.date\<close> with its order, ordinal and successor, the start of a day
  in UTC, and the standard library's ISO forms in both directions (\<^verbatim>\<open>isoformat\<close>,
  \<^verbatim>\<open>date.fromisoformat\<close>), which the shipment filters and the JSONB conversion are made of.
\<close>

section \<open>Dates\<close>

datatype pydate = PyDate (date_year: nat) (date_month: nat) (date_day: nat)

instantiation pydate :: linorder
begin

definition less_eq_pydate :: "pydate \<Rightarrow> pydate \<Rightarrow> bool" where
  "less_eq_pydate a b \<longleftrightarrow>
     (date_year a, date_month a, date_day a) \<le> (date_year b, date_month b, date_day b)"

definition less_pydate :: "pydate \<Rightarrow> pydate \<Rightarrow> bool" where
  "less_pydate a b \<longleftrightarrow>
     (date_year a, date_month a, date_day a) < (date_year b, date_month b, date_day b)"

instance
proof
  fix a b c :: pydate
  show "a < b \<longleftrightarrow> a \<le> b \<and> \<not> b \<le> a"
    by (auto simp: less_eq_pydate_def less_pydate_def)
  show "a \<le> a"
    by (simp add: less_eq_pydate_def)
  show "a \<le> b \<Longrightarrow> b \<le> c \<Longrightarrow> a \<le> c"
    by (auto simp: less_eq_pydate_def)
  show "a \<le> b \<Longrightarrow> b \<le> a \<Longrightarrow> a = b"
    by (cases a; cases b) (auto simp: less_eq_pydate_def)
  show "a \<le> b \<or> b \<le> a"
    by (auto simp: less_eq_pydate_def)
qed

end

definition is_leap :: "nat \<Rightarrow> bool" where
  "is_leap y \<longleftrightarrow> y mod 4 = 0 \<and> (y mod 100 \<noteq> 0 \<or> y mod 400 = 0)"

definition days_in_month :: "nat \<Rightarrow> nat \<Rightarrow> nat" where
  "days_in_month y m =
     (if m = 2 then if is_leap y then 29 else 28
      else if m \<in> {4, 6, 9, 11} then 30 else 31)"

definition days_before_year :: "nat \<Rightarrow> nat" where
  "days_before_year y = (let k = y - 1 in k * 365 + k div 4 - k div 100 + k div 400)"

definition days_before_month :: "nat \<Rightarrow> nat \<Rightarrow> nat" where
  "days_before_month y m = (\<Sum>k\<leftarrow>[1..<m]. days_in_month y k)"

definition date_ordinal :: "pydate \<Rightarrow> nat" where
  "date_ordinal d =
     days_before_year (date_year d) + days_before_month (date_year d) (date_month d) + date_day d"

definition valid_date :: "pydate \<Rightarrow> bool" where
  "valid_date d \<longleftrightarrow> 1 \<le> date_year d \<and> date_year d \<le> 9999 \<and>
     1 \<le> date_month d \<and> date_month d \<le> 12 \<and>
     1 \<le> date_day d \<and> date_day d \<le> days_in_month (date_year d) (date_month d)"

text \<open>\<^verbatim>\<open>d + timedelta(days=1)\<close>; \<^const>\<open>None\<close> is the OverflowError after 9999-12-31.\<close>

definition next_day :: "pydate \<Rightarrow> pydate option" where
  "next_day d =
     (if date_day d < days_in_month (date_year d) (date_month d)
      then Some (PyDate (date_year d) (date_month d) (date_day d + 1))
      else if date_month d < 12 then Some (PyDate (date_year d) (date_month d + 1) 1)
      else if date_year d < 9999 then Some (PyDate (date_year d + 1) 1 1)
      else None)"

text \<open>\<^verbatim>\<open>datetime.combine(d, time.min, tzinfo=UTC)\<close> as microseconds since 1970-01-01.\<close>

definition day_start :: "pydate \<Rightarrow> timestamp" where
  "day_start d = seconds (86400 * (int (date_ordinal d) - 719163))"

lemma days_before_year_Suc:
  "1 \<le> y \<Longrightarrow> days_before_year (y + 1) = days_before_year y + (if is_leap y then 366 else 365)"
proof -
  assume "1 \<le> y"
  then obtain k where y: "y = Suc k" by (cases y) auto
  have step: "Suc k div n = k div n + (if Suc k mod n = 0 then 1 else 0)" if "0 < n" for n :: nat
    using div_Suc [of k n] that by auto
  obtain c where c: "k div 4 = k div 100 + c"
    using div_le_mono2 [of 4 100 k] le_Suc_ex by auto
  have dvd: "Suc k mod 100 = 0 \<Longrightarrow> Suc k mod 4 = 0" "Suc k mod 400 = 0 \<Longrightarrow> Suc k mod 100 = 0"
    using dvd_trans [of 4 100 "Suc k"] dvd_trans [of 100 400 "Suc k"]
    by (auto simp: dvd_eq_mod_eq_0)
  have s4: "Suc k div 4 = k div 4 + (if Suc k mod 4 = 0 then 1 else 0)"
    and s100: "Suc k div 100 = k div 100 + (if Suc k mod 100 = 0 then 1 else 0)"
    and s400: "Suc k div 400 = k div 400 + (if Suc k mod 400 = 0 then 1 else 0)"
    by (rule step, simp)+
  have "Suc k * 365 + Suc k div 4 - Suc k div 100 + Suc k div 400 =
      k * 365 + k div 4 - k div 100 + k div 400 + (if is_leap (Suc k) then 366 else 365)"
    using dvd unfolding s4 s100 s400 is_leap_def c
    by (cases "Suc k mod 4 = 0"; cases "Suc k mod 100 = 0"; cases "Suc k mod 400 = 0") simp_all
  then show ?thesis
    by (simp only: days_before_year_def Let_def y add_Suc_right add_0_right One_nat_def
        diff_Suc_Suc diff_zero)
qed

lemma days_before_month_Suc:
  "1 \<le> m \<Longrightarrow> days_before_month y (m + 1) = days_before_month y m + days_in_month y m"
  by (simp add: days_before_month_def)

lemma days_before_month_13: "days_before_month y 13 = (if is_leap y then 366 else 365)"
  by (simp add: days_before_month_def days_in_month_def upt_rec)

lemma date_ordinal_next_day:
  assumes "valid_date d" "next_day d = Some d'"
  shows "date_ordinal d' = date_ordinal d + 1"
proof -
  let ?y = "date_year d" and ?m = "date_month d"
  consider (day) "date_day d < days_in_month ?y ?m"
    | (month) "date_day d = days_in_month ?y ?m" "?m < 12"
    | (year) "date_day d = days_in_month ?y ?m" "?m = 12"
    using assms(1) by (auto simp: valid_date_def le_less)
  then show ?thesis
  proof cases
    case day
    then show ?thesis using assms(2) by (auto simp: next_day_def date_ordinal_def)
  next
    case month
    then show ?thesis using assms days_before_month_Suc [of ?m ?y]
      by (auto simp: next_day_def date_ordinal_def valid_date_def)
  next
    case year
    have "days_before_month ?y 12 + days_in_month ?y 12 = (if is_leap ?y then 366 else 365)"
      using days_before_month_Suc [of 12 ?y] days_before_month_13 [of ?y] by simp
    moreover have "days_before_month (?y + 1) 1 = 0"
      by (simp add: days_before_month_def)
    ultimately show ?thesis
      using year assms days_before_year_Suc [of ?y]
      by (auto simp: next_day_def date_ordinal_def valid_date_def split: if_splits)
  qed
qed

lemma day_start_next_day:
  "valid_date d \<Longrightarrow> next_day d = Some d' \<Longrightarrow> day_start d' = day_start d + seconds 86400"
  by (simp add: day_start_def date_ordinal_next_day seconds_def)

subsection \<open>ISO renderings\<close>

definition zero_pad :: "nat \<Rightarrow> nat \<Rightarrow> string" where
  "zero_pad k n = replicate (k - length (nat_digits n)) (CHR ''0'') @ nat_str n"

definition date_isoformat :: "pydate \<Rightarrow> string" where
  "date_isoformat d =
     zero_pad 4 (date_year d) @ ''-'' @ zero_pad 2 (date_month d) @ ''-'' @ zero_pad 2 (date_day d)"

record pydatetime =
  dt_date :: pydate
  dt_hour :: nat
  dt_minute :: nat
  dt_second :: nat
  dt_micro :: nat
  dt_utcoffset :: "int option"  \<comment> \<open>minutes east of UTC; None for a naive value\<close>

definition datetime_isoformat :: "pydatetime \<Rightarrow> string" where
  "datetime_isoformat t =
     date_isoformat (dt_date t) @ ''T'' @ zero_pad 2 (dt_hour t) @ '':'' @
     zero_pad 2 (dt_minute t) @ '':'' @ zero_pad 2 (dt_second t) @
     (if dt_micro t = 0 then '''' else ''.'' @ zero_pad 6 (dt_micro t)) @
     (case dt_utcoffset t of
        None \<Rightarrow> ''''
      | Some off \<Rightarrow>
          (if off < 0 then ''-'' else ''+'') @
          zero_pad 2 (nat \<bar>off\<bar> div 60) @ '':'' @ zero_pad 2 (nat \<bar>off\<bar> mod 60))"

text \<open>
  \<^verbatim>\<open>date.fromisoformat\<close> of Python 3.11 and later: besides \<^verbatim>\<open>YYYY-MM-DD\<close> it reads
  \<^verbatim>\<open>YYYYMMDD\<close> and the ISO week forms; the length test is on the UTF-8 bytes, and what follows a
  form without separators is not looked at. \<^const>\<open>None\<close> is the ValueError.
\<close>

definition utf8_length :: "string \<Rightarrow> nat" where
  "utf8_length s = (\<Sum>c\<leftarrow>s. if (of_char c :: nat) < 128 then 1 else 2)"

fun fixed_digits :: "nat \<Rightarrow> string \<Rightarrow> (nat \<times> string) option" where
  "fixed_digits 0 s = Some (0, s)"
| "fixed_digits (Suc k) [] = None"
| "fixed_digits (Suc k) (c # cs) =
     (case digit_value c of
        None \<Rightarrow> None
      | Some d \<Rightarrow> map_option (\<lambda>(n, rest). (d * 10 ^ k + n, rest)) (fixed_digits k cs))"

fun month_scan :: "nat \<Rightarrow> nat \<Rightarrow> nat \<Rightarrow> nat \<Rightarrow> nat \<times> nat" where
  "month_scan 0 y m k = (m, k + 1)"
| "month_scan (Suc fuel) y m k =
     (if k < days_in_month y m then (m, k + 1) else month_scan fuel y (m + 1) (k - days_in_month y m))"

definition date_of_ordinal_near :: "nat \<Rightarrow> int \<Rightarrow> pydate" where
  "date_of_ordinal_near y n =
     (let first = (\<lambda>k. int (days_before_year k) + 1);
          y' = (if n < first y then y - 1 else if first (y + 1) \<le> n then y + 1 else y);
          (m, d) = month_scan 11 y' 1 (nat (n - first y'))
      in PyDate y' m d)"

definition isoweek1monday :: "nat \<Rightarrow> int" where
  "isoweek1monday y =
     (let firstday = int (days_before_year y) + 1;
          firstweekday = (firstday + 6) mod 7;
          monday = firstday - firstweekday
      in if firstweekday > 3 then monday + 7 else monday)"

definition isoweek_to_gregorian :: "nat \<Rightarrow> nat \<Rightarrow> nat \<Rightarrow> pydate option" where
  "isoweek_to_gregorian y week day =
     (let first_weekday = (days_before_year y + 1) mod 7;
          week_ok = 0 < week \<and> week < 53 \<or>
            week = 53 \<and> (first_weekday = 4 \<or> first_weekday = 3 \<and> is_leap y)
      in if 1 \<le> y \<and> y \<le> 9999 \<and> week_ok \<and> 0 < day \<and> day < 8
         then Some (date_of_ordinal_near y (isoweek1monday y + int ((week - 1) * 7 + (day - 1))))
         else None)"

definition skip_separator :: "bool \<Rightarrow> string \<Rightarrow> string option" where
  "skip_separator has_sep s =
     (if has_sep then case s of c # cs \<Rightarrow> if c = CHR ''-'' then Some cs else None | [] \<Rightarrow> None
      else Some s)"

definition parse_week_date :: "nat \<Rightarrow> bool \<Rightarrow> string \<Rightarrow> pydate option" where
  "parse_week_date y has_sep s =
     (case fixed_digits 2 s of
        None \<Rightarrow> None
      | Some (week, rest) \<Rightarrow>
          if rest = [] then isoweek_to_gregorian y week 1
          else (case Option.bind (skip_separator has_sep rest) (fixed_digits 1) of
                  None \<Rightarrow> None
                | Some (day, _) \<Rightarrow> isoweek_to_gregorian y week day))"

definition parse_calendar_date :: "nat \<Rightarrow> bool \<Rightarrow> string \<Rightarrow> pydate option" where
  "parse_calendar_date y has_sep s =
     (case fixed_digits 2 s of
        None \<Rightarrow> None
      | Some (m, rest) \<Rightarrow>
          (case Option.bind (skip_separator has_sep rest) (fixed_digits 2) of
             None \<Rightarrow> None
           | Some (d, _) \<Rightarrow> Some (PyDate y m d)))"

definition date_fromisoformat :: "string \<Rightarrow> pydate option" where
  "date_fromisoformat s =
     (if utf8_length s \<notin> {7, 8, 10} then None
      else case fixed_digits 4 s of
        None \<Rightarrow> None
      | Some (y, rest) \<Rightarrow>
          (let has_sep = (rest \<noteq> [] \<and> hd rest = CHR ''-'');
               body = (if has_sep then tl rest else rest);
               parsed = (if body \<noteq> [] \<and> hd body = CHR ''W'' then parse_week_date y has_sep (tl body)
                         else parse_calendar_date y has_sep body)
           in case parsed of None \<Rightarrow> None | Some d \<Rightarrow> if valid_date d then Some d else None))"

lemma date_fromisoformat_valid: "date_fromisoformat s = Some d \<Longrightarrow> valid_date d"
  by (auto simp: date_fromisoformat_def Let_def split: if_splits option.splits prod.splits)

end
