(* ===== verification/Py_Values.thy ===== *)
theory Py_Values
  imports Py_Dates
begin

text \<open>
  \<^verbatim>\<open>decimal.Decimal\<close> with its two renderings, the values a workbook cell can hold, and the
  conversion of a row to JSONB-safe primitives (\<^verbatim>\<open>jsonb_safe\<close> of app/imports/jsonb.py).
\<close>

section \<open>Decimals\<close>

text \<open>
  A finite \<^verbatim>\<open>Decimal\<close>: sign, coefficient, exponent. NaN and the infinities are left out: the
  values of the service come out of pydantic's Decimal schema or a NUMERIC column, and neither
  yields them.
\<close>

datatype decimal = Decimal (dec_neg: bool) (dec_coeff: nat) (dec_exp: int)

definition decimal_le_0 :: "decimal \<Rightarrow> bool" where
  "decimal_le_0 d \<longleftrightarrow> dec_coeff d = 0 \<or> dec_neg d"

definition decimal_lt_0 :: "decimal \<Rightarrow> bool" where
  "decimal_lt_0 d \<longleftrightarrow> dec_coeff d \<noteq> 0 \<and> dec_neg d"

text \<open>Numeric equality: both sides scaled to the smaller exponent.\<close>

definition decimal_scaled :: "int \<Rightarrow> decimal \<Rightarrow> int" where
  "decimal_scaled e d =
     (if dec_neg d then - 1 else 1) * int (dec_coeff d) * 10 ^ nat (dec_exp d - e)"

definition decimal_eq :: "decimal \<Rightarrow> decimal \<Rightarrow> bool" where
  "decimal_eq a b \<longleftrightarrow>
     (let e = min (dec_exp a) (dec_exp b) in decimal_scaled e a = decimal_scaled e b)"

definition sign_str :: "decimal \<Rightarrow> string" where
  "sign_str d = (if dec_neg d then ''-'' else '''')"

definition zeros :: "nat \<Rightarrow> string" where
  "zeros n = replicate n (CHR ''0'')"

text \<open>\<^verbatim>\<open>str(d)\<close>: scientific notation outside the range of the plain form.\<close>

definition decimal_str :: "decimal \<Rightarrow> string" where
  "decimal_str d =
     (let digits = nat_str (dec_coeff d);
          leftdigits = dec_exp d + int (length digits);
          dotplace = (if dec_exp d \<le> 0 \<and> - 6 < leftdigits then leftdigits else 1);
          (intpart, fracpart) =
            (if dotplace \<le> 0 then (''0'', ''.'' @ zeros (nat (- dotplace)) @ digits)
             else if int (length digits) \<le> dotplace
               then (digits @ zeros (nat (dotplace - int (length digits))), '''')
             else (take (nat dotplace) digits, ''.'' @ drop (nat dotplace) digits));
          e = leftdigits - dotplace;
          exponent = (if e = 0 then '''' else ''E'' @ (if 0 < e then ''+'' else '''') @ int_str e)
      in sign_str d @ intpart @ fracpart @ exponent)"

text \<open>\<^verbatim>\<open>format(d, "f")\<close>: always the plain form.\<close>

definition decimal_fixed :: "decimal \<Rightarrow> string" where
  "decimal_fixed d =
     (let digits = (if dec_coeff d = 0 \<and> 0 < dec_exp d then ''0''
                    else nat_str (dec_coeff d) @ zeros (nat (dec_exp d)));
          places = nat (- dec_exp d);
          padded = zeros (places + 1 - length digits) @ digits;
          intpart = take (length padded - places) padded;
          fracpart = drop (length padded - places) padded
      in sign_str d @ intpart @ (if fracpart = '''' then '''' else ''.'' @ fracpart))"

text \<open>
  What a plain numeral denotes: an optional sign, digits, and optionally a point and digits.
  The specification the rendering is checked against.
\<close>

definition plain_value :: "string \<Rightarrow> decimal option" where
  "plain_value s =
     (let neg = (s \<noteq> [] \<and> hd s = CHR ''-'');
          body = (if neg then tl s else s);
          intpart = takeWhile (\<lambda>c. c \<noteq> CHR ''.'') body;
          fracpart = tl (dropWhile (\<lambda>c. c \<noteq> CHR ''.'') body)
      in case those (map digit_value (intpart @ fracpart)) of
           None \<Rightarrow> None
         | Some ds \<Rightarrow> Some (Decimal neg (digits_value ds) (- int (length fracpart))))"

lemma digit_char_ne [simp]:
  assumes "d < 10"
  shows "digit_char d \<noteq> CHR ''.''" "digit_char d \<noteq> CHR ''-''"
  using assms by (auto simp: digit_char_def dest!: arg_cong [where f = "of_char :: char \<Rightarrow> nat"])

lemma digit_char_0: "digit_char 0 = CHR 0x30"
  by code_simp

lemma zeros_digit_chars: "zeros n = map digit_char (replicate n 0)"
  by (simp add: zeros_def digit_char_0)

lemma those_digit_value: "\<forall>d \<in> set ds. d < 10 \<Longrightarrow> those (map (digit_value \<circ> digit_char) ds) = Some ds"
  by (induction ds) auto

lemma plain_value_split:
  assumes "body \<noteq> []" "hd body \<noteq> CHR ''-''"
  shows "plain_value ((if neg then ''-'' else '''') @ body) =
    map_option (\<lambda>ds. Decimal neg (digits_value ds)
        (- int (length (tl (dropWhile (\<lambda>c. c \<noteq> CHR ''.'') body)))))
      (those (map digit_value (takeWhile (\<lambda>c. c \<noteq> CHR ''.'') body @
        tl (dropWhile (\<lambda>c. c \<noteq> CHR ''.'') body))))"
  using assms by (cases neg) (auto simp: plain_value_def Let_def split: option.splits)

lemma plain_value_numeral:
  assumes ip: "\<forall>d \<in> set ip. d < 10" "ip \<noteq> []" and fp: "\<forall>d \<in> set fp. d < 10"
  shows "plain_value ((if neg then ''-'' else '''') @ map digit_char ip @
           (if fp = [] then '''' else ''.'' @ map digit_char fp)) =
         Some (Decimal neg (digits_value (ip @ fp)) (- int (length fp)))"
proof -
  let ?body = "map digit_char ip @ (if fp = [] then '''' else ''.'' @ map digit_char fp)"
  let ?p = "\<lambda>c. c \<noteq> CHR ''.''"
  have all: "\<forall>c \<in> set (map digit_char ip). ?p c" using ip by auto
  have intp: "takeWhile ?p ?body = map digit_char ip"
    using takeWhile_append2 [of "map digit_char ip" ?p] all by simp
  have frac: "tl (dropWhile ?p ?body) = map digit_char fp"
    using dropWhile_append2 [of "map digit_char ip" ?p] all by simp
  have hd: "hd ?body \<noteq> CHR ''-''" "?body \<noteq> []" using ip by (cases ip; auto)+
  have "those (map digit_value (map digit_char ip @ map digit_char fp)) = Some (ip @ fp)"
    using those_digit_value [of "ip @ fp"] ip fp by auto
  then show ?thesis
    by (simp only: plain_value_split [OF hd(2,1)] intp frac length_map option.map)
qed

lemma decimal_fixed_shape:
  fixes d :: decimal
  defines "p \<equiv> (if dec_coeff d = 0 \<and> 0 < dec_exp d then [0]
      else nat_digits (dec_coeff d) @ replicate (nat (dec_exp d)) 0)"
    and "k \<equiv> nat (- dec_exp d)"
  defines "q \<equiv> replicate (k + 1 - length p) 0 @ p"
  shows "decimal_fixed d = sign_str d @ map digit_char (take (length q - k) q) @
      (if drop (length q - k) q = [] then '''' else ''.'' @ map digit_char (drop (length q - k) q))"
    and "\<forall>x \<in> set q. x < 10" and "k < length q"
proof -
  have p: "(if dec_coeff d = 0 \<and> 0 < dec_exp d then ''0''
        else nat_str (dec_coeff d) @ zeros (nat (dec_exp d))) = map digit_char p"
    unfolding p_def nat_str_def zeros_digit_chars by (simp add: digit_char_0)
  have q: "zeros (k + 1 - length p) @ map digit_char p = map digit_char q"
    by (simp add: q_def zeros_digit_chars)
  show "decimal_fixed d = sign_str d @ map digit_char (take (length q - k) q) @
      (if drop (length q - k) q = [] then '''' else ''.'' @ map digit_char (drop (length q - k) q))"
    unfolding decimal_fixed_def Let_def p length_map k_def [symmetric] q
    by (simp add: take_map drop_map)
  show "\<forall>x \<in> set q. x < 10"
    by (auto simp: q_def p_def dest: nat_digits_small split: if_splits)
  show "k < length q"
    by (simp add: q_def)
qed

lemma plain_value_decimal_fixed:
  "\<exists>v. plain_value (decimal_fixed d) = Some v \<and> decimal_eq v d \<and> dec_neg v = dec_neg d"
proof -
  define p where "p = (if dec_coeff d = 0 \<and> 0 < dec_exp d then [0]
      else nat_digits (dec_coeff d) @ replicate (nat (dec_exp d)) 0)"
  define k where "k = nat (- dec_exp d)"
  define q where "q = replicate (k + 1 - length p) 0 @ p"
  note shape = decimal_fixed_shape [of d, folded p_def k_def, folded q_def]
  let ?ip = "take (length q - k) q" and ?fp = "drop (length q - k) q"
  have small: "\<forall>x \<in> set ?ip. x < 10" "\<forall>x \<in> set ?fp. x < 10"
    using shape(2) by (auto dest: in_set_takeD in_set_dropD)
  have "plain_value (decimal_fixed d) =
      Some (Decimal (dec_neg d) (digits_value (?ip @ ?fp)) (- int (length ?fp)))"
    unfolding shape(1) sign_str_def
    by (rule plain_value_numeral) (use small shape(3) in auto)
  moreover have "length ?fp = k" using shape(3) by simp
  moreover have "digits_value q = dec_coeff d * 10 ^ nat (dec_exp d)"
    by (simp add: q_def p_def digits_value_append) (simp add: digits_value_def)
  ultimately show ?thesis
    by (auto simp: decimal_eq_def decimal_scaled_def k_def Let_def min_def)
qed

end
