(* ===== verification/Jsonb.thy ===== *)
theory Jsonb
  imports Py_Values
begin

text \<open>
  The objects a workbook row can carry and their conversion to JSONB-safe primitives, the
  function \<^verbatim>\<open>jsonb_safe\<close> of app/imports/jsonb.py. A float is its significand and binary
  exponent (or an infinity, or NaN): the service only passes floats on. Any other object
  (\<^verbatim>\<open>datetime.time\<close>, \<^verbatim>\<open>timedelta\<close>, \dots) is represented by the text \<^verbatim>\<open>str\<close> gives for
  it. The keys of a dict are strings, as they are in the row dicts of the parser.
\<close>

datatype pyfloat = Finite_Float int int | Inf_Float bool | NaN_Float

datatype pyval =
    PNone
  | PBool bool
  | PInt int
  | PFloat pyfloat
  | PStr string
  | PDecimal decimal
  | PDatetime pydatetime
  | PDate pydate
  | PDict "(string \<times> pyval) list"
  | PList "pyval list"
  | PTuple "pyval list"
  | PSet "pyval list"  \<comment> \<open>in iteration order\<close>
  | PObj string

type_synonym pydict = "(string \<times> pyval) list"

text \<open>\<^verbatim>\<open>d.get(k)\<close> and \<^verbatim>\<open>d[k] = v\<close> on a dict in insertion order.\<close>

definition dict_get :: "(string \<times> pyval) list \<Rightarrow> string \<Rightarrow> pyval" where
  "dict_get d k = (case map_of d k of None \<Rightarrow> PNone | Some v \<Rightarrow> v)"

fun dict_set :: "(string \<times> pyval) list \<Rightarrow> string \<Rightarrow> pyval \<Rightarrow> (string \<times> pyval) list" where
  "dict_set [] k v = [(k, v)]"
| "dict_set ((k', v') # d) k v = (if k' = k then (k, v) # d else (k', v') # dict_set d k v)"

lemma map_of_dict_set [simp]: "map_of (dict_set d k v) = (map_of d)(k \<mapsto> v)"
  by (induction d k v rule: dict_set.induct) auto

lemma dict_get_set [simp]: "dict_get (dict_set d k v) k' = (if k' = k then v else dict_get d k')"
  by (simp add: dict_get_def)

lemma keys_dict_set: "set (map fst (dict_set d k v)) = insert k (set (map fst d))"
  by (induction d k v rule: dict_set.induct) auto

fun jsonb_safe :: "pyval \<Rightarrow> pyval" where
  "jsonb_safe (PDecimal d) = PStr (decimal_str d)"
| "jsonb_safe (PDatetime t) = PStr (datetime_isoformat t)"
| "jsonb_safe (PDate d) = PStr (date_isoformat d)"
| "jsonb_safe (PDict kvs) = PDict (map (\<lambda>(k, v). (k, jsonb_safe v)) kvs)"
| "jsonb_safe (PList vs) = PList (map jsonb_safe vs)"
| "jsonb_safe (PTuple vs) = PList (map jsonb_safe vs)"
| "jsonb_safe (PSet vs) = PList (map jsonb_safe vs)"
| "jsonb_safe PNone = PNone"
| "jsonb_safe (PStr s) = PStr s"
| "jsonb_safe (PInt i) = PInt i"
| "jsonb_safe (PFloat x) = PFloat x"
| "jsonb_safe (PBool b) = PBool b"
| "jsonb_safe (PObj s) = PStr s"

text \<open>The primitives the JSON encoder takes: null, booleans, numbers, strings, arrays, objects.\<close>

fun json_primitive :: "pyval \<Rightarrow> bool" where
  "json_primitive (PDict kvs) = list_all (\<lambda>(k, v). json_primitive v) kvs"
| "json_primitive (PList vs) = list_all json_primitive vs"
| "json_primitive v = (v = PNone \<or> (\<exists>b. v = PBool b) \<or> (\<exists>i. v = PInt i) \<or> (\<exists>x. v = PFloat x) \<or>
     (\<exists>s. v = PStr s))"

lemma json_primitive_jsonb_safe: "json_primitive (jsonb_safe v)"
  by (induction v rule: jsonb_safe.induct) (auto simp: list_all_iff)

lemma jsonb_safe_primitive: "json_primitive v \<Longrightarrow> jsonb_safe v = v"
proof (induction v rule: jsonb_safe.induct)
  case (4 kvs)
  then have "map (\<lambda>(k, v). (k, jsonb_safe v)) kvs = kvs"
    by (intro map_idI) (auto simp: list_all_iff)
  then show ?case by simp
next
  case (5 vs)
  then have "map jsonb_safe vs = vs"
    by (intro map_idI) (auto simp: list_all_iff)
  then show ?case by simp
qed auto

lemma jsonb_safe_idem [simp]: "jsonb_safe (jsonb_safe v) = jsonb_safe v"
  by (rule jsonb_safe_primitive) (rule json_primitive_jsonb_safe)

text \<open>
  What PostgreSQL takes as JSONB: \<^verbatim>\<open>json.dumps\<close> writes NaN and the infinities as bare words, which
  are not JSON, and the server refuses the document.
\<close>

fun json_document :: "pyval \<Rightarrow> bool" where
  "json_document (PDict kvs) = list_all (\<lambda>(k, v). json_document v) kvs"
| "json_document (PList vs) = list_all json_document vs"
| "json_document (PFloat (Finite_Float m e)) = True"
| "json_document PNone = True"
| "json_document (PBool b) = True"
| "json_document (PInt i) = True"
| "json_document (PStr s) = True"
| "json_document v = False"

text \<open>No float in the value is NaN or an infinity.\<close>

fun finite_value :: "pyval \<Rightarrow> bool" where
  "finite_value (PDict kvs) = list_all (\<lambda>(k, v). finite_value v) kvs"
| "finite_value (PList vs) = list_all finite_value vs"
| "finite_value (PTuple vs) = list_all finite_value vs"
| "finite_value (PSet vs) = list_all finite_value vs"
| "finite_value (PFloat (Inf_Float neg)) = False"
| "finite_value (PFloat NaN_Float) = False"
| "finite_value v = True"

lemma json_document_primitive: "json_document v \<Longrightarrow> json_primitive v"
  by (induction v rule: json_document.induct) (auto simp: list_all_iff)

lemma json_document_jsonb_safe [simp]: "json_document (jsonb_safe v) \<longleftrightarrow> finite_value v"
proof (induction v rule: jsonb_safe.induct)
  case (11 x)
  show ?case by (cases x) simp_all
qed (auto simp: list_all_iff)

lemma finite_value_jsonb_safe [simp]: "finite_value (jsonb_safe v) \<longleftrightarrow> finite_value v"
proof (induction v rule: jsonb_safe.induct)
  case (11 x)
  show ?case by (cases x) simp_all
qed (auto simp: list_all_iff)

text \<open>
  C38. The type of what is stored of a row: whatever value a row carries, \<^verbatim>\<open>jsonb_safe\<close> turns it into
  JSON primitives, it changes nothing exactly when the value consists of JSON primitives, and the
  result is a document the JSONB column takes exactly when no float in the value is NaN or infinite.
\<close>

theorem jsonb_safe_typed:
  "json_primitive (jsonb_safe v) \<and> (jsonb_safe v = v \<longleftrightarrow> json_primitive v) \<and>
     (json_document (jsonb_safe v) \<longleftrightarrow> finite_value v)"
  using json_primitive_jsonb_safe [of v] jsonb_safe_primitive [of v] by auto

end
