(* ===== verification/Shipment_Rules.thy ===== *)
theory Shipment_Rules
  imports Jsonb
begin

text \<open>
  The domain layer (app/domain): the business rules on a shipment draft
  (shipment_rules.py) with the issues they report (errors.py) and the import states
  (import_states.py).
\<close>

record validation_issue =
  issue_field :: string
  issue_error :: string

datatype import_status = ImportPENDING | ImportPROCESSING | ImportCOMPLETED | ImportFAILED

definition import_status_str :: "import_status \<Rightarrow> string" where
  "import_status_str s = (case s of
     ImportPENDING \<Rightarrow> ''PENDING'' | ImportPROCESSING \<Rightarrow> ''PROCESSING''
   | ImportCOMPLETED \<Rightarrow> ''COMPLETED'' | ImportFAILED \<Rightarrow> ''FAILED'')"

definition ALLOWED_SHIPMENT_STATUSES :: "string set" where
  "ALLOWED_SHIPMENT_STATUSES = {''PENDING'', ''IN_TRANSIT'', ''DELIVERED'', ''CANCELED''}"

definition REQUIRED_SHIPMENT_FIELDS :: "string list" where
  "REQUIRED_SHIPMENT_FIELDS =
     [''shipment_code'', ''customer_name'', ''origin_city'', ''destination_city'',
      ''weight_kg'', ''price'', ''status'']"

definition CUSTOMER_NAME_MAX_LENGTH :: nat where
  "CUSTOMER_NAME_MAX_LENGTH = 150"

text \<open>
  A draft; the delivery date is kept as an object, since the last rule tests its class
  (\<^const>\<open>PNone\<close> when absent). A datetime is an instance of date.
\<close>

record shipment_draft =
  draft_shipment_code :: string
  draft_customer_name :: string
  draft_origin_city :: string
  draft_destination_city :: string
  draft_weight_kg :: decimal
  draft_price :: decimal
  draft_status :: string
  draft_delivery_date :: pyval

record partial_shipment_draft =
  part_shipment_code :: "string option"
  part_customer_name :: "string option"
  part_origin_city :: "string option"
  part_destination_city :: "string option"
  part_weight_kg :: "decimal option"
  part_price :: "decimal option"
  part_status :: "string option"
  part_delivery_date :: pyval

definition is_date :: "pyval \<Rightarrow> bool" where
  "is_date v = (case v of PDate _ \<Rightarrow> True | PDatetime _ \<Rightarrow> True | _ \<Rightarrow> False)"

definition issue_when :: "bool \<Rightarrow> string \<Rightarrow> string \<Rightarrow> validation_issue list" where
  "issue_when b f e = (if b then [\<lparr>issue_field = f, issue_error = e\<rparr>] else [])"

definition validate_partial_shipment_draft :: "partial_shipment_draft \<Rightarrow> validation_issue list" where
  "validate_partial_shipment_draft s =
     issue_when (case part_status s of None \<Rightarrow> False | Some x \<Rightarrow> x \<notin> ALLOWED_SHIPMENT_STATUSES)
       ''status'' ''Status must be one of PENDING, IN_TRANSIT, DELIVERED, or CANCELED.'' @
     issue_when (case part_customer_name s of None \<Rightarrow> False
         | Some x \<Rightarrow> length x > CUSTOMER_NAME_MAX_LENGTH)
       ''customer_name'' ''Customer name must be 150 characters or fewer.'' @
     issue_when (case part_weight_kg s of None \<Rightarrow> False | Some x \<Rightarrow> decimal_le_0 x)
       ''weight_kg'' ''Weight must be greater than 0.'' @
     issue_when (case part_price s of None \<Rightarrow> False | Some x \<Rightarrow> decimal_lt_0 x)
       ''price'' ''Price must be greater than or equal to 0.'' @
     issue_when (part_delivery_date s \<noteq> PNone \<and> \<not> is_date (part_delivery_date s))
       ''delivery_date'' ''Delivery date must be a valid date when present.''"

definition validate_shipment_draft :: "shipment_draft \<Rightarrow> validation_issue list" where
  "validate_shipment_draft s = validate_partial_shipment_draft
     \<lparr>part_shipment_code = Some (draft_shipment_code s),
      part_customer_name = Some (draft_customer_name s),
      part_origin_city = Some (draft_origin_city s),
      part_destination_city = Some (draft_destination_city s),
      part_weight_kg = Some (draft_weight_kg s),
      part_price = Some (draft_price s),
      part_status = Some (draft_status s),
      part_delivery_date = draft_delivery_date s\<rparr>"

text \<open>The contract the rules implement, stated without the report.\<close>

definition draft_conforms :: "shipment_draft \<Rightarrow> bool" where
  "draft_conforms s \<longleftrightarrow>
     draft_status s \<in> ALLOWED_SHIPMENT_STATUSES \<and> length (draft_customer_name s) \<le> 150 \<and>
     \<not> decimal_le_0 (draft_weight_kg s) \<and> \<not> decimal_lt_0 (draft_price s) \<and>
     (draft_delivery_date s = PNone \<or> is_date (draft_delivery_date s))"

lemma validate_shipment_draft_conforms: "validate_shipment_draft s = [] \<longleftrightarrow> draft_conforms s"
  by (auto simp: validate_shipment_draft_def validate_partial_shipment_draft_def issue_when_def
      draft_conforms_def CUSTOMER_NAME_MAX_LENGTH_def)

lemma issue_when_simps [simp]: "issue_when True f e = [\<lparr>issue_field = f, issue_error = e\<rparr>]"
  "issue_when False f e = []"
  by (simp_all add: issue_when_def)

lemma set_issue_when: "i \<in> set (issue_when b f e) \<longleftrightarrow> b \<and> i = \<lparr>issue_field = f, issue_error = e\<rparr>"
  by (cases b) auto

lemma issue_fields_distinct: "distinct (map issue_field (validate_partial_shipment_draft s))"
proof -
  have "distinct (map issue_field (issue_when b1 ''status'' e1 @ issue_when b2 ''customer_name'' e2 @
      issue_when b3 ''weight_kg'' e3 @ issue_when b4 ''price'' e4 @ issue_when b5 ''delivery_date'' e5))"
    for b1 b2 b3 b4 b5 e1 e2 e3 e4 e5
    by (cases b1; cases b2; cases b3; cases b4; cases b5) simp_all
  then show ?thesis unfolding validate_partial_shipment_draft_def .
qed

end
