(* ===== verification/Errors.thy ===== *)
theory Errors
  imports Py_Prelude
begin

text \<open>
  The exceptions of the service as one datatype: the database driver's errors (classes of
  SQLAlchemy), the standard library's, and those the service declares. An \<^verbatim>\<open>except\<close> clause
  becomes a test on the constructors; the subclass relations the clauses rely on are the
  predicates below.
\<close>

datatype sql_error = OperationalError | IntegrityError | OtherSQLAlchemyError

text \<open>ImportSnapshot of import_repository.py, which DuplicateImportError carries.\<close>

record import_snapshot =
  snap_import_id :: uuid
  snap_status :: string
  snap_created_at :: timestamp
  snap_fingerprint :: string

text \<open>ApiError of app/api/errors.py: code, message, status and details of the response.\<close>

record api_error =
  ae_code :: string
  ae_message :: string
  ae_status :: int
  ae_details :: "(string \<times> string) list option"

datatype exn =
    SqlError sql_error
  | OSError | ValueError | IndexError | OverflowError | ZeroDivisionError | BadZipFile | AssertionError
  | WorkbookStructureError string
  | StaleImportWorkerError
  | RetryableImportProcessingError string
  | IdempotencyConflictError string
  | DatabaseWriteError string
  | DuplicateImportError import_snapshot
  | ImportNotFoundError
  | InvalidPaginationError string
  | InvalidShipmentFilterError string
  | UploadTooLargeError string
  | FileNotFoundError
  | ApiError api_error
  | OtherException string

text \<open>\<^verbatim>\<open>except ValueError\<close>: the class and its subclasses.\<close>

definition is_value_error :: "exn \<Rightarrow> bool" where
  "is_value_error e = (case e of
     ValueError \<Rightarrow> True | InvalidPaginationError _ \<Rightarrow> True | InvalidShipmentFilterError _ \<Rightarrow> True
   | UploadTooLargeError _ \<Rightarrow> True | _ \<Rightarrow> False)"

text \<open>\<^verbatim>\<open>except OSError\<close>: FileNotFoundError is a subclass of it.\<close>

definition is_os_error :: "exn \<Rightarrow> bool" where
  "is_os_error e = (case e of OSError \<Rightarrow> True | FileNotFoundError \<Rightarrow> True | _ \<Rightarrow> False)"

section \<open>Times\<close>

text \<open>
  A \<^verbatim>\<open>datetime\<close> lies in the years 1 to 9999; \<^verbatim>\<open>t + timedelta(seconds=n)\<close> raises when the sum (or the
  \<^verbatim>\<open>timedelta\<close> itself, whose range is wider than that of the sums) does not.
\<close>

definition datetime_ok :: "timestamp \<Rightarrow> bool" where
  "datetime_ok t \<longleftrightarrow> seconds (- 62135596800) \<le> t \<and> t < seconds 253402300800"

definition add_seconds :: "timestamp \<Rightarrow> int \<Rightarrow> exn + timestamp" where
  "add_seconds t n = (if datetime_ok (t + seconds n) then Inr (t + seconds n) else Inl OverflowError)"

definition is_sql_error :: "exn \<Rightarrow> bool" where
  "is_sql_error e = (case e of SqlError _ \<Rightarrow> True | _ \<Rightarrow> False)"

end
