(* ===== verification/Db_Models.thy ===== *)
theory Db_Models
  imports Shipment_Rules Errors
begin

text \<open>
  The database: one record per table of app/db/models (import_job.py,
  import_dispatch_outbox.py, shipment.py, import_error.py), the four tables together, and
  the constraints those files declare. A table is the list of its rows. What a constraint
  refuses is refused as PostgreSQL reports it: a CHECK, UNIQUE, FOREIGN KEY or PRIMARY KEY
  violation is an IntegrityError, a value too long for its VARCHAR or too large for its
  NUMERIC is another SQLAlchemy error. The rounding of a value to its NUMERIC column is the
  server's and a parameter: \<open>num p s d\<close> is the stored value, \<^const>\<open>None\<close> an overflow.
\<close>

section \<open>Rows\<close>

record import_job =
  job_id :: uuid
  job_status :: import_status
  job_original_file_name :: string
  job_stored_file_path :: string
  job_file_size_bytes :: int
  job_content_type :: "string option"
  job_idempotency_key :: "string option"
  job_idempotency_fingerprint :: string
  job_total_rows :: nat
  job_processed_rows :: nat
  job_success_count :: nat
  job_failed_count :: nat
  job_attempt_count :: int
  job_max_attempts :: int
  job_processing_token :: "uuid option"
  job_locked_by_worker :: "string option"
  job_started_at :: "timestamp option"
  job_last_heartbeat_at :: "timestamp option"
  job_finished_at :: "timestamp option"
  job_last_failure_reason :: "string option"
  job_failure_reason :: "string option"
  job_last_requeued_at :: "timestamp option"
  job_created_at :: timestamp
  job_updated_at :: timestamp

datatype outbox_status = OutboxPENDING | OutboxPROCESSING | OutboxPUBLISHED | OutboxFAILED

record import_dispatch_outbox =
  ob_id :: uuid
  ob_import_id :: uuid
  ob_status :: outbox_status
  ob_attempt_count :: int
  ob_available_at :: timestamp
  ob_claimed_at :: "timestamp option"
  ob_claim_token :: "uuid option"
  ob_published_at :: "timestamp option"
  ob_last_error :: "string option"
  ob_created_at :: timestamp
  ob_updated_at :: timestamp

text \<open>The ORM object before the flush, and the row, with the server's timestamps.\<close>

record shipment =
  ship_id :: uuid
  ship_import_id :: uuid
  ship_shipment_code :: string
  ship_customer_name :: string
  ship_origin_city :: string
  ship_destination_city :: string
  ship_weight_kg :: decimal
  ship_price :: decimal
  ship_status :: string
  ship_delivery_date :: "pydate option"

record shipment_row = shipment +
  ship_created_at :: timestamp
  ship_updated_at :: timestamp

record import_error =
  err_id :: uuid
  err_import_id :: uuid
  err_row_number :: nat
  err_field :: string
  err_error :: string
  err_raw_data :: pyval

record import_error_row = import_error +
  err_created_at :: timestamp

record database =
  db_jobs :: "import_job list"
  db_outbox :: "import_dispatch_outbox list"
  db_shipments :: "shipment_row list"
  db_errors :: "import_error_row list"

definition empty_database :: database where
  "empty_database = \<lparr>db_jobs = [], db_outbox = [], db_shipments = [], db_errors = []\<rparr>"

section \<open>Constraints\<close>

definition varchar_ok :: "nat \<Rightarrow> string option \<Rightarrow> bool" where
  "varchar_ok n v = (case v of None \<Rightarrow> True | Some s \<Rightarrow> length s \<le> n)"

text \<open>ck_import_jobs_failure_reason_terminal\<close>

definition ck_failure_reason_terminal :: "import_job \<Rightarrow> bool" where
  "ck_failure_reason_terminal j \<longleftrightarrow>
     job_status j = ImportFAILED \<and> job_failure_reason j \<noteq> None \<or>
     job_status j \<noteq> ImportFAILED \<and> job_failure_reason j = None"

definition job_constraints :: "import_job \<Rightarrow> sql_error option" where
  "job_constraints j =
     (if \<not> (varchar_ok 255 (Some (job_original_file_name j)) \<and>
            varchar_ok 1024 (Some (job_stored_file_path j)) \<and>
            varchar_ok 255 (job_content_type j) \<and> varchar_ok 255 (job_idempotency_key j) \<and>
            varchar_ok 64 (Some (job_idempotency_fingerprint j)) \<and>
            varchar_ok 255 (job_locked_by_worker j))
      then Some OtherSQLAlchemyError
      else if \<not> ck_failure_reason_terminal j then Some IntegrityError
      else None)"

definition shipment_constraints :: "shipment \<Rightarrow> sql_error option" where
  "shipment_constraints s =
     (if \<not> (length (ship_shipment_code s) \<le> 128 \<and> length (ship_customer_name s) \<le> 150 \<and>
            length (ship_origin_city s) \<le> 255 \<and> length (ship_destination_city s) \<le> 255 \<and>
            length (ship_status s) \<le> 32)
      then Some OtherSQLAlchemyError
      else if ship_status s \<notin> {''PENDING'', ''IN_TRANSIT'', ''DELIVERED'', ''CANCELED''} \<or>
              decimal_le_0 (ship_weight_kg s) \<or> decimal_lt_0 (ship_price s)
      then Some IntegrityError
      else None)"

section \<open>INSERT\<close>

definition insert_job :: "import_job \<Rightarrow> database \<Rightarrow> sql_error + database" where
  "insert_job j db =
     (case job_constraints j of
        Some e \<Rightarrow> Inl e
      | None \<Rightarrow>
          if job_id j \<in> set (map job_id (db_jobs db)) \<or>
             job_idempotency_key j \<noteq> None \<and>
             job_idempotency_key j \<in> set (map job_idempotency_key (db_jobs db))
          then Inl IntegrityError
          else Inr (db\<lparr>db_jobs := db_jobs db @ [j]\<rparr>))"

definition insert_outbox :: "import_dispatch_outbox \<Rightarrow> database \<Rightarrow> sql_error + database" where
  "insert_outbox r db =
     (if ob_import_id r \<notin> set (map job_id (db_jobs db)) \<or> ob_id r \<in> set (map ob_id (db_outbox db))
      then Inl IntegrityError
      else Inr (db\<lparr>db_outbox := db_outbox db @ [r]\<rparr>))"

type_synonym numeric = "nat \<Rightarrow> nat \<Rightarrow> decimal \<Rightarrow> decimal option"

definition stored_shipment :: "numeric \<Rightarrow> shipment \<Rightarrow> shipment option" where
  "stored_shipment num s =
     (case (num 12 3 (ship_weight_kg s), num 18 2 (ship_price s)) of
        (Some w, Some p) \<Rightarrow> Some (s\<lparr>ship_weight_kg := w, ship_price := p\<rparr>)
      | _ \<Rightarrow> None)"

definition insert_shipment ::
  "numeric \<Rightarrow> timestamp \<Rightarrow> shipment \<Rightarrow> database \<Rightarrow> sql_error + database" where
  "insert_shipment num now s db =
     (case stored_shipment num s of
        None \<Rightarrow> Inl OtherSQLAlchemyError
      | Some s' \<Rightarrow>
          (case shipment_constraints s' of
             Some e \<Rightarrow> Inl e
           | None \<Rightarrow>
               if ship_import_id s' \<notin> set (map job_id (db_jobs db)) \<or>
                  ship_id s' \<in> set (map ship_id (db_shipments db)) \<or>
                  ship_shipment_code s' \<in> set (map ship_shipment_code (db_shipments db))
               then Inl IntegrityError
               else Inr (db\<lparr>db_shipments := db_shipments db @
                      [shipment.extend s' (shipment_row.fields now now)]\<rparr>)))"

definition insert_error :: "timestamp \<Rightarrow> import_error \<Rightarrow> database \<Rightarrow> sql_error + database" where
  "insert_error now r db =
     (if length (err_field r) > 255 \<or> \<not> json_document (err_raw_data r) then Inl OtherSQLAlchemyError
      else if err_import_id r \<notin> set (map job_id (db_jobs db)) \<or>
              err_id r \<in> set (map err_id (db_errors db))
      then Inl IntegrityError
      else Inr (db\<lparr>db_errors := db_errors db @
             [import_error.extend r (import_error_row.fields now)]\<rparr>))"

text \<open>A multi-row INSERT inserts all rows or none.\<close>

fun insert_all :: "('r \<Rightarrow> database \<Rightarrow> sql_error + database) \<Rightarrow> 'r list \<Rightarrow> database \<Rightarrow> sql_error + database"
  where
  "insert_all ins [] db = Inr db"
| "insert_all ins (r # rs) db =
     (case ins r db of Inl e \<Rightarrow> Inl e | Inr db' \<Rightarrow> insert_all ins rs db')"

section \<open>UPDATE, DELETE, SELECT\<close>

definition sql_update :: "('r \<Rightarrow> bool) \<Rightarrow> ('r \<Rightarrow> 'r) \<Rightarrow> 'r list \<Rightarrow> 'r list" where
  "sql_update p f rows = map (\<lambda>r. if p r then f r else r) rows"

definition sql_count :: "('r \<Rightarrow> bool) \<Rightarrow> 'r list \<Rightarrow> nat" where
  "sql_count p rows = length (filter p rows)"

text \<open>
  UPDATE import_jobs: the SET list on the rows of the WHERE clause, \<^verbatim>\<open>updated_at\<close> by the
  column's \<^verbatim>\<open>onupdate\<close>, the constraints on the new rows; the result is the row count.
\<close>

definition update_jobs ::
  "(import_job \<Rightarrow> bool) \<Rightarrow> (import_job \<Rightarrow> import_job) \<Rightarrow> timestamp \<Rightarrow> database \<Rightarrow>
     sql_error + nat \<times> database" where
  "update_jobs p f now db =
     (let g = (\<lambda>j. (f j)\<lparr>job_updated_at := now\<rparr>) in
      case List.map_filter (\<lambda>j. job_constraints (g j)) (filter p (db_jobs db)) of
        e # _ \<Rightarrow> Inl e
      | [] \<Rightarrow> Inr (sql_count p (db_jobs db), db\<lparr>db_jobs := sql_update p g (db_jobs db)\<rparr>))"

definition update_outbox ::
  "(import_dispatch_outbox \<Rightarrow> bool) \<Rightarrow> (import_dispatch_outbox \<Rightarrow> import_dispatch_outbox) \<Rightarrow>
     timestamp \<Rightarrow> database \<Rightarrow> sql_error + nat \<times> database" where
  "update_outbox p f now db =
     Inr (sql_count p (db_outbox db),
          db\<lparr>db_outbox := sql_update p (\<lambda>r. (f r)\<lparr>ob_updated_at := now\<rparr>) (db_outbox db)\<rparr>)"

text \<open>ORDER BY a key ascending, LIMIT n.\<close>

definition order_limit :: "('r \<Rightarrow> 'k::linorder) \<Rightarrow> nat \<Rightarrow> 'r list \<Rightarrow> 'r list" where
  "order_limit k n rows = take n (sort_key k rows)"

end
