(* ===== verification/Db_Session.thy ===== *)
theory Db_Session
  imports Db_Models
begin

text \<open>
  The session a service works with: statements, transactions and exceptions.

  A service method is an \<^emph>\<open>action\<close>: a function of the state that returns a value or an
  exception, and the new state. The database the other sessions see is \<open>committed\<close>, what
  this session sees inside its transaction is \<open>working\<close>. What the code does not control
  is data of the state: before each statement and each COMMIT one event of the \<open>script\<close>
  happens (time passes, other sessions commit, rows are locked by others, the server
  fails the statement; a COMMIT that fails may still have been applied by the server), then
  \<^verbatim>\<open>uuid4()\<close> draws from \<open>uuid_source\<close>, and NUMERIC values are stored as \<open>pg_numeric\<close> says.
  An exhausted script means that nothing happens. The advisory locks the session takes are held
  until its transaction ends: while it holds one, no other session that holds the same lock
  (\<open>ev_holds\<close>) can commit, so the commit of such an event does not happen. The isolation is READ COMMITTED: what others
  commit shows in the next statement.
\<close>

section \<open>State\<close>

record event =
  ev_elapsed :: nat
  ev_others :: "database \<Rightarrow> database"
  ev_locked :: "uuid \<Rightarrow> bool"
  ev_fault :: "sql_error option"
  ev_applied :: bool
  ev_holds :: "string option"  \<comment> \<open>the advisory lock of the transaction that commits\<close>

definition quiet :: event where
  "quiet = \<lparr>ev_elapsed = 0, ev_others = (\<lambda>db. db), ev_locked = (\<lambda>_. False), ev_fault = None,
     ev_applied = False, ev_holds = None\<rparr>"

record world =
  committed :: database
  working :: database
  script :: "event list"
  clock :: timestamp
  tx_time :: timestamp
  draws :: nat
  uuid_source :: "nat \<Rightarrow> uuid"
  pg_numeric :: numeric
  advisory :: "string list"

type_synonym ('s, 'a) action = "'s \<Rightarrow> (exn + 'a) \<times> 's"

section \<open>Sequencing and exceptions\<close>

definition ret :: "'a \<Rightarrow> ('s, 'a) action" where
  "ret x = (\<lambda>w. (Inr x, w))"

definition throw :: "exn \<Rightarrow> ('s, 'a) action" where
  "throw e = (\<lambda>w. (Inl e, w))"

definition bindE :: "('s, 'a) action \<Rightarrow> ('a \<Rightarrow> ('s, 'b) action) \<Rightarrow> ('s, 'b) action" where
  "bindE m f = (\<lambda>w. case m w of (Inl e, w') \<Rightarrow> (Inl e, w') | (Inr x, w') \<Rightarrow> f x w')"

definition try_except :: "('s, 'a) action \<Rightarrow> (exn \<Rightarrow> ('s, 'a) action) \<Rightarrow> ('s, 'a) action" where
  "try_except m h = (\<lambda>w. case m w of (Inl e, w') \<Rightarrow> h e w' | (Inr x, w') \<Rightarrow> (Inr x, w'))"

definition modify :: "('s \<Rightarrow> 's) \<Rightarrow> ('s, unit) action" where
  "modify f = (\<lambda>w. (Inr (), f w))"

definition gets :: "('s \<Rightarrow> 'a) \<Rightarrow> ('s, 'a) action" where
  "gets f = (\<lambda>w. (Inr (f w), w))"

text \<open>A loop that collects the value of its body for each element.\<close>

fun map_action :: "('a \<Rightarrow> ('s, 'b) action) \<Rightarrow> 'a list \<Rightarrow> ('s, 'b list) action" where
  "map_action f [] = ret []"
| "map_action f (x # xs) = bindE (f x) (\<lambda>y. bindE (map_action f xs) (\<lambda>ys. ret (y # ys)))"

section \<open>Statements and transactions\<close>

definition next_event :: "'z world_scheme \<Rightarrow> event" where
  "next_event w = (case script w of [] \<Rightarrow> quiet | e # _ \<Rightarrow> e)"

text \<open>What the other sessions commit; a lock this session holds keeps its other takers waiting.\<close>

definition others :: "event \<Rightarrow> string list \<Rightarrow> database \<Rightarrow> database" where
  "others e locks db = (case ev_holds e of
     Some k \<Rightarrow> if k \<in> set locks then db else ev_others e db | None \<Rightarrow> ev_others e db)"

definition advance :: "'z world_scheme \<Rightarrow> 'z world_scheme" where
  "advance w = (let e = next_event w in
     w\<lparr>committed := others e (advisory w) (committed w), working := others e (advisory w) (working w),
       script := tl (script w), clock := clock w + int (ev_elapsed e)\<rparr>)"

definition statement ::
  "((uuid \<Rightarrow> bool) \<Rightarrow> timestamp \<Rightarrow> database \<Rightarrow> sql_error + 'a \<times> database) \<Rightarrow>
     ('z world_scheme, 'a) action" where
  "statement f w =
     (let e = next_event w; w1 = advance w in
      case ev_fault e of
        Some x \<Rightarrow> (Inl (SqlError x), w1)
      | None \<Rightarrow>
          (case f (ev_locked e) (tx_time w1) (working w1) of
             Inl x \<Rightarrow> (Inl (SqlError x), w1)
           | Inr (r, db) \<Rightarrow> (Inr r, w1\<lparr>working := db\<rparr>)))"

definition begin_tx :: "('z world_scheme, unit) action" where
  "begin_tx w = (Inr (), w\<lparr>working := committed w, tx_time := clock w\<rparr>)"

definition rollback :: "'z world_scheme \<Rightarrow> 'z world_scheme" where
  "rollback w = w\<lparr>working := committed w, advisory := []\<rparr>"

definition commit :: "('z world_scheme, unit) action" where
  "commit w =
     (let e = next_event w; w1 = advance w in
      case ev_fault e of
        None \<Rightarrow> (Inr (), w1\<lparr>committed := working w1, advisory := []\<rparr>)
      | Some x \<Rightarrow>
          (Inl (SqlError x),
           if ev_applied e then w1\<lparr>committed := working w1, advisory := []\<rparr> else rollback w1))"

text \<open>\<^verbatim>\<open>pg_advisory_xact_lock\<close>: it waits for the sessions that hold the lock, then the transaction has it.\<close>

definition advisory_xact_lock :: "string \<Rightarrow> ('z world_scheme, unit) action" where
  "advisory_xact_lock k =
     bindE (statement (\<lambda>_ _ db. Inr ((), db))) (\<lambda>_. modify (\<lambda>w. w\<lparr>advisory := k # advisory w\<rparr>))"

text \<open>\<^verbatim>\<open>with session.begin(): body\<close>\<close>

definition with_tx :: "('z world_scheme, 'a) action \<Rightarrow> ('z world_scheme, 'a) action" where
  "with_tx body w =
     (case bindE begin_tx (\<lambda>_. body) w of
        (Inl e, w1) \<Rightarrow> (Inl e, rollback w1)
      | (Inr x, w1) \<Rightarrow> bindE commit (\<lambda>_. ret x) w1)"

definition uuid4 :: "('z world_scheme, uuid) action" where
  "uuid4 w = (Inr (uuid_source w (draws w)), w\<lparr>draws := Suc (draws w)\<rparr>)"

text \<open>A statement that only reads.\<close>

definition query :: "(database \<Rightarrow> 'a) \<Rightarrow> ('z world_scheme, 'a) action" where
  "query q = statement (\<lambda>_ _ db. Inr (q db, db))"

section \<open>What an action leaves alone\<close>

lemma rollback_simps [simp]:
  "script (rollback w) = script w" "more (rollback w) = more w" "committed (rollback w) = committed w"
  "working (rollback w) = committed w" "draws (rollback w) = draws w"
  "uuid_source (rollback w) = uuid_source w" "pg_numeric (rollback w) = pg_numeric w"
  "clock (rollback w) = clock w" "advisory (rollback w) = []"
  by (simp_all add: rollback_def)

lemma others_none [simp]:
  "others \<lparr>ev_elapsed = n, ev_others = (\<lambda>db. db), ev_locked = l, ev_fault = f, ev_applied = a, ev_holds = h\<rparr> locks db = db"
  by (simp add: others_def split: option.split)

lemma others_quiet [simp]: "others quiet locks db = db"
  by (simp add: quiet_def)

lemma others_unlocked: "ev_holds e = None \<Longrightarrow> others e locks = ev_others e"
  by (rule ext) (simp add: others_def)

lemma others_cases: "others e locks db = db \<or> others e locks db = ev_others e db"
  by (simp add: others_def split: option.split)

lemma others_keeps: "I db \<Longrightarrow> I (ev_others e db) \<Longrightarrow> I (others e locks db)"
  using others_cases [of e locks db] by auto

lemma advance_simps [simp]:
  "tx_time (advance w) = tx_time w" "draws (advance w) = draws w"
  "uuid_source (advance w) = uuid_source w" "pg_numeric (advance w) = pg_numeric w"
  "script (advance w) = tl (script w)" "more (advance w) = more w" "advisory (advance w) = advisory w"
  by (simp_all add: advance_def Let_def)

text \<open>
  What every action of a session leaves alone: the locals, and the script can only shrink.
\<close>

definition tame :: "('z world_scheme, 'a) action \<Rightarrow> bool" where
  "tame m \<longleftrightarrow> (\<forall>w. length (script (snd (m w))) \<le> length (script w) \<and> more (snd (m w)) = more w)"

lemma tame_ret [tame_intro]: "tame (ret x)"
  by (simp add: tame_def ret_def)

lemma tame_throw [tame_intro]: "tame (throw e)"
  by (simp add: tame_def throw_def)

lemma tame_bindE [tame_intro]: "tame m \<Longrightarrow> (\<And>x. tame (f x)) \<Longrightarrow> tame (bindE m f)"
  unfolding tame_def bindE_def
  by (auto split: prod.splits sum.splits) (metis order_trans snd_conv)+

lemma tame_if [tame_intro]: "tame m \<Longrightarrow> tame m' \<Longrightarrow> tame (if b then m else m')"
  by simp

lemma tame_statement [tame_intro]: "tame (statement f)"
  by (simp add: tame_def statement_def Let_def split: option.split sum.split prod.split)

lemma tame_query [tame_intro]: "tame (query q)"
  by (simp add: query_def tame_statement)

lemma tame_case_option [tame_intro]:
  "tame m \<Longrightarrow> (\<And>x. tame (f x)) \<Longrightarrow> tame (case v of None \<Rightarrow> m | Some x \<Rightarrow> f x)"
  by (cases v) auto

lemma tame_case_sum [tame_intro]:
  "(\<And>x. tame (f x)) \<Longrightarrow> (\<And>y. tame (g y)) \<Longrightarrow> tame (case s of Inl x \<Rightarrow> f x | Inr y \<Rightarrow> g y)"
  by (cases s) auto

lemma tame_case_prod [tame_intro]: "(\<And>a b. tame (f a b)) \<Longrightarrow> tame (case p of (a, b) \<Rightarrow> f a b)"
  by (cases p) auto

lemma tame_gets [tame_intro]: "tame (gets f)"
  by (simp add: tame_def gets_def)

lemma tame_uuid4 [tame_intro]: "tame uuid4"
  by (simp add: tame_def uuid4_def)

lemma tame_map_action [tame_intro]: "(\<And>x. tame (f x)) \<Longrightarrow> tame (map_action f xs)"
  by (induction xs) (auto intro!: tame_intro)

lemma tame_begin_tx [tame_intro]: "tame begin_tx"
  by (simp add: tame_def begin_tx_def)

lemma tame_commit [tame_intro]: "tame commit"
  by (simp add: tame_def commit_def Let_def split: option.split)

lemma tameD: "tame m \<Longrightarrow> m w = (r, w') \<Longrightarrow> length (script w') \<le> length (script w) \<and> more w' = more w"
  by (metis snd_conv tame_def)

lemma tame_advisory_xact_lock [tame_intro]: "tame (advisory_xact_lock k)"
  unfolding advisory_xact_lock_def by (intro tame_intro) (simp add: tame_def modify_def)

lemma tame_with_tx [tame_intro]:
  fixes body :: "('z world_scheme, 'a) action"
  assumes "tame body"
  shows "tame (with_tx body)"
proof -
  have "length (script (snd (with_tx body w))) \<le> length (script w) \<and>
      more (snd (with_tx body w)) = more w" for w
  proof -
    obtain r w1 where run: "bindE begin_tx (\<lambda>_. body) w = (r, w1)" by fastforce
    have "tame (bindE begin_tx (\<lambda>_. body))" by (intro tame_intro assms)
    from tameD [OF this run] have w1: "length (script w1) \<le> length (script w)" "more w1 = more w"
      by auto
    have "tame (bindE commit (\<lambda>_. ret x) :: ('z world_scheme, 'a) action)" for x
      by (intro tame_intro)
    then have "length (script (snd (bindE commit (\<lambda>_. ret x) w1))) \<le> length (script w1) \<and>
        more (snd (bindE commit (\<lambda>_. ret x) w1)) = more w1" for x :: 'a
      by (simp only: tame_def)
    then show ?thesis
      using w1 by (cases r) (auto simp: with_tx_def run intro: order_trans)
  qed
  then show ?thesis by (simp add: tame_def)
qed

lemma commit_raises:
  "commit w = (Inl e, w') \<Longrightarrow> length (script w') < length (script w)"
  by (cases "script w")
    (auto simp: commit_def next_event_def quiet_def Let_def split: option.splits if_splits)


section \<open>What an action keeps\<close>

text \<open>
  \<open>keeps I L m\<close>: if the database satisfies \<open>I\<close>, and whatever the others commit keeps it so,
  and the locals of the method (the fields a service adds to the state) satisfy \<open>L\<close>, then
  they still do after the action, whether it returns or raises. One rule per combinator; the
  statements of the repositories are then proved one by one.
\<close>

definition rely :: "(database \<Rightarrow> bool) \<Rightarrow> 'z world_scheme \<Rightarrow> bool" where
  "rely I w \<longleftrightarrow> (\<forall>e \<in> set (script w). \<forall>db. I db \<longrightarrow> I (ev_others e db))"

definition holds :: "(database \<Rightarrow> bool) \<Rightarrow> ('z \<Rightarrow> bool) \<Rightarrow> 'z world_scheme \<Rightarrow> bool" where
  "holds I L w \<longleftrightarrow> rely I w \<and> I (committed w) \<and> I (working w) \<and> L (more w)"

definition keeps ::
  "(database \<Rightarrow> bool) \<Rightarrow> ('z \<Rightarrow> bool) \<Rightarrow> ('z world_scheme, 'a) action \<Rightarrow> bool" where
  "keeps I L m \<longleftrightarrow> (\<forall>w. holds I L w \<longrightarrow> holds I L (snd (m w)))"

lemma keepsD: "keeps I L m \<Longrightarrow> holds I L w \<Longrightarrow> m w = (r, w') \<Longrightarrow> holds I L w'"
  by (metis keeps_def snd_conv)

lemma keeps_ret [keeps_intro]: "keeps I L (ret x)"
  by (simp add: keeps_def ret_def)

lemma keeps_throw [keeps_intro]: "keeps I L (throw e)"
  by (simp add: keeps_def throw_def)

lemma keeps_bindE [keeps_intro]:
  "keeps I L m \<Longrightarrow> (\<And>x. keeps I L (f x)) \<Longrightarrow> keeps I L (bindE m f)"
  unfolding keeps_def bindE_def by (fastforce split: prod.splits sum.splits)

lemma keeps_try_except [keeps_intro]:
  "keeps I L m \<Longrightarrow> (\<And>e. keeps I L (h e)) \<Longrightarrow> keeps I L (try_except m h)"
  unfolding keeps_def try_except_def by (fastforce split: prod.splits sum.splits)

lemma keeps_modify [keeps_intro]:
  "(\<And>w. holds I L w \<Longrightarrow> holds I L (f w)) \<Longrightarrow> keeps I L (modify f)"
  by (simp add: keeps_def modify_def)

lemma keeps_gets [keeps_intro]: "keeps I L (gets f)"
  by (simp add: keeps_def gets_def)

lemma keeps_if [keeps_intro]: "keeps I L m \<Longrightarrow> keeps I L m' \<Longrightarrow> keeps I L (if b then m else m')"
  by simp

lemma keeps_case_option [keeps_intro]:
  "keeps I L m \<Longrightarrow> (\<And>x. keeps I L (f x)) \<Longrightarrow> keeps I L (case v of None \<Rightarrow> m | Some x \<Rightarrow> f x)"
  by (cases v) auto

lemma keeps_case_sum [keeps_intro]:
  "(\<And>x. keeps I L (f x)) \<Longrightarrow> (\<And>y. keeps I L (g y)) \<Longrightarrow> keeps I L (case s of Inl x \<Rightarrow> f x | Inr y \<Rightarrow> g y)"
  by (cases s) auto

lemma keeps_map_action [keeps_intro]:
  "(\<And>x. x \<in> set xs \<Longrightarrow> keeps I L (f x)) \<Longrightarrow> keeps I L (map_action f xs)"
  by (induction xs) (auto intro!: keeps_intro)

lemma holds_advance: "holds I L w \<Longrightarrow> holds I L (advance w)"
  by (cases "script w")
    (auto simp: holds_def rely_def advance_def next_event_def Let_def intro: others_keeps)

lemma keeps_statement:
  assumes "\<And>locked now db r db'. I db \<Longrightarrow> f locked now db = Inr (r, db') \<Longrightarrow> I db'"
  shows "keeps I L (statement f :: ('z world_scheme, 'a) action)"
  unfolding keeps_def
proof (intro allI impI)
  fix w :: "'z world_scheme"
  assume "holds I L w"
  from holds_advance [OF this] show "holds I L (snd (statement f w))"
    using assms
    by (auto simp: statement_def Let_def holds_def rely_def split: option.splits sum.splits prod.splits)
qed

lemma keeps_query [keeps_intro]: "keeps I L (query q)"
  unfolding query_def by (rule keeps_statement) auto

lemma keeps_begin_tx [keeps_intro]: "keeps I L begin_tx"
  by (simp add: keeps_def begin_tx_def holds_def rely_def)

lemma holds_rollback: "holds I L w \<Longrightarrow> holds I L (rollback w)"
  by (simp add: rollback_def holds_def rely_def)

lemma keeps_commit [keeps_intro]: "keeps I L (commit :: ('z world_scheme, unit) action)"
  unfolding keeps_def
proof (intro allI impI)
  fix w :: "'z world_scheme"
  assume "holds I L w"
  from holds_advance [OF this] show "holds I L (snd (commit w))"
    by (auto simp: commit_def Let_def holds_def rely_def rollback_def split: option.splits)
qed

lemma keeps_with_tx [keeps_intro]:
  fixes body :: "('z world_scheme, 'a) action"
  assumes "keeps I L body"
  shows "keeps I L (with_tx body)"
  unfolding keeps_def
proof (intro allI impI)
  fix w :: "'z world_scheme"
  assume "holds I L w"
  obtain r w1 where run: "bindE begin_tx (\<lambda>_. body) w = (r, w1)" by fastforce
  have "keeps I L (bindE begin_tx (\<lambda>_. body))" by (intro keeps_intro assms)
  from keepsD [OF this \<open>holds I L w\<close> run] have w1: "holds I L w1" .
  show "holds I L (snd (with_tx body w))"
  proof (cases r)
    case (Inl e)
    then show ?thesis using run w1 by (simp add: with_tx_def holds_rollback)
  next
    case (Inr x)
    have "keeps I L (bindE commit (\<lambda>_. ret x) :: ('z world_scheme, 'a) action)" by (intro keeps_intro)
    then show ?thesis using Inr run w1 by (simp add: with_tx_def keeps_def)
  qed
qed

lemma keeps_advisory_xact_lock [keeps_intro]: "keeps I L (advisory_xact_lock k)"
  unfolding advisory_xact_lock_def
  by (intro keeps_intro keeps_statement) (auto simp: holds_def rely_def)

lemma keeps_uuid4 [keeps_intro]: "keeps I L uuid4"
  by (simp add: keeps_def uuid4_def holds_def rely_def)

text \<open>
  \<open>yields I L m Q\<close>: in addition, a value the action returns satisfies \<open>Q\<close>.
\<close>

definition yields ::
  "(database \<Rightarrow> bool) \<Rightarrow> ('z \<Rightarrow> bool) \<Rightarrow> ('z world_scheme, 'a) action \<Rightarrow> ('a \<Rightarrow> bool) \<Rightarrow> bool" where
  "yields I L m Q \<longleftrightarrow> keeps I L m \<and>
     (\<forall>w x w'. holds I L w \<longrightarrow> m w = (Inr x, w') \<longrightarrow> Q x)"

lemma yields_keeps: "yields I L m Q \<Longrightarrow> keeps I L m"
  by (simp add: yields_def)

lemma yields_ret: "Q x \<Longrightarrow> yields I L (ret x) Q"
  by (auto simp: yields_def ret_def intro!: keeps_ret [unfolded ret_def])

lemma yields_throw: "yields I L (throw e) Q"
  by (auto simp: yields_def throw_def intro!: keeps_throw [unfolded throw_def])

lemma yields_case_sum:
  "(\<And>x. yields I L (f x) Q) \<Longrightarrow> (\<And>y. yields I L (g y) Q) \<Longrightarrow> yields I L (case s of Inl x \<Rightarrow> f x | Inr y \<Rightarrow> g y) Q"
  by (cases s) auto

lemma bindE_Inr:
  "bindE m f w = (Inr y, w') \<Longrightarrow> \<exists>x w1. m w = (Inr x, w1) \<and> f x w1 = (Inr y, w')"
  by (auto simp: bindE_def split: prod.splits sum.splits)

lemma yields_bindE:
  fixes m :: "('z world_scheme, 'a) action"
  assumes m: "yields I L m Q" and f: "\<And>x. Q x \<Longrightarrow> yields I L (f x) R"
  shows "yields I L (bindE m f) R"
proof -
  have "holds I L (snd (bindE m f w)) \<and> (\<forall>y w'. bindE m f w = (Inr y, w') \<longrightarrow> R y)"
    if w: "holds I L w" for w
  proof (cases "m w")
    case (Pair r w1)
    have w1: "holds I L w1" using m w Pair yields_keeps keepsD by metis
    show ?thesis
    proof (cases r)
      case (Inl e)
      with Pair w1 show ?thesis by (simp add: bindE_def)
    next
      case (Inr x)
      then have "yields I L (f x) R" using m w Pair f by (auto simp: yields_def)
      with Pair Inr w1 show ?thesis by (auto simp: bindE_def yields_def keeps_def)
    qed
  qed
  then show ?thesis by (auto simp: yields_def keeps_def)
qed

lemma keeps_yields: "keeps I L m \<Longrightarrow> yields I L m (\<lambda>_. True)"
  by (simp add: yields_def)

lemma keeps_bindE_yields:
  "yields I L m Q \<Longrightarrow> (\<And>x. Q x \<Longrightarrow> keeps I L (f x)) \<Longrightarrow> keeps I L (bindE m f)"
  by (rule yields_keeps [where Q = "\<lambda>_. True"], rule yields_bindE [where Q = Q])
    (auto intro: keeps_yields)

lemma yields_statement:
  assumes "\<And>locked now db r db'. I db \<Longrightarrow> f locked now db = Inr (r, db') \<Longrightarrow> I db' \<and> Q r"
  shows "yields I L (statement f :: ('z world_scheme, 'a) action) Q"
proof -
  have "Q x" if "holds I L w" "statement f w = (Inr x, w')" for x and w w' :: "'z world_scheme"
    using holds_advance [OF that(1)] that(2) assms
    by (auto simp: statement_def Let_def holds_def split: option.splits sum.splits prod.splits)
  then show ?thesis
    using keeps_statement [of I f L] assms by (auto simp: yields_def)
qed

lemma with_tx_Inr:
  "with_tx body w = (Inr x, w') \<Longrightarrow> \<exists>w1. bindE begin_tx (\<lambda>_. body) w = (Inr x, w1)"
  by (auto simp: with_tx_def bindE_def ret_def split: prod.splits sum.splits)

lemma yields_with_tx:
  fixes body :: "('z world_scheme, 'a) action"
  assumes "yields I L body Q"
  shows "yields I L (with_tx body) Q"
proof -
  have tx: "yields I L (bindE begin_tx (\<lambda>_. body)) Q"
    by (rule yields_bindE [OF keeps_yields [OF keeps_begin_tx]]) (rule assms)
  have "Q x" if "holds I L w" "with_tx body w = (Inr x, w')" for x and w w' :: "'z world_scheme"
    using with_tx_Inr [OF that(2)] tx that(1) by (auto simp: yields_def)
  then show ?thesis
    using keeps_with_tx [OF yields_keeps [OF assms]] by (auto simp: yields_def)
qed


section \<open>The exceptions of an action\<close>

definition throws :: "exn set \<Rightarrow> ('z world_scheme, 'a) action \<Rightarrow> bool" where
  "throws E m \<longleftrightarrow> (\<forall>w e w'. m w = (Inl e, w') \<longrightarrow> e \<in> E)"

definition sql_errors :: "exn set" where
  "sql_errors = range SqlError"

lemma sql_errors_member [simp]: "SqlError e \<in> sql_errors"
  by (simp add: sql_errors_def)

lemma throwsD: "throws E m \<Longrightarrow> m w = (Inl e, w') \<Longrightarrow> e \<in> E"
  unfolding throws_def by blast

lemma throws_mono: "throws F m \<Longrightarrow> F \<subseteq> E \<Longrightarrow> throws E m"
  unfolding throws_def by blast

lemma throws_ret [throws_intro]: "throws E (ret x)"
  by (simp add: throws_def ret_def)

lemma throws_throw [throws_intro]: "e \<in> E \<Longrightarrow> throws E (throw e)"
  by (simp add: throws_def throw_def)

lemma throws_bindE [throws_intro]: "throws E m \<Longrightarrow> (\<And>x. throws E (f x)) \<Longrightarrow> throws E (bindE m f)"
  unfolding throws_def bindE_def by (fastforce split: prod.splits sum.splits)

lemma throws_if [throws_intro]: "throws E m \<Longrightarrow> throws E m' \<Longrightarrow> throws E (if b then m else m')"
  by simp

lemma throws_case_option [throws_intro]:
  "throws E m \<Longrightarrow> (\<And>x. throws E (f x)) \<Longrightarrow> throws E (case v of None \<Rightarrow> m | Some x \<Rightarrow> f x)"
  by (cases v) auto

lemma throws_case_sum [throws_intro]:
  "(\<And>x. s = Inl x \<Longrightarrow> throws E (f x)) \<Longrightarrow> (\<And>y. s = Inr y \<Longrightarrow> throws E (g y)) \<Longrightarrow>
     throws E (case s of Inl x \<Rightarrow> f x | Inr y \<Rightarrow> g y)"
  by (cases s) auto

lemma throws_gets [throws_intro]: "throws E (gets f)"
  by (simp add: throws_def gets_def)

lemma throws_modify [throws_intro]: "throws E (modify f)"
  by (simp add: throws_def modify_def)

lemma throws_uuid4 [throws_intro]: "throws E uuid4"
  by (simp add: throws_def uuid4_def)

lemma throws_statement [throws_intro]: "sql_errors \<subseteq> E \<Longrightarrow> throws E (statement f)"
  by (auto simp: throws_def statement_def Let_def sql_errors_def
      split: option.splits sum.splits prod.splits)

lemma throws_query [throws_intro]: "sql_errors \<subseteq> E \<Longrightarrow> throws E (query q)"
  by (simp add: query_def throws_statement)

lemma throws_commit [throws_intro]: "sql_errors \<subseteq> E \<Longrightarrow> throws E commit"
  by (auto simp: throws_def commit_def Let_def sql_errors_def split: option.splits)

lemma throws_with_tx [throws_intro]:
  fixes body :: "('z world_scheme, 'a) action"
  assumes "sql_errors \<subseteq> E" "throws E body"
  shows "throws E (with_tx body)"
proof -
  have commit: "throws E (bindE commit (\<lambda>_. ret x) :: ('z world_scheme, 'a) action)" for x
    by (intro throws_intro assms)
  have run: "throws E (bindE begin_tx (\<lambda>_. body))"
    using assms(2) by (simp add: throws_def bindE_def begin_tx_def)
  show ?thesis
    unfolding throws_def [of E "with_tx body"] with_tx_def
    by (auto split: prod.splits sum.splits dest: throwsD [OF commit] throwsD [OF run])
qed

end
