(* ===== verification/Fenced_Rows.thy ===== *)
theory Fenced_Rows
  imports Db_Models
begin

text \<open>
  The contract of a table whose busy rows carry an ownership token: an import job while a
  worker processes it (\<^verbatim>\<open>processing_token\<close>), an outbox row while a publisher holds it
  (\<^verbatim>\<open>claim_token\<close>). Every write of an owner is an UPDATE guarded by key, busy status and
  token; the lemmas say what that guard gives: at most one row matches, a stale owner's
  write touches nothing, a write that releases the row fences its token off for good.
\<close>

locale fenced_rows =
  fixes key :: "'r \<Rightarrow> uuid"
    and busy :: "'r \<Rightarrow> bool"
    and token :: "'r \<Rightarrow> uuid option"
    and owned :: "uuid \<Rightarrow> uuid \<Rightarrow> 'r \<Rightarrow> bool"
    and ok :: "'r \<Rightarrow> bool"
  assumes owned_iff: "owned k t r \<longleftrightarrow> key r = k \<and> busy r \<and> token r = Some t"
    and busy_iff: "ok r \<Longrightarrow> busy r \<longleftrightarrow> token r \<noteq> None"
begin

lemma owner_count: "distinct (map key rows) \<Longrightarrow> sql_count (owned k t) rows \<le> 1"
proof (induction rows)
  case (Cons r rows)
  have "sql_count (owned k t) rows = 0" if "owned k t r"
    using Cons.prems that by (auto simp: sql_count_def filter_empty_conv owned_iff image_iff)
  with Cons show ?case by (auto simp: sql_count_def)
qed (simp add: sql_count_def)

lemma owner_count_iff:
  "distinct (map key rows) \<Longrightarrow> sql_count (owned k t) rows = 1 \<longleftrightarrow> (\<exists>r \<in> set rows. owned k t r)"
proof -
  assume "distinct (map key rows)"
  then have "sql_count (owned k t) rows \<le> 1" by (rule owner_count)
  moreover have "0 < sql_count (owned k t) rows \<longleftrightarrow> (\<exists>r \<in> set rows. owned k t r)"
    by (auto simp: sql_count_def filter_empty_conv)
  ultimately show ?thesis by auto
qed

lemma stale_update:
  assumes "\<forall>r \<in> set rows. token r \<noteq> Some t"
  shows "sql_update (owned k t) f rows = rows" and "sql_count (owned k t) rows = 0"
proof -
  have none: "\<forall>r \<in> set rows. \<not> owned k t r" using assms by (auto simp: owned_iff)
  then show "sql_update (owned k t) f rows = rows" by (simp add: sql_update_def)
  from none show "sql_count (owned k t) rows = 0" by (auto simp: sql_count_def filter_empty_conv)
qed

lemma release_fences:
  assumes "\<And>r. owned k t r \<Longrightarrow> \<not> busy (f r)"
  shows "sql_count (owned k t) (sql_update (owned k t) f rows) = 0"
    and "sql_update (owned k t) g (sql_update (owned k t) f rows) = sql_update (owned k t) f rows"
proof -
  have none: "\<forall>r \<in> set (sql_update (owned k t) f rows). \<not> owned k t r"
    using assms by (auto simp: sql_update_def owned_iff)
  then show "sql_count (owned k t) (sql_update (owned k t) f rows) = 0"
    by (auto simp: sql_count_def filter_empty_conv)
  from none show "sql_update (owned k t) g (sql_update (owned k t) f rows) =
      sql_update (owned k t) f rows"
    by (simp add: sql_update_def [of _ g])
qed

lemma free_row_unowned: "ok r \<Longrightarrow> \<not> busy r \<Longrightarrow> token r = None"
  by (simp add: busy_iff)

end

end
