(* ===== verification/Import_Repositories.thy ===== *)
theory Import_Repositories
  imports Db_Session Fenced_Rows
begin

text \<open>
  The repositories of the import pipeline (app/imports/repositories): ImportRepository
  (import_repository.py), ImportClaimRepository (import_claim_repository.py),
  ImportProgressRepository (import_progress_repository.py), ShipmentRepository
  (shipment_repository.py) and ImportErrorRepository (import_error_repository.py). A SELECT
  or UPDATE of the source is a statement with the source's WHERE clause and SET list.
\<close>

definition one_or_none :: "'a list \<Rightarrow> sql_error + 'a option" where
  "one_or_none rows = (case rows of
     [] \<Rightarrow> Inr None | [r] \<Rightarrow> Inr (Some r) | _ \<Rightarrow> Inl OtherSQLAlchemyError)"

section \<open>ImportClaimRepository\<close>

record claimed_import =
  cl_import_id :: uuid
  cl_stored_file_path :: string
  cl_processing_token :: uuid
  cl_attempt_count :: int
  cl_max_attempts :: int

definition claimable :: "uuid \<Rightarrow> import_job \<Rightarrow> bool" where
  "claimable import_id j \<longleftrightarrow>
     job_id j = import_id \<and> job_status j = ImportPENDING \<and> job_attempt_count j < job_max_attempts j"

definition claim_values :: "uuid \<Rightarrow> string \<Rightarrow> timestamp \<Rightarrow> import_job \<Rightarrow> import_job" where
  "claim_values processing_token worker_id now j = j\<lparr>
     job_status := ImportPROCESSING,
     job_processing_token := Some processing_token,
     job_locked_by_worker := Some worker_id,
     job_attempt_count := job_attempt_count j + 1,
     job_started_at := Some now,
     job_last_heartbeat_at := Some now\<rparr>"

definition claim_pending_import ::
  "uuid \<Rightarrow> uuid \<Rightarrow> string \<Rightarrow> ('z world_scheme, claimed_import option) action" where
  "claim_pending_import import_id processing_token worker_id =
     bindE (statement (\<lambda>locked now db.
         Inr (map_option job_id
           (List.find (\<lambda>j. claimable import_id j \<and> \<not> locked (job_id j)) (db_jobs db)), db)))
     (\<lambda>locked_import_id.
       if locked_import_id = None then ret None
       else statement (\<lambda>_ now db.
         case update_jobs (claimable import_id) (claim_values processing_token worker_id now) now db of
           Inl e \<Rightarrow> Inl e
         | Inr (_, db') \<Rightarrow>
             (case one_or_none (map (claim_values processing_token worker_id now)
                     (filter (claimable import_id) (db_jobs db))) of
                Inl e \<Rightarrow> Inl e
              | Inr None \<Rightarrow> Inr (None, db')
              | Inr (Some j) \<Rightarrow>
                  Inr (Some \<lparr>cl_import_id = job_id j,
                         cl_stored_file_path = job_stored_file_path j,
                         cl_processing_token = processing_token,
                         cl_attempt_count = job_attempt_count j,
                         cl_max_attempts = job_max_attempts j\<rparr>, db'))))"

section \<open>ImportProgressRepository\<close>

text \<open>The WHERE clause of every progress write: the row, PROCESSING, under this token.\<close>

definition job_owned :: "uuid \<Rightarrow> uuid \<Rightarrow> import_job \<Rightarrow> bool" where
  "job_owned import_id processing_token j \<longleftrightarrow>
     job_id j = import_id \<and> job_status j = ImportPROCESSING \<and>
     job_processing_token j = Some processing_token"

definition update_current_processing_import ::
  "uuid \<Rightarrow> uuid \<Rightarrow> (timestamp \<Rightarrow> import_job \<Rightarrow> import_job) \<Rightarrow> ('z world_scheme, bool) action" where
  "update_current_processing_import import_id processing_token values =
     bindE (statement (\<lambda>_ now db. update_jobs (job_owned import_id processing_token) (values now) now db))
       (\<lambda>rowcount. ret (rowcount = 1))"

definition has_current_ownership :: "uuid \<Rightarrow> uuid \<Rightarrow> ('z world_scheme, bool) action" where
  "has_current_ownership import_id processing_token =
     query (\<lambda>db. List.find (job_owned import_id processing_token) (db_jobs db) \<noteq> None)"

definition reset_for_reprocessing :: "uuid \<Rightarrow> uuid \<Rightarrow> ('z world_scheme, bool) action" where
  "reset_for_reprocessing import_id processing_token =
     update_current_processing_import import_id processing_token (\<lambda>now j. j\<lparr>
       job_total_rows := 0, job_processed_rows := 0, job_success_count := 0, job_failed_count := 0,
       job_finished_at := None\<rparr>)"

definition record_chunk_counts ::
  "uuid \<Rightarrow> uuid \<Rightarrow> nat \<Rightarrow> nat \<Rightarrow> nat \<Rightarrow> ('z world_scheme, bool) action" where
  "record_chunk_counts import_id processing_token total_rows success_count failed_count =
     update_current_processing_import import_id processing_token (\<lambda>now j. j\<lparr>
       job_total_rows := job_total_rows j + total_rows,
       job_processed_rows := job_processed_rows j + total_rows,
       job_success_count := job_success_count j + success_count,
       job_failed_count := job_failed_count j + failed_count\<rparr>)"

definition heartbeat :: "uuid \<Rightarrow> uuid \<Rightarrow> ('z world_scheme, bool) action" where
  "heartbeat import_id processing_token =
     update_current_processing_import import_id processing_token (\<lambda>now j. j\<lparr>
       job_last_heartbeat_at := Some now\<rparr>)"

definition complete_import ::
  "uuid \<Rightarrow> uuid \<Rightarrow> nat \<Rightarrow> nat \<Rightarrow> nat \<Rightarrow> ('z world_scheme, bool) action" where
  "complete_import import_id processing_token total_rows success_count failed_count =
     update_current_processing_import import_id processing_token (\<lambda>now j. j\<lparr>
       job_status := ImportCOMPLETED,
       job_total_rows := total_rows,
       job_processed_rows := total_rows,
       job_success_count := success_count,
       job_failed_count := failed_count,
       job_finished_at := Some now,
       job_last_heartbeat_at := Some now,
       job_processing_token := None,
       job_locked_by_worker := None\<rparr>)"

definition fail_import :: "uuid \<Rightarrow> uuid \<Rightarrow> string \<Rightarrow> ('z world_scheme, bool) action" where
  "fail_import import_id processing_token reason =
     update_current_processing_import import_id processing_token (\<lambda>now j. j\<lparr>
       job_status := ImportFAILED,
       job_failure_reason := Some reason,
       job_last_failure_reason := Some reason,
       job_finished_at := Some now,
       job_processing_token := None,
       job_locked_by_worker := None\<rparr>)"

definition requeue_for_retry :: "uuid \<Rightarrow> uuid \<Rightarrow> string \<Rightarrow> ('z world_scheme, bool) action" where
  "requeue_for_retry import_id processing_token reason =
     update_current_processing_import import_id processing_token (\<lambda>now j. j\<lparr>
       job_status := ImportPENDING,
       job_failure_reason := None,
       job_last_failure_reason := Some reason,
       job_processing_token := None,
       job_locked_by_worker := None\<rparr>)"

section \<open>ImportRepository\<close>

text \<open>
  The ORM draws the primary key at the flush; the server fills the timestamps of the row.
  A DispatchIntent row takes the defaults of its columns.
\<close>

definition create_import_job :: "import_job \<Rightarrow> ('z world_scheme, uuid) action" where
  "create_import_job import_job =
     bindE uuid4 (\<lambda>new_id.
       bindE (statement (\<lambda>_ now db.
         map_sum id (Pair ()) (insert_job
           (import_job\<lparr>job_id := new_id, job_created_at := now, job_updated_at := now\<rparr>) db)))
       (\<lambda>_. ret new_id))"

definition new_dispatch_row :: "uuid \<Rightarrow> uuid \<Rightarrow> timestamp \<Rightarrow> timestamp \<Rightarrow> import_dispatch_outbox" where
  "new_dispatch_row new_id import_id available_at now =
     \<lparr>ob_id = new_id, ob_import_id = import_id, ob_status = OutboxPENDING, ob_attempt_count = 0,
      ob_available_at = available_at, ob_claimed_at = None, ob_claim_token = None,
      ob_published_at = None, ob_last_error = None, ob_created_at = now, ob_updated_at = now\<rparr>"

definition create_dispatch_intent :: "uuid \<Rightarrow> ('z world_scheme, uuid) action" where
  "create_dispatch_intent import_id =
     bindE uuid4 (\<lambda>new_id.
       bindE (statement (\<lambda>_ now db.
         map_sum id (Pair ()) (insert_outbox (new_dispatch_row new_id import_id now now) db)))
       (\<lambda>_. ret new_id))"

text \<open>
  The lock is on the hash of the fingerprint; a lock is named by the fingerprint here. Two
  fingerprints with one hash wait for each other although they need not.
\<close>

definition acquire_fingerprint_lock :: "string \<Rightarrow> ('z world_scheme, unit) action" where
  "acquire_fingerprint_lock idempotency_fingerprint = advisory_xact_lock idempotency_fingerprint"

definition snapshot_of :: "import_job \<Rightarrow> import_snapshot" where
  "snapshot_of j = \<lparr>snap_import_id = job_id j, snap_status = import_status_str (job_status j),
     snap_created_at = job_created_at j, snap_fingerprint = job_idempotency_fingerprint j\<rparr>"

definition get_snapshot_by_idempotency_key ::
  "string \<Rightarrow> ('z world_scheme, import_snapshot option) action" where
  "get_snapshot_by_idempotency_key idempotency_key = statement (\<lambda>_ _ db.
     map_sum id (\<lambda>row. (map_option snapshot_of row, db))
       (one_or_none (filter (\<lambda>j. job_idempotency_key j = Some idempotency_key) (db_jobs db))))"

text \<open>ORDER BY created_at DESC, id DESC LIMIT 1: the key is negated.\<close>

definition get_snapshot_by_fingerprint ::
  "string \<Rightarrow> ('z world_scheme, import_snapshot option) action" where
  "get_snapshot_by_fingerprint idempotency_fingerprint = statement (\<lambda>_ _ db.
     map_sum id (\<lambda>row. (map_option snapshot_of row, db))
       (one_or_none (order_limit (\<lambda>j. (- job_created_at j, - int (job_id j))) 1
         (filter (\<lambda>j. job_idempotency_fingerprint j = idempotency_fingerprint) (db_jobs db)))))"

definition fail_pending_import_after_dispatch_exhausted ::
  "uuid \<Rightarrow> string \<Rightarrow> ('z world_scheme, bool) action" where
  "fail_pending_import_after_dispatch_exhausted import_id reason =
     bindE (statement (\<lambda>_ now db.
       update_jobs (\<lambda>j. job_id j = import_id \<and> job_status j = ImportPENDING) (\<lambda>j. j\<lparr>
         job_status := ImportFAILED,
         job_failure_reason := Some reason,
         job_last_failure_reason := Some reason,
         job_finished_at := Some now,
         job_processing_token := None,
         job_locked_by_worker := None\<rparr>) now db))
     (\<lambda>rowcount. ret (rowcount = 1))"

section \<open>ShipmentRepository and ImportErrorRepository\<close>

definition bulk_insert_shipments :: "shipment list \<Rightarrow> ('z world_scheme, nat) action" where
  "bulk_insert_shipments shipments =
     (if shipments = [] then ret 0
      else bindE (gets pg_numeric) (\<lambda>num.
        bindE (statement (\<lambda>_ now db.
          map_sum id (Pair ()) (insert_all (insert_shipment num now) shipments db)))
        (\<lambda>_. ret (length shipments))))"

definition find_existing_shipment_codes :: "string set \<Rightarrow> ('z world_scheme, string set) action" where
  "find_existing_shipment_codes shipment_codes =
     (if shipment_codes = {} then ret {}
      else query (\<lambda>db. set (filter (\<lambda>c. c \<in> shipment_codes) (map ship_shipment_code (db_shipments db)))))"

definition delete_shipments_by_import_id :: "uuid \<Rightarrow> ('z world_scheme, nat) action" where
  "delete_shipments_by_import_id import_id = statement (\<lambda>_ _ db.
     Inr (sql_count (\<lambda>s. ship_import_id s = import_id) (db_shipments db),
          db\<lparr>db_shipments := filter (\<lambda>s. ship_import_id s \<noteq> import_id) (db_shipments db)\<rparr>))"

definition bulk_insert_errors :: "import_error list \<Rightarrow> ('z world_scheme, nat) action" where
  "bulk_insert_errors import_errors =
     (if import_errors = [] then ret 0
      else bindE (statement (\<lambda>_ now db.
          map_sum id (Pair ()) (insert_all (insert_error now)
            (map (\<lambda>r. r\<lparr>err_raw_data := jsonb_safe (err_raw_data r)\<rparr>) import_errors) db)))
        (\<lambda>_. ret (length import_errors)))"

definition delete_errors_by_import_id :: "uuid \<Rightarrow> ('z world_scheme, nat) action" where
  "delete_errors_by_import_id import_id = statement (\<lambda>_ _ db.
     Inr (sql_count (\<lambda>r. err_import_id r = import_id) (db_errors db),
          db\<lparr>db_errors := filter (\<lambda>r. err_import_id r \<noteq> import_id) (db_errors db)\<rparr>))"

end
