(* ===== verification/Db_Invariants.thy ===== *)
theory Db_Invariants
  imports Import_Repositories
begin

text \<open>
  The invariant of the database: the well-formedness of each row as the life cycles of jobs
  and dispatch intents leave it, the uniqueness and foreign keys, the CHECK constraints of
  the stored shipments; and that every statement of the import repositories keeps it.
\<close>

section \<open>The invariant\<close>

text \<open>
  A job is PROCESSING exactly while it carries a token; it then has an owner, a start and a
  heartbeat (so that the watchdog can see it). A failure reason is there exactly when it
  FAILED, a finish time exactly when it is terminal. Attempts never exceed the maximum, and
  a PENDING job has one left. The row counters add up.
\<close>

definition job_ok :: "import_job \<Rightarrow> bool" where
  "job_ok j \<longleftrightarrow>
     (job_status j = ImportPROCESSING \<longleftrightarrow> job_processing_token j \<noteq> None) \<and>
     (job_status j = ImportPROCESSING \<longleftrightarrow> job_locked_by_worker j \<noteq> None) \<and>
     (job_status j = ImportPROCESSING \<longrightarrow>
        job_started_at j \<noteq> None \<and> job_last_heartbeat_at j \<noteq> None \<and> 1 \<le> job_attempt_count j) \<and>
     ck_failure_reason_terminal j \<and>
     (job_finished_at j \<noteq> None \<longleftrightarrow> job_status j \<in> {ImportCOMPLETED, ImportFAILED}) \<and>
     0 \<le> job_attempt_count j \<and> job_attempt_count j \<le> job_max_attempts j \<and>
     (job_status j = ImportPENDING \<longrightarrow> job_attempt_count j < job_max_attempts j) \<and>
     job_processed_rows j = job_total_rows j \<and>
     job_total_rows j = job_success_count j + job_failed_count j"

definition outbox_ok :: "import_dispatch_outbox \<Rightarrow> bool" where
  "outbox_ok r \<longleftrightarrow>
     (ob_status r = OutboxPROCESSING \<longleftrightarrow> ob_claim_token r \<noteq> None) \<and>
     (ob_status r = OutboxPROCESSING \<longrightarrow> ob_claimed_at r \<noteq> None) \<and>
     (ob_status r = OutboxPUBLISHED \<longleftrightarrow> ob_published_at r \<noteq> None) \<and>
     0 \<le> ob_attempt_count r"

text \<open>The keys that are not NULL.\<close>

definition idempotency_keys :: "import_job list \<Rightarrow> string option list" where
  "idempotency_keys jobs = filter (\<lambda>k. k \<noteq> None) (map job_idempotency_key jobs)"

definition jobs_ok :: "import_job list \<Rightarrow> bool" where
  "jobs_ok jobs \<longleftrightarrow> (\<forall>j \<in> set jobs. job_ok j) \<and> distinct (map job_id jobs) \<and>
     distinct (idempotency_keys jobs)"

definition shipments_ok :: "shipment_row list \<Rightarrow> bool" where
  "shipments_ok rows \<longleftrightarrow> (\<forall>s \<in> set rows. shipment_constraints (shipment.truncate s) = None) \<and>
     distinct (map ship_id rows) \<and> distinct (map ship_shipment_code rows)"

definition refs_ok :: "database \<Rightarrow> bool" where
  "refs_ok db \<longleftrightarrow> (let ids = set (map job_id (db_jobs db)) in
     set (map ob_import_id (db_outbox db)) \<subseteq> ids \<and>
     set (map ship_import_id (db_shipments db)) \<subseteq> ids \<and>
     set (map err_import_id (db_errors db)) \<subseteq> ids)"

definition db_ok :: "database \<Rightarrow> bool" where
  "db_ok db \<longleftrightarrow> jobs_ok (db_jobs db) \<and>
     (\<forall>r \<in> set (db_outbox db). outbox_ok r) \<and> distinct (map ob_id (db_outbox db)) \<and>
     shipments_ok (db_shipments db) \<and>
     (\<forall>r \<in> set (db_errors db). json_document (err_raw_data r)) \<and>
     distinct (map err_id (db_errors db)) \<and> refs_ok db"

lemma db_ok_empty: "db_ok empty_database"
  by (simp add: db_ok_def empty_database_def jobs_ok_def idempotency_keys_def shipments_ok_def
      refs_ok_def)

interpretation job_fence: fenced_rows job_id "\<lambda>j. job_status j = ImportPROCESSING"
  job_processing_token job_owned job_ok
  by unfold_locales (auto simp: job_owned_def job_ok_def)

section \<open>Statements on the tables\<close>

lemma job_ok_updated_at [simp]: "job_ok (j\<lparr>job_updated_at := t\<rparr>) = job_ok j"
  by (simp add: job_ok_def ck_failure_reason_terminal_def)

lemma outbox_ok_updated_at [simp]: "outbox_ok (r\<lparr>ob_updated_at := t\<rparr>) = outbox_ok r"
  by (simp add: outbox_ok_def)

lemma map_sql_update:
  "(\<And>r. r \<in> set rows \<Longrightarrow> p r \<Longrightarrow> g (f r) = g r) \<Longrightarrow> map g (sql_update p f rows) = map g rows"
  by (simp add: sql_update_def)

lemma idempotency_keys_sql_update:
  "(\<And>r. r \<in> set rows \<Longrightarrow> p r \<Longrightarrow> job_idempotency_key (f r) = job_idempotency_key r) \<Longrightarrow>
     idempotency_keys (sql_update p f rows) = idempotency_keys rows"
  unfolding idempotency_keys_def by (subst map_sql_update) auto

lemma refs_ok_cong:
  assumes "refs_ok db" "map job_id (db_jobs db') = map job_id (db_jobs db)"
    and "set (map ob_import_id (db_outbox db')) \<subseteq> set (map ob_import_id (db_outbox db))"
    and "set (map ship_import_id (db_shipments db')) \<subseteq> set (map ship_import_id (db_shipments db))"
    and "set (map err_import_id (db_errors db')) \<subseteq> set (map err_import_id (db_errors db))"
  shows "refs_ok db'"
  unfolding refs_ok_def Let_def
proof (intro conjI)
  note old = assms(1) [unfolded refs_ok_def Let_def]
  show "set (map ob_import_id (db_outbox db')) \<subseteq> set (map job_id (db_jobs db'))"
    using assms(3) old unfolding assms(2) by (metis subset_trans)
  show "set (map ship_import_id (db_shipments db')) \<subseteq> set (map job_id (db_jobs db'))"
    using assms(4) old unfolding assms(2) by (metis subset_trans)
  show "set (map err_import_id (db_errors db')) \<subseteq> set (map job_id (db_jobs db'))"
    using assms(5) old unfolding assms(2) by (metis subset_trans)
qed

lemma update_jobs_Inr:
  "update_jobs p f now db = Inr (n, db') \<Longrightarrow>
     n = sql_count p (db_jobs db) \<and>
     db' = db\<lparr>db_jobs := sql_update p (\<lambda>j. (f j)\<lparr>job_updated_at := now\<rparr>) (db_jobs db)\<rparr>"
  by (auto simp: update_jobs_def Let_def split: list.splits)

lemma update_jobs_db_ok:
  assumes ok: "db_ok db" and run: "update_jobs p f now db = Inr (n, db')"
    and f: "\<And>j. j \<in> set (db_jobs db) \<Longrightarrow> job_ok j \<Longrightarrow> p j \<Longrightarrow>
      job_ok (f j) \<and> job_id (f j) = job_id j \<and> job_idempotency_key (f j) = job_idempotency_key j"
  shows "db_ok db'"
proof -
  let ?jobs = "sql_update p (\<lambda>j. (f j)\<lparr>job_updated_at := now\<rparr>) (db_jobs db)"
  have db': "db' = db\<lparr>db_jobs := ?jobs\<rparr>" using update_jobs_Inr [OF run] by simp
  have "\<forall>j \<in> set (db_jobs db). job_ok j" using ok by (simp add: db_ok_def jobs_ok_def)
  then have rows: "\<forall>j \<in> set ?jobs. job_ok j"
    using f by (auto simp: sql_update_def)
  have ids: "map job_id ?jobs = map job_id (db_jobs db)"
    by (rule map_sql_update) (use f ok in \<open>auto simp: db_ok_def jobs_ok_def\<close>)
  have keys: "idempotency_keys ?jobs = idempotency_keys (db_jobs db)"
    by (rule idempotency_keys_sql_update) (use f ok in \<open>auto simp: db_ok_def jobs_ok_def\<close>)
  have "refs_ok db'"
    by (rule refs_ok_cong [of db]) (use ids ok in \<open>simp_all add: db' db_ok_def del: set_map\<close>)
  then show ?thesis
    using ok rows ids keys by (auto simp: db_ok_def jobs_ok_def db')
qed

lemma update_outbox_db_ok:
  assumes ok: "db_ok db" and run: "update_outbox p f now db = Inr (n, db')"
    and f: "\<And>r. r \<in> set (db_outbox db) \<Longrightarrow> outbox_ok r \<Longrightarrow> p r \<Longrightarrow>
      outbox_ok (f r) \<and> ob_id (f r) = ob_id r \<and> ob_import_id (f r) = ob_import_id r"
  shows "db_ok db'"
proof -
  let ?rows = "sql_update p (\<lambda>r. (f r)\<lparr>ob_updated_at := now\<rparr>) (db_outbox db)"
  have db': "db' = db\<lparr>db_outbox := ?rows\<rparr>" using run by (auto simp: update_outbox_def)
  have all: "\<forall>r \<in> set (db_outbox db). outbox_ok r" using ok by (simp add: db_ok_def)
  then have rows: "\<forall>r \<in> set ?rows. outbox_ok r"
    using f by (auto simp: sql_update_def)
  have ids: "map ob_id ?rows = map ob_id (db_outbox db)"
    and refs: "map ob_import_id ?rows = map ob_import_id (db_outbox db)"
    using f all by (auto intro!: map_sql_update)
  have "refs_ok db'"
    by (rule refs_ok_cong [of db]) (use refs ok in \<open>simp_all add: db' db_ok_def del: set_map\<close>)
  then show ?thesis
    using ok rows ids by (auto simp: db_ok_def db')
qed

lemma refs_ok_add_job: "refs_ok db \<Longrightarrow> refs_ok (db\<lparr>db_jobs := db_jobs db @ [j]\<rparr>)"
  unfolding refs_ok_def Let_def by (simp add: subset_insertI2 del: set_map)

lemma insert_job_db_ok:
  assumes "db_ok db" "insert_job j db = Inr db'" "job_ok j"
  shows "db_ok db'"
proof -
  have db': "db' = db\<lparr>db_jobs := db_jobs db @ [j]\<rparr>"
    and fresh: "job_id j \<notin> set (map job_id (db_jobs db))"
      "job_idempotency_key j \<noteq> None \<longrightarrow>
         job_idempotency_key j \<notin> set (map job_idempotency_key (db_jobs db))"
    using assms(2) by (auto simp: insert_job_def split: option.splits if_splits)
  have "jobs_ok (db_jobs db')"
    using assms(1,3) fresh by (auto simp: db' db_ok_def jobs_ok_def idempotency_keys_def)
  moreover have "refs_ok db'"
    using assms(1) by (simp add: db' refs_ok_add_job db_ok_def)
  ultimately show ?thesis using assms(1) by (simp add: db' db_ok_def)
qed

lemma insert_outbox_db_ok:
  assumes "db_ok db" "insert_outbox r db = Inr db'" "outbox_ok r"
  shows "db_ok db'"
  using assms
  by (auto simp: db_ok_def refs_ok_def insert_outbox_def Let_def split: if_splits
      dest: subsetD [OF _ imageI])

lemma shipment_extend_simps [simp]:
  "shipment.truncate (shipment.extend s r) = s"
  "ship_id (shipment.extend s r) = ship_id s"
  "ship_import_id (shipment.extend s r) = ship_import_id s"
  "ship_shipment_code (shipment.extend s r) = ship_shipment_code s"
  by (simp_all add: shipment.defs)

lemma import_error_extend_simps [simp]:
  "err_id (import_error.extend r x) = err_id r"
  "err_import_id (import_error.extend r x) = err_import_id r"
  "err_raw_data (import_error.extend r x) = err_raw_data r"
  "err_row_number (import_error.extend r x) = err_row_number r"
  by (simp_all add: import_error.defs)

lemma insert_shipment_db_ok:
  assumes "db_ok db" "insert_shipment num now s db = Inr db'"
  shows "db_ok db'"
  using assms
  by (auto simp: db_ok_def shipments_ok_def refs_ok_def insert_shipment_def Let_def
      split: option.splits if_splits dest: subsetD [OF _ imageI])

lemma insert_error_db_ok:
  assumes "db_ok db" "insert_error now r db = Inr db'"
  shows "db_ok db'"
  using assms
  by (auto simp: db_ok_def refs_ok_def insert_error_def Let_def split: if_splits
      dest: subsetD [OF _ imageI])

lemma insert_all_keeps:
  assumes "\<And>r db db'. r \<in> set rs \<Longrightarrow> I db \<Longrightarrow> ins r db = Inr db' \<Longrightarrow> I db'"
    and "I db" "insert_all ins rs db = Inr db'"
  shows "I db'"
  using assms
proof (induction rs arbitrary: db)
  case (Cons r rs)
  then obtain db1 where "ins r db = Inr db1" "insert_all ins rs db1 = Inr db'"
    by (auto split: sum.splits)
  with Cons show ?case by (metis list.set_intros)
qed simp

lemma delete_shipments_db_ok:
  "db_ok db \<Longrightarrow> db_ok (db\<lparr>db_shipments := filter p (db_shipments db)\<rparr>)"
  by (auto simp: db_ok_def shipments_ok_def refs_ok_def Let_def distinct_map_filter)

lemma delete_errors_db_ok:
  "db_ok db \<Longrightarrow> db_ok (db\<lparr>db_errors := filter p (db_errors db)\<rparr>)"
  by (auto simp: db_ok_def refs_ok_def Let_def distinct_map_filter)

end
