(* ===== verification/Job_Lifecycle.thy ===== *)
theory Job_Lifecycle
  imports Db_Invariants
begin

text \<open>
  The life cycle of an import job as a state machine, the contract an invariant of the
  database has to meet so that the services keep it, and the proof that the statements of
  the repositories move jobs along the life cycle only.
\<close>

section \<open>The abstract machine\<close>

datatype life_state =
    Waiting int          \<comment> \<open>PENDING, with the attempts made\<close>
  | Running uuid int     \<comment> \<open>PROCESSING under a token\<close>
  | Completed int
  | Failed int

datatype life_label =
    Claim uuid | Progress uuid | Complete uuid | Fail uuid | Retry uuid
  | Recover | Expire | Undelivered

inductive life_step :: "int \<Rightarrow> life_label \<Rightarrow> life_state \<Rightarrow> life_state \<Rightarrow> bool" for m where
  claim: "a < m \<Longrightarrow> life_step m (Claim t) (Waiting a) (Running t (a + 1))"
| progress: "life_step m (Progress t) (Running t a) (Running t a)"
| complete: "life_step m (Complete t) (Running t a) (Completed a)"
| fail: "life_step m (Fail t) (Running t a) (Failed a)"
| retry: "a < m \<Longrightarrow> life_step m (Retry t) (Running t a) (Waiting a)"
| recover: "a < m \<Longrightarrow> life_step m Recover (Running t a) (Waiting a)"
| expire: "m \<le> a \<Longrightarrow> life_step m Expire (Running t a) (Failed a)"
| undelivered: "life_step m Undelivered (Waiting a) (Failed a)"

inductive_cases life_stepE: "life_step m l s s'"
inductive_simps life_step_Waiting: "life_step m l (Waiting a) s'"
inductive_simps life_step_Running: "life_step m l (Running t a) s'"
inductive_simps life_step_Completed [simp]: "life_step m l (Completed a) s'"
inductive_simps life_step_Failed [simp]: "life_step m l (Failed a) s'"

inductive life_run :: "int \<Rightarrow> life_label list \<Rightarrow> life_state \<Rightarrow> life_state \<Rightarrow> bool" for m where
  stop: "life_run m [] s s"
| step: "life_step m l s s' \<Longrightarrow> life_run m ls s' s'' \<Longrightarrow> life_run m (l # ls) s s''"

inductive_simps life_run_Nil [simp]: "life_run m [] s s'"
inductive_simps life_run_Cons [simp]: "life_run m (l # ls) s s''"

fun life_attempts :: "life_state \<Rightarrow> int" where
  "life_attempts (Waiting a) = a"
| "life_attempts (Running t a) = a"
| "life_attempts (Completed a) = a"
| "life_attempts (Failed a) = a"

fun life_terminal :: "life_state \<Rightarrow> bool" where
  "life_terminal (Completed a) = True"
| "life_terminal (Failed a) = True"
| "life_terminal s = False"

fun is_claim :: "life_label \<Rightarrow> bool" where
  "is_claim (Claim t) = True"
| "is_claim l = False"

lemma life_step_attempts:
  "life_step m l s s' \<Longrightarrow> life_attempts s' = life_attempts s + (if is_claim l then 1 else 0)"
  by (induction rule: life_step.induct) simp_all

lemma life_run_attempts:
  "life_run m ls s s' \<Longrightarrow> life_attempts s' = life_attempts s + int (length (filter is_claim ls))"
  by (induction rule: life_run.induct) (auto dest: life_step_attempts)

lemma life_step_bounded: "life_step m l s s' \<Longrightarrow> life_attempts s \<le> m \<Longrightarrow> life_attempts s' \<le> m"
  by (induction rule: life_step.induct) simp_all

lemma life_run_bounded: "life_run m ls s s' \<Longrightarrow> life_attempts s \<le> m \<Longrightarrow> life_attempts s' \<le> m"
  by (induction rule: life_run.induct) (auto dest: life_step_bounded)

lemma life_run_terminal: "life_run m ls s s' \<Longrightarrow> life_terminal s \<Longrightarrow> ls = [] \<and> s' = s"
  by (cases s; cases ls) auto

section \<open>Jobs as states of the machine\<close>

definition life_of :: "import_job \<Rightarrow> life_state" where
  "life_of j = (case job_status j of
     ImportPENDING \<Rightarrow> Waiting (job_attempt_count j)
   | ImportPROCESSING \<Rightarrow>
       (case job_processing_token j of
          Some t \<Rightarrow> Running t (job_attempt_count j) | None \<Rightarrow> Waiting (job_attempt_count j))
   | ImportCOMPLETED \<Rightarrow> Completed (job_attempt_count j)
   | ImportFAILED \<Rightarrow> Failed (job_attempt_count j))"

text \<open>What no service ever writes after the creation.\<close>

definition same_import :: "import_job \<Rightarrow> import_job \<Rightarrow> bool" where
  "same_import j j' \<longleftrightarrow>
     job_id j' = job_id j \<and> job_original_file_name j' = job_original_file_name j \<and>
     job_stored_file_path j' = job_stored_file_path j \<and>
     job_file_size_bytes j' = job_file_size_bytes j \<and> job_content_type j' = job_content_type j \<and>
     job_idempotency_key j' = job_idempotency_key j \<and>
     job_idempotency_fingerprint j' = job_idempotency_fingerprint j \<and>
     job_max_attempts j' = job_max_attempts j \<and> job_created_at j' = job_created_at j"

definition job_step :: "life_label \<Rightarrow> import_job \<Rightarrow> import_job \<Rightarrow> bool" where
  "job_step l j j' \<longleftrightarrow>
     life_step (job_max_attempts j) l (life_of j) (life_of j') \<and> same_import j j' \<and> job_ok j'"

lemma life_of_updated_at [simp]: "life_of (j\<lparr>job_updated_at := u\<rparr>) = life_of j"
  by (simp add: life_of_def split: import_status.split option.split)

lemma same_import_updated_at [simp]: "same_import j (j'\<lparr>job_updated_at := u\<rparr>) = same_import j j'"
  by (simp add: same_import_def)

lemma job_step_updated_at [simp]: "job_step l j (j'\<lparr>job_updated_at := u\<rparr>) = job_step l j j'"
  by (simp add: job_step_def)

lemma same_import_refl [simp]: "same_import j j"
  by (simp add: same_import_def)

lemma same_import_trans: "same_import a b \<Longrightarrow> same_import b c \<Longrightarrow> same_import a c"
  by (simp add: same_import_def)

lemma life_of_owned: "job_owned i t j \<Longrightarrow> life_of j = Running t (job_attempt_count j)"
  by (simp add: job_owned_def life_of_def)

lemma insert_shipment_jobs: "insert_shipment num now s db = Inr db' \<Longrightarrow>
    db_jobs db' = db_jobs db \<and> db_outbox db' = db_outbox db"
  by (auto simp: insert_shipment_def split: option.splits if_splits)

lemma insert_error_jobs: "insert_error now r db = Inr db' \<Longrightarrow>
    db_jobs db' = db_jobs db \<and> db_outbox db' = db_outbox db"
  by (auto simp: insert_error_def split: if_splits)

section \<open>Invariants the services keep\<close>

text \<open>
  The interface between an invariant and the services: it implies the well-formedness of the
  database, tolerates the moves of jobs that carry one of its labels and the creation of a
  job, and does not look at anything else.
\<close>

definition moved :: "life_label set \<Rightarrow> import_job list \<Rightarrow> import_job list \<Rightarrow> bool" where
  "moved labels = list_all2 (\<lambda>j j'. j' = j \<or> (\<exists>l \<in> labels. job_step l j j'))"

lemma moved_member:
  "moved labels js js' \<Longrightarrow> j' \<in> set js' \<Longrightarrow> \<exists>j \<in> set js. j' = j \<or> (\<exists>l \<in> labels. job_step l j j')"
  unfolding moved_def by (induction rule: list_all2_induct) auto

locale db_invariant =
  fixes I :: "database \<Rightarrow> bool" and labels :: "life_label set"
  assumes I_ok: "I db \<Longrightarrow> db_ok db"
    and I_moved: "I db \<Longrightarrow> db_ok db' \<Longrightarrow> db_outbox db' = db_outbox db \<Longrightarrow>
      moved labels (db_jobs db) (db_jobs db') \<Longrightarrow> I db'"
    and I_created: "I db \<Longrightarrow> db_ok db' \<Longrightarrow> db_outbox db' = db_outbox db \<Longrightarrow> db_jobs db' = db_jobs db @ [j] \<Longrightarrow>
      life_of j = Waiting 0 \<Longrightarrow> I db'"
begin

lemma I_rest:
  "I db \<Longrightarrow> db_ok db' \<Longrightarrow> db_jobs db' = db_jobs db \<and> db_outbox db' = db_outbox db \<Longrightarrow> I db'"
  by (rule I_moved) (auto simp: moved_def list_all2_same)

lemma I_update_jobs:
  assumes I: "I db" and run: "update_jobs p f now db = Inr (n, db')"
    and f: "\<And>j. j \<in> set (db_jobs db) \<Longrightarrow> job_ok j \<Longrightarrow> p j \<Longrightarrow> \<exists>l \<in> labels. job_step l j (f j)"
  shows "I db'"
proof -
  have rows: "\<forall>j \<in> set (db_jobs db). job_ok j"
    using I_ok [OF I] by (simp add: db_ok_def jobs_ok_def)
  have "db_ok db'"
    by (rule update_jobs_db_ok [OF I_ok [OF I] run])
      (use f in \<open>fastforce simp: job_step_def same_import_def\<close>)
  moreover have "moved labels (db_jobs db) (db_jobs db')"
    using update_jobs_Inr [OF run] f rows
    by (auto simp: moved_def sql_update_def list_all2_conv_all_nth)
  moreover have "db_outbox db' = db_outbox db"
    using update_jobs_Inr [OF run] by simp
  ultimately show ?thesis using I_moved [OF I] by blast
qed

lemma keeps_update_current:
  assumes "\<And>now j. job_ok j \<Longrightarrow> job_owned i t j \<Longrightarrow> \<exists>l \<in> labels. job_step l j (v now j)"
  shows "keeps I L (update_current_processing_import i t v)"
  unfolding update_current_processing_import_def
  by (intro keeps_intro keeps_statement) (auto intro: I_update_jobs assms)

lemma keeps_record_chunk_counts:
  "Progress t \<in> labels \<Longrightarrow> n = s + f \<Longrightarrow>
     keeps I L (record_chunk_counts i t n s f)"
  unfolding record_chunk_counts_def
  by (rule keeps_update_current, rule bexI [of _ "Progress t"])
    (auto simp: job_step_def life_of_owned job_ok_def same_import_def ck_failure_reason_terminal_def
      job_owned_def life_of_def life_step_Running)

lemma keeps_heartbeat: "Progress t \<in> labels \<Longrightarrow> keeps I L (heartbeat i t)"
  unfolding heartbeat_def
  by (rule keeps_update_current, rule bexI [of _ "Progress t"])
    (auto simp: job_step_def job_ok_def same_import_def ck_failure_reason_terminal_def
      job_owned_def life_of_def life_step_Running)

lemma keeps_reset_for_reprocessing: "Progress t \<in> labels \<Longrightarrow> keeps I L (reset_for_reprocessing i t)"
  unfolding reset_for_reprocessing_def
  by (rule keeps_update_current, rule bexI [of _ "Progress t"])
    (auto simp: job_step_def job_ok_def same_import_def ck_failure_reason_terminal_def
      job_owned_def life_of_def life_step_Running)

lemma keeps_complete_import:
  "Complete t \<in> labels \<Longrightarrow> n = s + f \<Longrightarrow>
     keeps I L (complete_import i t n s f)"
  unfolding complete_import_def
  by (rule keeps_update_current, rule bexI [of _ "Complete t"])
    (auto simp: job_step_def job_ok_def same_import_def ck_failure_reason_terminal_def
      job_owned_def life_of_def life_step_Running)

lemma keeps_fail_import: "Fail t \<in> labels \<Longrightarrow> keeps I L (fail_import i t reason)"
  unfolding fail_import_def
  by (rule keeps_update_current, rule bexI [of _ "Fail t"])
    (auto simp: job_step_def job_ok_def same_import_def ck_failure_reason_terminal_def
      job_owned_def life_of_def life_step_Running)

lemma keeps_fail_pending:
  "Undelivered \<in> labels \<Longrightarrow> keeps I L (fail_pending_import_after_dispatch_exhausted i reason)"
  unfolding fail_pending_import_after_dispatch_exhausted_def
  by (intro keeps_intro keeps_statement, rule I_update_jobs, assumption+, rule bexI [of _ Undelivered])
    (auto simp: job_step_def job_ok_def same_import_def ck_failure_reason_terminal_def
      life_of_def life_step_Waiting)

lemma claim_values_step:
  "job_ok j \<Longrightarrow> claimable i j \<Longrightarrow> job_step (Claim t) j (claim_values t worker now j)"
  by (auto simp: job_step_def job_ok_def same_import_def ck_failure_reason_terminal_def
      claimable_def claim_values_def life_of_def life_step_Waiting)

text \<open>
  A claim returns the path and the attempt of the row it took, under the token it was given.
\<close>

definition claim_of :: "uuid \<Rightarrow> uuid \<Rightarrow> claimed_import option \<Rightarrow> bool" where
  "claim_of i t c = (case c of None \<Rightarrow> True | Some k \<Rightarrow>
     cl_import_id k = i \<and> cl_processing_token k = t \<and>
     1 \<le> cl_attempt_count k \<and> cl_attempt_count k \<le> cl_max_attempts k)"

lemma keeps_bulk_insert_shipments: "keeps I L (bulk_insert_shipments ss)"
  unfolding bulk_insert_shipments_def
proof (intro keeps_intro keeps_statement, goal_cases)
  case (1 num _ now db r db')
  then have run: "insert_all (insert_shipment num now) ss db = Inr db'"
    by (auto simp: map_sum_def split: sum.splits)
  have "db_ok db' \<and> db_jobs db' = db_jobs db \<and> db_outbox db' = db_outbox db"
    by (rule insert_all_keeps [OF _ _ run, where I = "\<lambda>d. db_ok d \<and> db_jobs d = db_jobs db \<and> db_outbox d = db_outbox db"])
      (metis insert_shipment_jobs insert_shipment_db_ok, simp add: I_ok [OF 1(1)])
  then show ?case using I_rest [OF 1(1)] by blast
qed

lemma keeps_bulk_insert_errors: "keeps I L (bulk_insert_errors es)"
  unfolding bulk_insert_errors_def
proof (intro keeps_intro keeps_statement, goal_cases)
  case (1 _ now db r db')
  let ?rows = "map (\<lambda>r. r\<lparr>err_raw_data := jsonb_safe (err_raw_data r)\<rparr>) es"
  from 1 have run: "insert_all (insert_error now) ?rows db = Inr db'"
    by (auto simp: map_sum_def split: sum.splits)
  have "db_ok db' \<and> db_jobs db' = db_jobs db \<and> db_outbox db' = db_outbox db"
  proof (rule insert_all_keeps [OF _ _ run, where I = "\<lambda>d. db_ok d \<and> db_jobs d = db_jobs db \<and> db_outbox d = db_outbox db"])
    show "db_ok d' \<and> db_jobs d' = db_jobs db \<and> db_outbox d' = db_outbox db"
      if "r \<in> set ?rows" "db_ok d \<and> db_jobs d = db_jobs db \<and> db_outbox d = db_outbox db" "insert_error now r d = Inr d'" for r d d'
      using that insert_error_jobs insert_error_db_ok by metis
  qed (use I_ok [OF 1(1)] in simp)
  then show ?case using I_rest [OF 1(1)] by blast
qed

lemma keeps_delete_shipments: "keeps I L (delete_shipments_by_import_id i)"
  unfolding delete_shipments_by_import_id_def
proof (rule keeps_statement)
  show "I db'" if "I db" "Inr (n, db\<lparr>db_shipments := filter p (db_shipments db)\<rparr>) = Inr (r, db')"
    for n p db r db'
    using I_rest [OF that(1) delete_shipments_db_ok [OF I_ok [OF that(1)], of p]] that(2) by simp
qed

lemma keeps_delete_errors: "keeps I L (delete_errors_by_import_id i)"
  unfolding delete_errors_by_import_id_def
proof (rule keeps_statement)
  show "I db'" if "I db" "Inr (n, db\<lparr>db_errors := filter p (db_errors db)\<rparr>) = Inr (r, db')"
    for n p db r db'
    using I_rest [OF that(1) delete_errors_db_ok [OF I_ok [OF that(1)], of p]] that(2) by simp
qed

lemma keeps_find_existing: "keeps I L (find_existing_shipment_codes codes)"
  by (simp add: find_existing_shipment_codes_def keeps_ret keeps_query)

lemma keeps_has_current_ownership: "keeps I L (has_current_ownership i t)"
  by (simp add: has_current_ownership_def keeps_query)

lemmas keeps_repository [keeps_intro] =
  keeps_bulk_insert_shipments keeps_bulk_insert_errors keeps_delete_shipments keeps_delete_errors
  keeps_find_existing keeps_has_current_ownership

end

section \<open>The attempt of a claim\<close>

text \<open>
  While token \<open>t\<close> owns import \<open>i\<close>, the row carries the attempt the claim returned: what the
  worker remembers of its claim stays true until it loses the import. This is what makes its
  decision between another try and the final failure right.
\<close>

definition own_attempt :: "uuid \<Rightarrow> uuid \<Rightarrow> int \<Rightarrow> int \<Rightarrow> database \<Rightarrow> bool" where
  "own_attempt i t a m db \<longleftrightarrow>
     (\<forall>j \<in> set (db_jobs db). job_owned i t j \<longrightarrow> job_attempt_count j = a \<and> job_max_attempts j = m)"

lemma life_of_Running:
  "job_ok j \<Longrightarrow> life_of j = Running t a \<longleftrightarrow>
     job_status j = ImportPROCESSING \<and> job_processing_token j = Some t \<and> job_attempt_count j = a"
  by (auto simp: life_of_def job_ok_def split: import_status.splits option.splits)

lemma job_step_unclaimed:
  assumes "job_step l j j'" "l \<noteq> Claim t" "job_ok j" "job_owned i t j'"
  shows "job_owned i t j \<and> job_attempt_count j' = job_attempt_count j \<and>
    job_max_attempts j' = job_max_attempts j"
proof -
  from assms(4) have run: "life_of j' = Running t (job_attempt_count j')" by (rule life_of_owned)
  have "life_step (job_max_attempts j) l (life_of j) (Running t (job_attempt_count j'))"
    using assms(1) run by (simp add: job_step_def)
  then have "life_of j = Running t (job_attempt_count j')"
    using assms(2) by (cases rule: life_step.cases) auto
  then show ?thesis
    using assms by (auto simp: life_of_Running job_owned_def job_step_def same_import_def)
qed

context db_invariant
begin

definition linked :: "uuid \<Rightarrow> uuid \<Rightarrow> int \<Rightarrow> int \<Rightarrow> database \<Rightarrow> bool" where
  "linked i t a m db \<longleftrightarrow> I db \<and> own_attempt i t a m db"

lemma linked_db_invariant: "db_invariant (linked i t a m) (labels - {Claim t})"
proof
  show "linked i t a m db \<Longrightarrow> db_ok db" for db by (simp add: linked_def I_ok)
next
  fix db db'
  assume link: "linked i t a m db" and ok: "db_ok db'" and ob: "db_outbox db' = db_outbox db"
    and mv: "moved (labels - {Claim t}) (db_jobs db) (db_jobs db')"
  have rows: "\<forall>j \<in> set (db_jobs db). job_ok j"
    using link I_ok [of db] by (auto simp: linked_def db_ok_def jobs_ok_def)
  show "linked i t a m db'"
  proof -
    have "moved labels (db_jobs db) (db_jobs db')"
      using mv unfolding moved_def by (rule list.rel_mono_strong) blast
    then have "I db'" using link ok ob I_moved by (auto simp: linked_def)
    moreover have "own_attempt i t a m db'"
      unfolding own_attempt_def
    proof (intro ballI impI)
      fix j' assume j': "j' \<in> set (db_jobs db')" "job_owned i t j'"
      then obtain j where j: "j \<in> set (db_jobs db)" "j' = j \<or> (\<exists>l \<in> labels - {Claim t}. job_step l j j')"
        using moved_member [OF mv] by blast
      then have "job_owned i t j \<and> job_attempt_count j' = job_attempt_count j \<and>
          job_max_attempts j' = job_max_attempts j"
        using job_step_unclaimed [of _ j j' t i] j' rows by blast
      then show "job_attempt_count j' = a \<and> job_max_attempts j' = m"
        using link j(1) by (auto simp: linked_def own_attempt_def)
    qed
    ultimately show ?thesis by (simp add: linked_def)
  qed
next
  fix db db' j
  assume link: "linked i t a m db" and ok: "db_ok db'" and ob: "db_outbox db' = db_outbox db"
    and new: "db_jobs db' = db_jobs db @ [j]" "life_of j = Waiting 0"
  have "\<not> job_owned i t j" using new(2) by (auto dest: life_of_owned)
  then show "linked i t a m db'"
    using link ok ob new I_created by (auto simp: linked_def own_attempt_def)
qed

lemma keeps_requeue_for_retry:
  assumes "Retry t \<in> labels" "a < m"
  shows "keeps (linked i t a m) L (requeue_for_retry i t reason)"
  unfolding requeue_for_retry_def update_current_processing_import_def
proof (intro keeps_intro keeps_statement, goal_cases)
  case (1 _ now db r db')
  show ?case
  proof (rule db_invariant.I_update_jobs [OF linked_db_invariant 1])
    fix j assume j: "j \<in> set (db_jobs db)" "job_ok j" "job_owned i t j"
    then have "job_attempt_count j < job_max_attempts j"
      using 1(1) assms(2) by (auto simp: linked_def own_attempt_def)
    then have "job_step (Retry t) j (j\<lparr>job_status := ImportPENDING, job_failure_reason := None,
        job_last_failure_reason := Some reason, job_processing_token := None,
        job_locked_by_worker := None\<rparr>)"
      using j by (auto simp: job_step_def life_of_owned life_step_Running life_of_def job_ok_def
          same_import_def ck_failure_reason_terminal_def job_owned_def)
    then show "\<exists>l \<in> labels - {Claim t}. job_step l j (j\<lparr>job_status := ImportPENDING,
        job_failure_reason := None, job_last_failure_reason := Some reason,
        job_processing_token := None, job_locked_by_worker := None\<rparr>)"
      using assms(1) by auto
  qed
qed

end

end
