(* ===== verification/Xlsx_Parser.thy ===== *)
theory Xlsx_Parser
  imports Jsonb Errors
begin

text \<open>
  The workbook parser (app/imports/parsers): the header contract (workbook_contract.py) and
  XlsxParser (xlsx_parser.py), a generator of chunks of normalised rows.

  openpyxl is not part of the repository: \<^verbatim>\<open>load_workbook\<close> is a parameter, a function from the
  path to the worksheets or the exception it raises. A worksheet is what the parser reads of
  it: the result of the header query and the data rows, with the exception the row iterator
  raises after them, if any. A generator is the list of the values it yields and the
  exception that ends it, if any.
\<close>

section \<open>The workbook contract\<close>

definition REQUIRED_WORKBOOK_HEADERS :: "string list" where
  "REQUIRED_WORKBOOK_HEADERS =
     [''shipment_code'', ''customer_name'', ''origin_city'', ''destination_city'',
      ''weight_kg'', ''price'', ''status'']"

definition OPTIONAL_WORKBOOK_HEADERS :: "string list" where
  "OPTIONAL_WORKBOOK_HEADERS = [''delivery_date'']"

definition WORKBOOK_ROW_FIELDS :: "string list" where
  "WORKBOOK_ROW_FIELDS = REQUIRED_WORKBOOK_HEADERS @ OPTIONAL_WORKBOOK_HEADERS"

section \<open>Rows and headers\<close>

record parsed_workbook_row =
  row_number :: nat
  row_values :: pydict

record worksheet =
  ws_header :: "exn + pyval list option"  \<comment> \<open>next(iter_rows(1, 1), None)\<close>
  ws_data :: "pyval list list"            \<comment> \<open>iter_rows(min_row=2)\<close>
  ws_data_error :: "exn option"

type_synonym workbook_loader = "string \<Rightarrow> exn + worksheet list"
type_synonym 'a generator = "'a list \<times> exn option"

text \<open>Equality of dict keys: numbers of all classes compare by value, and NaN equals nothing.\<close>

definition number_of :: "pyval \<Rightarrow> (int \<times> int) option" where
  "number_of v = (case v of
     PBool b \<Rightarrow> Some (if b then 1 else 0, 0) | PInt i \<Rightarrow> Some (i, 0)
   | PFloat (Finite_Float m e) \<Rightarrow> Some (m, e) | _ \<Rightarrow> None)"

definition key_eq :: "pyval \<Rightarrow> pyval \<Rightarrow> bool" where
  "key_eq a b = (case (number_of a, number_of b) of
     (Some (m, e), Some (m', e')) \<Rightarrow>
       (let l = min e e' in m * 2 ^ nat (e - l) = m' * 2 ^ nat (e' - l))
   | (None, None) \<Rightarrow> a = b \<and> a \<noteq> PFloat NaN_Float
   | _ \<Rightarrow> False)"

type_synonym headers = "(pyval \<times> nat) list"

fun header_get :: "headers \<Rightarrow> pyval \<Rightarrow> nat option" where
  "header_get [] k = None"
| "header_get ((k', i) # hs) k = (if key_eq k' k then Some i else header_get hs k)"

definition normalize_text :: "pyval \<Rightarrow> pyval" where
  "normalize_text v = (case v of
     PStr s \<Rightarrow> (case or_none (py_strip s) of None \<Rightarrow> PNone | Some n \<Rightarrow> PStr n)
   | _ \<Rightarrow> v)"

fun collect_headers :: "nat \<Rightarrow> headers \<Rightarrow> pyval list \<Rightarrow> exn + headers" where
  "collect_headers i hs [] = Inr hs"
| "collect_headers i hs (v # vs) =
     (if v = PNone then collect_headers (Suc i) hs vs
      else let header = normalize_text v in
        if header = PNone then collect_headers (Suc i) hs vs
        else if header_get hs header \<noteq> None
          then Inl (WorkbookStructureError ''Workbook contains duplicate headers.'')
        else collect_headers (Suc i) (hs @ [(header, i)]) vs)"

fun join_with :: "string \<Rightarrow> string list \<Rightarrow> string" where
  "join_with sep [] = ''''"
| "join_with sep [x] = x"
| "join_with sep (x # y # ys) = x @ sep @ join_with sep (y # ys)"

definition missing_headers :: "headers \<Rightarrow> string list" where
  "missing_headers hs = filter (\<lambda>h. header_get hs (PStr h) = None) REQUIRED_WORKBOOK_HEADERS"

definition parse_headers :: "worksheet \<Rightarrow> exn + headers" where
  "parse_headers ws =
     (case ws_header ws of
        Inl e \<Rightarrow> Inl e
      | Inr None \<Rightarrow> Inl (WorkbookStructureError ''Workbook is missing a header row.'')
      | Inr (Some header_values) \<Rightarrow>
          (case collect_headers 0 [] header_values of
             Inl e \<Rightarrow> Inl e
           | Inr hs \<Rightarrow>
               if missing_headers hs \<noteq> []
               then Inl (WorkbookStructureError
                      (''Workbook is missing required headers: '' @ join_with '', '' (missing_headers hs)))
               else Inr hs))"

definition dict_setdefault :: "pydict \<Rightarrow> string \<Rightarrow> pyval \<Rightarrow> pydict" where
  "dict_setdefault d k v = (if k \<in> set (map fst d) then d else d @ [(k, v)])"

definition row_cell :: "pyval list \<Rightarrow> headers \<Rightarrow> string \<Rightarrow> pyval" where
  "row_cell vs hs field =
     (case header_get hs (PStr field) of
        None \<Rightarrow> PNone
      | Some index \<Rightarrow> if index \<ge> length vs then PNone else normalize_text (vs ! index))"

definition normalize_row :: "pyval list \<Rightarrow> headers \<Rightarrow> pydict" where
  "normalize_row vs hs =
     (let filled = fold (\<lambda>field d. dict_set d field (row_cell vs hs field)) WORKBOOK_ROW_FIELDS [];
          defaulted = fold (\<lambda>field d. dict_setdefault d field PNone) REQUIRED_WORKBOOK_HEADERS filled
      in dict_setdefault defaulted ''delivery_date'' PNone)"

fun iter_data_rows :: "nat \<Rightarrow> headers \<Rightarrow> pyval list list \<Rightarrow> parsed_workbook_row list" where
  "iter_data_rows n hs [] = []"
| "iter_data_rows n hs (vs # rest) =
     (let row = normalize_row vs hs in
      if list_all (\<lambda>(k, v). v = PNone) row then iter_data_rows (Suc n) hs rest
      else \<lparr>row_number = n, row_values = row\<rparr> # iter_data_rows (Suc n) hs rest)"

section \<open>Chunks\<close>

definition DEFAULT_ROW_CHUNK_SIZE :: int where
  "DEFAULT_ROW_CHUNK_SIZE = 500"

text \<open>
  The chunking loop: a chunk is yielded as soon as it is full, the rest at the end of the
  data, but not when the row iterator raises.
\<close>

fun chunk_rows :: "int \<Rightarrow> bool \<Rightarrow> 'a list \<Rightarrow> 'a list \<Rightarrow> 'a list list" where
  "chunk_rows n ended rows [] = (if rows \<noteq> [] \<and> ended then [rows] else [])"
| "chunk_rows n ended rows (r # rs) =
     (if int (length (rows @ [r])) \<ge> n then (rows @ [r]) # chunk_rows n ended [] rs
      else chunk_rows n ended (rows @ [r]) rs)"

definition structure_exn :: "exn \<Rightarrow> exn" where
  "structure_exn e =
     (if e \<in> {BadZipFile, IndexError} \<or> is_os_error e \<or> is_value_error e
      then WorkbookStructureError ''Workbook structure could not be processed.'' else e)"

definition iter_chunks ::
  "workbook_loader \<Rightarrow> string \<Rightarrow> int \<Rightarrow> parsed_workbook_row list generator" where
  "iter_chunks load path chunk_size =
     (case load path of
        Inl e \<Rightarrow> ([], Some (structure_exn e))
      | Inr [] \<Rightarrow> ([], Some (structure_exn IndexError))
      | Inr (worksheet # _) \<Rightarrow>
          (case parse_headers worksheet of
             Inl e \<Rightarrow> ([], Some (structure_exn e))
           | Inr hs \<Rightarrow>
               (chunk_rows chunk_size (ws_data_error worksheet = None) []
                  (iter_data_rows 2 hs (ws_data worksheet)),
                map_option structure_exn (ws_data_error worksheet))))"

section \<open>Facts\<close>

lemma key_eq_PStr [simp]: "key_eq k (PStr s) \<longleftrightarrow> k = PStr s"
  by (cases k) (auto simp: key_eq_def number_of_def split: pyfloat.splits)

lemma normalize_text_idem [simp]: "normalize_text (normalize_text v) = normalize_text v"
  by (cases v) (auto simp: normalize_text_def or_none_def)

lemma normalize_text_None [simp]: "normalize_text PNone = PNone"
  by (simp add: normalize_text_def)

lemma dict_set_new: "k \<notin> set (map fst d) \<Longrightarrow> dict_set d k v = d @ [(k, v)]"
  by (induction d k v rule: dict_set.induct) auto

lemma fold_dict_set:
  "distinct (map fst d @ fs) \<Longrightarrow> fold (\<lambda>f d. dict_set d f (g f)) fs d = d @ map (\<lambda>f. (f, g f)) fs"
proof (induction fs arbitrary: d)
  case (Cons f fs)
  then have "dict_set d f (g f) = d @ [(f, g f)]" by (intro dict_set_new) auto
  with Cons show ?case by simp
qed simp

lemma fold_dict_setdefault:
  "set fs \<subseteq> set (map fst d) \<Longrightarrow> fold (\<lambda>f d. dict_setdefault d f v) fs d = d"
  by (induction fs) (auto simp: dict_setdefault_def)

lemma distinct_WORKBOOK_ROW_FIELDS: "distinct WORKBOOK_ROW_FIELDS"
  by code_simp

lemma delivery_date_field: "''delivery_date'' \<in> set WORKBOOK_ROW_FIELDS"
  by (simp add: WORKBOOK_ROW_FIELDS_def OPTIONAL_WORKBOOK_HEADERS_def)

lemma normalize_row_eq: "normalize_row vs hs = map (\<lambda>f. (f, row_cell vs hs f)) WORKBOOK_ROW_FIELDS"
proof -
  let ?d = "map (\<lambda>f. (f, row_cell vs hs f)) WORKBOOK_ROW_FIELDS"
  have keys: "set (map fst ?d) = set WORKBOOK_ROW_FIELDS" by (simp add: image_image)
  have "fold (\<lambda>f d. dict_set d f (row_cell vs hs f)) WORKBOOK_ROW_FIELDS [] = ?d"
    using fold_dict_set [of "[]" WORKBOOK_ROW_FIELDS] distinct_WORKBOOK_ROW_FIELDS by simp
  moreover have "fold (\<lambda>f d. dict_setdefault d f PNone) REQUIRED_WORKBOOK_HEADERS ?d = ?d"
    by (rule fold_dict_setdefault) (simp only: keys, simp add: WORKBOOK_ROW_FIELDS_def)
  moreover have "dict_setdefault ?d ''delivery_date'' PNone = ?d"
    unfolding dict_setdefault_def keys using delivery_date_field by simp
  ultimately show ?thesis by (simp only: normalize_row_def Let_def)
qed

lemma dict_get_normalize_row:
  "f \<in> set WORKBOOK_ROW_FIELDS \<Longrightarrow> dict_get (normalize_row vs hs) f = row_cell vs hs f"
  by (simp add: normalize_row_eq dict_get_def map_of_map_restrict)

lemma header_get_append:
  "header_get (hs @ hs') k = (case header_get hs k of None \<Rightarrow> header_get hs' k | Some i \<Rightarrow> Some i)"
  by (induction hs k rule: header_get.induct) auto

lemma collect_headers_column:
  "collect_headers i hs vs = Inr hs' \<Longrightarrow> header_get hs' (PStr f) = Some j \<Longrightarrow>
     header_get hs (PStr f) = Some j \<or>
     i \<le> j \<and> j < i + length vs \<and> normalize_text (vs ! (j - i)) = PStr f"
proof (induction i hs vs rule: collect_headers.induct)
  case (2 i hs v vs)
  show ?case
  proof (cases "v = PNone \<or> normalize_text v = PNone")
    case True
    then have "collect_headers (Suc i) hs vs = Inr hs'"
      using 2(4) by (cases "v = PNone") (auto simp: Let_def)
    with True have "header_get hs (PStr f) = Some j \<or>
        Suc i \<le> j \<and> j < Suc i + length vs \<and> normalize_text (vs ! (j - Suc i)) = PStr f"
      using 2(1,2,5) by blast
    then show ?thesis by (auto simp: nth_Cons')
  next
    case False
    then have rec: "header_get hs (normalize_text v) = None"
      "collect_headers (Suc i) (hs @ [(normalize_text v, i)]) vs = Inr hs'"
      using 2(4) by (auto simp: Let_def split: if_splits)
    with False have "header_get (hs @ [(normalize_text v, i)]) (PStr f) = Some j \<or>
        Suc i \<le> j \<and> j < Suc i + length vs \<and> normalize_text (vs ! (j - Suc i)) = PStr f"
      using 2(3) [OF _ refl] 2(5) by simp
    then show ?thesis
      by (auto simp: header_get_append nth_Cons' split: option.splits if_splits)
  qed
qed simp

lemma row_cell_column:
  assumes "collect_headers 0 [] header = Inr hs" "row_cell vs hs f \<noteq> PNone"
  shows "\<exists>j < length header. j < length vs \<and> normalize_text (header ! j) = PStr f \<and>
           row_cell vs hs f = normalize_text (vs ! j)"
  using assms collect_headers_column [of 0 "[]" header hs f]
  by (auto simp: row_cell_def split: option.splits if_splits)

subsection \<open>Data rows\<close>

definition blank_row :: "headers \<Rightarrow> pyval list \<Rightarrow> bool" where
  "blank_row hs vs \<longleftrightarrow> list_all (\<lambda>(k, v). v = PNone) (normalize_row vs hs)"

lemma iter_data_rows_eq:
  "iter_data_rows n hs rows =
     map (\<lambda>(k, vs). \<lparr>row_number = k, row_values = normalize_row vs hs\<rparr>)
       (filter (\<lambda>(k, vs). \<not> blank_row hs vs) (enumerate n rows))"
  by (induction n hs rows rule: iter_data_rows.induct) (auto simp: blank_row_def Let_def)

lemma sorted_enumerate_fst: "sorted_wrt (<) (map fst (enumerate n xs))"
  by (simp only: map_fst_enumerate sorted_wrt_upt)

lemma iter_data_rows_increasing: "sorted_wrt (<) (map row_number (iter_data_rows n hs rows))"
proof -
  have "sorted_wrt (<) (map fst (filter (\<lambda>(k, vs). \<not> blank_row hs vs) (enumerate n rows)))"
    using sorted_enumerate_fst [of n rows] unfolding sorted_wrt_map by (rule sorted_wrt_filter)
  moreover have "map row_number (iter_data_rows n hs rows) =
      map fst (filter (\<lambda>(k, vs). \<not> blank_row hs vs) (enumerate n rows))"
    by (simp add: iter_data_rows_eq split_def)
  ultimately show ?thesis by simp
qed

subsection \<open>Chunks\<close>

lemma concat_chunk_rows: "concat (chunk_rows n True rows rs) = rows @ rs"
  by (induction n True rows rs rule: chunk_rows.induct) auto

lemma prefix_chunk_rows: "\<exists>rest. rows @ rs = concat (chunk_rows n ended rows rs) @ rest"
  by (induction n ended rows rs rule: chunk_rows.induct) auto

definition chunk_width :: "int \<Rightarrow> nat" where
  "chunk_width n = nat (max 1 n)"

lemma chunk_rows_size:
  "length rows < chunk_width n \<Longrightarrow> c \<in> set (chunk_rows n ended rows rs) \<Longrightarrow>
     c \<noteq> [] \<and> length c \<le> chunk_width n"
  by (induction n ended rows rs rule: chunk_rows.induct)
    (auto simp: chunk_width_def max_def split: if_splits)

lemma chunk_rows_full:
  "length rows < chunk_width n \<Longrightarrow> c \<in> set (butlast (chunk_rows n ended rows rs)) \<Longrightarrow>
     length c = chunk_width n"
proof (induction n ended rows rs rule: chunk_rows.induct)
  case (2 n ended rows r rs)
  show ?case
  proof (cases "int (length (rows @ [r])) \<ge> n")
    case True
    then have "length (rows @ [r]) = chunk_width n"
      using 2(3) by (auto simp: chunk_width_def max_def split: if_splits)
    moreover have "0 < chunk_width n" by (simp add: chunk_width_def)
    ultimately show ?thesis using True 2 by (auto split: if_splits)
  next
    case False
    then have "length (rows @ [r]) < chunk_width n" by (simp add: chunk_width_def)
    then show ?thesis using False 2 by auto
  qed
qed (auto split: if_splits)

end
