(* ===== verification/Row_Validation.thy ===== *)
theory Row_Validation
  imports Import_Repositories Xlsx_Parser
begin

text \<open>
  RowValidationService (app/imports/services/row_validation.py) with its DuplicateTracker
  (duplicate_tracker.py) and the row schema (app/imports/schemas/shipment_row.py): from
  parsed workbook rows to shipments and import errors.

  pydantic is not part of the repository: \<^verbatim>\<open>TypeAdapter.validate_python\<close> for str, Decimal and
  date is a parameter, a function from the cell value to the parsed value or the first message
  of the ValidationError.
\<close>

record adapters =
  ad_str :: "pyval \<Rightarrow> string + string"
  ad_decimal :: "pyval \<Rightarrow> string + decimal"
  ad_date :: "pyval \<Rightarrow> string + pydate"

section \<open>DuplicateTracker\<close>

record duplicate_tracker =
  seen_shipment_codes :: "string set"

definition new_tracker :: duplicate_tracker where
  "new_tracker = \<lparr>seen_shipment_codes = {}\<rparr>"

definition unseen_codes :: "duplicate_tracker \<Rightarrow> string set \<Rightarrow> string set" where
  "unseen_codes tracker shipment_codes = shipment_codes - seen_shipment_codes tracker"

definition remember_codes :: "string set \<Rightarrow> duplicate_tracker \<Rightarrow> duplicate_tracker" where
  "remember_codes shipment_codes tracker =
     tracker\<lparr>seen_shipment_codes := seen_shipment_codes tracker \<union> shipment_codes\<rparr>"

section \<open>ShipmentRow\<close>

record parsed_shipment =
  pr_shipment_code :: string
  pr_customer_name :: string
  pr_origin_city :: string
  pr_destination_city :: string
  pr_weight_kg :: decimal
  pr_price :: decimal
  pr_status :: string
  pr_delivery_date :: "pydate option"

text \<open>The \<^verbatim>\<open>mode="before"\<close> validators of the schema.\<close>

definition normalize_required_text :: "pyval \<Rightarrow> pyval" where
  "normalize_required_text v = (case v of
     PStr s \<Rightarrow> (case or_none (py_strip s) of None \<Rightarrow> PNone | Some n \<Rightarrow> PStr n) | _ \<Rightarrow> v)"

definition normalize_delivery_date :: "pyval \<Rightarrow> pyval" where
  "normalize_delivery_date v = (case v of
     PStr s \<Rightarrow> (case or_none (py_strip s) of None \<Rightarrow> PNone | Some n \<Rightarrow> PStr n) | _ \<Rightarrow> v)"

definition optional_str :: "pyval \<Rightarrow> string option" where
  "optional_str v = (case v of PStr s \<Rightarrow> Some s | _ \<Rightarrow> None)"

definition optional_decimal :: "pyval \<Rightarrow> decimal option" where
  "optional_decimal v = (case v of PDecimal d \<Rightarrow> Some d | _ \<Rightarrow> None)"

text \<open>\<^verbatim>\<open>isinstance(value, date)\<close>; \<^const>\<open>PNone\<close> is None.\<close>

definition optional_date :: "pyval \<Rightarrow> pyval" where
  "optional_date v = (if is_date v then v else PNone)"

text \<open>
  \<^verbatim>\<open>ShipmentRow.model_construct\<close> takes the values as they are, without validation.
  A field keeps the class its adapter gave it, so the fields are typed here.
\<close>

definition model_construct :: "pydict \<Rightarrow> parsed_shipment" where
  "model_construct d =
     (let text = (\<lambda>k. case optional_str (dict_get d k) of Some s \<Rightarrow> s | None \<Rightarrow> '''');
          dec = (\<lambda>k. case optional_decimal (dict_get d k) of Some x \<Rightarrow> x | None \<Rightarrow> Decimal False 0 0)
      in \<lparr>pr_shipment_code = text ''shipment_code'', pr_customer_name = text ''customer_name'',
          pr_origin_city = text ''origin_city'', pr_destination_city = text ''destination_city'',
          pr_weight_kg = dec ''weight_kg'', pr_price = dec ''price'', pr_status = text ''status'',
          pr_delivery_date = (case dict_get d ''delivery_date'' of PDate x \<Rightarrow> Some x | _ \<Rightarrow> None)\<rparr>)"

section \<open>One row\<close>

text \<open>\<^verbatim>\<open>_parse_field\<close> with the adapter the caller picks: an issue or the parsed value.\<close>

definition parse_field :: "(pyval \<Rightarrow> string + pyval) \<Rightarrow> string \<Rightarrow> pyval \<Rightarrow> validation_issue + pyval" where
  "parse_field adapter field_name v = (case adapter v of
     Inl message \<Rightarrow> Inl \<lparr>issue_field = field_name, issue_error = message\<rparr> | Inr x \<Rightarrow> Inr x)"

definition field_adapter :: "adapters \<Rightarrow> string \<Rightarrow> pyval \<Rightarrow> string + pyval" where
  "field_adapter ad field_name v =
     (if field_name \<in> {''weight_kg'', ''price''} then map_sum id PDecimal (ad_decimal ad v)
      else map_sum id PStr (ad_str ad v))"

fun parse_required ::
  "adapters \<Rightarrow> pydict \<Rightarrow> string list \<Rightarrow> validation_issue list \<times> pydict \<Rightarrow> validation_issue list \<times> pydict"
  where
  "parse_required ad vs [] (issues, parsed_values) = (issues, parsed_values)"
| "parse_required ad vs (field_name # fs) (issues, parsed_values) =
     (if dict_get vs field_name = PNone
      then parse_required ad vs fs
             (issues @ [\<lparr>issue_field = field_name, issue_error = ''Field required''\<rparr>], parsed_values)
      else case parse_field (field_adapter ad field_name) field_name (dict_get vs field_name) of
             Inl issue \<Rightarrow> parse_required ad vs fs (issues @ [issue], parsed_values)
           | Inr parsed \<Rightarrow> parse_required ad vs fs (issues, dict_set parsed_values field_name parsed))"

definition parse_delivery_date ::
  "adapters \<Rightarrow> pydict \<Rightarrow> validation_issue list \<times> pydict \<Rightarrow> validation_issue list \<times> pydict" where
  "parse_delivery_date ad vs acc =
     (case acc of (issues, parsed_values) \<Rightarrow>
        if dict_get vs ''delivery_date'' = PNone
        then (issues, dict_set parsed_values ''delivery_date'' PNone)
        else case parse_field (\<lambda>v. map_sum id PDate (ad_date ad v)) ''delivery_date''
                    (dict_get vs ''delivery_date'') of
               Inl issue \<Rightarrow> (issues @ [issue], dict_set parsed_values ''delivery_date'' PNone)
             | Inr parsed \<Rightarrow> (issues, dict_set parsed_values ''delivery_date'' parsed))"

definition validate_row_rules :: "parsed_shipment \<Rightarrow> validation_issue list" where
  "validate_row_rules r = validate_shipment_draft
     \<lparr>draft_shipment_code = pr_shipment_code r, draft_customer_name = pr_customer_name r,
      draft_origin_city = pr_origin_city r, draft_destination_city = pr_destination_city r,
      draft_weight_kg = pr_weight_kg r, draft_price = pr_price r, draft_status = pr_status r,
      draft_delivery_date = (case pr_delivery_date r of None \<Rightarrow> PNone | Some d \<Rightarrow> PDate d)\<rparr>"

definition validate_partial_row_rules :: "pydict \<Rightarrow> validation_issue list" where
  "validate_partial_row_rules d = validate_partial_shipment_draft
     \<lparr>part_shipment_code = optional_str (dict_get d ''shipment_code''),
      part_customer_name = optional_str (dict_get d ''customer_name''),
      part_origin_city = optional_str (dict_get d ''origin_city''),
      part_destination_city = optional_str (dict_get d ''destination_city''),
      part_weight_kg = optional_decimal (dict_get d ''weight_kg''),
      part_price = optional_decimal (dict_get d ''price''),
      part_status = optional_str (dict_get d ''status''),
      part_delivery_date = optional_date (dict_get d ''delivery_date'')\<rparr>"

definition parse_row ::
  "adapters \<Rightarrow> parsed_workbook_row \<Rightarrow> validation_issue list \<times> pydict \<times> parsed_shipment option" where
  "parse_row ad row =
     (let (issues, parsed_values) = parse_delivery_date ad (row_values row)
            (parse_required ad (row_values row) REQUIRED_WORKBOOK_HEADERS ([], []));
          required_parsed = list_all (\<lambda>f. f \<in> set (map fst parsed_values)) REQUIRED_WORKBOOK_HEADERS
      in if \<not> required_parsed
         then (issues @ validate_partial_row_rules parsed_values, parsed_values, None)
         else let shipment_row = model_construct parsed_values in
           (issues @ validate_row_rules shipment_row, parsed_values, Some shipment_row))"

record prepared_row =
  prep_row :: parsed_workbook_row
  prep_issues :: "validation_issue list"
  prep_parsed_row :: "parsed_shipment option"
  prep_shipment_code :: "string option"

definition prepare_row :: "adapters \<Rightarrow> parsed_workbook_row \<Rightarrow> prepared_row" where
  "prepare_row ad row =
     (case parse_row ad row of (parsed_errors, parsed_values, parsed_row) \<Rightarrow>
        \<lparr>prep_row = row, prep_issues = parsed_errors, prep_parsed_row = parsed_row,
         prep_shipment_code = (case parsed_row of
            Some r \<Rightarrow> Some (pr_shipment_code r)
          | None \<Rightarrow> optional_str (dict_get parsed_values ''shipment_code''))\<rparr>)"

section \<open>A chunk\<close>

record validated_shipment_row =
  valid_shipment :: shipment
  valid_row_number :: nat
  valid_raw_data :: pydict

record validation_chunk_result =
  res_total_rows :: nat
  res_processed_rows :: nat
  res_success_count :: nat
  res_failed_count :: nat
  res_shipments :: "shipment list"
  res_import_errors :: "import_error list"
  res_valid_rows :: "validated_shipment_row list"

definition build_import_errors ::
  "uuid \<Rightarrow> nat \<Rightarrow> pydict \<Rightarrow> validation_issue list \<Rightarrow> ('z world_scheme, import_error list) action" where
  "build_import_errors import_id row_num raw_data issues =
     map_action (\<lambda>issue. bindE uuid4 (\<lambda>new_id. ret
       \<lparr>err_id = new_id, err_import_id = import_id, err_row_number = row_num,
        err_field = issue_field issue, err_error = issue_error issue,
        err_raw_data = jsonb_safe (PDict raw_data)\<rparr>)) issues"

definition duplicate_in_file :: validation_issue where
  "duplicate_in_file = \<lparr>issue_field = ''shipment_code'',
     issue_error = ''Shipment code must be unique within the import file.''\<rparr>"

definition duplicate_in_database :: validation_issue where
  "duplicate_in_database = \<lparr>issue_field = ''shipment_code'',
     issue_error = ''Shipment code already exists in the database.''\<rparr>"

record chunk_locals =
  loc_shipments :: "shipment list"
  loc_import_errors :: "import_error list"
  loc_valid_rows :: "validated_shipment_row list"
  loc_seen :: "string set"
  loc_failed :: nat

definition new_shipment :: "uuid \<Rightarrow> uuid \<Rightarrow> parsed_shipment \<Rightarrow> shipment" where
  "new_shipment new_id import_id r =
     \<lparr>ship_id = new_id, ship_import_id = import_id, ship_shipment_code = pr_shipment_code r,
      ship_customer_name = pr_customer_name r, ship_origin_city = pr_origin_city r,
      ship_destination_city = pr_destination_city r, ship_weight_kg = pr_weight_kg r,
      ship_price = pr_price r, ship_status = pr_status r, ship_delivery_date = pr_delivery_date r\<rparr>"

text \<open>The duplicate checks of one row, given the codes seen so far.\<close>

definition duplicate_issues ::
  "string set \<Rightarrow> string set \<Rightarrow> string set \<Rightarrow> string option \<Rightarrow> validation_issue list" where
  "duplicate_issues tracker_seen chunk_seen existing code =
     (case code of
        None \<Rightarrow> []
      | Some c \<Rightarrow>
          if c \<in> tracker_seen \<or> c \<in> chunk_seen then [duplicate_in_file]
          else if c \<in> existing then [duplicate_in_database]
          else [])"

fun validate_rows ::
  "uuid \<Rightarrow> string set \<Rightarrow> string set \<Rightarrow> prepared_row list \<Rightarrow> chunk_locals \<Rightarrow>
     ('z world_scheme, chunk_locals) action" where
  "validate_rows import_id tracker_seen existing [] loc = ret loc"
| "validate_rows import_id tracker_seen existing (p # ps) loc =
     (let row_issues = prep_issues p @
            duplicate_issues tracker_seen (loc_seen loc) existing (prep_shipment_code p);
          loc1 = loc\<lparr>loc_seen := loc_seen loc \<union> set_option (prep_shipment_code p)\<rparr>
      in if row_issues \<noteq> [] then
           bindE (build_import_errors import_id (row_number (prep_row p)) (row_values (prep_row p))
                    row_issues)
             (\<lambda>errors. validate_rows import_id tracker_seen existing ps
               (loc1\<lparr>loc_failed := loc_failed loc + 1,
                  loc_import_errors := loc_import_errors loc @ errors\<rparr>))
         else case prep_parsed_row p of
           None \<Rightarrow> throw AssertionError
         | Some r \<Rightarrow>
             bindE uuid4 (\<lambda>new_id. let s = new_shipment new_id import_id r in
               validate_rows import_id tracker_seen existing ps
                 (loc1\<lparr>loc_shipments := loc_shipments loc @ [s],
                    loc_valid_rows := loc_valid_rows loc @
                      [\<lparr>valid_shipment = s, valid_row_number = row_number (prep_row p),
                        valid_raw_data = row_values (prep_row p)\<rparr>]\<rparr>)))"

text \<open>The tracker is mutated in place by the code; here the new tracker is returned.\<close>

definition validate_chunk ::
  "adapters \<Rightarrow> parsed_workbook_row list \<Rightarrow> duplicate_tracker \<Rightarrow> uuid \<Rightarrow>
     ('z world_scheme, validation_chunk_result \<times> duplicate_tracker) action" where
  "validate_chunk ad chunk tracker import_id =
     (let prepared_rows = map (prepare_row ad) chunk;
          chunk_codes = \<Union> (set_option ` prep_shipment_code ` set prepared_rows)
      in bindE (find_existing_shipment_codes (unseen_codes tracker chunk_codes)) (\<lambda>existing.
         bindE (validate_rows import_id (seen_shipment_codes tracker) existing prepared_rows
                  \<lparr>loc_shipments = [], loc_import_errors = [], loc_valid_rows = [], loc_seen = {},
                   loc_failed = 0\<rparr>) (\<lambda>loc.
         ret (\<lparr>res_total_rows = length chunk,
               res_processed_rows = length (loc_shipments loc) + loc_failed loc,
               res_success_count = length (loc_shipments loc),
               res_failed_count = loc_failed loc,
               res_shipments = loc_shipments loc,
               res_import_errors = loc_import_errors loc,
               res_valid_rows = loc_valid_rows loc\<rparr>,
              remember_codes (loc_seen loc) tracker))))"

section \<open>The race with other importers\<close>

text \<open>The loop over the valid rows: what is retained, and the errors of the rest.\<close>

fun reclassify_rows ::
  "uuid \<Rightarrow> string set \<Rightarrow> validated_shipment_row list \<Rightarrow> validated_shipment_row list \<Rightarrow>
     import_error list \<Rightarrow> ('z world_scheme, validated_shipment_row list \<times> import_error list) action" where
  "reclassify_rows import_id existing [] retained errors = ret (retained, errors)"
| "reclassify_rows import_id existing (v # vs) retained errors =
     (if ship_shipment_code (valid_shipment v) \<notin> existing
      then reclassify_rows import_id existing vs (retained @ [v]) errors
      else bindE (build_import_errors import_id (valid_row_number v) (valid_raw_data v)
                    [duplicate_in_database])
             (\<lambda>new_errors. reclassify_rows import_id existing vs retained (errors @ new_errors)))"

definition reclassify_database_duplicates ::
  "uuid \<Rightarrow> validation_chunk_result \<Rightarrow> ('z world_scheme, validation_chunk_result) action" where
  "reclassify_database_duplicates import_id res =
     bindE (find_existing_shipment_codes
              (set (map (\<lambda>v. ship_shipment_code (valid_shipment v)) (res_valid_rows res))))
       (\<lambda>existing.
         if existing = {} then ret res
         else bindE (reclassify_rows import_id existing (res_valid_rows res) [] (res_import_errors res))
           (\<lambda>(retained, errors). ret
             \<lparr>res_total_rows = res_total_rows res,
              res_processed_rows = res_processed_rows res,
              res_success_count = length retained,
              res_failed_count = res_failed_count res + (length (res_valid_rows res) - length retained),
              res_shipments = map valid_shipment retained,
              res_import_errors = errors,
              res_valid_rows = retained\<rparr>))"

section \<open>The whole workbook\<close>

record validation_result =
  val_total_rows :: nat
  val_processed_rows :: nat
  val_success_count :: nat
  val_failed_count :: nat
  val_shipments :: "shipment list"
  val_import_errors :: "import_error list"

record validation_accumulator =
  acc_total_rows :: nat
  acc_success_count :: nat
  acc_failed_count :: nat
  acc_shipments :: "shipment list"
  acc_import_errors :: "import_error list"

definition new_accumulator :: validation_accumulator where
  "new_accumulator = \<lparr>acc_total_rows = 0, acc_success_count = 0, acc_failed_count = 0,
     acc_shipments = [], acc_import_errors = []\<rparr>"

definition add_chunk ::
  "validation_chunk_result \<Rightarrow> validation_accumulator \<Rightarrow> validation_accumulator" where
  "add_chunk res acc =
     \<lparr>acc_total_rows = acc_total_rows acc + res_total_rows res,
      acc_success_count = acc_success_count acc + res_success_count res,
      acc_failed_count = acc_failed_count acc + res_failed_count res,
      acc_shipments = acc_shipments acc @ res_shipments res,
      acc_import_errors = acc_import_errors acc @ res_import_errors res\<rparr>"

definition to_result :: "validation_accumulator \<Rightarrow> validation_result" where
  "to_result acc =
     \<lparr>val_total_rows = acc_total_rows acc,
      val_processed_rows = acc_success_count acc + acc_failed_count acc,
      val_success_count = acc_success_count acc, val_failed_count = acc_failed_count acc,
      val_shipments = acc_shipments acc, val_import_errors = acc_import_errors acc\<rparr>"

text \<open>The loop of \<^verbatim>\<open>validate\<close> over the generator \<^verbatim>\<open>iter_validated_chunks\<close>.\<close>

fun validate_chunks ::
  "adapters \<Rightarrow> uuid \<Rightarrow> parsed_workbook_row list list \<Rightarrow> exn option \<Rightarrow> duplicate_tracker \<Rightarrow>
     validation_accumulator \<Rightarrow> ('z world_scheme, validation_accumulator) action" where
  "validate_chunks ad import_id [] ended tracker acc =
     (case ended of None \<Rightarrow> ret acc | Some e \<Rightarrow> throw e)"
| "validate_chunks ad import_id (chunk # chunks) ended tracker acc =
     bindE (validate_chunk ad chunk tracker import_id) (\<lambda>(res, tracker').
       validate_chunks ad import_id chunks ended tracker' (add_chunk res acc))"

definition validate ::
  "adapters \<Rightarrow> parsed_workbook_row list generator \<Rightarrow> uuid \<Rightarrow> ('z world_scheme, validation_result) action"
  where
  "validate ad rows import_id =
     bindE (validate_chunks ad import_id (fst rows) (snd rows) new_tracker new_accumulator)
       (\<lambda>acc. ret (to_result acc))"

end
