(* ===== verification/Quiet_Session.thy ===== *)
theory Quiet_Session
  imports Db_Session
begin

text \<open>
  A session nothing interferes with: the script is empty, so no time passes, no other session
  commits and the server fails nothing. Statements are functions of the database and a
  transaction that returns is the change of its body, which gives the services their
  functional reading.
\<close>

lemma advance_quiet [simp]: "script w = [] \<Longrightarrow> advance w = w"
  by (simp add: advance_def next_event_def quiet_def)

lemma next_event_quiet [simp]: "script w = [] \<Longrightarrow> next_event w = quiet"
  by (simp add: next_event_def)

lemma statement_quiet:
  "script w = [] \<Longrightarrow> f (\<lambda>_. False) (tx_time w) (working w) = Inr (r, db) \<Longrightarrow>
     statement f w = (Inr r, w\<lparr>working := db\<rparr>)"
  by (simp add: statement_def quiet_def)

text \<open>The same for one statement, when only the next event is quiet.\<close>

lemma statement_quiet_event:
  "next_event w = quiet \<Longrightarrow> f (\<lambda>_. False) (tx_time w) (working w) = Inr (r, db) \<Longrightarrow>
     statement f w = (Inr r, w\<lparr>working := db, script := tl (script w)\<rparr>)"
  by (cases w) (simp add: statement_def quiet_def advance_def)

lemma statement_quiet_error:
  "script w = [] \<Longrightarrow> f (\<lambda>_. False) (tx_time w) (working w) = Inl e \<Longrightarrow>
     statement f w = (Inl (SqlError e), w)"
  by (simp add: statement_def quiet_def)

lemma query_quiet: "script w = [] \<Longrightarrow> query q w = (Inr (q (working w)), w)"
  unfolding query_def by (subst statement_quiet) auto

lemma commit_quiet: "script w = [] \<Longrightarrow> commit w = (Inr (), w\<lparr>committed := working w, advisory := []\<rparr>)"
  by (simp add: commit_def quiet_def)

lemma with_tx_quiet:
  "body (w\<lparr>working := committed w, tx_time := clock w\<rparr>) = (Inr x, w1) \<Longrightarrow> script w1 = [] \<Longrightarrow>
     with_tx body w = (Inr x, w1\<lparr>committed := working w1, advisory := []\<rparr>)"
  by (simp add: with_tx_def bindE_def begin_tx_def commit_quiet ret_def)

lemma bindE_run [simp]: "m w = (Inr x, w1) \<Longrightarrow> bindE m f w = f x w1"
  by (simp add: bindE_def)

lemma bindE_raise: "m w = (Inl e, w1) \<Longrightarrow> bindE m f w = (Inl e, w1)"
  by (simp add: bindE_def)

lemma gets_run: "gets f w = (Inr (f w), w)"
  by (simp add: gets_def)

lemma modify_run: "modify f w = (Inr (), f w)"
  by (simp add: modify_def)

section \<open>Updates by key\<close>

text \<open>
  A sequence of UPDATEs, each of the row with a given key, is one pass over the table when the
  keys are distinct.
\<close>

lemma sql_update_by_keys:
  assumes "distinct (map k xs)" "\<And>x r. key (f x r) = key r"
  shows "fold (\<lambda>x. sql_update (\<lambda>r. key r = k x) (f x)) xs rows =
    map (\<lambda>r. case List.find (\<lambda>x. k x = key r) xs of None \<Rightarrow> r | Some x \<Rightarrow> f x r) rows"
  using assms(1)
proof (induction xs arbitrary: rows)
  case (Cons x xs)
  have "List.find (\<lambda>x'. k x' = k x) xs = None"
    using Cons.prems by (auto simp: find_None_iff) (metis imageI)
  with Cons show ?case
    by (auto simp: sql_update_def assms(2))
qed simp

lemma sql_update_cong_rows:
  "(\<And>r. r \<in> set rows \<Longrightarrow> p r = q r) \<Longrightarrow> (\<And>r. r \<in> set rows \<Longrightarrow> q r \<Longrightarrow> f r = g r) \<Longrightarrow>
     sql_update p f rows = sql_update q g rows"
  by (auto simp: sql_update_def)

lemma keys_of_updates:
  assumes "\<And>x r. key (f x r) = key r"
  shows "map key (fold (\<lambda>x. sql_update (p x) (f x)) xs rows) = map key rows"
proof (induction xs arbitrary: rows)
  case (Cons x xs)
  have "map key (sql_update (p x) (f x) rows) = map key rows" by (simp add: sql_update_def assms)
  with Cons show ?case by simp
qed simp

end
