(* ===== verification/Row_Facts.thy ===== *)
theory Row_Facts
  imports Row_Validation Quiet_Session
begin

text \<open>
  What row validation guarantees: the rows it accepts conform to the domain rules and carry the
  values the adapters parsed; the verdict on a row depends on the rows before it and the codes
  in the database only, not on how the rows are cut into chunks; every row is either stored or
  reported.
\<close>

section \<open>One row\<close>

lemma bindE_assoc: "bindE (bindE m f) g = bindE m (\<lambda>x. bindE (f x) g)"
  by (rule ext) (simp add: bindE_def split: prod.splits sum.splits)

lemma bindE_ret [simp]: "bindE m ret = m"
  by (rule ext) (simp add: bindE_def ret_def split: prod.splits sum.splits)

lemma ret_bindE [simp]: "bindE (ret x) f = f x"
  by (simp add: bindE_def ret_def)

lemma throw_bindE [simp]: "bindE (throw e) f = throw e"
  by (simp add: bindE_def throw_def)

text \<open>What the dict of parsed values holds after the loop over the required fields.\<close>

lemma parse_required_issues:
  "\<exists>more. fst (parse_required ad vs fs (issues, d)) = issues @ more"
proof (induction fs arbitrary: issues d)
  case (Cons f fs)
  show ?case
    by (auto split: sum.split) (metis Cons append_assoc)+
qed simp

lemma parse_required_clean:
  "fst (parse_required ad vs fs (issues, d)) = [] \<Longrightarrow> distinct fs \<Longrightarrow>
     (\<forall>f \<in> set fs. dict_get vs f \<noteq> PNone \<and>
        (\<exists>v. field_adapter ad f (dict_get vs f) = Inr v \<and>
           map_of (snd (parse_required ad vs fs (issues, d))) f = Some v)) \<and>
     (\<forall>f. f \<notin> set fs \<longrightarrow> map_of (snd (parse_required ad vs fs (issues, d))) f = map_of d f)"
proof (induction fs arbitrary: issues d)
  case (Cons f fs)
  have some: "dict_get vs f \<noteq> PNone"
  proof
    assume "dict_get vs f = PNone"
    then show False using Cons.prems(1)
        parse_required_issues [of ad vs fs "issues @ [\<lparr>issue_field = f, issue_error = ''Field required''\<rparr>]" d]
      by auto
  qed
  moreover obtain v where v: "field_adapter ad f (dict_get vs f) = Inr v"
  proof (cases "field_adapter ad f (dict_get vs f)")
    case (Inl m)
    then show ?thesis using Cons.prems(1) some
        parse_required_issues [of ad vs fs "issues @ [\<lparr>issue_field = f, issue_error = m\<rparr>]" d]
      by (auto simp: parse_field_def)
  qed
  ultimately have step: "parse_required ad vs (f # fs) (issues, d) =
      parse_required ad vs fs (issues, dict_set d f v)"
    by (simp add: parse_field_def)
  show ?case
    using Cons.IH [of issues "dict_set d f v"] Cons.prems some v unfolding step
    by (auto simp del: parse_required.simps)
qed simp

text \<open>
  The reading of a row that the adapters accept: the specification of a clean row, field by
  field, in terms of the cells.
\<close>

definition row_reads :: "adapters \<Rightarrow> pydict \<Rightarrow> parsed_shipment \<Rightarrow> bool" where
  "row_reads ad vs r \<longleftrightarrow>
     (\<forall>f \<in> set REQUIRED_WORKBOOK_HEADERS. dict_get vs f \<noteq> PNone) \<and>
     ad_str ad (dict_get vs ''shipment_code'') = Inr (pr_shipment_code r) \<and>
     ad_str ad (dict_get vs ''customer_name'') = Inr (pr_customer_name r) \<and>
     ad_str ad (dict_get vs ''origin_city'') = Inr (pr_origin_city r) \<and>
     ad_str ad (dict_get vs ''destination_city'') = Inr (pr_destination_city r) \<and>
     ad_decimal ad (dict_get vs ''weight_kg'') = Inr (pr_weight_kg r) \<and>
     ad_decimal ad (dict_get vs ''price'') = Inr (pr_price r) \<and>
     ad_str ad (dict_get vs ''status'') = Inr (pr_status r) \<and>
     (case pr_delivery_date r of
        None \<Rightarrow> dict_get vs ''delivery_date'' = PNone
      | Some d \<Rightarrow> dict_get vs ''delivery_date'' \<noteq> PNone \<and>
          ad_date ad (dict_get vs ''delivery_date'') = Inr d)"

definition row_conforms :: "parsed_shipment \<Rightarrow> bool" where
  "row_conforms r \<longleftrightarrow> pr_status r \<in> ALLOWED_SHIPMENT_STATUSES \<and>
     length (pr_customer_name r) \<le> 150 \<and> \<not> decimal_le_0 (pr_weight_kg r) \<and>
     \<not> decimal_lt_0 (pr_price r)"

lemma validate_row_rules_conforms: "validate_row_rules r = [] \<longleftrightarrow> row_conforms r"
  unfolding validate_row_rules_def validate_shipment_draft_conforms
  by (auto simp: draft_conforms_def row_conforms_def is_date_def split: option.split)

lemma parse_delivery_date_issues:
  "fst (parse_delivery_date ad vs (issues, d)) = [] \<Longrightarrow> issues = []"
  by (auto simp: parse_delivery_date_def split: if_splits sum.splits)

lemma map_of_parse_delivery_date:
  "f \<noteq> ''delivery_date'' \<Longrightarrow> map_of (snd (parse_delivery_date ad vs (issues, d))) f = map_of d f"
  by (auto simp: parse_delivery_date_def split: sum.splits)

lemma parse_delivery_date_clean:
  "fst (parse_delivery_date ad vs (issues, d)) = [] \<Longrightarrow>
     (case dict_get (snd (parse_delivery_date ad vs (issues, d))) ''delivery_date'' of
        PDate x \<Rightarrow> dict_get vs ''delivery_date'' \<noteq> PNone \<and> ad_date ad (dict_get vs ''delivery_date'') = Inr x
      | _ \<Rightarrow> dict_get vs ''delivery_date'' = PNone)"
  by (cases "ad_date ad (dict_get vs ''delivery_date'')")
    (auto simp: parse_delivery_date_def parse_field_def split: if_splits)

lemma distinct_REQUIRED: "distinct REQUIRED_WORKBOOK_HEADERS"
  by code_simp

lemma required_fields:
  "set REQUIRED_WORKBOOK_HEADERS = {''shipment_code'', ''customer_name'', ''origin_city'',
     ''destination_city'', ''weight_kg'', ''price'', ''status''}"
  by (simp add: REQUIRED_WORKBOOK_HEADERS_def)

lemma field_adapter_text:
  "f \<notin> {''weight_kg'', ''price''} \<Longrightarrow>
     field_adapter ad f v = Inr x \<longleftrightarrow> (\<exists>s. ad_str ad v = Inr s \<and> x = PStr s)"
  by (cases "ad_str ad v") (auto simp: field_adapter_def)

lemma field_adapter_number:
  "f \<in> {''weight_kg'', ''price''} \<Longrightarrow>
     field_adapter ad f v = Inr x \<longleftrightarrow> (\<exists>d. ad_decimal ad v = Inr d \<and> x = PDecimal d)"
  by (cases "ad_decimal ad v") (auto simp: field_adapter_def)

text \<open>The issues found while the cells are parsed, before the domain rules.\<close>

definition parse_issues :: "adapters \<Rightarrow> pydict \<Rightarrow> validation_issue list" where
  "parse_issues ad vs = fst (parse_delivery_date ad vs
     (parse_required ad vs REQUIRED_WORKBOOK_HEADERS ([], [])))"

lemma parse_row_clean:
  assumes "parse_issues ad (row_values row) = []"
  shows "\<exists>r d. parse_row ad row = (validate_row_rules r, d, Some r) \<and> row_reads ad (row_values row) r"
proof -
  let ?vs = "row_values row"
  obtain i1 d1 where req: "parse_required ad ?vs REQUIRED_WORKBOOK_HEADERS ([], []) = (i1, d1)"
    by fastforce
  obtain i2 d2 where del: "parse_delivery_date ad ?vs (i1, d1) = (i2, d2)" by fastforce
  have i2: "i2 = []" using assms by (simp add: parse_issues_def req del)
  then have i1: "i1 = []" using parse_delivery_date_issues [of ad ?vs i1 d1] del by simp
  from parse_required_clean [of ad ?vs REQUIRED_WORKBOOK_HEADERS "[]" "[]"]
  have fields: "\<forall>f \<in> set REQUIRED_WORKBOOK_HEADERS. dict_get ?vs f \<noteq> PNone \<and>
      (\<exists>v. field_adapter ad f (dict_get ?vs f) = Inr v \<and> map_of d1 f = Some v)"
    using req i1 distinct_REQUIRED by simp
  have same: "map_of d2 f = map_of d1 f" if "f \<in> set REQUIRED_WORKBOOK_HEADERS" for f
    using map_of_parse_delivery_date [of f ad ?vs i1 d1] that del by (auto simp: required_fields)
  have "f \<in> set (map fst d2)" if "f \<in> set REQUIRED_WORKBOOK_HEADERS" for f
    using fields same [OF that] that by (metis map_of_SomeD image_eqI fst_conv set_map)
  then have present: "list_all (\<lambda>f. f \<in> set (map fst d2)) REQUIRED_WORKBOOK_HEADERS"
    by (simp add: list_all_iff)
  then have prep: "parse_row ad row = (validate_row_rules (model_construct d2), d2,
      Some (model_construct d2))"
    by (simp add: parse_row_def req del i2 Let_def)
  have texts: "\<exists>s. ad_str ad (dict_get ?vs f) = Inr s \<and> dict_get d2 f = PStr s"
    if "f \<in> set REQUIRED_WORKBOOK_HEADERS" "f \<notin> {''weight_kg'', ''price''}" for f
    using fields same [OF that(1)] that
    by (fastforce simp: dict_get_def [of d2] field_adapter_text [OF that(2)])
  have numbers: "\<exists>x. ad_decimal ad (dict_get ?vs f) = Inr x \<and> dict_get d2 f = PDecimal x"
    if "f \<in> {''weight_kg'', ''price''}" for f
  proof -
    have "f \<in> set REQUIRED_WORKBOOK_HEADERS" using that by (auto simp: required_fields)
    then show ?thesis
      using fields same [of f] by (fastforce simp: dict_get_def [of d2] field_adapter_number [OF that])
  qed
  have dates: "case dict_get d2 ''delivery_date'' of
        PDate x \<Rightarrow> dict_get ?vs ''delivery_date'' \<noteq> PNone \<and> ad_date ad (dict_get ?vs ''delivery_date'') = Inr x
      | _ \<Rightarrow> dict_get ?vs ''delivery_date'' = PNone"
    using parse_delivery_date_clean [of ad ?vs i1 d1] by (simp add: del i2)
  obtain code name origin dest st where str:
    "ad_str ad (dict_get ?vs ''shipment_code'') = Inr code" "dict_get d2 ''shipment_code'' = PStr code"
    "ad_str ad (dict_get ?vs ''customer_name'') = Inr name" "dict_get d2 ''customer_name'' = PStr name"
    "ad_str ad (dict_get ?vs ''origin_city'') = Inr origin" "dict_get d2 ''origin_city'' = PStr origin"
    "ad_str ad (dict_get ?vs ''destination_city'') = Inr dest" "dict_get d2 ''destination_city'' = PStr dest"
    "ad_str ad (dict_get ?vs ''status'') = Inr st" "dict_get d2 ''status'' = PStr st"
    using texts [of "''shipment_code''"] texts [of "''customer_name''"] texts [of "''origin_city''"]
      texts [of "''destination_city''"] texts [of "''status''"] unfolding required_fields by auto
  obtain weight price where dec:
    "ad_decimal ad (dict_get ?vs ''weight_kg'') = Inr weight" "dict_get d2 ''weight_kg'' = PDecimal weight"
    "ad_decimal ad (dict_get ?vs ''price'') = Inr price" "dict_get d2 ''price'' = PDecimal price"
    using numbers [of "''weight_kg''"] numbers [of "''price''"] by auto
  have model: "model_construct d2 = \<lparr>pr_shipment_code = code, pr_customer_name = name,
      pr_origin_city = origin, pr_destination_city = dest, pr_weight_kg = weight, pr_price = price,
      pr_status = st, pr_delivery_date = (case dict_get d2 ''delivery_date'' of PDate x \<Rightarrow> Some x | _ \<Rightarrow> None)\<rparr>"
    by (simp add: model_construct_def Let_def str dec optional_str_def optional_decimal_def)
  have "\<forall>f \<in> set REQUIRED_WORKBOOK_HEADERS. dict_get ?vs f \<noteq> PNone" using fields by simp
  then have "row_reads ad ?vs (model_construct d2)"
    unfolding row_reads_def model using dates
    by (cases "dict_get d2 ''delivery_date''") (simp_all add: str dec)
  then show ?thesis using prep by blast
qed

lemma row_reads_unique: "row_reads ad vs r \<Longrightarrow> row_reads ad vs r' \<Longrightarrow> r = r'"
  by (cases r; cases r') (auto simp: row_reads_def split: option.splits)

lemma parse_issues_reads: "row_reads ad vs r \<Longrightarrow> parse_issues ad vs = []"
proof -
  assume reads: "row_reads ad vs r"
  have "fst (parse_required ad vs fs (is, d)) = is"
    if "\<forall>f \<in> set fs. dict_get vs f \<noteq> PNone \<and> (\<exists>v. field_adapter ad f (dict_get vs f) = Inr v)" for fs "is" d
    using that by (induction fs arbitrary: d) (auto simp: parse_field_def)
  moreover have "\<forall>f \<in> set REQUIRED_WORKBOOK_HEADERS. dict_get vs f \<noteq> PNone \<and>
      (\<exists>v. field_adapter ad f (dict_get vs f) = Inr v)"
    using reads unfolding required_fields by (simp add: row_reads_def required_fields field_adapter_def)
  ultimately obtain d where d: "parse_required ad vs REQUIRED_WORKBOOK_HEADERS ([], []) = ([], d)"
    by (metis prod.collapse)
  show ?thesis
    using reads by (auto simp: parse_issues_def d parse_delivery_date_def row_reads_def parse_field_def
        split: option.splits)
qed

lemma prepare_row_issues:
  "prep_issues (prepare_row ad row) = [] \<Longrightarrow> parse_issues ad (row_values row) = []"
  by (auto simp: prepare_row_def parse_row_def parse_issues_def Let_def split: prod.splits if_splits)

lemma prepare_row_clean:
  assumes "prep_issues (prepare_row ad row) = []"
  shows "\<exists>r. prep_parsed_row (prepare_row ad row) = Some r \<and>
     prep_shipment_code (prepare_row ad row) = Some (pr_shipment_code r) \<and>
     row_reads ad (row_values row) r \<and> row_conforms r"
  using parse_row_clean [OF prepare_row_issues [OF assms]] assms
  by (auto simp: prepare_row_def validate_row_rules_conforms)

lemma prepare_row_clean_iff:
  "prep_issues (prepare_row ad row) = [] \<longleftrightarrow> (\<exists>r. row_reads ad (row_values row) r \<and> row_conforms r)"
proof
  assume "\<exists>r. row_reads ad (row_values row) r \<and> row_conforms r"
  then obtain r where r: "row_reads ad (row_values row) r" "row_conforms r" by blast
  obtain r' d where "parse_row ad row = (validate_row_rules r', d, Some r')"
    "row_reads ad (row_values row) r'"
    using parse_row_clean [OF parse_issues_reads [OF r(1)]] by blast
  then show "prep_issues (prepare_row ad row) = []"
    using r row_reads_unique [OF r(1)] by (simp add: prepare_row_def validate_row_rules_conforms)
qed (use prepare_row_clean in blast)

text \<open>The code of a row, which enters the duplicate checks even when the row is rejected.\<close>

definition row_code :: "adapters \<Rightarrow> pydict \<Rightarrow> string option" where
  "row_code ad vs = (if dict_get vs ''shipment_code'' = PNone then None
     else case ad_str ad (dict_get vs ''shipment_code'') of Inl _ \<Rightarrow> None | Inr s \<Rightarrow> Some s)"

lemma parse_required_get:
  "distinct fs \<Longrightarrow> f \<in> set fs \<Longrightarrow> f \<notin> set (map fst d) \<Longrightarrow>
     map_of (snd (parse_required ad vs fs (is, d))) f =
       (if dict_get vs f = PNone then None
        else case field_adapter ad f (dict_get vs f) of Inl _ \<Rightarrow> None | Inr v \<Rightarrow> Some v)"
  and parse_required_other:
  "f \<notin> set fs \<Longrightarrow> map_of (snd (parse_required ad vs fs (is, d))) f = map_of d f"
proof -
  show other: "f \<notin> set fs \<Longrightarrow> map_of (snd (parse_required ad vs fs (is, d))) f = map_of d f" for fs "is" d
    by (induction fs arbitrary: "is" d) (auto simp: parse_field_def split: sum.split)
  have none: "f \<notin> set (map fst d) \<Longrightarrow> map_of d f = None" for d :: pydict
    by (simp add: map_of_eq_None_iff)
  show "distinct fs \<Longrightarrow> f \<in> set fs \<Longrightarrow> f \<notin> set (map fst d) \<Longrightarrow>
     map_of (snd (parse_required ad vs fs (is, d))) f =
       (if dict_get vs f = PNone then None
        else case field_adapter ad f (dict_get vs f) of Inl _ \<Rightarrow> None | Inr v \<Rightarrow> Some v)"
  proof (induction fs arbitrary: "is" d)
    case (Cons g fs)
    have keys: "f \<notin> set (map fst (dict_set d g v))" if "g \<noteq> f" for v
      using Cons.prems(3) that by (simp only: keys_dict_set) simp
    show ?case
    proof (cases "g = f")
      case True
      with Cons.prems show ?thesis by (auto simp: parse_field_def other none split: sum.split)
    next
      case False
      then show ?thesis
        using Cons.IH Cons.prems keys [OF False] by (auto simp: parse_field_def split: sum.split)
    qed
  qed simp
qed

lemma prepare_row_code: "prep_shipment_code (prepare_row ad row) = row_code ad (row_values row)"
proof -
  let ?vs = "row_values row" and ?f = "''shipment_code''"
  obtain i1 d1 where req: "parse_required ad ?vs REQUIRED_WORKBOOK_HEADERS ([], []) = (i1, d1)"
    by fastforce
  obtain i2 d2 where del: "parse_delivery_date ad ?vs (i1, d1) = (i2, d2)" by fastforce
  have "map_of d1 ?f = (if dict_get ?vs ?f = PNone then None
      else case field_adapter ad ?f (dict_get ?vs ?f) of Inl _ \<Rightarrow> None | Inr v \<Rightarrow> Some v)"
    using parse_required_get [OF distinct_REQUIRED, of ?f "[]" ad ?vs "[]"] by (simp add: required_fields req)
  then have d2: "map_of d2 ?f = map_option PStr (row_code ad ?vs)"
    using map_of_parse_delivery_date [of ?f ad ?vs i1 d1] del
    by (auto simp: row_code_def field_adapter_def split: sum.split)
  have "list_all (\<lambda>f. f \<in> set (map fst d2)) REQUIRED_WORKBOOK_HEADERS \<Longrightarrow> map_of d2 ?f \<noteq> None"
    by (simp add: list_all_iff required_fields map_of_eq_None_iff)
  then show ?thesis
    using d2 by (cases "row_code ad ?vs") (auto simp: prepare_row_def parse_row_def req del Let_def
        model_construct_def dict_get_def optional_str_def)
qed

section \<open>A chunk and its reference\<close>

text \<open>
  The reference: the verdict on each row is its own issues plus a duplicate issue that looks at
  the codes of all earlier rows; then the rows are turned into shipments and errors one by one.
\<close>

definition code_set :: "prepared_row list \<Rightarrow> string set" where
  "code_set ps = \<Union> (set_option ` prep_shipment_code ` set ps)"

lemma code_set_simps [simp]:
  "code_set [] = {}" "code_set (p # ps) = set_option (prep_shipment_code p) \<union> code_set ps"
  "code_set (ps @ qs) = code_set ps \<union> code_set qs"
  by (auto simp: code_set_def)

fun verdicts ::
  "string set \<Rightarrow> string set \<Rightarrow> prepared_row list \<Rightarrow> (prepared_row \<times> validation_issue list) list" where
  "verdicts seen existing [] = []"
| "verdicts seen existing (p # ps) =
     (p, prep_issues p @ duplicate_issues seen {} existing (prep_shipment_code p)) #
       verdicts (seen \<union> set_option (prep_shipment_code p)) existing ps"

fun emit_rows ::
  "uuid \<Rightarrow> (prepared_row \<times> validation_issue list) list \<Rightarrow> chunk_locals \<Rightarrow>
     ('z world_scheme, chunk_locals) action" where
  "emit_rows import_id [] loc = ret loc"
| "emit_rows import_id ((p, issues) # vs) loc =
     (if issues \<noteq> [] then
        bindE (build_import_errors import_id (row_number (prep_row p)) (row_values (prep_row p)) issues)
          (\<lambda>errors. emit_rows import_id vs
            (loc\<lparr>loc_failed := loc_failed loc + 1,
               loc_import_errors := loc_import_errors loc @ errors\<rparr>))
      else case prep_parsed_row p of
        None \<Rightarrow> throw AssertionError
      | Some r \<Rightarrow>
          bindE uuid4 (\<lambda>new_id. emit_rows import_id vs
            (loc\<lparr>loc_shipments := loc_shipments loc @ [new_shipment new_id import_id r],
               loc_valid_rows := loc_valid_rows loc @
                 [\<lparr>valid_shipment = new_shipment new_id import_id r,
                   valid_row_number = row_number (prep_row p),
                   valid_raw_data = row_values (prep_row p)\<rparr>]\<rparr>)))"

lemma verdicts_append:
  "verdicts seen ex (ps @ qs) = verdicts seen ex ps @ verdicts (seen \<union> code_set ps) ex qs"
  by (induction ps arbitrary: seen) (auto simp: Un_assoc)

lemma verdicts_cong:
  "(\<And>c. c \<in> code_set ps - seen \<Longrightarrow> c \<in> ex \<longleftrightarrow> c \<in> ex') \<Longrightarrow> verdicts seen ex ps = verdicts seen ex' ps"
proof (induction ps arbitrary: seen)
  case (Cons p ps)
  have "duplicate_issues seen {} ex (prep_shipment_code p) =
      duplicate_issues seen {} ex' (prep_shipment_code p)"
    using Cons.prems by (auto simp: duplicate_issues_def split: option.split)
  moreover have "verdicts (seen \<union> set_option (prep_shipment_code p)) ex ps =
      verdicts (seen \<union> set_option (prep_shipment_code p)) ex' ps"
    by (rule Cons.IH) (use Cons.prems in auto)
  ultimately show ?case by simp
qed simp

lemma fst_verdicts: "map fst (verdicts seen ex ps) = ps"
  by (induction ps arbitrary: seen) auto

definition loc_append :: "chunk_locals \<Rightarrow> chunk_locals \<Rightarrow> chunk_locals" where
  "loc_append a l = \<lparr>loc_shipments = loc_shipments a @ loc_shipments l,
     loc_import_errors = loc_import_errors a @ loc_import_errors l,
     loc_valid_rows = loc_valid_rows a @ loc_valid_rows l,
     loc_seen = loc_seen l, loc_failed = loc_failed a + loc_failed l\<rparr>"

definition empty_locals :: chunk_locals where
  "empty_locals = \<lparr>loc_shipments = [], loc_import_errors = [], loc_valid_rows = [], loc_seen = {},
     loc_failed = 0\<rparr>"

lemma emit_rows_seen:
  "emit_rows i vs (l\<lparr>loc_seen := s\<rparr>) = bindE (emit_rows i vs l) (\<lambda>l. ret (l\<lparr>loc_seen := s\<rparr>))"
proof (induction i vs l rule: emit_rows.induct)
  case (2 i p issues vs l)
  have comm: "l\<lparr>loc_seen := s, loc_failed := f, loc_import_errors := e\<rparr> =
      l\<lparr>loc_failed := f, loc_import_errors := e, loc_seen := s\<rparr>"
    "l\<lparr>loc_seen := s, loc_shipments := g, loc_valid_rows := v\<rparr> =
      l\<lparr>loc_shipments := g, loc_valid_rows := v, loc_seen := s\<rparr>" for f e g v
    by simp_all
  show ?case
    using 2 by (simp add: bindE_assoc comm split: option.split)
qed simp

lemma emit_rows_accumulate:
  "emit_rows i vs (loc_append a l) = bindE (emit_rows i vs l) (\<lambda>l. ret (loc_append a l))"
proof (induction i vs l rule: emit_rows.induct)
  case (2 i p issues vs l)
  have comm: "(loc_append a l)\<lparr>loc_failed := loc_failed (loc_append a l) + 1,
        loc_import_errors := loc_import_errors (loc_append a l) @ e\<rparr> =
      loc_append a (l\<lparr>loc_failed := loc_failed l + 1, loc_import_errors := loc_import_errors l @ e\<rparr>)"
    "(loc_append a l)\<lparr>loc_shipments := loc_shipments (loc_append a l) @ f,
        loc_valid_rows := loc_valid_rows (loc_append a l) @ v\<rparr> =
      loc_append a (l\<lparr>loc_shipments := loc_shipments l @ f, loc_valid_rows := loc_valid_rows l @ v\<rparr>)"
    for f e v
    by (simp_all add: loc_append_def)
  show ?case
    using 2 unfolding emit_rows.simps comm by (simp add: bindE_assoc split: option.split)
qed simp

lemma emit_rows_append:
  "emit_rows i (us @ vs) l = bindE (emit_rows i us l) (\<lambda>l. emit_rows i vs l)"
  by (induction i us l rule: emit_rows.induct) (simp_all add: bindE_assoc split: option.split)

lemma validate_rows_reference:
  "validate_rows i seen ex ps l =
     bindE (emit_rows i (verdicts (seen \<union> loc_seen l) ex ps) l)
       (\<lambda>l'. ret (l'\<lparr>loc_seen := loc_seen l \<union> code_set ps\<rparr>))"
proof (induction i seen ex ps l rule: validate_rows.induct)
  case (2 i seen ex p ps l)
  have dup: "duplicate_issues seen (loc_seen l) ex c = duplicate_issues (seen \<union> loc_seen l) {} ex c" for c
    by (simp add: duplicate_issues_def split: option.split)
  have swap: "l\<lparr>loc_seen := s, loc_failed := f, loc_import_errors := e\<rparr> =
      l\<lparr>loc_failed := f, loc_import_errors := e, loc_seen := s\<rparr>"
    "l\<lparr>loc_seen := s, loc_shipments := g, loc_valid_rows := v\<rparr> =
      l\<lparr>loc_shipments := g, loc_valid_rows := v, loc_seen := s\<rparr>" for s f e g v
    by simp_all
  show ?case
    using 2 by (simp add: bindE_assoc emit_rows_seen dup swap Un_assoc Let_def split: option.split)
qed simp

section \<open>What a chunk produces\<close>

definition error_of :: "uuid \<Rightarrow> prepared_row \<Rightarrow> validation_issue \<Rightarrow> import_error" where
  "error_of i p issue = \<lparr>err_id = 0, err_import_id = i, err_row_number = row_number (prep_row p),
     err_field = issue_field issue, err_error = issue_error issue,
     err_raw_data = jsonb_safe (PDict (row_values (prep_row p)))\<rparr>"

definition clean_rows :: "(prepared_row \<times> validation_issue list) list \<Rightarrow> prepared_row list" where
  "clean_rows vs = map fst (filter (\<lambda>(p, is). is = []) vs)"

definition failed_rows :: "(prepared_row \<times> validation_issue list) list \<Rightarrow> prepared_row list" where
  "failed_rows vs = map fst (filter (\<lambda>(p, is). is \<noteq> []) vs)"

definition row_errors :: "uuid \<Rightarrow> (prepared_row \<times> validation_issue list) list \<Rightarrow> import_error list" where
  "row_errors i vs = concat (map (\<lambda>(p, is). map (error_of i p) is) vs)"

lemma clean_rows_simps [simp]:
  "clean_rows [] = []"
  "clean_rows ((p, is) # vs) = (if is = [] then p # clean_rows vs else clean_rows vs)"
  "clean_rows (us @ vs) = clean_rows us @ clean_rows vs"
  by (simp_all add: clean_rows_def)

lemma failed_rows_simps [simp]:
  "failed_rows [] = []"
  "failed_rows ((p, is) # vs) = (if is = [] then failed_rows vs else p # failed_rows vs)"
  "failed_rows (us @ vs) = failed_rows us @ failed_rows vs"
  by (simp_all add: failed_rows_def)

lemma row_errors_simps [simp]:
  "row_errors i [] = []"
  "row_errors i ((p, is) # vs) = map (error_of i p) is @ row_errors i vs"
  "row_errors i (us @ vs) = row_errors i us @ row_errors i vs"
  by (simp_all add: row_errors_def)

text \<open>
  \<open>drawn u k n ids\<close>: the identifiers \<open>ids\<close> are draws of \<open>u\<close> at increasing positions from \<open>k\<close>
  on and before \<open>n\<close>.
\<close>

definition drawn :: "(nat \<Rightarrow> uuid) \<Rightarrow> nat \<Rightarrow> nat \<Rightarrow> uuid list \<Rightarrow> bool" where
  "drawn u k n ids \<longleftrightarrow> (\<exists>ks. ids = map u ks \<and> sorted_wrt (<) ks \<and> (\<forall>j \<in> set ks. k \<le> j \<and> j < n))"

lemma drawn_Nil [simp]: "drawn u k n []"
  by (simp add: drawn_def)

lemma drawn_append: "drawn u k m xs \<Longrightarrow> drawn u m n ys \<Longrightarrow> k \<le> m \<Longrightarrow> m \<le> n \<Longrightarrow> drawn u k n (xs @ ys)"
  unfolding drawn_def by clarify (rule exI, rule conjI, rule map_append [symmetric],
    fastforce simp: sorted_wrt_append)

lemma drawn_distinct:
  assumes "inj u" "drawn u k n ids"
  shows "distinct ids" "\<forall>x \<in> set ids. \<exists>j. k \<le> j \<and> j < n \<and> x = u j"
proof -
  obtain ks where ks: "ids = map u ks" "sorted_wrt (<) ks" "\<forall>j \<in> set ks. k \<le> j \<and> j < n"
    using assms(2) by (auto simp: drawn_def)
  have "distinct ks" using ks(2) by (simp add: strict_sorted_iff)
  then show "distinct ids"
    using inj_on_subset [OF assms(1) subset_UNIV] ks(1) by (simp add: distinct_map)
  show "\<forall>x \<in> set ids. \<exists>j. k \<le> j \<and> j < n \<and> x = u j" using ks by auto
qed

lemma drawn_Cons:
  assumes "drawn u (Suc k) n ids" "Suc k \<le> n"
  shows "drawn u k n (u k # ids)"
proof -
  have "drawn u k (Suc k) [u k]" by (auto simp: drawn_def intro!: exI [of _ "[k]"])
  from drawn_append [OF this assms(1)] assms(2) show ?thesis by simp
qed

lemma build_import_errors_run:
  "\<exists>es n. build_import_errors i rn raw issues w = (Inr es, w\<lparr>draws := n\<rparr>) \<and> draws w \<le> n \<and>
     drawn (uuid_source w) (draws w) n (map err_id es) \<and>
     map (\<lambda>e. e\<lparr>err_id := 0\<rparr>) es = map (\<lambda>issue. \<lparr>err_id = 0, err_import_id = i, err_row_number = rn,
       err_field = issue_field issue, err_error = issue_error issue,
       err_raw_data = jsonb_safe (PDict raw)\<rparr>) issues"
proof (induction issues arbitrary: w)
  case Nil
  then show ?case
    by (auto simp: build_import_errors_def ret_def intro!: exI [of _ "draws w"])
next
  case (Cons issue issues)
  let ?w = "w\<lparr>draws := Suc (draws w)\<rparr>"
  let ?e = "\<lparr>err_id = uuid_source w (draws w), err_import_id = i, err_row_number = rn,
       err_field = issue_field issue, err_error = issue_error issue,
       err_raw_data = jsonb_safe (PDict raw)\<rparr>"
  obtain es n where IH: "build_import_errors i rn raw issues ?w = (Inr es, ?w\<lparr>draws := n\<rparr>)"
    "Suc (draws w) \<le> n" "drawn (uuid_source w) (Suc (draws w)) n (map err_id es)"
    "map (\<lambda>e. e\<lparr>err_id := 0\<rparr>) es = map (\<lambda>issue. \<lparr>err_id = 0, err_import_id = i, err_row_number = rn,
       err_field = issue_field issue, err_error = issue_error issue,
       err_raw_data = jsonb_safe (PDict raw)\<rparr>) issues"
    using Cons.IH [of ?w] by auto
  have "build_import_errors i rn raw (issue # issues) w = (Inr (?e # es), w\<lparr>draws := n\<rparr>)"
    using IH(1) by (simp add: build_import_errors_def bindE_def uuid4_def ret_def)
  moreover have "drawn (uuid_source w) (draws w) n (map err_id (?e # es))"
    using drawn_Cons IH(2,3) by auto
  ultimately show ?case using IH(2,4) by (auto intro!: exI [of _ "?e # es"] exI [of _ n])
qed

definition shipment_of :: "uuid \<Rightarrow> prepared_row \<Rightarrow> shipment" where
  "shipment_of i p = new_shipment 0 i (the (prep_parsed_row p))"

text \<open>
  What a run of the reference over \<open>vs\<close> adds: valid rows \<open>xs\<close> and errors \<open>es\<close>, up to the
  identifiers drawn for them.
\<close>

definition produced ::
  "(nat \<Rightarrow> uuid) \<Rightarrow> nat \<Rightarrow> nat \<Rightarrow> uuid \<Rightarrow> (prepared_row \<times> validation_issue list) list \<Rightarrow>
     validated_shipment_row list \<Rightarrow> import_error list \<Rightarrow> bool" where
  "produced u k n i vs xs es \<longleftrightarrow> k \<le> n \<and>
     map (\<lambda>v. (valid_shipment v)\<lparr>ship_id := 0\<rparr>) xs = map (shipment_of i) (clean_rows vs) \<and>
     map valid_row_number xs = map (row_number \<circ> prep_row) (clean_rows vs) \<and>
     map valid_raw_data xs = map (row_values \<circ> prep_row) (clean_rows vs) \<and>
     map (\<lambda>e. e\<lparr>err_id := 0\<rparr>) es = row_errors i vs \<and>
     drawn u k n (map (ship_id \<circ> valid_shipment) xs) \<and> drawn u k n (map err_id es)"

lemma produced_append:
  "produced u k m i us xs es \<Longrightarrow> produced u m n i vs ys fs \<Longrightarrow>
     produced u k n i (us @ vs) (xs @ ys) (es @ fs)"
  by (auto simp: produced_def intro: drawn_append)

definition extend_locals ::
  "validated_shipment_row list \<Rightarrow> import_error list \<Rightarrow> nat \<Rightarrow> chunk_locals \<Rightarrow> chunk_locals" where
  "extend_locals xs es f l = l\<lparr>loc_shipments := loc_shipments l @ map valid_shipment xs,
     loc_failed := loc_failed l + f, loc_import_errors := loc_import_errors l @ es,
     loc_valid_rows := loc_valid_rows l @ xs\<rparr>"

lemma extend_locals_simps [simp]:
  "extend_locals [] [] 0 l = l"
  "extend_locals xs es f (extend_locals ys fs g l) = extend_locals (ys @ xs) (fs @ es) (g + f) l"
  by (simp_all add: extend_locals_def)

lemma emit_rows_run:
  "\<forall>(p, is) \<in> set vs. is = [] \<longrightarrow> prep_parsed_row p \<noteq> None \<Longrightarrow>
     \<exists>xs es n. emit_rows i vs l w =
         (Inr (extend_locals xs es (length (failed_rows vs)) l), w\<lparr>draws := n\<rparr>) \<and>
       produced (uuid_source w) (draws w) n i vs xs es"
proof (induction vs arbitrary: l w)
  case Nil
  show ?case
    by (rule exI [of _ "[]"], rule exI [of _ "[]"], rule exI [of _ "draws w"])
      (simp add: ret_def produced_def)
next
  case (Cons v vs)
  obtain p "is" where v: "v = (p, is)" by (cases v)
  show ?case
  proof (cases "is = []")
    case True
    then obtain r where r: "prep_parsed_row p = Some r" using Cons.prems v by auto
    let ?x = "\<lparr>valid_shipment = new_shipment (uuid_source w (draws w)) i r,
        valid_row_number = row_number (prep_row p), valid_raw_data = row_values (prep_row p)\<rparr>"
    let ?w = "w\<lparr>draws := Suc (draws w)\<rparr>"
    have head: "emit_rows i (v # vs) l w = emit_rows i vs (extend_locals [?x] [] 0 l) ?w"
      by (simp add: v True r bindE_def uuid4_def extend_locals_def)
    obtain xs es n where IH: "emit_rows i vs (extend_locals [?x] [] 0 l) ?w =
        (Inr (extend_locals xs es (length (failed_rows vs)) (extend_locals [?x] [] 0 l)), ?w\<lparr>draws := n\<rparr>)"
      "produced (uuid_source w) (Suc (draws w)) n i vs xs es"
      using Cons.IH [of "extend_locals [?x] [] 0 l" ?w] Cons.prems by auto
    have "produced (uuid_source w) (draws w) (Suc (draws w)) i [v] [?x] []"
      by (auto simp: produced_def v True shipment_of_def r new_shipment_def drawn_def
          intro!: exI [of _ "[draws w]"])
    from produced_append [OF this IH(2)]
    have "produced (uuid_source w) (draws w) n i (v # vs) (?x # xs) es" by simp
    moreover have "emit_rows i (v # vs) l w =
        (Inr (extend_locals (?x # xs) es (length (failed_rows (v # vs))) l), w\<lparr>draws := n\<rparr>)"
      unfolding head IH(1) by (simp add: v True)
    ultimately show ?thesis by blast
  next
    case False
    obtain fs m where E: "build_import_errors i (row_number (prep_row p)) (row_values (prep_row p)) is w =
        (Inr fs, w\<lparr>draws := m\<rparr>)" "draws w \<le> m" "drawn (uuid_source w) (draws w) m (map err_id fs)"
      "map (\<lambda>e. e\<lparr>err_id := 0\<rparr>) fs = map (error_of i p) is"
      using build_import_errors_run [of i "row_number (prep_row p)" "row_values (prep_row p)" "is" w]
      by (auto simp: error_of_def)
    have head: "emit_rows i (v # vs) l w = emit_rows i vs (extend_locals [] fs 1 l) (w\<lparr>draws := m\<rparr>)"
      using E(1) by (simp add: v False bindE_def extend_locals_def)
    obtain xs es n where IH: "emit_rows i vs (extend_locals [] fs 1 l) (w\<lparr>draws := m\<rparr>) =
        (Inr (extend_locals xs es (length (failed_rows vs)) (extend_locals [] fs 1 l)), w\<lparr>draws := n\<rparr>)"
      "produced (uuid_source w) m n i vs xs es"
      using Cons.IH [of "extend_locals [] fs 1 l" "w\<lparr>draws := m\<rparr>"] Cons.prems by auto
    have "produced (uuid_source w) (draws w) m i [v] [] fs"
      using E by (simp add: produced_def v False)
    from produced_append [OF this IH(2)]
    have "produced (uuid_source w) (draws w) n i (v # vs) xs (fs @ es)" by simp
    moreover have "emit_rows i (v # vs) l w =
        (Inr (extend_locals xs (fs @ es) (length (failed_rows (v # vs))) l), w\<lparr>draws := n\<rparr>)"
      unfolding head IH(1) by (simp add: v False)
    ultimately show ?thesis by blast
  qed
qed

lemma verdicts_nth:
  "k < length ps \<Longrightarrow> verdicts seen ex ps ! k = (ps ! k, prep_issues (ps ! k) @
     duplicate_issues (seen \<union> code_set (take k ps)) {} ex (prep_shipment_code (ps ! k)))"
proof (induction ps arbitrary: k seen)
  case (Cons p ps)
  then show ?case by (cases k) (auto simp: Un_assoc)
qed simp

lemma length_verdicts [simp]: "length (verdicts seen ex ps) = length ps"
  by (metis fst_verdicts length_map)

lemma verdict_split: "length (clean_rows vs) + length (failed_rows vs) = length vs"
  using filter_length_split [of "\<lambda>(p, is). is = []" vs]
  by (simp add: clean_rows_def failed_rows_def split_def)

lemma clean_verdict:
  "p \<in> set (clean_rows (verdicts seen ex ps)) \<Longrightarrow>
     p \<in> set ps \<and> prep_issues p = [] \<and> (\<forall>c. prep_shipment_code p = Some c \<longrightarrow> c \<notin> seen \<and> c \<notin> ex)"
proof (induction ps arbitrary: seen)
  case (Cons q ps)
  then show ?case by (auto simp: duplicate_issues_def split: option.splits if_splits)
qed simp

lemma clean_codes_distinct:
  "\<forall>p \<in> set ps. prep_issues p = [] \<longrightarrow> prep_shipment_code p \<noteq> None \<Longrightarrow>
     distinct (map prep_shipment_code (clean_rows (verdicts seen ex ps)))"
proof (induction ps arbitrary: seen)
  case (Cons q ps)
  then show ?case by (auto dest!: clean_verdict)
qed simp

lemma verdicts_assertion:
  "\<forall>p \<in> set ps. prep_issues p = [] \<longrightarrow> prep_parsed_row p \<noteq> None \<Longrightarrow>
     \<forall>(p, is) \<in> set (verdicts seen ex ps). is = [] \<longrightarrow> prep_parsed_row p \<noteq> None"
  by (induction ps arbitrary: seen) auto

lemma prepared_assertion:
  "\<forall>p \<in> set (map (prepare_row ad) chunk). prep_issues p = [] \<longrightarrow> prep_parsed_row p \<noteq> None"
  by (auto dest: prepare_row_clean)

lemma prepared_code:
  "\<forall>p \<in> set (map (prepare_row ad) chunk). prep_issues p = [] \<longrightarrow> prep_shipment_code p \<noteq> None"
  by (auto dest: prepare_row_clean)

section \<open>A chunk\<close>

definition chunk_result ::
  "nat \<Rightarrow> nat \<Rightarrow> validated_shipment_row list \<Rightarrow> import_error list \<Rightarrow> validation_chunk_result" where
  "chunk_result rows f xs es =
     \<lparr>res_total_rows = rows, res_processed_rows = length xs + f, res_success_count = length xs,
      res_failed_count = f, res_shipments = map valid_shipment xs, res_import_errors = es,
      res_valid_rows = xs\<rparr>"

lemma extend_empty [simp]:
  "loc_shipments (extend_locals xs es f empty_locals) = map valid_shipment xs"
  "loc_import_errors (extend_locals xs es f empty_locals) = es"
  "loc_valid_rows (extend_locals xs es f empty_locals) = xs"
  "loc_failed (extend_locals xs es f empty_locals) = f"
  by (simp_all add: extend_locals_def empty_locals_def)

lemma locals_record:
  "\<lparr>loc_shipments = [], loc_import_errors = [], loc_valid_rows = [], loc_seen = {}, loc_failed = 0\<rparr> =
     empty_locals"
  by (simp add: empty_locals_def)

lemma validate_chunk_reference:
  "validate_chunk ad chunk tracker i =
     bindE (find_existing_shipment_codes
         (unseen_codes tracker (code_set (map (prepare_row ad) chunk)))) (\<lambda>ex.
       bindE (emit_rows i (verdicts (seen_shipment_codes tracker) ex (map (prepare_row ad) chunk))
           empty_locals) (\<lambda>l.
         ret (\<lparr>res_total_rows = length chunk,
               res_processed_rows = length (loc_shipments l) + loc_failed l,
               res_success_count = length (loc_shipments l), res_failed_count = loc_failed l,
               res_shipments = loc_shipments l, res_import_errors = loc_import_errors l,
               res_valid_rows = loc_valid_rows l\<rparr>,
              remember_codes (code_set (map (prepare_row ad) chunk)) tracker)))"
  unfolding validate_chunk_def Let_def locals_record code_set_def [symmetric]
  by (simp add: validate_rows_reference bindE_assoc empty_locals_def)

lemma validate_chunk_run:
  assumes "find_existing_shipment_codes
      (unseen_codes tracker (code_set (map (prepare_row ad) chunk))) w = (Inr ex, w1)"
  shows "\<exists>xs es n. validate_chunk ad chunk tracker i w =
      (Inr (chunk_result (length chunk)
         (length (failed_rows (verdicts (seen_shipment_codes tracker) ex (map (prepare_row ad) chunk)))) xs es,
       remember_codes (code_set (map (prepare_row ad) chunk)) tracker), w1\<lparr>draws := n\<rparr>) \<and>
    produced (uuid_source w1) (draws w1) n i
      (verdicts (seen_shipment_codes tracker) ex (map (prepare_row ad) chunk)) xs es"
proof -
  let ?vs = "verdicts (seen_shipment_codes tracker) ex (map (prepare_row ad) chunk)"
  obtain xs es n where run: "emit_rows i ?vs empty_locals w1 =
      (Inr (extend_locals xs es (length (failed_rows ?vs)) empty_locals), w1\<lparr>draws := n\<rparr>)"
    "produced (uuid_source w1) (draws w1) n i ?vs xs es"
    using emit_rows_run [where vs = ?vs and i = i and l = empty_locals and w = w1,
        OF verdicts_assertion [OF prepared_assertion]] by blast
  have "validate_chunk ad chunk tracker i w =
      (Inr (chunk_result (length chunk) (length (failed_rows ?vs)) xs es,
       remember_codes (code_set (map (prepare_row ad) chunk)) tracker), w1\<lparr>draws := n\<rparr>)"
    unfolding validate_chunk_reference bindE_def assms
    by (simp add: run(1) ret_def chunk_result_def)
  then show ?thesis using run(2) by blast
qed

lemma validate_chunk_raises:
  "find_existing_shipment_codes (unseen_codes tracker (code_set (map (prepare_row ad) chunk))) w =
     (Inl e, w1) \<Longrightarrow> validate_chunk ad chunk tracker i w = (Inl e, w1)"
  unfolding validate_chunk_reference bindE_def by simp

section \<open>Without interference\<close>

definition stored_codes :: "database \<Rightarrow> string set" where
  "stored_codes db = set (map ship_shipment_code (db_shipments db))"

lemma find_existing_quiet:
  "script w = [] \<Longrightarrow>
     find_existing_shipment_codes codes w = (Inr (stored_codes (working w) \<inter> codes), w)"
  by (auto simp: find_existing_shipment_codes_def query_def statement_def ret_def advance_quiet
      next_event_def quiet_def stored_codes_def Let_def)

definition add_locals :: "validation_accumulator \<Rightarrow> nat \<Rightarrow> chunk_locals \<Rightarrow> validation_accumulator" where
  "add_locals acc k l =
     \<lparr>acc_total_rows = acc_total_rows acc + k,
      acc_success_count = acc_success_count acc + length (loc_shipments l),
      acc_failed_count = acc_failed_count acc + loc_failed l,
      acc_shipments = acc_shipments acc @ loc_shipments l,
      acc_import_errors = acc_import_errors acc @ loc_import_errors l\<rparr>"

lemma emit_rows_empty:
  "emit_rows i vs l = bindE (emit_rows i vs empty_locals) (\<lambda>l'. ret (loc_append l (l'\<lparr>loc_seen := loc_seen l\<rparr>)))"
proof -
  have l: "l = loc_append l (empty_locals\<lparr>loc_seen := loc_seen l\<rparr>)"
    by (simp add: loc_append_def empty_locals_def)
  show ?thesis
    by (subst l, subst emit_rows_accumulate, subst emit_rows_seen) (simp add: bindE_assoc)
qed

text \<open>
  The whole file as one reference run: how the generator cuts the rows into chunks does not show.
\<close>

lemma validate_chunks_reference:
  "script w = [] \<Longrightarrow> validate_chunks ad i chunks None tracker acc w =
     bindE (emit_rows i (verdicts (seen_shipment_codes tracker) (stored_codes (working w))
         (map (prepare_row ad) (concat chunks))) empty_locals)
       (\<lambda>l. ret (add_locals acc (length (concat chunks)) l)) w"
proof (induction chunks arbitrary: tracker acc w)
  case Nil
  then show ?case by (cases acc) (simp add: add_locals_def empty_locals_def)
next
  case (Cons c cs)
  let ?ps = "map (prepare_row ad) c" and ?qs = "map (prepare_row ad) (concat cs)"
  let ?seen = "seen_shipment_codes tracker" and ?codes = "stored_codes (working w)"
  let ?tr = "remember_codes (code_set ?ps) tracker"
  have look: "verdicts ?seen (?codes \<inter> unseen_codes tracker (code_set ?ps)) ?ps =
      verdicts ?seen ?codes ?ps"
    by (rule verdicts_cong) (auto simp: unseen_codes_def)
  obtain xs es n where run: "emit_rows i (verdicts ?seen ?codes ?ps) empty_locals w =
      (Inr (extend_locals xs es (length (failed_rows (verdicts ?seen ?codes ?ps))) empty_locals),
        w\<lparr>draws := n\<rparr>)"
    using emit_rows_run [where vs = "verdicts ?seen ?codes ?ps" and i = i and l = empty_locals
        and w = w, OF verdicts_assertion [OF prepared_assertion]] by blast
  let ?l = "extend_locals xs es (length (failed_rows (verdicts ?seen ?codes ?ps))) empty_locals"
  let ?res = "chunk_result (length c) (length (failed_rows (verdicts ?seen ?codes ?ps))) xs es"
  have chunk: "validate_chunk ad c tracker i w = (Inr (?res, ?tr), w\<lparr>draws := n\<rparr>)"
    unfolding validate_chunk_reference bindE_def find_existing_quiet [OF Cons.prems]
    by (simp add: look run ret_def chunk_result_def)
  have "validate_chunks ad i (c # cs) None tracker acc w =
      validate_chunks ad i cs None ?tr (add_chunk ?res acc) (w\<lparr>draws := n\<rparr>)"
    by (simp add: bindE_def chunk)
  also have "\<dots> = bindE (emit_rows i (verdicts (?seen \<union> code_set ?ps) ?codes ?qs) empty_locals)
       (\<lambda>l. ret (add_locals (add_chunk ?res acc) (length (concat cs)) l)) (w\<lparr>draws := n\<rparr>)"
    using Cons.IH [of "w\<lparr>draws := n\<rparr>" ?tr] Cons.prems by (simp add: remember_codes_def)
  also have "\<dots> = bindE (emit_rows i (verdicts (?seen \<union> code_set ?ps) ?codes ?qs) ?l)
       (\<lambda>l. ret (add_locals acc (length (concat (c # cs))) l)) (w\<lparr>draws := n\<rparr>)"
    by (subst (2) emit_rows_empty) (simp add: bindE_assoc add_locals_def add_chunk_def
        chunk_result_def loc_append_def extend_locals_def empty_locals_def add.assoc)
  also have "\<dots> = bindE (emit_rows i (verdicts ?seen ?codes (?ps @ ?qs)) empty_locals)
       (\<lambda>l. ret (add_locals acc (length (concat (c # cs))) l)) w"
    unfolding verdicts_append emit_rows_append by (simp add: bindE_def run)
  finally show ?case by simp
qed

end
