(* ===== verification/Process_Import.thy ===== *)
theory Process_Import
  imports Job_Lifecycle Row_Facts
begin

text \<open>
  ProcessImportService (app/imports/services/process_import.py): a worker claims an import,
  clears what an earlier attempt left, stores the workbook chunk by chunk in short transactions
  and completes the job; every failure becomes a FAILED job, a requeued job, or nothing when the
  worker has lost the import.

  The local variables that an \<^verbatim>\<open>except\<close> clause reads after a transaction failed are fields added
  to the state: the claim, the generator of chunks with its tracker, the last chunk.
\<close>

record import_worker =
  wk_load :: workbook_loader
  wk_adapters :: adapters
  wk_chunk_size :: int  \<comment> \<open>Settings.processing_row_chunk_size\<close>
  wk_worker_id :: string

record import_run = world +
  lv_claimed :: "claimed_import option"
  lv_rows :: "parsed_workbook_row list generator"
  lv_tracker :: duplicate_tracker
  lv_chunk_result :: "validation_chunk_result option"
  lv_corrected :: "validation_chunk_result option"

section \<open>Steps\<close>

definition require_current_ownership :: "claimed_import \<Rightarrow> ('z world_scheme, unit) action" where
  "require_current_ownership claimed =
     bindE (has_current_ownership (cl_import_id claimed) (cl_processing_token claimed))
       (\<lambda>owned. if \<not> owned then throw StaleImportWorkerError else ret ())"

definition prepare_for_reprocessing :: "claimed_import \<Rightarrow> ('z world_scheme, unit) action" where
  "prepare_for_reprocessing claimed = with_tx
     (bindE (reset_for_reprocessing (cl_import_id claimed) (cl_processing_token claimed)) (\<lambda>updated.
      if \<not> updated then throw StaleImportWorkerError
      else bindE (delete_shipments_by_import_id (cl_import_id claimed)) (\<lambda>_.
           bindE (delete_errors_by_import_id (cl_import_id claimed)) (\<lambda>_. ret ()))))"

definition persist_chunk ::
  "claimed_import \<Rightarrow> validation_chunk_result \<Rightarrow> ('z world_scheme, unit) action" where
  "persist_chunk claimed res =
     bindE (bulk_insert_shipments (res_shipments res)) (\<lambda>_.
     bindE (bulk_insert_errors (res_import_errors res)) (\<lambda>_.
     bindE (record_chunk_counts (cl_import_id claimed) (cl_processing_token claimed)
              (res_total_rows res) (res_success_count res) (res_failed_count res)) (\<lambda>updated.
     if \<not> updated then throw StaleImportWorkerError
     else bindE (heartbeat (cl_import_id claimed) (cl_processing_token claimed)) (\<lambda>updated.
     if \<not> updated then throw StaleImportWorkerError else ret ()))))"

text \<open>
  \<^verbatim>\<open>next(validated_chunks)\<close>: \<^const>\<open>None\<close> is StopIteration. A generator that raised is finished.
\<close>

definition next_validated_chunk ::
  "adapters \<Rightarrow> uuid \<Rightarrow> (import_run, validation_chunk_result option) action" where
  "next_validated_chunk ad import_id =
     bindE (gets lv_rows) (\<lambda>rows.
       case rows of
         ([], None) \<Rightarrow> ret None
       | ([], Some e) \<Rightarrow> bindE (modify (lv_rows_update (\<lambda>_. ([], None)))) (\<lambda>_. throw e)
       | (chunk # chunks, ended) \<Rightarrow>
           bindE (gets lv_tracker) (\<lambda>tracker.
           bindE (modify (lv_rows_update (\<lambda>_. ([], None)))) (\<lambda>_.
           bindE (validate_chunk ad chunk tracker import_id) (\<lambda>(res, tracker').
           bindE (modify (\<lambda>w. w\<lparr>lv_rows := (chunks, ended), lv_tracker := tracker'\<rparr>)) (\<lambda>_.
           ret (Some res))))))"

section \<open>The race with other importers\<close>

text \<open>
  One turn of the loop in \<^verbatim>\<open>_persist_chunk_after_duplicate_race\<close>: \<^const>\<open>None\<close> is the \<^verbatim>\<open>break\<close>.
\<close>

definition race_turn ::
  "claimed_import \<Rightarrow> validation_chunk_result \<Rightarrow> (import_run, validation_chunk_result option) action" where
  "race_turn claimed current =
     bindE (modify (lv_corrected_update (\<lambda>_. None))) (\<lambda>_. with_tx
       (bindE (require_current_ownership claimed) (\<lambda>_.
        bindE (reclassify_database_duplicates (cl_import_id claimed) current) (\<lambda>corrected.
        bindE (modify (lv_corrected_update (\<lambda>_. Some corrected))) (\<lambda>_.
        if res_success_count corrected = res_success_count current then ret None
        else bindE (persist_chunk claimed corrected) (\<lambda>_. ret (Some corrected)))))))"

subsection \<open>Termination of the race\<close>

lemma tame_update_current [tame_intro]: "tame (update_current_processing_import i t v)"
  unfolding update_current_processing_import_def by (intro tame_intro)

lemma tame_has_current_ownership [tame_intro]: "tame (has_current_ownership i t)"
  by (simp add: has_current_ownership_def tame_query)

lemma tame_require [tame_intro]: "tame (require_current_ownership claimed)"
  unfolding require_current_ownership_def by (intro tame_intro)

lemma tame_find_existing [tame_intro]: "tame (find_existing_shipment_codes codes)"
  unfolding find_existing_shipment_codes_def by (intro tame_intro)

lemma tame_bulk_inserts [tame_intro]: "tame (bulk_insert_shipments ss)" "tame (bulk_insert_errors es)"
  unfolding bulk_insert_shipments_def bulk_insert_errors_def by (intro tame_intro)+

lemma tame_build_import_errors [tame_intro]: "tame (build_import_errors i n raw issues)"
  unfolding build_import_errors_def by (intro tame_intro)

lemma tame_persist_chunk [tame_intro]: "tame (persist_chunk claimed res)"
  unfolding persist_chunk_def record_chunk_counts_def heartbeat_def by (intro tame_intro)

lemma tame_reclassify_rows [tame_intro]: "tame (reclassify_rows i ex vs retained errors)"
  by (induction i ex vs retained errors rule: reclassify_rows.induct) (auto intro!: tame_intro)

lemma tame_reclassify [tame_intro]: "tame (reclassify_database_duplicates i res)"
  unfolding reclassify_database_duplicates_def by (intro tame_intro)

lemma tame_emit_rows [tame_intro]: "tame (emit_rows i vs l)"
proof (induction vs arbitrary: l)
  case (Cons v vs)
  show ?case by (cases v, simp only: emit_rows.simps) (intro tame_intro Cons)
qed (simp add: tame_intro)

lemma tame_validate_chunk [tame_intro]: "tame (validate_chunk ad chunk tracker i)"
  unfolding validate_chunk_reference by (intro tame_intro)

lemma tame_deletes [tame_intro]:
  "tame (delete_shipments_by_import_id i)" "tame (delete_errors_by_import_id i)"
  unfolding delete_shipments_by_import_id_def delete_errors_by_import_id_def by (intro tame_intro)+

lemma tame_prepare_for_reprocessing [tame_intro]: "tame (prepare_for_reprocessing claimed)"
  unfolding prepare_for_reprocessing_def reset_for_reprocessing_def by (intro tame_intro)

text \<open>The valid rows shrink whenever the reclassification changes the chunk.\<close>

lemma statement_Inr:
  "statement f w = (Inr r, w') \<Longrightarrow> \<exists>locked db db'. f locked (tx_time w) db = Inr (r, db') \<and>
     db = working (advance w) \<and> w' = (advance w)\<lparr>working := db'\<rparr>"
  by (auto simp: statement_def Let_def split: option.splits sum.splits prod.splits)

lemma find_existing_subset:
  "find_existing_shipment_codes codes w = (Inr ex, w') \<Longrightarrow> ex \<subseteq> codes"
  by (auto simp: find_existing_shipment_codes_def query_def ret_def split: if_splits
      dest!: statement_Inr)

lemma reclassify_rows_retained:
  "reclassify_rows i ex vs retained errors w = (Inr (retained', errors'), w') \<Longrightarrow>
     retained' = retained @ filter (\<lambda>v. ship_shipment_code (valid_shipment v) \<notin> ex) vs"
  by (induction i ex vs retained errors arbitrary: w rule: reclassify_rows.induct)
    (auto simp: ret_def dest!: bindE_Inr split: if_splits)

lemma reclassify_shrinks:
  assumes "reclassify_database_duplicates i res w = (Inr res', w')"
  shows "res' = res \<or> length (res_valid_rows res') < length (res_valid_rows res)"
proof -
  let ?code = "\<lambda>v. ship_shipment_code (valid_shipment v)"
  obtain ex w1 where look: "find_existing_shipment_codes (set (map ?code (res_valid_rows res))) w = (Inr ex, w1)"
    and rest: "(if ex = {} then ret res
         else bindE (reclassify_rows i ex (res_valid_rows res) [] (res_import_errors res))
           (\<lambda>(retained, errors). ret
             \<lparr>res_total_rows = res_total_rows res, res_processed_rows = res_processed_rows res,
              res_success_count = length retained,
              res_failed_count = res_failed_count res + (length (res_valid_rows res) - length retained),
              res_shipments = map valid_shipment retained, res_import_errors = errors,
              res_valid_rows = retained\<rparr>)) w1 = (Inr res', w')"
    using bindE_Inr [OF assms [unfolded reclassify_database_duplicates_def]] by auto
  show ?thesis
  proof (cases "ex = {}")
    case False
    then obtain v where v: "v \<in> set (res_valid_rows res)" "?code v \<in> ex"
      using find_existing_subset [OF look] by auto
    obtain retained where "res_valid_rows res' = retained"
      "retained = filter (\<lambda>v. ?code v \<notin> ex) (res_valid_rows res)"
      using rest False by (auto simp: ret_def dest!: bindE_Inr reclassify_rows_retained)
    then show ?thesis using v by (auto intro: length_filter_less)
  qed (use rest in \<open>simp add: ret_def\<close>)
qed

lemma with_tx_Inl:
  "with_tx body w = (Inl e, w') \<Longrightarrow>
     (\<exists>w1. bindE begin_tx (\<lambda>_. body) w = (Inl e, w1) \<and> w' = rollback w1) \<or>
     (\<exists>x w1. bindE begin_tx (\<lambda>_. body) w = (Inr x, w1) \<and> commit w1 = (Inl e, w'))"
  by (auto simp: with_tx_def bindE_def ret_def split: prod.splits sum.splits)

lemma script_locals [simp]:
  "script (lv_corrected_update f w) = script w" "script (lv_chunk_result_update f w) = script w"
  "script (lv_rows_update g w) = script w" "script (lv_tracker_update h w) = script w"
  "script (lv_claimed_update k w) = script w"
  by (cases w; simp)+

lemma lv_corrected_more: "world.more w = world.more w' \<Longrightarrow> lv_corrected w = lv_corrected w'"
  by (cases w; cases w') auto

lemma lv_rows_more: "world.more w = world.more w' \<Longrightarrow> lv_rows w = lv_rows w'"
  by (cases w; cases w') auto

lemma race_body_corrected:
  assumes "bindE begin_tx (\<lambda>_. bindE (require_current_ownership claimed) (\<lambda>_.
        bindE (reclassify_database_duplicates (cl_import_id claimed) current) (\<lambda>corrected.
        bindE (modify (lv_corrected_update (\<lambda>_. Some corrected))) (\<lambda>_.
        if res_success_count corrected = res_success_count current then ret None
        else bindE (persist_chunk claimed corrected) (\<lambda>_. ret (Some corrected)))))) w = (r, w1)"
    and "lv_corrected w = None" "lv_corrected w1 = Some c"
  shows "(c = current \<or> length (res_valid_rows c) < length (res_valid_rows current)) \<and>
    length (script w1) \<le> length (script w) \<and>
    (res_success_count c = res_success_count current \<longrightarrow> r = Inr None)"
proof -
  define w0 where "w0 = snd (begin_tx w)"
  have w0: "script w0 = script w" "lv_corrected w0 = None"
    using assms(2) by (cases w, simp add: w0_def begin_tx_def)+
  obtain r2 w2 where own: "require_current_ownership claimed w0 = (r2, w2)" by fastforce
  note t2 = tameD [OF tame_require own]
  obtain r3 w3 where re: "reclassify_database_duplicates (cl_import_id claimed) current w2 = (r3, w3)"
    by fastforce
  note t3 = tameD [OF tame_reclassify re]
  have corr: "lv_corrected w2 = None" "lv_corrected w3 = None"
    using lv_corrected_more [of w2 w0] lv_corrected_more [of w3 w2] t2 t3 w0 by auto
  have begin_run: "begin_tx w = (Inr (), w0)" by (simp add: w0_def begin_tx_def)
  obtain u where r2: "r2 = Inr u"
    using assms(1,3) corr by (cases r2) (auto simp: bindE_def begin_run own)
  obtain x where r3: "r3 = Inr x"
    using assms(1,3) corr by (cases r3) (auto simp: bindE_def begin_run own r2 re)
  let ?w4 = "lv_corrected_update (\<lambda>_. Some x) w3"
  have rest: "(if res_success_count x = res_success_count current then ret None
      else bindE (persist_chunk claimed x) (\<lambda>_. ret (Some x))) ?w4 = (r, w1)"
    using assms(1) by (simp add: bindE_def begin_run own r2 re r3 modify_def)
  have "tame (if res_success_count x = res_success_count current then ret None
      else bindE (persist_chunk claimed x) (\<lambda>_. ret (Some x)))"
    by (intro tame_intro)
  note t4 = tameD [OF this rest]
  have "c = x" using lv_corrected_more [of w1 ?w4] t4 assms(3) by simp
  moreover have "res_success_count x = res_success_count current \<longrightarrow> r = Inr None"
    using rest by (auto simp: ret_def)
  moreover have "length (script w1) \<le> length (script w)"
    using t2 t3 t4 w0 by simp
  ultimately show ?thesis using reclassify_shrinks [OF re [unfolded r3]] by simp
qed

lemma race_turn_decreases:
  assumes "race_turn claimed current w = (Inl e, w')" "lv_corrected w' = Some c"
  shows "length (res_valid_rows c) + length (script w') <
    length (res_valid_rows current) + length (script w)"
proof -
  let ?w0 = "lv_corrected_update (\<lambda>_. None) w"
  let ?body = "bindE (require_current_ownership claimed) (\<lambda>_.
        bindE (reclassify_database_duplicates (cl_import_id claimed) current) (\<lambda>corrected.
        bindE (modify (lv_corrected_update (\<lambda>_. Some corrected))) (\<lambda>_.
        if res_success_count corrected = res_success_count current then ret None
        else bindE (persist_chunk claimed corrected) (\<lambda>_. ret (Some corrected)))))"
  have "with_tx ?body ?w0 = (Inl e, w')"
    using assms(1) by (simp add: race_turn_def bindE_def [of "modify (lv_corrected_update (\<lambda>_. None))"])
      (simp add: modify_def)
  from with_tx_Inl [OF this] show ?thesis
  proof
    assume "\<exists>w1. bindE begin_tx (\<lambda>_. ?body) ?w0 = (Inl e, w1) \<and> w' = rollback w1"
    then obtain w1 where run: "bindE begin_tx (\<lambda>_. ?body) ?w0 = (Inl e, w1)" and w': "w' = rollback w1"
      by blast
    have "lv_corrected w1 = Some c" using assms(2) w' lv_corrected_more [of w1 w'] by simp
    from race_body_corrected [OF run _ this] w' show ?thesis by auto
  next
    assume "\<exists>x w1. bindE begin_tx (\<lambda>_. ?body) ?w0 = (Inr x, w1) \<and> commit w1 = (Inl e, w')"
    then obtain x w1 where run: "bindE begin_tx (\<lambda>_. ?body) ?w0 = (Inr x, w1)"
      and cm: "commit w1 = (Inl e, w')" by blast
    have "lv_corrected w1 = Some c"
      using assms(2) lv_corrected_more [of w1 w'] tameD [OF tame_commit cm] by simp
    from race_body_corrected [OF run _ this] commit_raises [OF cm] show ?thesis by auto
  qed
qed

function persist_chunk_after_duplicate_race ::
  "claimed_import \<Rightarrow> exn \<Rightarrow> validation_chunk_result \<Rightarrow> (import_run, validation_chunk_result) action" where
  "persist_chunk_after_duplicate_race claimed original_error current w =
     (case race_turn claimed current w of
        (Inr (Some corrected), w') \<Rightarrow> (Inr corrected, w')
      | (Inr None, w') \<Rightarrow> (Inl original_error, w')
      | (Inl e, w') \<Rightarrow>
          if e = SqlError IntegrityError
          then case lv_corrected w' of
                 None \<Rightarrow> (Inl e, w')
               | Some corrected \<Rightarrow> persist_chunk_after_duplicate_race claimed original_error corrected w'
          else (Inl e, w'))"
  by pat_completeness auto
termination
  by (relation "measure (\<lambda>(claimed, e, current, w). length (res_valid_rows current) + length (script w))")
    (auto dest: race_turn_decreases [OF sym])

declare persist_chunk_after_duplicate_race.simps [simp del]

section \<open>The chunks\<close>

definition next_chunk_tx ::
  "adapters \<Rightarrow> claimed_import \<Rightarrow> (import_run, validation_chunk_result option) action" where
  "next_chunk_tx ad claimed = with_tx
     (bindE (require_current_ownership claimed) (\<lambda>_.
      bindE (next_validated_chunk ad (cl_import_id claimed)) (\<lambda>chunk.
      case chunk of
        None \<Rightarrow> ret None
      | Some res \<Rightarrow>
          bindE (modify (lv_chunk_result_update (\<lambda>_. Some res))) (\<lambda>_.
          bindE (persist_chunk claimed res) (\<lambda>_. ret (Some res))))))"

definition chunk_conflict ::
  "claimed_import \<Rightarrow> exn \<Rightarrow> (import_run, validation_chunk_result option) action" where
  "chunk_conflict claimed e =
     (if e = SqlError IntegrityError
      then bindE (gets lv_chunk_result) (\<lambda>chunk_result.
        case chunk_result of
          None \<Rightarrow> throw e
        | Some res \<Rightarrow>
            bindE (persist_chunk_after_duplicate_race claimed e res) (\<lambda>res'. ret (Some res')))
      else throw e)"

definition process_next_chunk ::
  "adapters \<Rightarrow> claimed_import \<Rightarrow> (import_run, validation_chunk_result option) action" where
  "process_next_chunk ad claimed =
     bindE (modify (lv_chunk_result_update (\<lambda>_. None))) (\<lambda>_.
     try_except (next_chunk_tx ad claimed) (chunk_conflict claimed))"

lemma process_next_chunk_eq:
  "process_next_chunk ad claimed w =
     (case next_chunk_tx ad claimed (lv_chunk_result_update (\<lambda>_. None) w) of
        (Inl e, w') \<Rightarrow> chunk_conflict claimed e w' | (Inr x, w') \<Rightarrow> (Inr x, w'))"
  by (simp add: process_next_chunk_def bindE_def modify_def try_except_def)

subsection \<open>The generator\<close>

text \<open>Actions that leave a local variable \<open>g\<close> alone.\<close>

definition local_var :: "('z world_scheme \<Rightarrow> 'b) \<Rightarrow> bool" where
  "local_var g \<longleftrightarrow> (\<forall>w w'. world.more w = world.more w' \<longrightarrow> g w = g w')"

definition leaves :: "('z world_scheme \<Rightarrow> 'b) \<Rightarrow> ('z world_scheme, 'a) action \<Rightarrow> bool" where
  "leaves g m \<longleftrightarrow> local_var g \<and> (\<forall>w. g (snd (m w)) = g w)"

lemma local_var_rows: "local_var lv_rows"
  unfolding local_var_def by (metis lv_rows_more)

lemma leaves_tame: "local_var g \<Longrightarrow> tame m \<Longrightarrow> leaves g m"
  unfolding leaves_def local_var_def tame_def by blast

lemma leaves_bindE: "leaves g m \<Longrightarrow> (\<And>x. leaves g (f x)) \<Longrightarrow> leaves g (bindE m f)"
  unfolding leaves_def bindE_def by (auto split: prod.split sum.split) (metis snd_conv)+

lemma leaves_try_except: "leaves g m \<Longrightarrow> (\<And>e. leaves g (h e)) \<Longrightarrow> leaves g (try_except m h)"
  unfolding leaves_def try_except_def by (auto split: prod.split sum.split) (metis snd_conv)+

lemma leaves_if: "leaves g m \<Longrightarrow> leaves g m' \<Longrightarrow> leaves g (if b then m else m')"
  by simp

lemma leaves_modify: "local_var g \<Longrightarrow> (\<And>w. g (f w) = g w) \<Longrightarrow> leaves g (modify f)"
  by (simp add: leaves_def modify_def)

lemma leaves_with_tx:
  fixes body :: "('z world_scheme, 'a) action"
  assumes body: "leaves g body"
  shows "leaves g (with_tx body)"
proof -
  from body have g: "local_var g" by (simp add: leaves_def)
  have start: "leaves g (bindE begin_tx (\<lambda>_. body))"
    by (rule leaves_bindE [OF leaves_tame [OF g tame_begin_tx] body])
  have stop: "leaves g (bindE commit (\<lambda>_. ret x))" for x :: 'a
    by (rule leaves_tame [OF g]) (intro tame_intro)
  have undo: "g (rollback w) = g w" for w
    using g unfolding local_var_def by (metis rollback_simps(2))
  have "g (snd (with_tx body w)) = g w" for w
  proof -
    obtain r w1 where run: "bindE begin_tx (\<lambda>_. body) w = (r, w1)" by fastforce
    then have "g w1 = g w" using start unfolding leaves_def by (metis snd_conv)
    then show ?thesis
      using stop undo by (cases r) (simp_all add: with_tx_def run leaves_def)
  qed
  then show ?thesis using g by (simp add: leaves_def)
qed

text \<open>The locals the race does not assign.\<close>

lemma leaves_race_turn:
  assumes g: "local_var g" and upd: "\<And>x w. g (lv_corrected_update (\<lambda>_. x) w) = g w"
  shows "leaves g (race_turn claimed current)"
proof -
  have persist: "leaves g (if res_success_count c = res_success_count current then ret None
      else bindE (persist_chunk claimed c) (\<lambda>_. ret (Some c)))" for c
    by (rule leaves_tame [OF g]) (intro tame_intro)
  have "leaves g (bindE (modify (lv_corrected_update (\<lambda>_. Some c))) (\<lambda>_.
      if res_success_count c = res_success_count current then ret None
      else bindE (persist_chunk claimed c) (\<lambda>_. ret (Some c))))" for c
    by (rule leaves_bindE, rule leaves_modify [OF g], rule upd, rule persist)
  note turn = leaves_bindE [OF leaves_tame [OF g tame_require]
      leaves_bindE [OF leaves_tame [OF g tame_reclassify] this]]
  show ?thesis
    unfolding race_turn_def
    by (rule leaves_bindE, rule leaves_modify [OF g], rule upd, rule leaves_with_tx [OF turn])
qed

lemma leaves_race:
  assumes g: "local_var g" and upd: "\<And>x w. g (lv_corrected_update (\<lambda>_. x) w) = g w"
  shows "leaves g (persist_chunk_after_duplicate_race claimed e current)"
proof -
  have "g (snd (persist_chunk_after_duplicate_race claimed e current w)) = g w" for w
  proof (induction claimed e current w rule: persist_chunk_after_duplicate_race.induct)
    case (1 claimed e current w)
    obtain r w' where run: "race_turn claimed current w = (r, w')" by fastforce
    have "g w' = g w"
      using leaves_race_turn [OF g upd, of claimed current] run by (metis leaves_def snd_conv)
    then have w': "g w' = g w" .
    show ?case
    proof (cases "\<exists>x c. r = Inl x \<and> x = SqlError IntegrityError \<and> lv_corrected w' = Some c")
      case True
      then obtain x c where x: "r = Inl x" "x = SqlError IntegrityError" "lv_corrected w' = Some c" by blast
      have "persist_chunk_after_duplicate_race claimed e current w =
          persist_chunk_after_duplicate_race claimed e c w'"
        by (subst persist_chunk_after_duplicate_race.simps) (simp add: run x)
      then show ?thesis using 1 [OF run [symmetric] x] w' by simp
    next
      case False
      have "snd (persist_chunk_after_duplicate_race claimed e current w) = w'"
        using False by (subst persist_chunk_after_duplicate_race.simps)
          (auto simp: run split: sum.split option.split)
      then show ?thesis using w' by simp
    qed
  qed
  then show ?thesis by (simp add: leaves_def g)
qed

lemma next_validated_chunk_rows:
  "next_validated_chunk ad i w = (Inr (Some res), w') \<Longrightarrow>
     length (fst (lv_rows w')) < length (fst (lv_rows w))"
  by (auto simp: next_validated_chunk_def bindE_def gets_def modify_def ret_def throw_def
      split: prod.splits list.splits option.splits sum.splits)

lemma with_tx_commits:
  "with_tx body w = (Inr x, w') \<Longrightarrow>
     \<exists>w1. bindE begin_tx (\<lambda>_. body) w = (Inr x, w1) \<and> commit w1 = (Inr (), w')"
  by (auto simp: with_tx_def bindE_def ret_def split: prod.splits sum.splits)

lemma lv_chunk_result_more: "world.more w = world.more w' \<Longrightarrow> lv_chunk_result w = lv_chunk_result w'"
  by (cases w; cases w') auto

lemma next_validated_chunk_result:
  assumes "next_validated_chunk ad i w = (r, w')"
  shows "lv_chunk_result w' = lv_chunk_result w"
proof (cases "lv_rows w")
  case (Pair chunks ended)
  show ?thesis
  proof (cases chunks)
    case Nil
    with Pair assms show ?thesis
      by (cases ended) (auto simp: next_validated_chunk_def bindE_def gets_def modify_def ret_def throw_def)
  next
    case (Cons c cs)
    obtain r1 w1 where val: "validate_chunk ad c (lv_tracker w) i (lv_rows_update (\<lambda>_. ([], None)) w) = (r1, w1)"
      by fastforce
    have "lv_chunk_result w1 = lv_chunk_result w"
      using lv_chunk_result_more [of w1] tameD [OF tame_validate_chunk val] by simp
    with Pair Cons assms val show ?thesis
      by (cases r1) (auto simp: next_validated_chunk_def bindE_def gets_def modify_def ret_def)
  qed
qed

text \<open>
  A run of the body of the chunk transaction: whenever \<^verbatim>\<open>chunk_result\<close> is assigned, the generator
  has advanced.
\<close>

lemma next_chunk_body:
  assumes run: "bindE begin_tx (\<lambda>_. bindE (require_current_ownership claimed) (\<lambda>_.
      bindE (next_validated_chunk ad (cl_import_id claimed)) (\<lambda>chunk.
      case chunk of None \<Rightarrow> ret None
      | Some res \<Rightarrow> bindE (modify (lv_chunk_result_update (\<lambda>_. Some res))) (\<lambda>_.
          bindE (persist_chunk claimed res) (\<lambda>_. ret (Some res)))))) w = (r, w1)"
    and start: "lv_chunk_result w = None"
    and some: "lv_chunk_result w1 \<noteq> None \<or> r = Inr (Some c)"
  shows "length (fst (lv_rows w1)) < length (fst (lv_rows w))"
proof -
  define w0 where "w0 = w\<lparr>working := committed w, tx_time := clock w\<rparr>"
  have tx: "begin_tx w = (Inr (), w0)" and w0: "lv_rows w0 = lv_rows w" "lv_chunk_result w0 = None"
    using start by (simp_all add: begin_tx_def w0_def)
  obtain r2 w2 where own: "require_current_ownership claimed w0 = (r2, w2)" by fastforce
  have rows2: "lv_rows w2 = lv_rows w" "lv_chunk_result w2 = None"
    using tameD [OF tame_require own] lv_rows_more [of w2 w0] lv_chunk_result_more [of w2 w0] w0 by auto
  obtain r3 w3 where nx: "next_validated_chunk ad (cl_import_id claimed) w2 = (r3, w3)" by fastforce
  have none3: "lv_chunk_result w3 = None"
    using next_validated_chunk_result [OF nx] rows2 by simp
  obtain u where r2: "r2 = Inr u"
    using run some rows2 by (cases r2) (auto simp: bindE_def tx own)
  obtain res where r3: "r3 = Inr (Some res)"
    using run some none3 by (cases r3; cases "projr r3") (auto simp: bindE_def tx own r2 nx ret_def)
  have rest: "bindE (persist_chunk claimed res) (\<lambda>_. ret (Some res))
      (lv_chunk_result_update (\<lambda>_. Some res) w3) = (r, w1)"
    using run by (simp add: bindE_def tx own r2 nx r3 modify_def)
  have "tame (bindE (persist_chunk claimed res) (\<lambda>_. ret (Some res)))" by (intro tame_intro)
  from tameD [OF this rest] have "lv_rows w1 = lv_rows w3"
    using lv_rows_more [of w1 "lv_chunk_result_update (\<lambda>_. Some res) w3"] by simp
  then show ?thesis using next_validated_chunk_rows [OF nx [unfolded r3]] rows2 by simp
qed

lemma lv_simps:
  "lv_rows (lv_chunk_result_update f w) = lv_rows w"
  "lv_chunk_result (lv_chunk_result_update (\<lambda>_. x) w) = x"
  "lv_rows (lv_corrected_update h w) = lv_rows w"
  by simp_all

lemma chunk_conflict_Inr:
  "chunk_conflict claimed e w = (Inr (Some c), w') \<Longrightarrow>
     e = SqlError IntegrityError \<and> (\<exists>res. lv_chunk_result w = Some res \<and>
       persist_chunk_after_duplicate_race claimed e res w = (Inr c, w'))"
  by (auto simp: chunk_conflict_def bindE_def gets_def throw_def ret_def
      split: if_splits option.splits prod.splits sum.splits)

lemma process_next_chunk_rows:
  assumes "process_next_chunk ad claimed w = (Inr (Some c), w')"
  shows "length (fst (lv_rows w')) < length (fst (lv_rows w))"
proof -
  let ?w0 = "lv_chunk_result_update (\<lambda>_. None) w"
  obtain r w2 where tx: "next_chunk_tx ad claimed ?w0 = (r, w2)" by fastforce
  show ?thesis
  proof (cases r)
    case (Inr x)
    with tx assms have x: "x = Some c" "w2 = w'" by (simp_all add: process_next_chunk_eq)
    from with_tx_commits [OF tx [unfolded Inr next_chunk_tx_def]] obtain w1 where
      w1: "bindE begin_tx (\<lambda>_. bindE (require_current_ownership claimed) (\<lambda>_.
        bindE (next_validated_chunk ad (cl_import_id claimed)) (\<lambda>chunk.
        case chunk of None \<Rightarrow> ret None
        | Some res \<Rightarrow> bindE (modify (lv_chunk_result_update (\<lambda>_. Some res))) (\<lambda>_.
            bindE (persist_chunk claimed res) (\<lambda>_. ret (Some res)))))) ?w0 = (Inr x, w1)"
      "commit w1 = (Inr (), w2)" by blast
    have "lv_rows w' = lv_rows w1"
      using tameD [OF tame_commit w1(2)] lv_rows_more [of w2 w1] x by simp
    then show ?thesis using next_chunk_body [OF w1(1), of c] x by simp
  next
    case (Inl e)
    with tx assms have "chunk_conflict claimed e w2 = (Inr (Some c), w')"
      by (simp add: process_next_chunk_eq)
    from chunk_conflict_Inr [OF this] obtain res where e: "lv_chunk_result w2 = Some res"
      and race: "persist_chunk_after_duplicate_race claimed e res w2 = (Inr c, w')" by blast
    have w': "lv_rows w' = lv_rows w2"
      using leaves_race [OF local_var_rows lv_simps(3), of claimed e res] race by (metis leaves_def snd_conv)
    from with_tx_Inl [OF tx [unfolded Inl next_chunk_tx_def]] show ?thesis
    proof (elim disjE exE conjE, goal_cases)
      case (1 w1)
      then have "lv_rows w2 = lv_rows w1" "lv_chunk_result w2 = lv_chunk_result w1"
        by (simp_all add: rollback_def)
      then show ?thesis using next_chunk_body [OF 1(1), of c] e w' by (metis lv_simps option.distinct(1))
    next
      case (2 x w1)
      then have "lv_rows w2 = lv_rows w1" "lv_chunk_result w2 = lv_chunk_result w1"
        using tameD [OF tame_commit 2(2)] lv_rows_more lv_chunk_result_more by auto
      then show ?thesis using next_chunk_body [OF 2(1), of c] e w' by (metis lv_simps option.distinct(1))
    qed
  qed
qed

text \<open>The loop over the chunks, with the three running totals.\<close>

function process_chunks ::
  "adapters \<Rightarrow> claimed_import \<Rightarrow> nat \<times> nat \<times> nat \<Rightarrow> (import_run, nat \<times> nat \<times> nat) action" where
  "process_chunks ad claimed totals w =
     (case process_next_chunk ad claimed w of
        (Inl e, w') \<Rightarrow> (Inl e, w')
      | (Inr None, w') \<Rightarrow> (Inr totals, w')
      | (Inr (Some res), w') \<Rightarrow>
          (case totals of (total_rows, success_count, failed_count) \<Rightarrow>
             process_chunks ad claimed
               (total_rows + res_total_rows res, success_count + res_success_count res,
                failed_count + res_failed_count res) w'))"
  by pat_completeness auto
termination
  by (relation "measure (\<lambda>(ad, claimed, totals, w). length (fst (lv_rows w)))")
    (auto dest: process_next_chunk_rows [OF sym])

declare process_chunks.simps [simp del]

section \<open>Failures\<close>

definition mark_failed :: "claimed_import \<Rightarrow> string \<Rightarrow> ('z world_scheme, unit) action" where
  "mark_failed claimed reason =
     bindE (with_tx (fail_import (cl_import_id claimed) (cl_processing_token claimed) reason))
       (\<lambda>failed. ret ())"

definition handle_operational_failure :: "claimed_import \<Rightarrow> ('z world_scheme, unit) action" where
  "handle_operational_failure claimed =
     (if cl_attempt_count claimed \<ge> cl_max_attempts claimed
      then mark_failed claimed ''Import processing failed after the maximum number of attempts.''
      else bindE (with_tx (requeue_for_retry (cl_import_id claimed) (cl_processing_token claimed)
               ''Import processing encountered a temporary database error.''))
        (\<lambda>requeued.
          if \<not> requeued then ret ()
          else throw (RetryableImportProcessingError ''Import processing will be retried.'')))"

definition str_or :: "string \<Rightarrow> string \<Rightarrow> string" where
  "str_or s d = (if s = [] then d else s)"

text \<open>The \<^verbatim>\<open>except\<close> clauses of \<^verbatim>\<open>run\<close>, in order.\<close>

definition run_handler :: "exn \<Rightarrow> (import_run, unit) action" where
  "run_handler e =
     bindE (gets lv_claimed) (\<lambda>claimed_import.
       case e of
         StaleImportWorkerError \<Rightarrow> ret ()
       | WorkbookStructureError message \<Rightarrow>
           (case claimed_import of
              None \<Rightarrow> ret ()
            | Some claimed \<Rightarrow>
                mark_failed claimed (str_or message ''Workbook structure could not be processed.''))
       | SqlError OperationalError \<Rightarrow>
           (case claimed_import of
              None \<Rightarrow> throw (RetryableImportProcessingError ''Database operation failed before claim.'')
            | Some claimed \<Rightarrow> handle_operational_failure claimed)
       | _ \<Rightarrow>
           (case claimed_import of
              None \<Rightarrow> throw e
            | Some claimed \<Rightarrow> mark_failed claimed ''Import processing failed.''))"

section \<open>The run\<close>

text \<open>A call starts with a session of its own and its locals unassigned.\<close>

definition new_locals :: "import_run \<Rightarrow> import_run" where
  "new_locals w = w\<lparr>working := committed w, lv_claimed := None, lv_rows := ([], None), lv_tracker := new_tracker,
     lv_chunk_result := None, lv_corrected := None\<rparr>"

definition claim_step :: "import_worker \<Rightarrow> uuid \<Rightarrow> uuid \<Rightarrow> (import_run, unit) action" where
  "claim_step wk import_id processing_token = with_tx
     (bindE (claim_pending_import import_id processing_token (wk_worker_id wk)) (\<lambda>claimed.
      modify (lv_claimed_update (\<lambda>_. claimed))))"

definition start_chunks :: "import_worker \<Rightarrow> claimed_import \<Rightarrow> (import_run, unit) action" where
  "start_chunks wk claimed = modify (\<lambda>w. w\<lparr>
     lv_rows := iter_chunks (wk_load wk) (cl_stored_file_path claimed) (wk_chunk_size wk),
     lv_tracker := new_tracker\<rparr>)"

definition finish_import :: "claimed_import \<Rightarrow> nat \<times> nat \<times> nat \<Rightarrow> ('z world_scheme, unit) action" where
  "finish_import claimed totals =
     (case totals of (total_rows, success_count, failed_count) \<Rightarrow> with_tx
       (bindE (complete_import (cl_import_id claimed) (cl_processing_token claimed)
                 total_rows success_count failed_count) (\<lambda>updated.
        if \<not> updated then throw StaleImportWorkerError else ret ())))"

definition process_claimed :: "import_worker \<Rightarrow> claimed_import \<Rightarrow> (import_run, unit) action" where
  "process_claimed wk claimed =
     bindE (prepare_for_reprocessing claimed) (\<lambda>_.
     bindE (start_chunks wk claimed) (\<lambda>_.
     bindE (process_chunks (wk_adapters wk) claimed (0, 0, 0)) (\<lambda>totals.
     finish_import claimed totals)))"

definition process_import_run :: "import_worker \<Rightarrow> uuid \<Rightarrow> (import_run, unit) action" where
  "process_import_run wk import_id =
     bindE (modify new_locals) (\<lambda>_.
     bindE uuid4 (\<lambda>processing_token.
     try_except
       (bindE (claim_step wk import_id processing_token) (\<lambda>_.
        bindE (gets lv_claimed) (\<lambda>claimed_import.
        case claimed_import of
          None \<Rightarrow> ret ()
        | Some claimed \<Rightarrow> process_claimed wk claimed)))
       run_handler))"

lemma lv_claimed_more: "world.more w = world.more w' \<Longrightarrow> lv_claimed w = lv_claimed w'"
  by (cases w; cases w') auto

lemma local_var_claimed: "local_var lv_claimed"
  unfolding local_var_def by (metis lv_claimed_more)

lemma leaves_process_next_chunk: "leaves lv_claimed (process_next_chunk ad claimed)"
proof -
  note t = leaves_tame [OF local_var_claimed] and u = leaves_modify [OF local_var_claimed]
  have nx: "leaves lv_claimed (next_validated_chunk ad i)" for i
  proof -
    have "lv_claimed w' = lv_claimed w" if "next_validated_chunk ad i w = (r, w')" for w r w'
    proof (cases "lv_rows w")
      case (Pair chunks ended)
      show ?thesis
      proof (cases chunks)
        case Nil
        with Pair that show ?thesis
          by (cases ended) (auto simp: next_validated_chunk_def bindE_def gets_def modify_def ret_def throw_def)
      next
        case (Cons c cs)
        obtain r1 w1 where val:
          "validate_chunk ad c (lv_tracker w) i (lv_rows_update (\<lambda>_. ([], None)) w) = (r1, w1)" by fastforce
        have "lv_claimed w1 = lv_claimed (lv_rows_update (\<lambda>_. ([], None)) w)"
          using tameD [OF tame_validate_chunk val] local_var_claimed unfolding local_var_def by blast
        with Pair Cons that val show ?thesis
          by (cases r1) (auto simp: next_validated_chunk_def bindE_def gets_def modify_def ret_def)
      qed
    qed
    then show ?thesis unfolding leaves_def using local_var_claimed by (metis surj_pair snd_conv)
  qed
  have body: "leaves lv_claimed (case x of None \<Rightarrow> ret None
      | Some res \<Rightarrow> bindE (modify (lv_chunk_result_update (\<lambda>_. Some res))) (\<lambda>_.
          bindE (persist_chunk claimed res) (\<lambda>_. ret (Some res))))" for x
  proof (cases x)
    case (Some res)
    have "leaves lv_claimed (bindE (modify (lv_chunk_result_update (\<lambda>_. Some res))) (\<lambda>_.
        bindE (persist_chunk claimed res) (\<lambda>_. ret (Some res))))"
      by (rule leaves_bindE [OF u leaves_bindE [OF t [OF tame_persist_chunk] t [OF tame_ret]]]) simp
    with Some show ?thesis by simp
  qed (simp add: t tame_ret)
  have tx: "leaves lv_claimed (next_chunk_tx ad claimed)"
    unfolding next_chunk_tx_def
    by (rule leaves_with_tx [OF leaves_bindE [OF t [OF tame_require] leaves_bindE [OF nx body]]])
  have race: "leaves lv_claimed (persist_chunk_after_duplicate_race claimed e res)" for e res
    by (rule leaves_race [OF local_var_claimed]) simp
  have conflict: "leaves lv_claimed (chunk_conflict claimed e)" for e
  proof -
    have "leaves lv_claimed (case x of None \<Rightarrow> throw e
        | Some res \<Rightarrow> bindE (persist_chunk_after_duplicate_race claimed e res) (\<lambda>res'. ret (Some res')))" for x
    proof (cases x)
      case (Some res)
      have "leaves lv_claimed (bindE (persist_chunk_after_duplicate_race claimed e res) (\<lambda>res'. ret (Some res')))"
        by (rule leaves_bindE [OF race t [OF tame_ret]])
      with Some show ?thesis by simp
    qed (simp add: t tame_throw)
    then have "leaves lv_claimed (bindE (gets lv_chunk_result) (\<lambda>x. case x of None \<Rightarrow> throw e
        | Some res \<Rightarrow> bindE (persist_chunk_after_duplicate_race claimed e res) (\<lambda>res'. ret (Some res'))))"
      by (rule leaves_bindE [OF t [OF tame_gets]])
    then show ?thesis
      unfolding chunk_conflict_def by (rule leaves_if) (rule t [OF tame_throw])
  qed
  show ?thesis
    unfolding process_next_chunk_def
    by (rule leaves_bindE [OF u leaves_try_except [OF tx conflict]]) simp
qed

lemma leaves_process_claimed: "leaves lv_claimed (process_claimed wk claimed)"
proof -
  have "lv_claimed w' = lv_claimed w" if "process_chunks ad claimed totals w = (r, w')" for ad totals w r w'
    using that
  proof (induction ad claimed totals w arbitrary: r w' rule: process_chunks.induct)
    case (1 ad claimed totals w)
    obtain r1 w1 where run: "process_next_chunk ad claimed w = (r1, w1)" by fastforce
    have w1: "lv_claimed w1 = lv_claimed w"
      using leaves_process_next_chunk [of ad claimed] run by (metis leaves_def snd_conv)
    obtain n s f where t: "totals = (n, s, f)" by (cases totals)
    show ?case
    proof (cases "\<exists>c. r1 = Inr (Some c)")
      case True
      then obtain c where c: "r1 = Inr (Some c)" by blast
      have "process_chunks ad claimed (n + res_total_rows c, s + res_success_count c, f + res_failed_count c) w1 = (r, w')"
        using 1(2) by (subst (asm) process_chunks.simps) (simp add: run c t)
      then show ?thesis
        using 1(1) [OF run [symmetric] c refl t [symmetric] refl] w1 by simp
    next
      case False
      then have "w' = w1"
        using 1(2) by (subst (asm) process_chunks.simps) (auto simp: run split: sum.splits option.splits)
      with w1 show ?thesis by simp
    qed
  qed
  then have chunks: "leaves lv_claimed (process_chunks ad claimed totals)" for ad totals
    unfolding leaves_def using local_var_claimed by (metis surj_pair snd_conv)
  have finish: "tame (finish_import claimed totals)" for totals
    by (cases totals) (simp only: finish_import_def prod.case complete_import_def, intro tame_intro)
  show ?thesis
    unfolding process_claimed_def start_chunks_def
    by (intro leaves_bindE leaves_tame [OF local_var_claimed] leaves_modify [OF local_var_claimed]
        tame_prepare_for_reprocessing chunks finish) simp
qed

end
