(* ===== verification/Import_Runs.thy ===== *)
theory Import_Runs
  imports Process_Import
begin

text \<open>
  What a run of a worker does to the database under any interference: it keeps every invariant
  that tolerates the moves of the life cycle under the worker's own token.
\<close>

section \<open>Results of chunks\<close>

definition chunk_wf :: "uuid \<Rightarrow> validation_chunk_result \<Rightarrow> bool" where
  "chunk_wf i res \<longleftrightarrow>
     res_total_rows res = res_success_count res + res_failed_count res \<and>
     res_success_count res = length (res_valid_rows res) \<and>
     res_shipments res = map valid_shipment (res_valid_rows res) \<and>
     (\<forall>s \<in> set (res_shipments res). ship_import_id s = i) \<and>
     (\<forall>e \<in> set (res_import_errors res). err_import_id e = i)"

lemma produced_import:
  assumes "produced u k n i vs xs es"
  shows "(\<forall>v \<in> set xs. ship_import_id (valid_shipment v) = i) \<and> (\<forall>e \<in> set es. err_import_id e = i)"
proof
  have "map (ship_import_id \<circ> (\<lambda>v. (valid_shipment v)\<lparr>ship_id := 0\<rparr>)) xs = map (ship_import_id \<circ> shipment_of i) (clean_rows vs)"
    using assms unfolding produced_def by (metis map_map)
  then have "map (ship_import_id \<circ> valid_shipment) xs = map (\<lambda>_. i) (clean_rows vs)"
    by (simp add: o_def shipment_of_def new_shipment_def)
  then have "set (map (ship_import_id \<circ> valid_shipment) xs) \<subseteq> {i}" by auto
  then show "\<forall>v \<in> set xs. ship_import_id (valid_shipment v) = i" by auto
  have "map (err_import_id \<circ> (\<lambda>e. e\<lparr>err_id := 0\<rparr>)) es = map err_import_id (row_errors i vs)"
    using assms unfolding produced_def by (metis map_map)
  then have "err_import_id ` set es = err_import_id ` set (row_errors i vs)"
    by (metis (no_types, lifting) comp_apply import_error.select_convs(2) import_error.surjective
        import_error.update_convs(1) list.map_cong0 list.set_map)
  also have "\<dots> \<subseteq> {i}" by (auto simp: row_errors_def error_of_def)
  finally show "\<forall>e \<in> set es. err_import_id e = i" by auto
qed

lemma chunk_wf_produced:
  assumes "produced u k n i vs xs es"
  shows "chunk_wf i (chunk_result (length vs) (length (failed_rows vs)) xs es)"
proof -
  have "length xs = length (clean_rows vs)" using assms by (metis produced_def length_map)
  then show ?thesis
    using verdict_split [of vs] produced_import [OF assms] by (simp add: chunk_wf_def chunk_result_def)
qed

lemma keeps_case_prod [keeps_intro]:
  "(\<And>a b. keeps I L (f a b)) \<Longrightarrow> keeps I L (case p of (a, b) \<Rightarrow> f a b)"
  by (cases p) auto

lemma keeps_build_import_errors [keeps_intro]: "keeps I L (build_import_errors i n raw issues)"
  unfolding build_import_errors_def by (intro keeps_intro)

lemma keeps_emit_rows [keeps_intro]: "keeps I L (emit_rows i vs l)"
proof (induction vs arbitrary: l)
  case (Cons v vs)
  show ?case by (cases v, simp only: emit_rows.simps) (intro keeps_intro Cons)
qed (simp add: keeps_intro)

lemma keeps_find_existing_codes [keeps_intro]: "keeps I L (find_existing_shipment_codes codes)"
  by (simp add: find_existing_shipment_codes_def keeps_ret keeps_query)

lemma yields_validate_chunk:
  "yields I L (validate_chunk ad chunk tracker i) (\<lambda>(res, tracker'). chunk_wf i res)"
  unfolding yields_def
proof (intro conjI allI impI)
  show "keeps I L (validate_chunk ad chunk tracker i)"
    unfolding validate_chunk_reference by (intro keeps_intro)
  fix w x w' assume run: "validate_chunk ad chunk tracker i w = (Inr x, w')"
  let ?codes = "unseen_codes tracker (code_set (map (prepare_row ad) chunk))"
  show "case x of (res, tracker') \<Rightarrow> chunk_wf i res"
  proof (cases "find_existing_shipment_codes ?codes w")
    case (Pair r w1)
    show ?thesis
    proof (cases r)
      case (Inl e)
      then show ?thesis using validate_chunk_raises [OF Pair [unfolded Inl], of i] run by simp
    next
      case (Inr ex)
      from validate_chunk_run [OF Pair [unfolded Inr], of i] run show ?thesis
        using chunk_wf_produced by fastforce
    qed
  qed
qed

lemma reclassify_rows_errors:
  "reclassify_rows i ex vs retained errors w = (Inr (retained', errors'), w') \<Longrightarrow>
     \<forall>e \<in> set errors. err_import_id e = i \<Longrightarrow> \<forall>e \<in> set errors'. err_import_id e = i"
proof (induction i ex vs retained errors arbitrary: w rule: reclassify_rows.induct)
  case (2 i ex v vs retained errors)
  show ?case
  proof (cases "ship_shipment_code (valid_shipment v) \<notin> ex")
    case False
    obtain es n where new: "build_import_errors i (valid_row_number v) (valid_raw_data v)
        [duplicate_in_database] w = (Inr es, w\<lparr>draws := n\<rparr>)"
      and es: "map (\<lambda>e. e\<lparr>err_id := 0\<rparr>) es = map (\<lambda>issue. \<lparr>err_id = 0, err_import_id = i,
        err_row_number = valid_row_number v, err_field = issue_field issue,
        err_error = issue_error issue, err_raw_data = jsonb_safe (PDict (valid_raw_data v))\<rparr>)
        [duplicate_in_database]"
      using build_import_errors_run by blast
    then have "\<forall>e \<in> set es. err_import_id e = i"
      by (cases es) (auto dest: arg_cong [where f = err_import_id])
    then show ?thesis using 2(2) [OF False, of es "w\<lparr>draws := n\<rparr>"] 2(3,4) False new
      by (auto simp: bindE_def)
  qed (use 2 in simp)
qed (auto simp: ret_def)

lemma keeps_reclassify_rows [keeps_intro]: "keeps I L (reclassify_rows i ex vs retained errors)"
  by (induction i ex vs retained errors rule: reclassify_rows.induct) (auto intro!: keeps_intro)

lemma chunk_wf_reclassify:
  assumes wf: "chunk_wf i res" and run: "reclassify_database_duplicates i res w = (Inr res', w')"
  shows "chunk_wf i res'"
proof -
  let ?code = "\<lambda>v. ship_shipment_code (valid_shipment v)"
  obtain ex w1 where
    rest: "(if ex = {} then ret res
         else bindE (reclassify_rows i ex (res_valid_rows res) [] (res_import_errors res))
           (\<lambda>(retained, errors). ret
             \<lparr>res_total_rows = res_total_rows res, res_processed_rows = res_processed_rows res,
              res_success_count = length retained,
              res_failed_count = res_failed_count res + (length (res_valid_rows res) - length retained),
              res_shipments = map valid_shipment retained, res_import_errors = errors,
              res_valid_rows = retained\<rparr>)) w1 = (Inr res', w')"
    using bindE_Inr [OF run [unfolded reclassify_database_duplicates_def]] by auto
  show ?thesis
  proof (cases "ex = {}")
    case False
    then obtain retained errors w2 where rows:
      "reclassify_rows i ex (res_valid_rows res) [] (res_import_errors res) w1 =
         (Inr (retained, errors), w2)"
      and res': "res' = \<lparr>res_total_rows = res_total_rows res, res_processed_rows = res_processed_rows res,
        res_success_count = length retained,
        res_failed_count = res_failed_count res + (length (res_valid_rows res) - length retained),
        res_shipments = map valid_shipment retained, res_import_errors = errors,
        res_valid_rows = retained\<rparr>"
      using rest by (auto simp: ret_def dest!: bindE_Inr)
    have kept: "retained = filter (\<lambda>v. ?code v \<notin> ex) (res_valid_rows res)"
      using reclassify_rows_retained [OF rows] by simp
    have "length retained \<le> length (res_valid_rows res)" by (simp add: kept)
    then obtain d where d: "length (res_valid_rows res) = length retained + d"
      using le_Suc_ex by blast
    have parts: "res_shipments res = map valid_shipment (res_valid_rows res)"
      "\<forall>s \<in> set (res_shipments res). ship_import_id s = i"
      "\<forall>e \<in> set (res_import_errors res). err_import_id e = i"
      using wf unfolding chunk_wf_def by blast+
    have rest': "\<forall>v \<in> set retained. ship_import_id (valid_shipment v) = i"
      using parts(2) unfolding parts(1) kept by simp
    have errs: "\<forall>e \<in> set errors. err_import_id e = i"
      by (rule reclassify_rows_errors [OF rows parts(3)])
    have total: "res_total_rows res = length retained + d + res_failed_count res"
      using wf d by (simp only: chunk_wf_def)
    show ?thesis
      unfolding chunk_wf_def res' using rest' errs by (simp add: total d)
  qed (use rest wf in \<open>simp add: ret_def\<close>)
qed

lemma yields_reclassify:
  "chunk_wf i res \<Longrightarrow> yields I L (reclassify_database_duplicates i res) (chunk_wf i)"
  unfolding yields_def
  by (auto simp: reclassify_database_duplicates_def [of i res] intro!: keeps_intro
      intro: chunk_wf_reclassify [unfolded reclassify_database_duplicates_def])

section \<open>The locals of a run\<close>

text \<open>The chunk results a worker holds are well formed, whatever happens to its transactions.\<close>

definition locals_wf :: "uuid \<Rightarrow> import_run \<Rightarrow> bool" where
  "locals_wf i w \<longleftrightarrow> (\<forall>c. lv_chunk_result w = Some c \<or> lv_corrected w = Some c \<longrightarrow> chunk_wf i c)"

definition locals :: "('z world_scheme \<Rightarrow> bool) \<Rightarrow> 'z \<Rightarrow> bool" where
  "locals P x \<longleftrightarrow> (\<forall>w. world.more w = x \<longrightarrow> P w)"

lemma locals_iff: "local_var P \<Longrightarrow> locals P (world.more w) = P w"
  by (metis local_var_def locals_def)

lemma local_var_wf: "local_var (locals_wf i)"
  unfolding local_var_def locals_wf_def by (metis lv_chunk_result_more lv_corrected_more)

text \<open>The property of the locals that \<open>keeps\<close> carries.\<close>

definition wf_locals where
  "wf_locals i = locals (locals_wf i)"

lemma wf_locals_iff [simp]: "wf_locals i (world.more w) = locals_wf i w"
  by (simp add: wf_locals_def locals_iff local_var_wf)

lemma holds_locals:
  "holds I (wf_locals i) w \<longleftrightarrow> rely I w \<and> I (committed w) \<and> I (working w) \<and> locals_wf i w"
  by (simp add: holds_def)

lemma keeps_locals:
  assumes "\<And>w. locals_wf i w \<Longrightarrow> locals_wf i (f w)"
    and "\<And>w. committed (f w) = committed w" "\<And>w. working (f w) = working w"
    and "\<And>w. script (f w) = script w"
  shows "keeps I (wf_locals i) (modify f)"
  using assms by (auto simp: keeps_def modify_def holds_locals rely_def)

lemma keeps_set_chunk_result:
  "(\<And>c. x = Some c \<Longrightarrow> chunk_wf i c) \<Longrightarrow>
     keeps I (wf_locals i) (modify (lv_chunk_result_update (\<lambda>_. x)))"
  by (rule keeps_locals) (auto simp: locals_wf_def)

lemma keeps_set_corrected:
  "(\<And>c. x = Some c \<Longrightarrow> chunk_wf i c) \<Longrightarrow>
     keeps I (wf_locals i) (modify (lv_corrected_update (\<lambda>_. x)))"
  by (rule keeps_locals) (auto simp: locals_wf_def)

lemma keeps_set_rows: "keeps I (wf_locals i) (modify (lv_rows_update f))"
  by (rule keeps_locals) (auto simp: locals_wf_def)

lemma yields_gets: "(\<And>w. holds I L w \<Longrightarrow> Q (f w)) \<Longrightarrow> yields I L (gets f) Q"
  by (auto simp: yields_def gets_def intro!: keeps_gets [unfolded gets_def])

lemma yields_next_validated_chunk:
  "yields I (wf_locals i) (next_validated_chunk ad i) (\<lambda>x. \<forall>c. x = Some c \<longrightarrow> chunk_wf i c)"
  unfolding next_validated_chunk_def
proof (rule yields_bindE [OF keeps_yields [OF keeps_gets]])
  fix rows :: "parsed_workbook_row list generator"
  have chunk: "yields I (wf_locals i) (bindE (gets lv_tracker) (\<lambda>tracker.
      bindE (modify (lv_rows_update (\<lambda>_. ([], None)))) (\<lambda>_.
      bindE (validate_chunk ad c tracker i) (\<lambda>(res, tracker').
      bindE (modify (\<lambda>w. w\<lparr>lv_rows := (cs, ended), lv_tracker := tracker'\<rparr>)) (\<lambda>_.
      ret (Some res)))))) (\<lambda>x. \<forall>c. x = Some c \<longrightarrow> chunk_wf i c)" for c cs ended
  proof (rule yields_bindE [OF keeps_yields [OF keeps_gets]],
      rule yields_bindE [OF keeps_yields [OF keeps_set_rows]],
      rule yields_bindE [OF yields_validate_chunk], clarify)
    fix res tracker' assume wf: "chunk_wf i res"
    have set: "keeps I (wf_locals i) (modify (\<lambda>w. w\<lparr>lv_rows := (cs, ended), lv_tracker := tracker'\<rparr>))"
      by (rule keeps_locals) (auto simp: locals_wf_def)
    show "yields I (wf_locals i) (bindE (modify (\<lambda>w. w\<lparr>lv_rows := (cs, ended), lv_tracker := tracker'\<rparr>))
      (\<lambda>_. ret (Some res))) (\<lambda>x. \<forall>c. x = Some c \<longrightarrow> chunk_wf i c)"
      by (rule yields_bindE [OF keeps_yields [OF set] yields_ret]) (simp add: wf)
  qed
  have raise: "yields I (wf_locals i) (bindE (modify (lv_rows_update (\<lambda>_. ([], None)))) (\<lambda>_. throw e)) Q"
    for e and Q :: "validation_chunk_result option \<Rightarrow> bool"
    by (rule yields_bindE [OF keeps_yields [OF keeps_set_rows] yields_throw])
  show "yields I (wf_locals i)
     (case rows of
        ([], None) \<Rightarrow> ret None
      | ([], Some e) \<Rightarrow> bindE (modify (lv_rows_update (\<lambda>_. ([], None)))) (\<lambda>_. throw e)
      | (chunk # chunks, ended) \<Rightarrow>
          bindE (gets lv_tracker) (\<lambda>tracker.
          bindE (modify (lv_rows_update (\<lambda>_. ([], None)))) (\<lambda>_.
          bindE (validate_chunk ad chunk tracker i) (\<lambda>(res, tracker').
          bindE (modify (\<lambda>w. w\<lparr>lv_rows := (chunks, ended), lv_tracker := tracker'\<rparr>)) (\<lambda>_.
          ret (Some res)))))) (\<lambda>x. \<forall>c. x = Some c \<longrightarrow> chunk_wf i c)"
    using chunk raise by (auto intro!: yields_ret split: prod.split list.split option.split)
qed

section \<open>The steps of a run keep the invariant\<close>

text \<open>The moves of a worker with token \<open>t\<close>.\<close>

definition worker_labels :: "uuid \<Rightarrow> life_label set" where
  "worker_labels t = {Claim t, Progress t, Complete t, Fail t, Retry t}"

context db_invariant
begin

lemma keeps_require: "keeps I L (require_current_ownership claimed)"
  unfolding require_current_ownership_def by (intro keeps_intro)

lemma keeps_prepare_for_reprocessing:
  "Progress (cl_processing_token claimed) \<in> labels \<Longrightarrow> keeps I L (prepare_for_reprocessing claimed)"
  unfolding prepare_for_reprocessing_def
  by (intro keeps_intro keeps_reset_for_reprocessing keeps_delete_shipments keeps_delete_errors)

lemma keeps_persist_chunk:
  "Progress (cl_processing_token claimed) \<in> labels \<Longrightarrow> chunk_wf i res \<Longrightarrow>
     keeps I L (persist_chunk claimed res)"
  unfolding persist_chunk_def
  by (intro keeps_intro keeps_record_chunk_counts keeps_heartbeat) (auto simp: chunk_wf_def)

lemma yields_race_turn:
  assumes "Progress (cl_processing_token claimed) \<in> labels" "chunk_wf (cl_import_id claimed) current"
  shows "yields I (wf_locals (cl_import_id claimed)) (race_turn claimed current)
    (\<lambda>x. \<forall>c. x = Some c \<longrightarrow> chunk_wf (cl_import_id claimed) c)"
  unfolding race_turn_def
proof (rule yields_bindE [OF keeps_yields [OF keeps_set_corrected]], simp, rule yields_with_tx,
    rule yields_bindE [OF keeps_yields [OF keeps_require]],
    rule yields_bindE [OF yields_reclassify [OF assms(2)]],
    rule yields_bindE [OF keeps_yields [OF keeps_set_corrected]], simp)
  fix c assume wf: "chunk_wf (cl_import_id claimed) c"
  have "yields I (wf_locals (cl_import_id claimed)) (bindE (persist_chunk claimed c) (\<lambda>_. ret (Some c)))
      (\<lambda>x. \<forall>c. x = Some c \<longrightarrow> chunk_wf (cl_import_id claimed) c)"
    by (rule yields_bindE [OF keeps_yields [OF keeps_persist_chunk [OF assms(1) wf]] yields_ret])
      (simp add: wf)
  then show "yields I (wf_locals (cl_import_id claimed))
     (if res_success_count c = res_success_count current then ret None
      else bindE (persist_chunk claimed c) (\<lambda>_. ret (Some c)))
     (\<lambda>x. \<forall>c. x = Some c \<longrightarrow> chunk_wf (cl_import_id claimed) c)"
    by (auto intro: yields_ret)
qed

lemma race_holds:
  assumes "Progress (cl_processing_token claimed) \<in> labels" "chunk_wf (cl_import_id claimed) current"
    and "holds I (wf_locals (cl_import_id claimed)) w"
    and "persist_chunk_after_duplicate_race claimed e current w = (r, w')"
  shows "holds I (wf_locals (cl_import_id claimed)) w' \<and>
    (\<forall>c. r = Inr c \<longrightarrow> chunk_wf (cl_import_id claimed) c)"
  using assms
proof (induction claimed e current w arbitrary: r w' rule: persist_chunk_after_duplicate_race.induct)
  case (1 claimed e current w)
  obtain r1 w1 where turn: "race_turn claimed current w = (r1, w1)" by fastforce
  note y = yields_race_turn [OF 1(2,3)]
  have w1: "holds I (wf_locals (cl_import_id claimed)) w1"
    by (rule keepsD [OF yields_keeps [OF y] 1(4) turn])
  have wf: "r1 = Inr (Some c) \<Longrightarrow> chunk_wf (cl_import_id claimed) c" for c
    using y 1(4) turn by (auto simp: yields_def)
  have corr: "lv_corrected w1 = Some c \<Longrightarrow> chunk_wf (cl_import_id claimed) c" for c
    using w1 by (auto simp: holds_locals locals_wf_def)
  show ?case
  proof (cases "\<exists>x c. r1 = Inl x \<and> x = SqlError IntegrityError \<and> lv_corrected w1 = Some c")
    case True
    then obtain x c where x: "r1 = Inl x" "x = SqlError IntegrityError" "lv_corrected w1 = Some c" by blast
    have "persist_chunk_after_duplicate_race claimed e c w1 = (r, w')"
      using 1(5) by (subst (asm) persist_chunk_after_duplicate_race.simps) (simp add: turn x)
    then show ?thesis
      using 1(1) [OF turn [symmetric] x 1(2) corr [OF x(3)] w1] by simp
  next
    case False
    have "w' = w1 \<and> (\<forall>c. r = Inr c \<longrightarrow> r1 = Inr (Some c))"
      using 1(5) False
      by (subst (asm) persist_chunk_after_duplicate_race.simps)
        (auto simp: turn split: sum.splits option.splits if_splits)
    then show ?thesis using w1 wf by blast
  qed
qed

lemma yields_race:
  "Progress (cl_processing_token claimed) \<in> labels \<Longrightarrow> chunk_wf (cl_import_id claimed) current \<Longrightarrow>
     yields I (wf_locals (cl_import_id claimed))
       (persist_chunk_after_duplicate_race claimed e current) (chunk_wf (cl_import_id claimed))"
  unfolding yields_def keeps_def using race_holds by (metis surj_pair snd_conv)

lemma yields_next_chunk_tx:
  assumes "Progress (cl_processing_token claimed) \<in> labels"
  shows "yields I (wf_locals (cl_import_id claimed)) (next_chunk_tx ad claimed)
    (\<lambda>x. \<forall>c. x = Some c \<longrightarrow> chunk_wf (cl_import_id claimed) c)"
  unfolding next_chunk_tx_def
proof (rule yields_with_tx, rule yields_bindE [OF keeps_yields [OF keeps_require]],
    rule yields_bindE [OF yields_next_validated_chunk])
  fix x assume wf: "\<forall>c. x = Some c \<longrightarrow> chunk_wf (cl_import_id claimed) c"
  show "yields I (wf_locals (cl_import_id claimed))
     (case x of None \<Rightarrow> ret None
      | Some res \<Rightarrow> bindE (modify (lv_chunk_result_update (\<lambda>_. Some res))) (\<lambda>_.
          bindE (persist_chunk claimed res) (\<lambda>_. ret (Some res))))
     (\<lambda>x. \<forall>c. x = Some c \<longrightarrow> chunk_wf (cl_import_id claimed) c)"
  proof (cases x)
    case (Some res)
    then have res: "chunk_wf (cl_import_id claimed) res" using wf by simp
    have "yields I (wf_locals (cl_import_id claimed))
        (bindE (modify (lv_chunk_result_update (\<lambda>_. Some res))) (\<lambda>_.
          bindE (persist_chunk claimed res) (\<lambda>_. ret (Some res))))
        (\<lambda>x. \<forall>c. x = Some c \<longrightarrow> chunk_wf (cl_import_id claimed) c)"
      by (rule yields_bindE [OF keeps_yields [OF keeps_set_chunk_result]], simp add: res,
          rule yields_bindE [OF keeps_yields [OF keeps_persist_chunk [OF assms res]] yields_ret],
          simp add: res)
    then show ?thesis using Some by simp
  qed (simp add: yields_ret)
qed

lemma yields_try_except:
  fixes m :: "('z world_scheme, 'a) action"
  assumes m: "yields I L m Q" and h: "\<And>e. yields I L (h e) Q"
  shows "yields I L (try_except m h) Q"
proof -
  have "holds I L (snd (try_except m h w)) \<and> (\<forall>x w'. try_except m h w = (Inr x, w') \<longrightarrow> Q x)"
    if w: "holds I L w" for w
  proof (cases "m w")
    case (Pair r w1)
    have "holds I L w1" by (rule keepsD [OF yields_keeps [OF m] w Pair])
    then show ?thesis
      using h m w Pair by (cases r) (auto simp: try_except_def yields_def keeps_def)
  qed
  then show ?thesis by (auto simp: yields_def keeps_def)
qed

lemma yields_chunk_conflict:
  assumes "Progress (cl_processing_token claimed) \<in> labels"
  shows "yields I (wf_locals (cl_import_id claimed)) (chunk_conflict claimed e)
    (\<lambda>x. \<forall>c. x = Some c \<longrightarrow> chunk_wf (cl_import_id claimed) c)"
proof (cases "e = SqlError IntegrityError")
  case True
  have "yields I (wf_locals (cl_import_id claimed)) (gets lv_chunk_result)
      (\<lambda>x. \<forall>c. x = Some c \<longrightarrow> chunk_wf (cl_import_id claimed) c)"
    by (rule yields_gets) (auto simp: holds_locals locals_wf_def)
  then have "yields I (wf_locals (cl_import_id claimed)) (bindE (gets lv_chunk_result) (\<lambda>chunk_result.
      case chunk_result of None \<Rightarrow> throw e
      | Some res \<Rightarrow> bindE (persist_chunk_after_duplicate_race claimed e res) (\<lambda>res'. ret (Some res'))))
      (\<lambda>x. \<forall>c. x = Some c \<longrightarrow> chunk_wf (cl_import_id claimed) c)"
  proof (rule yields_bindE)
    fix x assume x: "\<forall>c. x = Some c \<longrightarrow> chunk_wf (cl_import_id claimed) c"
    show "yields I (wf_locals (cl_import_id claimed)) (case x of None \<Rightarrow> throw e
      | Some res \<Rightarrow> bindE (persist_chunk_after_duplicate_race claimed e res) (\<lambda>res'. ret (Some res')))
      (\<lambda>x. \<forall>c. x = Some c \<longrightarrow> chunk_wf (cl_import_id claimed) c)"
    proof (cases x)
      case (Some res)
      have "yields I (wf_locals (cl_import_id claimed))
          (bindE (persist_chunk_after_duplicate_race claimed e res) (\<lambda>res'. ret (Some res')))
          (\<lambda>x. \<forall>c. x = Some c \<longrightarrow> chunk_wf (cl_import_id claimed) c)"
        by (rule yields_bindE [OF yields_race [OF assms]]) (use x Some in \<open>auto intro!: yields_ret\<close>)
      then show ?thesis using Some by simp
    qed (simp add: yields_throw)
  qed
  then show ?thesis unfolding chunk_conflict_def if_P [OF True] .
qed (simp add: chunk_conflict_def yields_throw)

lemma yields_process_next_chunk:
  assumes "Progress (cl_processing_token claimed) \<in> labels"
  shows "yields I (wf_locals (cl_import_id claimed)) (process_next_chunk ad claimed)
    (\<lambda>x. \<forall>c. x = Some c \<longrightarrow> chunk_wf (cl_import_id claimed) c)"
  unfolding process_next_chunk_def
  by (rule yields_bindE [OF keeps_yields [OF keeps_set_chunk_result]], simp,
      rule yields_try_except [OF yields_next_chunk_tx [OF assms] yields_chunk_conflict [OF assms]])

text \<open>The running totals add up.\<close>

definition totals_ok :: "nat \<times> nat \<times> nat \<Rightarrow> bool" where
  "totals_ok x \<longleftrightarrow> (case x of (n, s, f) \<Rightarrow> n = s + f)"

lemma process_chunks_holds:
  assumes "Progress (cl_processing_token claimed) \<in> labels"
    and "holds I (wf_locals (cl_import_id claimed)) w" "totals_ok totals"
    and "process_chunks ad claimed totals w = (r, w')"
  shows "holds I (wf_locals (cl_import_id claimed)) w' \<and> (\<forall>x. r = Inr x \<longrightarrow> totals_ok x)"
  using assms
proof (induction ad claimed totals w arbitrary: r w' rule: process_chunks.induct)
  case (1 ad claimed totals w)
  obtain r1 w1 where run: "process_next_chunk ad claimed w = (r1, w1)" by fastforce
  note y = yields_process_next_chunk [OF 1(2), of ad]
  have w1: "holds I (wf_locals (cl_import_id claimed)) w1"
    by (rule keepsD [OF yields_keeps [OF y] 1(3) run])
  show ?case
  proof (cases "\<exists>c. r1 = Inr (Some c)")
    case True
    then obtain c where c: "r1 = Inr (Some c)" by blast
    then have wf: "chunk_wf (cl_import_id claimed) c" using y 1(3) run by (auto simp: yields_def)
    obtain n s f where t: "totals = (n, s, f)" by (cases totals)
    let ?totals = "(n + res_total_rows c, s + res_success_count c, f + res_failed_count c)"
    have ok: "totals_ok ?totals" using wf 1(4) by (simp add: totals_ok_def t chunk_wf_def)
    have rest: "process_chunks ad claimed ?totals w1 = (r, w')"
      using 1(5) by (subst (asm) process_chunks.simps) (simp add: run c t)
    show ?thesis
      by (rule 1(1) [OF run [symmetric] c refl t [symmetric] refl 1(2) w1 ok rest] | rule 1(1) [OF _ _ _ _ _ 1(2) w1 ok rest],
          auto simp: run c t)
  next
    case False
    have "w' = w1 \<and> (\<forall>x. r = Inr x \<longrightarrow> x = totals)"
      using 1(5) False
      by (subst (asm) process_chunks.simps) (auto simp: run split: sum.splits option.splits)
    then show ?thesis using w1 1(4) by blast
  qed
qed

lemma yields_process_chunks:
  "Progress (cl_processing_token claimed) \<in> labels \<Longrightarrow> totals_ok totals \<Longrightarrow>
     yields I (wf_locals (cl_import_id claimed)) (process_chunks ad claimed totals) totals_ok"
  unfolding yields_def keeps_def using process_chunks_holds by (metis surj_pair snd_conv)

lemma keeps_finish_import:
  "Complete (cl_processing_token claimed) \<in> labels \<Longrightarrow> totals_ok totals \<Longrightarrow>
     keeps I L (finish_import claimed totals)"
  by (cases totals, simp only: finish_import_def prod.case)
    (intro keeps_intro keeps_complete_import, auto simp: totals_ok_def)

lemma keeps_mark_failed:
  "Fail (cl_processing_token claimed) \<in> labels \<Longrightarrow> keeps I L (mark_failed claimed reason)"
  unfolding mark_failed_def by (intro keeps_intro keeps_fail_import)

lemma keeps_process_claimed:
  assumes "Progress (cl_processing_token claimed) \<in> labels" "Complete (cl_processing_token claimed) \<in> labels"
  shows "keeps I (wf_locals (cl_import_id claimed)) (process_claimed wk claimed)"
proof -
  have start: "keeps I (wf_locals (cl_import_id claimed)) (start_chunks wk claimed)"
    unfolding start_chunks_def by (rule keeps_locals) (auto simp: locals_wf_def)
  have chunks: "keeps I (wf_locals (cl_import_id claimed))
      (bindE (process_chunks (wk_adapters wk) claimed (0, 0, 0)) (finish_import claimed))"
    by (rule keeps_bindE_yields [OF yields_process_chunks [OF assms(1)]])
      (auto simp: totals_ok_def intro!: keeps_finish_import assms)
  show ?thesis
    unfolding process_claimed_def
    by (intro keeps_bindE keeps_prepare_for_reprocessing assms start chunks)
qed

section \<open>The claim\<close>

lemma linked_imp: "linked i t a m db \<Longrightarrow> I db"
  by (simp add: linked_def)

lemma unowned_linked: "I db \<Longrightarrow> \<forall>j \<in> set (db_jobs db). \<not> job_owned i t j \<Longrightarrow> linked i t a m db"
  by (simp add: linked_def own_attempt_def)

lemma linked_unowned:
  "(\<And>a m. linked i t a m db) \<Longrightarrow> j \<in> set (db_jobs db) \<Longrightarrow> \<not> job_owned i t j"
proof
  assume all: "\<And>a m. linked i t a m db" and j: "j \<in> set (db_jobs db)" "job_owned i t j"
  have "job_attempt_count j = 0" "job_attempt_count j = 1"
    using all [of 0 0] all [of 1 0] j by (simp_all add: linked_def own_attempt_def)
  then show False by simp
qed

text \<open>
  Whatever the claim returned describes the row it took: a token nobody had before is linked to
  the attempt of the claim, and to nothing when there is no claim.
\<close>

definition claim_linked where
  "claim_linked i t r db \<longleftrightarrow>
     (case r of Inr (Some k) \<Rightarrow> cl_import_id k = i \<and> cl_processing_token k = t \<and>
          linked i t (cl_attempt_count k) (cl_max_attempts k) db
      | _ \<Rightarrow> (\<forall>a m. linked i t a m db))"

lemma claim_update_linked:
  assumes all: "\<And>a m. linked i t a m db" and lab: "Claim t \<in> labels"
    and run: "(case update_jobs (claimable i) (claim_values t worker now) now db of
           Inl e \<Rightarrow> Inl e
         | Inr (_, db') \<Rightarrow>
             (case one_or_none (map (claim_values t worker now) (filter (claimable i) (db_jobs db))) of
                Inl e \<Rightarrow> Inl e
              | Inr None \<Rightarrow> Inr (None, db')
              | Inr (Some j) \<Rightarrow>
                  Inr (Some \<lparr>cl_import_id = job_id j,
                         cl_stored_file_path = job_stored_file_path j,
                         cl_processing_token = t,
                         cl_attempt_count = job_attempt_count j,
                         cl_max_attempts = job_max_attempts j\<rparr>, db'))) = Inr (c, db')"
  shows "claim_linked i t (Inr c :: exn + claimed_import option) db'"
proof -
  obtain n where upd: "update_jobs (claimable i) (claim_values t worker now) now db = Inr (n, db')"
    using run by (auto split: sum.splits option.splits)
  have "I db'"
    by (rule I_update_jobs [OF linked_imp [OF all] upd]) (use claim_values_step lab in blast)
  have jobs: "db_jobs db' = sql_update (claimable i)
      (\<lambda>j. (claim_values t worker now j)\<lparr>job_updated_at := now\<rparr>) (db_jobs db)"
    using update_jobs_Inr [OF upd] by simp
  have own: "\<exists>j \<in> set (filter (claimable i) (db_jobs db)).
      j' = (claim_values t worker now j)\<lparr>job_updated_at := now\<rparr>"
    if "j' \<in> set (db_jobs db')" "job_owned i t j'" for j'
    using that linked_unowned [OF all] by (auto simp: jobs sql_update_def split: if_splits)
  show ?thesis
  proof (cases "filter (claimable i) (db_jobs db)")
    case Nil
    then have "\<forall>j \<in> set (db_jobs db'). \<not> job_owned i t j" using own by fastforce
    moreover have "c = None" using run upd Nil by (simp add: one_or_none_def)
    ultimately show ?thesis using unowned_linked \<open>I db'\<close> by (simp add: claim_linked_def)
  next
    case (Cons j rest)
    then have "rest = []" and c: "c = Some \<lparr>cl_import_id = job_id j,
        cl_stored_file_path = job_stored_file_path j, cl_processing_token = t,
        cl_attempt_count = job_attempt_count j + 1, cl_max_attempts = job_max_attempts j\<rparr>"
      using run upd by (auto simp: one_or_none_def claim_values_def split: list.splits)
    then have "own_attempt i t (job_attempt_count j + 1) (job_max_attempts j) db'"
      unfolding own_attempt_def using own Cons by (fastforce simp: claim_values_def)
    moreover have "job_id j = i" using Cons by (auto simp: filter_eq_Cons_iff claimable_def)
    ultimately show ?thesis using \<open>I db'\<close> by (simp add: claim_linked_def linked_def c)
  qed
qed

lemma statement_cases:
  fixes w :: "'z world_scheme"
  assumes "statement f w = (r, w')"
  shows "(\<exists>x. r = Inl x \<and> w' = advance w) \<or>
    (\<exists>y locked db. r = Inr y \<and> f locked (tx_time w) (working (advance w)) = Inr (y, db) \<and>
       w' = (advance w)\<lparr>working := db\<rparr>)"
  using assms by (auto simp: statement_def Let_def split: option.splits sum.splits prod.splits)

text \<open>The state of a session whose token \<open>t\<close> may be linked to any attempt.\<close>

definition links where
  "links i t L w \<longleftrightarrow> (\<forall>a m. holds (linked i t a m) L w)"

lemma claim_pending_import_links:
  fixes w :: "'z world_scheme"
  assumes all: "links i t L w" and lab: "Claim t \<in> labels"
    and run: "claim_pending_import i t worker w = (r, w')"
  shows "(\<forall>a m. rely (linked i t a m) w') \<and> (\<forall>a m. linked i t a m (committed w')) \<and>
    claim_linked i t r (working w') \<and> L (world.more w')"
proof -
  let ?sel = "statement (\<lambda>locked now db. Inr (map_option job_id
      (List.find (\<lambda>j. claimable i j \<and> \<not> locked (job_id j)) (db_jobs db)), db)) ::
      ('z world_scheme, uuid option) action"
  obtain r1 w1 where sel: "?sel w = (r1, w1)" by fastforce
  have keep: "keeps (linked i t a m) L ?sel" for a m by (rule keeps_statement) auto
  have w1: "links i t L w1"
    using all keepsD [OF keep _ sel] by (simp add: links_def)
  have all1: "\<And>a m. linked i t a m (committed w1)" "\<And>a m. linked i t a m (working w1)"
    "\<And>a m. rely (linked i t a m) w1" "L (world.more w1)"
    using w1 by (auto simp: links_def holds_def)
  show ?thesis
  proof (cases r1)
    case (Inl e)
    then have "r = Inl e \<and> w' = w1" using run sel by (simp add: claim_pending_import_def bindE_def)
    then show ?thesis using all1 by (simp add: claim_linked_def)
  next
    case (Inr x)
    show ?thesis
    proof (cases x)
      case None
      then have "r = Inr None \<and> w' = w1"
        using run sel Inr by (simp add: claim_pending_import_def bindE_def ret_def)
      then show ?thesis using all1 by (simp add: claim_linked_def)
    next
      case (Some y)
      have adv: "links i t L (advance w1)" using w1 by (simp add: links_def holds_advance)
      then have all2: "\<And>a m. linked i t a m (committed (advance w1))"
        "\<And>a m. linked i t a m (working (advance w1))"
        "\<And>a m. rely (linked i t a m) (advance w1)" "L (world.more (advance w1))"
        by (auto simp: links_def holds_def)
      from run sel Inr Some have "statement (\<lambda>_ now db.
         case update_jobs (claimable i) (claim_values t worker now) now db of
           Inl e \<Rightarrow> Inl e
         | Inr (_, db') \<Rightarrow>
             (case one_or_none (map (claim_values t worker now) (filter (claimable i) (db_jobs db))) of
                Inl e \<Rightarrow> Inl e
              | Inr None \<Rightarrow> Inr (None, db')
              | Inr (Some j) \<Rightarrow>
                  Inr (Some \<lparr>cl_import_id = job_id j, cl_stored_file_path = job_stored_file_path j,
                         cl_processing_token = t, cl_attempt_count = job_attempt_count j,
                         cl_max_attempts = job_max_attempts j\<rparr>, db'))) w1 = (r, w')"
        by (simp add: claim_pending_import_def bindE_def)
      from statement_cases [OF this] show ?thesis
      proof (elim disjE exE conjE)
        fix e assume "r = Inl e" "w' = advance w1"
        then show ?thesis using all2 by (simp add: claim_linked_def)
      next
        fix c db assume r: "r = Inr c" and upd: "(case update_jobs (claimable i) (claim_values t worker (tx_time w1)) (tx_time w1) (working (advance w1)) of
           Inl e \<Rightarrow> Inl e
         | Inr (_, db') \<Rightarrow>
             (case one_or_none (map (claim_values t worker (tx_time w1)) (filter (claimable i) (db_jobs (working (advance w1))))) of
                Inl e \<Rightarrow> Inl e
              | Inr None \<Rightarrow> Inr (None, db')
              | Inr (Some j) \<Rightarrow>
                  Inr (Some \<lparr>cl_import_id = job_id j, cl_stored_file_path = job_stored_file_path j,
                         cl_processing_token = t, cl_attempt_count = job_attempt_count j,
                         cl_max_attempts = job_max_attempts j\<rparr>, db'))) = Inr (c, db)"
          and w': "w' = (advance w1)\<lparr>working := db\<rparr>"
        from claim_update_linked [OF all2(2) lab upd] show ?thesis
          using all2 by (simp add: w' r rely_def)
      qed
    qed
  qed
qed

lemma claim_step_links:
  assumes all: "links i t (wf_locals i) w" and lab: "Claim t \<in> labels" and none: "lv_claimed w = None"
    and run: "claim_step wk i t w = (r, w')"
  shows "case lv_claimed w' of
      None \<Rightarrow> links i t (wf_locals i) w'
    | Some k \<Rightarrow> holds (linked i t (cl_attempt_count k) (cl_max_attempts k)) (wf_locals i) w' \<and>
        cl_import_id k = i \<and> cl_processing_token k = t"
proof -
  define w0 where "w0 = snd (begin_tx w)"
  have tx: "begin_tx w = (Inr (), w0)" by (simp add: w0_def begin_tx_def)
  have "links i t (wf_locals i) w0"
    using all keepsD [OF keeps_begin_tx _ tx] by (simp add: links_def)
  then have w0: "links i t (wf_locals i) w0" .
  have none0: "lv_claimed w0 = None" using none by (simp add: w0_def begin_tx_def)
  obtain r1 w1 where cl: "claim_pending_import i t (wk_worker_id wk) w0 = (r1, w1)" by fastforce
  note post = claim_pending_import_links [OF w0 lab cl]
  have "tame (claim_pending_import i t (wk_worker_id wk))"
    unfolding claim_pending_import_def by (intro tame_intro)
  from tameD [OF this cl] have none1: "lv_claimed w1 = None"
    using lv_claimed_more [of w1 w0] none0 by simp
  have wf1: "locals_wf i w1" using post by simp
  show ?thesis
  proof (cases r1)
    case (Inl e)
    then have "w' = rollback w1"
      using run by (simp add: claim_step_def with_tx_def bindE_def tx cl)
    moreover have "links i t (wf_locals i) (rollback w1)"
      using post wf1 by (auto simp: links_def holds_locals rely_def rollback_def locals_wf_def)
    moreover have "lv_claimed (rollback w1) = None" using none1 by (simp add: rollback_def)
    ultimately show ?thesis by simp
  next
    case (Inr c)
    let ?w2 = "lv_claimed_update (\<lambda>_. c) w1"
    obtain r3 where cm: "commit ?w2 = (r3, w')"
      using run Inr by (cases "commit ?w2")
        (auto simp: claim_step_def with_tx_def bindE_def tx cl modify_def ret_def split: sum.splits)
    have claimed: "lv_claimed w' = c"
      using tameD [OF tame_commit cm] lv_claimed_more [of w' ?w2] by simp
    have wf2: "locals_wf i ?w2" using wf1 by (simp add: locals_wf_def)
    show ?thesis
    proof (cases c)
      case None
      have "links i t (wf_locals i) ?w2"
        using post wf2 by (simp add: links_def holds_locals rely_def claim_linked_def Inr None)
      then have "links i t (wf_locals i) w'"
        using keepsD [OF keeps_commit _ cm] by (simp add: links_def)
      then show ?thesis using claimed None by simp
    next
      case (Some k)
      have "holds (linked i t (cl_attempt_count k) (cl_max_attempts k)) (wf_locals i) ?w2"
        using post wf2 by (simp add: holds_locals rely_def claim_linked_def Inr Some)
      from keepsD [OF keeps_commit this cm] have
        "holds (linked i t (cl_attempt_count k) (cl_max_attempts k)) (wf_locals i) w'" .
      moreover have "cl_import_id k = i \<and> cl_processing_token k = t"
        using post by (simp add: claim_linked_def Inr Some)
      ultimately show ?thesis using claimed Some by simp
    qed
  qed
qed

section \<open>The run\<close>

lemma keeps_handle_operational_failure:
  assumes "worker_labels t \<subseteq> labels" "cl_processing_token k = t" "cl_import_id k = i"
  shows "keeps (linked i t (cl_attempt_count k) (cl_max_attempts k)) L (handle_operational_failure k)"
proof (cases "cl_attempt_count k \<ge> cl_max_attempts k")
  case True
  have "Fail t \<in> labels - {Claim t}" using assms(1) by (auto simp: worker_labels_def)
  then show ?thesis
    using True db_invariant.keeps_mark_failed [OF linked_db_invariant, of k t i] assms(2)
    by (simp add: handle_operational_failure_def)
next
  case False
  have "keeps (linked i t (cl_attempt_count k) (cl_max_attempts k)) L
      (requeue_for_retry i t ''Import processing encountered a temporary database error.'')"
    by (rule keeps_requeue_for_retry) (use assms(1) False in \<open>auto simp: worker_labels_def\<close>)
  then show ?thesis
    using False assms(2,3) by (auto simp: handle_operational_failure_def intro!: keeps_intro)
qed

lemma keeps_run_handler:
  assumes lab: "worker_labels t \<subseteq> labels" "cl_processing_token k = t" "cl_import_id k = i"
    and w: "holds (linked i t (cl_attempt_count k) (cl_max_attempts k)) L w" "lv_claimed w = Some k"
  shows "holds (linked i t (cl_attempt_count k) (cl_max_attempts k)) L (snd (run_handler e w))"
proof -
  let ?J = "linked i t (cl_attempt_count k) (cl_max_attempts k)"
  have "Fail t \<in> labels - {Claim t}" using lab(1) by (auto simp: worker_labels_def)
  then have fail: "keeps ?J L (mark_failed k reason)" for reason
    using db_invariant.keeps_mark_failed [OF linked_db_invariant, of k t i] lab(2) by simp
  note again = keeps_handle_operational_failure [OF lab, of L]
  have "keeps ?J L (case e of
         StaleImportWorkerError \<Rightarrow> ret ()
       | WorkbookStructureError message \<Rightarrow>
           mark_failed k (str_or message ''Workbook structure could not be processed.'')
       | SqlError OperationalError \<Rightarrow> handle_operational_failure k
       | _ \<Rightarrow> mark_failed k ''Import processing failed.'')"
    using fail again by (auto intro: keeps_ret split: exn.split sql_error.split)
  moreover have "run_handler e w = (case e of
         StaleImportWorkerError \<Rightarrow> ret ()
       | WorkbookStructureError message \<Rightarrow>
           mark_failed k (str_or message ''Workbook structure could not be processed.'')
       | SqlError OperationalError \<Rightarrow> handle_operational_failure k
       | _ \<Rightarrow> mark_failed k ''Import processing failed.'') w"
    using w(2) by (simp add: run_handler_def bindE_def gets_def split: exn.split sql_error.split)
  ultimately show ?thesis using w(1) by (simp add: keeps_def)
qed

text \<open>
  The database satisfies \<open>I\<close> after a run, whatever the run met, provided nobody else uses its
  token: before the run no job carries it, and what the others commit never hands it out or
  touches the attempts of the job that has it.
\<close>

lemma process_import_run_keeps:
  assumes lab: "worker_labels t \<subseteq> labels" and t: "t = uuid_source w (draws w)"
    and rely: "\<And>a m. rely (linked i t a m) w" and w: "\<And>a m. linked i t a m (committed w)"
  shows "I (committed (snd (process_import_run wk i w)))"
proof -
  define w0 where "w0 = (new_locals w)\<lparr>draws := Suc (draws w)\<rparr>"
  have w0: "links i t (wf_locals i) w0" "lv_claimed w0 = None"
    using w rely by (auto simp: links_def holds_locals rely_def w0_def new_locals_def locals_wf_def)
  obtain r1 w1 where cl: "claim_step wk i t w0 = (r1, w1)" by fastforce
  have "Claim t \<in> labels" using lab by (simp add: worker_labels_def)
  note post = claim_step_links [OF w0(1) this w0(2) cl]
  let ?main = "bindE (claim_step wk i t) (\<lambda>_. bindE (gets lv_claimed) (\<lambda>claimed_import.
      case claimed_import of None \<Rightarrow> ret () | Some claimed \<Rightarrow> process_claimed wk claimed))"
  have step: "bindE (modify f) g w = g () (f w)" for f g and w :: import_run
    by (simp add: bindE_def modify_def)
  have draw: "bindE uuid4 g w = g (uuid_source w (draws w)) (w\<lparr>draws := Suc (draws w)\<rparr>)" for g and w :: import_run
    by (simp add: bindE_def uuid4_def)
  have run: "process_import_run wk i w = try_except ?main run_handler w0"
    unfolding process_import_run_def step draw by (simp add: t w0_def new_locals_def)
  show ?thesis
  proof (cases "lv_claimed w1")
    case None
    then have idle: "links i t (wf_locals i) w1" using post by simp
    have "committed (snd (try_except ?main run_handler w0)) = committed w1"
    proof (cases r1)
      case (Inl e)
      then show ?thesis
        using None by (auto simp: try_except_def bindE_def cl run_handler_def gets_def ret_def throw_def
            split: exn.split sql_error.split)
    next
      case (Inr u)
      then show ?thesis using None by (simp add: try_except_def bindE_def cl gets_def ret_def)
    qed
    moreover have "I (committed w1)" using idle by (auto simp: links_def holds_def linked_def)
    ultimately show ?thesis by (simp add: run)
  next
    case (Some k)
    let ?J = "linked i t (cl_attempt_count k) (cl_max_attempts k)"
    have k: "holds ?J (wf_locals i) w1" "cl_import_id k = i" "cl_processing_token k = t"
      using post Some by auto
    have "holds ?J (wf_locals i) (snd (try_except ?main run_handler w0))"
    proof (cases r1)
      case (Inl e)
      then show ?thesis
        using keeps_run_handler [OF lab k(3,2,1) Some] by (simp add: try_except_def bindE_def cl)
    next
      case (Inr u)
      obtain r2 w2 where pc: "process_claimed wk k w1 = (r2, w2)" by fastforce
      have "Progress t \<in> labels - {Claim t}" "Complete t \<in> labels - {Claim t}"
        using lab by (auto simp: worker_labels_def)
      then have "keeps ?J (wf_locals i) (process_claimed wk k)"
        using db_invariant.keeps_process_claimed [OF linked_db_invariant, of k t i] k by simp
      from keepsD [OF this k(1) pc] have w2: "holds ?J (wf_locals i) w2" .
      have "lv_claimed w2 = Some k"
        using leaves_process_claimed [of wk k] pc Some by (metis leaves_def snd_conv)
      with keeps_run_handler [OF lab k(3,2) w2 this] show ?thesis
        using w2 Inr Some pc by (cases r2) (simp_all add: try_except_def bindE_def cl gets_def)
    qed
    then show ?thesis by (simp add: run holds_def linked_def)
  qed
qed

end

end
