(* ===== verification/Import_Safety.thy ===== *)
theory Import_Safety
  imports Import_Runs
begin

text \<open>
  A run of a worker as a whole: the database stays consistent, every job moves along its life
  cycle only, and a run of one worker is interference that every other worker tolerates.
\<close>

section \<open>Evolution of the jobs\<close>

definition job_run :: "life_label set \<Rightarrow> import_job \<Rightarrow> import_job \<Rightarrow> bool" where
  "job_run labels j j' \<longleftrightarrow> same_import j j' \<and>
     (\<exists>ls. set ls \<subseteq> labels \<and> life_run (job_max_attempts j) ls (life_of j) (life_of j'))"

definition new_run :: "life_label set \<Rightarrow> import_job \<Rightarrow> bool" where
  "new_run labels j \<longleftrightarrow>
     (\<exists>ls. set ls \<subseteq> labels \<and> life_run (job_max_attempts j) ls (Waiting 0) (life_of j))"

text \<open>The jobs of the first database, each moved along its life cycle, then new ones.\<close>

definition evolves :: "life_label set \<Rightarrow> database \<Rightarrow> database \<Rightarrow> bool" where
  "evolves labels db db' \<longleftrightarrow> (\<exists>olds news. db_jobs db' = olds @ news \<and>
     list_all2 (job_run labels) (db_jobs db) olds \<and> (\<forall>j \<in> set news. new_run labels j))"

lemma life_run_append: "life_run m ks s s' \<Longrightarrow> life_run m ls s' s'' \<Longrightarrow> life_run m (ks @ ls) s s''"
  by (induction ks arbitrary: s) auto

lemma job_run_refl: "job_run labels j j"
  by (auto simp: job_run_def intro!: exI [of _ "[]"])

lemma job_run_trans: "job_run labels j j' \<Longrightarrow> job_run labels j' j'' \<Longrightarrow> job_run labels j j''"
  unfolding job_run_def
proof (elim conjE exE, intro conjI)
  fix ks ls assume "same_import j j'" "same_import j' j''" "set ks \<subseteq> labels" "set ls \<subseteq> labels"
    "life_run (job_max_attempts j) ks (life_of j) (life_of j')"
    "life_run (job_max_attempts j') ls (life_of j') (life_of j'')"
  then show "\<exists>ls. set ls \<subseteq> labels \<and> life_run (job_max_attempts j) ls (life_of j) (life_of j'')"
    by (intro exI [of _ "ks @ ls"]) (auto simp: same_import_def intro: life_run_append)
qed (rule same_import_trans)

lemma new_run_trans: "new_run labels j \<Longrightarrow> job_run labels j j' \<Longrightarrow> new_run labels j'"
  unfolding new_run_def job_run_def
proof (elim conjE exE)
  fix ks ls assume "same_import j j'" "set ks \<subseteq> labels" "set ls \<subseteq> labels"
    "life_run (job_max_attempts j) ks (Waiting 0) (life_of j)"
    "life_run (job_max_attempts j) ls (life_of j) (life_of j')"
  then show "\<exists>ls. set ls \<subseteq> labels \<and> life_run (job_max_attempts j') ls (Waiting 0) (life_of j')"
    by (intro exI [of _ "ks @ ls"]) (auto simp: same_import_def intro: life_run_append)
qed

lemma job_run_step: "l \<in> labels \<Longrightarrow> job_step l j j' \<Longrightarrow> job_run labels j j'"
  unfolding job_run_def job_step_def by (auto intro!: exI [of _ "[l]"])

lemma job_run_mono: "labels \<subseteq> labels' \<Longrightarrow> job_run labels j j' \<Longrightarrow> job_run labels' j j'"
  unfolding job_run_def by blast

lemma new_run_mono: "labels \<subseteq> labels' \<Longrightarrow> new_run labels j \<Longrightarrow> new_run labels' j"
  unfolding new_run_def by blast

lemma evolves_refl: "evolves labels db db"
  unfolding evolves_def
  by (intro exI [of _ "db_jobs db"] exI [of _ "[]"]) (simp add: list_all2_same job_run_refl)

lemma evolves_mono:
  assumes sub: "labels \<subseteq> labels'" and "evolves labels db db'"
  shows "evolves labels' db db'"
proof -
  obtain olds news where ev: "db_jobs db' = olds @ news"
    "list_all2 (job_run labels) (db_jobs db) olds" "\<forall>j \<in> set news. new_run labels j"
    using assms(2) by (auto simp: evolves_def)
  have "list_all2 (job_run labels') (db_jobs db) olds"
    using ev(2) by (rule list_all2_mono) (rule job_run_mono [OF sub])
  with ev(1,3) new_run_mono [OF sub] show ?thesis by (auto simp: evolves_def)
qed

lemma evolves_trans:
  assumes "evolves labels db db1" "evolves labels db1 db2"
  shows "evolves labels db db2"
proof -
  obtain olds news where 1: "db_jobs db1 = olds @ news" "list_all2 (job_run labels) (db_jobs db) olds"
    "\<forall>j \<in> set news. new_run labels j" using assms(1) by (auto simp: evolves_def)
  obtain olds' news' where 2: "db_jobs db2 = olds' @ news'"
    "list_all2 (job_run labels) (olds @ news) olds'" "\<forall>j \<in> set news'. new_run labels j"
    using assms(2) 1(1) by (auto simp: evolves_def)
  then obtain xs ys where split: "olds' = xs @ ys" "list_all2 (job_run labels) olds xs"
    "list_all2 (job_run labels) news ys" by (auto simp: list_all2_append1)
  have "list_all2 (job_run labels) (db_jobs db) xs"
    by (rule list_all2_trans [OF job_run_trans 1(2) split(2)])
  moreover have "\<forall>j \<in> set ys. new_run labels j"
    using split(3) 1(3) by (induction rule: list_all2_induct) (auto intro: new_run_trans)
  ultimately show ?thesis
    unfolding evolves_def using 2(1,3) split(1) by (intro exI [of _ xs] exI [of _ "ys @ news'"]) auto
qed

lemma evolves_moved: "moved labels (db_jobs db) (db_jobs db') \<Longrightarrow> evolves labels db db'"
  unfolding evolves_def moved_def
proof (intro exI conjI)
  assume "list_all2 (\<lambda>j j'. j' = j \<or> (\<exists>l \<in> labels. job_step l j j')) (db_jobs db) (db_jobs db')"
  then show "list_all2 (job_run labels) (db_jobs db) (db_jobs db')"
    by (rule list_all2_mono) (auto intro: job_run_refl job_run_step)
qed auto

lemma evolves_created:
  "db_jobs db' = db_jobs db @ [j] \<Longrightarrow> life_of j = Waiting 0 \<Longrightarrow> evolves labels db db'"
  unfolding evolves_def
  by (intro exI [of _ "db_jobs db"] exI [of _ "[j]"])
    (auto simp: list_all2_same job_run_refl new_run_def intro!: exI [of _ "[]"])

section \<open>Instances of the contract\<close>

definition tracks :: "life_label set \<Rightarrow> database \<Rightarrow> database \<Rightarrow> bool" where
  "tracks labels db db' \<longleftrightarrow> db_ok db' \<and> evolves labels db db'"

interpretation consistency: db_invariant db_ok UNIV
  by unfold_locales

interpretation tracking: db_invariant "tracks labels db" labels for labels db
proof
  show "tracks labels db db1 \<Longrightarrow> db_ok db1" for db1 by (simp add: tracks_def)
  show "tracks labels db db2"
    if "tracks labels db db1" "db_ok db2" "db_outbox db2 = db_outbox db1" "moved labels (db_jobs db1) (db_jobs db2)" for db1 db2
    using that evolves_trans [OF _ evolves_moved] by (auto simp: tracks_def)
  show "tracks labels db db2"
    if "tracks labels db db1" "db_ok db2" "db_outbox db2 = db_outbox db1" "db_jobs db2 = db_jobs db1 @ [j]" "life_of j = Waiting 0"
    for db1 db2 j
    using that evolves_trans [OF _ evolves_created] by (auto simp: tracks_def)
qed

section \<open>Interference\<close>

text \<open>
  What the others may commit while token \<open>t\<close> is in use: anything that keeps the database
  consistent and moves jobs along their life cycles, except a claim under \<open>t\<close>.
\<close>

definition tolerated :: "uuid \<Rightarrow> (database \<Rightarrow> database) \<Rightarrow> bool" where
  "tolerated t f \<longleftrightarrow> (\<forall>db. db_ok db \<longrightarrow> tracks (- {Claim t}) db (f db))"

lemma life_run_unclaimed:
  "life_run m ls s s' \<Longrightarrow> s' = Running t a \<Longrightarrow> Claim t \<notin> set ls \<Longrightarrow> s = Running t a"
  by (induction rule: life_run.induct) (auto elim: life_step.cases)

lemma job_run_owned:
  assumes "job_run (- {Claim t}) j j'" "job_ok j" "job_owned i t j'"
  shows "job_owned i t j \<and> job_attempt_count j' = job_attempt_count j \<and>
    job_max_attempts j' = job_max_attempts j"
proof -
  obtain ls where ls: "set ls \<subseteq> - {Claim t}" "life_run (job_max_attempts j) ls (life_of j) (life_of j')"
    "same_import j j'" using assms(1) by (auto simp: job_run_def)
  then have "life_of j = Running t (job_attempt_count j')"
    using life_run_unclaimed life_of_owned [OF assms(3)] by blast
  then show ?thesis using assms ls(3) by (auto simp: life_of_Running job_owned_def same_import_def)
qed

lemma new_run_unowned: "new_run (- {Claim t}) j \<Longrightarrow> \<not> job_owned i t j"
  unfolding new_run_def using life_run_unclaimed life_of_owned by blast

lemma evolves_own_attempt:
  assumes "evolves (- {Claim t}) db db'" "db_ok db" "own_attempt i t a m db"
  shows "own_attempt i t a m db'"
  unfolding own_attempt_def
proof (intro ballI impI)
  fix j' assume j': "j' \<in> set (db_jobs db')" "job_owned i t j'"
  obtain olds news where ev: "db_jobs db' = olds @ news"
    "list_all2 (job_run (- {Claim t})) (db_jobs db) olds" "\<forall>j \<in> set news. new_run (- {Claim t}) j"
    using assms(1) by (auto simp: evolves_def)
  then have "j' \<in> set olds" using j' new_run_unowned by auto
  with ev(2) obtain j where "j \<in> set (db_jobs db)" "job_run (- {Claim t}) j j'"
    by (induction rule: list_all2_induct) auto
  then show "job_attempt_count j' = a \<and> job_max_attempts j' = m"
    using job_run_owned [OF _ _ j'(2)] assms(2,3)
    by (auto simp: own_attempt_def db_ok_def jobs_ok_def)
qed

lemma tolerated_rely:
  assumes "\<forall>e \<in> set (script w). tolerated t (ev_others e)"
  shows "rely (tracking.linked UNIV db i t a m) w"
  unfolding rely_def
proof (intro ballI allI impI)
  fix e db1 assume e: "e \<in> set (script w)" and link: "tracking.linked UNIV db i t a m db1"
  then have ok: "db_ok db1" and old: "evolves UNIV db db1" and own: "own_attempt i t a m db1"
    by (auto simp: tracking.linked_def tracks_def)
  then have new: "db_ok (ev_others e db1)" "evolves (- {Claim t}) db1 (ev_others e db1)"
    using assms e by (auto simp: tolerated_def tracks_def)
  have "evolves UNIV db (ev_others e db1)"
    using evolves_trans [OF old evolves_mono [OF _ new(2)]] by simp
  then show "tracking.linked UNIV db i t a m (ev_others e db1)"
    using new evolves_own_attempt [OF new(2) ok own] by (simp add: tracking.linked_def tracks_def)
qed

lemma fresh_unowned: "\<forall>j \<in> set jobs. job_processing_token j \<noteq> Some t \<Longrightarrow> \<forall>j \<in> set jobs. \<not> job_owned i t j"
  by (auto simp: job_owned_def)

lemma run_tracks:
  assumes "db_ok (committed w)"
    and "\<forall>j \<in> set (db_jobs (committed w)). job_processing_token j \<noteq> Some (uuid_source w (draws w))"
    and "\<forall>e \<in> set (script w). tolerated (uuid_source w (draws w)) (ev_others e)"
  shows "tracks UNIV (committed w) (committed (snd (process_import_run wk i w)))"
proof (rule tracking.process_import_run_keeps [OF _ refl])
  show "rely (tracking.linked UNIV (committed w) i (uuid_source w (draws w)) a m) w" for a m
    by (rule tolerated_rely [OF assms(3)])
  show "tracking.linked UNIV (committed w) i (uuid_source w (draws w)) a m (committed w)" for a m
    using assms(1,2) by (intro tracking.unowned_linked)
      (auto simp: tracks_def evolves_refl dest: fresh_unowned)
qed simp

lemma job_run_terminal:
  assumes "job_run labels j j'" "job_ok j" "job_ok j'" "job_status j \<in> {ImportCOMPLETED, ImportFAILED}"
  shows "job_status j' = job_status j \<and> job_attempt_count j' = job_attempt_count j"
proof -
  have "life_terminal (life_of j)" using assms(4) by (auto simp: life_of_def)
  then have "life_of j' = life_of j"
    using assms(1) life_run_terminal unfolding job_run_def by blast
  then show ?thesis
    using assms(2-4) by (auto simp: life_of_def job_ok_def split: import_status.splits option.splits)
qed

lemma evolves_member:
  "evolves labels db db' \<Longrightarrow> j \<in> set (db_jobs db) \<Longrightarrow> \<exists>j' \<in> set (db_jobs db'). job_run labels j j'"
proof -
  assume "evolves labels db db'" and j: "j \<in> set (db_jobs db)"
  then obtain olds news where ev: "db_jobs db' = olds @ news"
    "list_all2 (job_run labels) (db_jobs db) olds" by (auto simp: evolves_def)
  from ev(2) j have "\<exists>j' \<in> set olds. job_run labels j j'"
    by (induction rule: list_all2_induct) auto
  then show ?thesis using ev(1) by auto
qed

section \<open>Examples\<close>

text \<open>A pending import, and a worker whose workbook cannot be opened.\<close>

definition example_job :: import_job where
  "example_job = \<lparr>job_id = 1, job_status = ImportPENDING, job_original_file_name = ''a.xlsx'',
     job_stored_file_path = ''/s/a.xlsx'', job_file_size_bytes = 10, job_content_type = None,
     job_idempotency_key = None, job_idempotency_fingerprint = ''f'', job_total_rows = 0,
     job_processed_rows = 0, job_success_count = 0, job_failed_count = 0, job_attempt_count = 0,
     job_max_attempts = 3, job_processing_token = None, job_locked_by_worker = None,
     job_started_at = None, job_last_heartbeat_at = None, job_finished_at = None,
     job_last_failure_reason = None, job_failure_reason = None, job_last_requeued_at = None,
     job_created_at = 0, job_updated_at = 0\<rparr>"

definition example_db :: database where
  "example_db = \<lparr>db_jobs = [example_job], db_outbox = [], db_shipments = [], db_errors = []\<rparr>"

definition example_worker :: import_worker where
  "example_worker = \<lparr>wk_load = (\<lambda>_. Inl OSError),
     wk_adapters = \<lparr>ad_str = (\<lambda>_. Inl ''no''), ad_decimal = (\<lambda>_. Inl ''no''), ad_date = (\<lambda>_. Inl ''no'')\<rparr>,
     wk_chunk_size = 500, wk_worker_id = ''w1''\<rparr>"

text \<open>
  The second statement of the run fails, another session deletes all errors before it, and the
  third event is a COMMIT that fails although the server applied it.
\<close>

definition example_run :: import_run where
  "example_run = \<lparr>committed = example_db, working = example_db,
     script = [quiet, quiet\<lparr>ev_others := db_errors_update (\<lambda>_. []), ev_elapsed := 5\<rparr>,
       quiet\<lparr>ev_fault := Some OperationalError, ev_applied := True\<rparr>],
     clock = 100, tx_time = 0, draws = 0, uuid_source = (\<lambda>n. n + 10), pg_numeric = (\<lambda>p s d. Some d), advisory = [],
     lv_claimed = None, lv_rows = ([], None), lv_tracker = new_tracker, lv_chunk_result = None,
     lv_corrected = None\<rparr>"

lemma example_db_ok: "db_ok example_db"
  by (simp add: db_ok_def jobs_ok_def job_ok_def example_db_def example_job_def refs_ok_def
      shipments_ok_def idempotency_keys_def ck_failure_reason_terminal_def)

lemma tolerated_id: "tolerated t (\<lambda>db. db)"
  by (simp add: tolerated_def tracks_def evolves_refl)

lemma tolerated_delete_errors: "tolerated t (db_errors_update (\<lambda>_. []))"
proof -
  have "evolves labels db (db\<lparr>db_errors := []\<rparr>)" for labels db
    by (rule evolves_moved) (auto simp: moved_def list_all2_same)
  moreover have "db_ok db \<Longrightarrow> db_ok (db\<lparr>db_errors := []\<rparr>)" for db
    using delete_errors_db_ok [of db "\<lambda>_. False"] by simp
  ultimately show ?thesis by (simp add: tolerated_def tracks_def)
qed

lemma example_run_simps:
  "committed example_run = example_db" "uuid_source example_run (draws example_run) = 10"
  "\<forall>j \<in> set (db_jobs example_db). job_processing_token j \<noteq> Some 10"
  "\<forall>e \<in> set (script example_run). tolerated 10 (ev_others e)"
  by (simp_all add: example_run_def example_db_def example_job_def quiet_def tolerated_id
      tolerated_delete_errors)

section \<open>Properties\<close>

text \<open>
  C4. Whatever a run meets (statements and commits that fail, commits that fail but were applied,
  time passing, other sessions committing anything that keeps the database consistent and does
  not use the run's token), the database it leaves is consistent: every job, intent, shipment
  and error row well formed, keys unique, references valid, counters adding up.
\<close>

theorem process_import_run_db_ok:
  assumes "db_ok (committed w)"
    and "\<forall>j \<in> set (db_jobs (committed w)). job_processing_token j \<noteq> Some (uuid_source w (draws w))"
    and "\<forall>e \<in> set (script w). tolerated (uuid_source w (draws w)) (ev_others e)"
  shows "db_ok (committed (snd (process_import_run wk i w)))"
  using run_tracks [OF assms, of wk i] by (simp add: tracks_def)

theorem process_import_run_db_ok_witness:
  "db_ok (committed (snd (process_import_run example_worker 1 example_run)))"
  by (rule process_import_run_db_ok) (simp_all add: example_run_simps example_db_ok)

text \<open>
  C10. Under the same interference a job that is COMPLETED or FAILED before the run still is after
  it, with the same number of attempts: terminal states are final, whoever runs.
\<close>

theorem process_import_run_terminal:
  assumes "db_ok (committed w)"
    and "\<forall>j \<in> set (db_jobs (committed w)). job_processing_token j \<noteq> Some (uuid_source w (draws w))"
    and "\<forall>e \<in> set (script w). tolerated (uuid_source w (draws w)) (ev_others e)"
    and "j \<in> set (db_jobs (committed w))" "job_status j \<in> {ImportCOMPLETED, ImportFAILED}"
  shows "\<exists>j' \<in> set (db_jobs (committed (snd (process_import_run wk i w)))).
    same_import j j' \<and> job_status j' = job_status j \<and> job_attempt_count j' = job_attempt_count j"
proof -
  have tr: "tracks UNIV (committed w) (committed (snd (process_import_run wk i w)))"
    by (rule run_tracks [OF assms(1-3)])
  then obtain j' where j': "j' \<in> set (db_jobs (committed (snd (process_import_run wk i w))))"
    "job_run UNIV j j'" using evolves_member [OF _ assms(4)] unfolding tracks_def by blast
  have "job_ok j" "job_ok j'"
    using assms(1,4) tr j'(1) by (auto simp: tracks_def db_ok_def jobs_ok_def)
  from job_run_terminal [OF j'(2) this assms(5)] j' show ?thesis by (auto simp: job_run_def)
qed

definition finished_run :: import_run where
  "finished_run = example_run\<lparr>committed := example_db\<lparr>db_jobs := [example_job\<lparr>job_status := ImportCOMPLETED,
     job_finished_at := Some 7, job_attempt_count := 1\<rparr>]\<rparr>\<rparr>"

theorem process_import_run_terminal_witness:
  "\<exists>j' \<in> set (db_jobs (committed (snd (process_import_run example_worker 1 finished_run)))).
     job_status j' = ImportCOMPLETED \<and> job_attempt_count j' = 1"
proof -
  let ?j = "example_job\<lparr>job_status := ImportCOMPLETED, job_finished_at := Some 7, job_attempt_count := 1\<rparr>"
  have "db_ok (committed finished_run)"
    by (simp add: finished_run_def db_ok_def jobs_ok_def job_ok_def example_db_def example_job_def
        refs_ok_def shipments_ok_def idempotency_keys_def ck_failure_reason_terminal_def)
  moreover have "\<forall>e \<in> set (script finished_run).
      tolerated (uuid_source finished_run (draws finished_run)) (ev_others e)"
    using example_run_simps by (simp add: finished_run_def)
  ultimately have "\<exists>j' \<in> set (db_jobs (committed (snd (process_import_run example_worker 1 finished_run)))).
      same_import ?j j' \<and> job_status j' = job_status ?j \<and> job_attempt_count j' = job_attempt_count ?j"
    by (intro process_import_run_terminal) (simp_all add: finished_run_def example_job_def)
  then show ?thesis by fastforce
qed

text \<open>
  The run of one worker is interference every other worker tolerates: started on a consistent
  database with a fresh token, it only moves jobs along their life cycles and never claims
  under another worker's token \<open>t\<close>. So the assumption of the properties above holds when the
  other sessions are workers.
\<close>

theorem process_import_run_tolerated:
  assumes "db_ok db" "t \<noteq> uuid_source w (draws w)"
    and "\<forall>j \<in> set (db_jobs db). job_processing_token j \<noteq> Some (uuid_source w (draws w))"
  shows "tracks (- {Claim t}) db
    (committed (snd (process_import_run wk i (w\<lparr>committed := db, script := []\<rparr>))))"
proof (rule tracking.process_import_run_keeps [OF _ refl])
  let ?w = "w\<lparr>committed := db, script := []\<rparr>"
  show "worker_labels (uuid_source ?w (draws ?w)) \<subseteq> - {Claim t}"
    using assms(2) by (auto simp: worker_labels_def)
  show "rely (tracking.linked (- {Claim t}) db i (uuid_source ?w (draws ?w)) a m) ?w" for a m
    by (simp add: rely_def)
  show "tracking.linked (- {Claim t}) db i (uuid_source ?w (draws ?w)) a m (committed ?w)" for a m
    using assms(1,3) by (intro tracking.unowned_linked)
      (auto simp: tracks_def evolves_refl dest: fresh_unowned)
qed

theorem process_import_run_tolerated_witness:
  "tracks (- {Claim 3}) example_db
    (committed (snd (process_import_run example_worker 1 (example_run\<lparr>committed := example_db, script := []\<rparr>))))"
  by (rule process_import_run_tolerated) (simp_all add: example_run_simps example_db_ok)

end
