(* ===== verification/Row_Validation_Spec.thy ===== *)
theory Row_Validation_Spec
  imports Row_Facts
begin

text \<open>
  The contract of row validation, stated on the rows of the file: which rows become shipments,
  and that the size of the chunks does not show. The properties are about a run without
  interference from other sessions; what a chunk guarantees under interference is in Row_Facts.
\<close>

text \<open>
  Row \<open>k\<close> is accepted: its cells read as a shipment that conforms to the rules, no earlier row
  of the file has its code (accepted or not), and the database does not have it either.
\<close>

definition accepted ::
  "adapters \<Rightarrow> string set \<Rightarrow> parsed_workbook_row list \<Rightarrow> nat \<Rightarrow> parsed_shipment \<Rightarrow> bool" where
  "accepted ad codes rows k r \<longleftrightarrow>
     row_reads ad (row_values (rows ! k)) r \<and> row_conforms r \<and> pr_shipment_code r \<notin> codes \<and>
     (\<forall>j < k. row_code ad (row_values (rows ! j)) \<noteq> Some (pr_shipment_code r))"

definition accepted_rows :: "adapters \<Rightarrow> string set \<Rightarrow> parsed_workbook_row list \<Rightarrow> nat list" where
  "accepted_rows ad codes rows = filter (\<lambda>k. \<exists>r. accepted ad codes rows k r) [0..<length rows]"

lemma row_reads_code: "row_reads ad vs r \<Longrightarrow> row_code ad vs = Some (pr_shipment_code r)"
  by (simp add: row_reads_def row_code_def required_fields)

lemma code_set_take:
  "c \<in> code_set (take k (map (prepare_row ad) rows)) \<longleftrightarrow>
     (\<exists>j < k. j < length rows \<and> row_code ad (row_values (rows ! j)) = Some c)"
proof -
  have "code_set (take k (map (prepare_row ad) rows)) =
      {c. \<exists>row \<in> set (take k rows). row_code ad (row_values row) = Some c}"
    by (auto simp: code_set_def take_map prepare_row_code)
  moreover have "(\<exists>row \<in> set (take k rows). row_code ad (row_values row) = Some c) \<longleftrightarrow>
      (\<exists>j < k. j < length rows \<and> row_code ad (row_values (rows ! j)) = Some c)"
    by (metis (no_types, lifting) in_set_conv_nth length_take min_less_iff_conj nth_take)
  ultimately show ?thesis by simp
qed

lemma verdict_accepted:
  assumes "k < length rows"
  shows "snd (verdicts {} codes (map (prepare_row ad) rows) ! k) = [] \<longleftrightarrow> (\<exists>r. accepted ad codes rows k r)"
proof -
  let ?row = "rows ! k"
  have "snd (verdicts {} codes (map (prepare_row ad) rows) ! k) = [] \<longleftrightarrow>
      (\<exists>r. row_reads ad (row_values ?row) r \<and> row_conforms r) \<and>
      (\<forall>c. row_code ad (row_values ?row) = Some c \<longrightarrow>
        c \<notin> code_set (take k (map (prepare_row ad) rows)) \<and> c \<notin> codes)"
    using assms by (auto simp: verdicts_nth prepare_row_clean_iff [symmetric] prepare_row_code
        duplicate_issues_def split: option.splits if_splits)
  also have "\<dots> \<longleftrightarrow> (\<exists>r. accepted ad codes rows k r)"
    unfolding code_set_take accepted_def using assms by (auto simp: row_reads_code)
  finally show ?thesis .
qed

lemma filter_by_index: "filter p xs = map ((!) xs) (filter (\<lambda>k. p (xs ! k)) [0..<length xs])"
proof -
  have "filter p (map ((!) xs) [0..<length xs]) = map ((!) xs) (filter (p \<circ> (!) xs) [0..<length xs])"
    by (rule filter_map)
  then show ?thesis by (simp only: map_nth o_def)
qed

lemma accepted_rows_verdicts:
  "accepted_rows ad codes rows =
     filter (\<lambda>k. snd (verdicts {} codes (map (prepare_row ad) rows) ! k) = []) [0..<length rows]"
  unfolding accepted_rows_def by (rule filter_cong) (auto simp: verdict_accepted)

lemma clean_rows_accepted:
  "clean_rows (verdicts {} codes (map (prepare_row ad) rows)) =
     map (\<lambda>k. prepare_row ad (rows ! k)) (accepted_rows ad codes rows)"
proof -
  let ?vs = "verdicts {} codes (map (prepare_row ad) rows)"
  have "clean_rows ?vs = map fst (map ((!) ?vs) (filter (\<lambda>k. snd (?vs ! k) = []) [0..<length rows]))"
    unfolding clean_rows_def by (subst filter_by_index) (simp add: case_prod_beta)
  also have "filter (\<lambda>k. snd (?vs ! k) = []) [0..<length rows] = accepted_rows ad codes rows"
    by (rule accepted_rows_verdicts [symmetric])
  also have "map fst (map ((!) ?vs) (accepted_rows ad codes rows)) =
      map (\<lambda>k. prepare_row ad (rows ! k)) (accepted_rows ad codes rows)"
    by (auto simp: accepted_rows_def verdicts_nth)
  finally show ?thesis .
qed

lemma row_errors_rows:
  "set (map err_row_number (row_errors i vs)) = (row_number \<circ> prep_row) ` set (failed_rows vs)"
proof (induction vs)
  case (Cons v vs)
  obtain p "is" where v: "v = (p, is)" by (cases v)
  then show ?case using Cons by (cases "is") (auto simp: error_of_def)
qed simp

lemma failed_rows_set: "set (failed_rows vs) = fst ` {v \<in> set vs. snd v \<noteq> []}"
  by (auto simp: failed_rows_def)

lemma failed_rows_numbers:
  "(row_number \<circ> prep_row) ` set (failed_rows (verdicts {} codes (map (prepare_row ad) rows))) =
     {row_number (rows ! k) |k. k < length rows \<and> (\<nexists>r. accepted ad codes rows k r)}"
proof -
  let ?vs = "verdicts {} codes (map (prepare_row ad) rows)"
  have row: "(row_number \<circ> prep_row) (fst (?vs ! k)) = row_number (rows ! k)" if "k < length rows" for k
    using that by (simp add: verdicts_nth prepare_row_def split: prod.split)
  have "(row_number \<circ> prep_row) ` set (failed_rows ?vs) =
      {(row_number \<circ> prep_row) (fst (?vs ! k)) |k. k < length rows \<and> snd (?vs ! k) \<noteq> []}"
    unfolding failed_rows_set by (force simp: in_set_conv_nth)
  also have "\<dots> = {row_number (rows ! k) |k. k < length rows \<and> (\<nexists>r. accepted ad codes rows k r)}"
    using row verdict_accepted [of _ rows codes ad] by (metis (no_types, lifting))
  finally show ?thesis .
qed

lemma validate_chunk_quiet:
  assumes "script w = []"
  shows "\<exists>r n. validate_chunk ad chunk tracker i w = (Inr r, w\<lparr>draws := n\<rparr>)"
  using validate_chunk_run [OF find_existing_quiet [OF assms], where i = i] by blast

lemma validate_chunks_ended:
  "script w = [] \<Longrightarrow> fst (validate_chunks ad i chunks (Some e) tracker acc w) = Inl e"
proof (induction chunks arbitrary: tracker acc w)
  case (Cons c cs)
  obtain res tr n where "validate_chunk ad c tracker i w = (Inr (res, tr), w\<lparr>draws := n\<rparr>)"
    using validate_chunk_quiet [OF Cons.prems, of ad c tracker i] by auto
  then show ?case using Cons by (simp add: bindE_def)
qed (simp add: throw_def)

lemma validate_reference:
  assumes "script w = []"
  shows "validate ad (chunks, None) i w =
    bindE (emit_rows i (verdicts {} (stored_codes (working w)) (map (prepare_row ad) (concat chunks)))
        empty_locals)
      (\<lambda>l. ret (to_result (add_locals new_accumulator (length (concat chunks)) l))) w"
  unfolding validate_def fst_conv snd_conv bindE_def
    validate_chunks_reference [OF assms, unfolded bindE_def]
  by (auto simp: new_tracker_def ret_def split: prod.split sum.split)

lemma accepted_parsed:
  assumes "accepted ad codes rows k p"
  shows "prep_parsed_row (prepare_row ad (rows ! k)) = Some p"
proof -
  have "prep_issues (prepare_row ad (rows ! k)) = []"
    using assms by (auto simp: prepare_row_clean_iff accepted_def)
  from prepare_row_clean [OF this] assms show ?thesis
    by (auto simp: accepted_def dest: row_reads_unique)
qed

lemma produced_accepted:
  assumes "produced u k n i (verdicts {} codes (map (prepare_row ad) rows)) xs es"
  shows "list_all2 (\<lambda>k s. \<exists>p. accepted ad codes rows k p \<and> s\<lparr>ship_id := 0\<rparr> = new_shipment 0 i p)
      (accepted_rows ad codes rows) (map valid_shipment xs)"
    and "err_row_number ` set es = {row_number (rows ! k) |k. k < length rows \<and> (\<nexists>p. accepted ad codes rows k p)}"
proof -
  let ?vs = "verdicts {} codes (map (prepare_row ad) rows)"
  have "map (\<lambda>s. s\<lparr>ship_id := 0\<rparr>) (map valid_shipment xs) =
      map (\<lambda>k. shipment_of i (prepare_row ad (rows ! k))) (accepted_rows ad codes rows)"
    using assms by (simp add: produced_def clean_rows_accepted o_def)
  then have "list_all2 (\<lambda>k s. s\<lparr>ship_id := 0\<rparr> = shipment_of i (prepare_row ad (rows ! k)))
      (accepted_rows ad codes rows) (map valid_shipment xs)"
    by (simp add: list_all2_conv_all_nth list_eq_iff_nth_eq)
  then show "list_all2 (\<lambda>k s. \<exists>p. accepted ad codes rows k p \<and> s\<lparr>ship_id := 0\<rparr> = new_shipment 0 i p)
      (accepted_rows ad codes rows) (map valid_shipment xs)"
  proof (rule list.rel_mono_strong)
    fix k s
    assume k: "k \<in> set (accepted_rows ad codes rows)" and s: "s\<lparr>ship_id := 0\<rparr> = shipment_of i (prepare_row ad (rows ! k))"
    then obtain p where p: "accepted ad codes rows k p" by (auto simp: accepted_rows_def)
    from accepted_parsed [OF p] show "\<exists>p. accepted ad codes rows k p \<and> s\<lparr>ship_id := 0\<rparr> = new_shipment 0 i p"
      using p s by (auto simp: shipment_of_def)
  qed
  have "err_row_number ` set es = set (map err_row_number (map (\<lambda>e. e\<lparr>err_id := 0\<rparr>) es))"
    by (simp add: image_image)
  then have "err_row_number ` set es = (row_number \<circ> prep_row) ` set (failed_rows ?vs)"
    using assms by (simp only: produced_def row_errors_rows)
  then show "err_row_number ` set es = {row_number (rows ! k) |k. k < length rows \<and> (\<nexists>p. accepted ad codes rows k p)}"
    by (simp only: failed_rows_numbers)
qed

text \<open>
  C5. Validation of a whole workbook, without interference: the shipments are, in order, one for
  each accepted row (its cells read as a conforming shipment whose code is new to the file and to
  the database), each with the parsed values of its row; every rejected row, and no other, has
  at least one error; the counters are the numbers of rows of each kind.
\<close>

theorem validate_classifies_rows:
  "\<exists>r n. validate ad (chunks, None) i (w\<lparr>script := []\<rparr>) = (Inr r, w\<lparr>script := [], draws := n\<rparr>) \<and>
     val_total_rows r = length (concat chunks) \<and> val_processed_rows r = val_total_rows r \<and>
     val_success_count r + val_failed_count r = val_total_rows r \<and>
     val_success_count r = length (val_shipments r) \<and>
     list_all2 (\<lambda>k s. \<exists>p. accepted ad (stored_codes (working w)) (concat chunks) k p \<and>
         s\<lparr>ship_id := 0\<rparr> = new_shipment 0 i p)
       (accepted_rows ad (stored_codes (working w)) (concat chunks)) (val_shipments r) \<and>
     err_row_number ` set (val_import_errors r) =
       {row_number (concat chunks ! k) |k. k < length (concat chunks) \<and>
          (\<nexists>p. accepted ad (stored_codes (working w)) (concat chunks) k p)}"
proof -
  let ?w = "w\<lparr>script := []\<rparr>" and ?rows = "concat chunks" and ?codes = "stored_codes (working w)"
  let ?vs = "verdicts {} ?codes (map (prepare_row ad) ?rows)"
  obtain xs es n where run: "emit_rows i ?vs empty_locals ?w =
      (Inr (extend_locals xs es (length (failed_rows ?vs)) empty_locals), ?w\<lparr>draws := n\<rparr>)"
    and prod: "produced (uuid_source w) (draws w) n i ?vs xs es"
    using emit_rows_run [where vs = ?vs and i = i and l = empty_locals and w = ?w,
        OF verdicts_assertion [OF prepared_assertion]] by auto
  let ?r = "to_result (add_locals new_accumulator (length ?rows)
    (extend_locals xs es (length (failed_rows ?vs)) empty_locals))"
  have "validate ad (chunks, None) i ?w = (Inr ?r, ?w\<lparr>draws := n\<rparr>)"
    by (subst validate_reference) (simp_all add: bindE_def run ret_def)
  moreover have "length xs = length (clean_rows ?vs)"
    using prod by (metis produced_def length_map)
  then have "length xs + length (failed_rows ?vs) = length ?rows" using verdict_split [of ?vs] by simp
  moreover note produced_accepted [OF prod]
  ultimately show ?thesis
    by (intro exI [of _ ?r] exI [of _ n])
      (simp add: to_result_def add_locals_def new_accumulator_def)
qed

text \<open>
  C11. The chunk size is not observable: without interference, validating a workbook in chunks of
  \<open>n\<close> rows gives the same shipments, errors and counters (identifiers included), or the same
  exception, as in chunks of \<open>m\<close> rows; a size of zero or less acts as one.
\<close>

theorem validate_chunk_size_irrelevant:
  "fst (validate ad (iter_chunks load path n) i (w\<lparr>script := []\<rparr>)) =
     fst (validate ad (iter_chunks load path m) i (w\<lparr>script := []\<rparr>))"
proof -
  let ?w = "w\<lparr>script := []\<rparr>"
  have ended: "fst (validate ad (chunks, Some e) i ?w) = Inl e" for chunks e
    using validate_chunks_ended [of ?w ad i chunks e new_tracker new_accumulator]
    by (auto simp: validate_def bindE_def split: prod.split sum.split)
  have cut: "fst (validate ad (chunk_rows k (ended = None) [] rows, map_option structure_exn ended) i ?w) =
      (case ended of
         None \<Rightarrow> fst (validate ad ([rows], None) i ?w) | Some e \<Rightarrow> Inl (structure_exn e))"
    for k ended rows
  proof (cases ended)
    case None
    have "concat (chunk_rows k True [] rows) = concat [rows]" by (simp add: concat_chunk_rows)
    then have "validate ad (chunk_rows k True [] rows, None) i ?w = validate ad ([rows], None) i ?w"
      using validate_reference [of ?w ad _ i] by simp
    with None show ?thesis by simp
  qed (simp add: ended)
  show ?thesis
    by (auto simp: iter_chunks_def ended cut split: sum.split list.split)
qed

end
