(* ===== verification/Outbox.thy ===== *)
theory Outbox
  imports Import_Repositories Settings
begin

text \<open>
  The transactional outbox: OutboxRepository (app/outbox/repositories/outbox_repository.py) and
  PublishOutboxService (app/outbox/services/publish_outbox.py). The publisher claims due intents
  in one transaction, hands each to the broker outside any transaction and records the
  outcome in a transaction of its own; claims abandoned by a publisher that died are recovered.

  A SELECT ... FOR UPDATE locks its rows until the end of the transaction, so the ORM's UPDATE of
  the same rows at the flush sees them unchanged: the two are one statement here. The broker is
  a parameter: \<open>pb_dispatch\<close> says whether sending the task for an import at a given time is
  accepted or raises (type name and text of the exception). \<open>pb_sent\<close> is what the broker
  has accepted so far.
\<close>

section \<open>OutboxRepository\<close>

record claimed_outbox_event =
  oc_outbox_id :: uuid
  oc_import_id :: uuid
  oc_claim_token :: uuid
  oc_attempt_count :: int

record stale_outbox_claim =
  sc_outbox_id :: uuid
  sc_import_id :: uuid
  sc_claim_token :: "uuid option"
  sc_attempt_count :: int

text \<open>What \<^verbatim>\<open>claim_due_events\<close> assigns to a selected row.\<close>

definition claim_event :: "timestamp \<Rightarrow> uuid \<Rightarrow> import_dispatch_outbox \<Rightarrow> import_dispatch_outbox" where
  "claim_event claimed_at token r =
     r\<lparr>ob_status := OutboxPROCESSING, ob_claim_token := Some token, ob_claimed_at := Some claimed_at\<rparr>"

definition due_events ::
  "(uuid \<Rightarrow> bool) \<Rightarrow> int \<Rightarrow> timestamp \<Rightarrow> import_dispatch_outbox list \<Rightarrow> import_dispatch_outbox list" where
  "due_events locked batch_size claimed_at rows =
     order_limit (\<lambda>r. (ob_available_at r, ob_id r)) (nat batch_size)
       (filter (\<lambda>r. ob_status r = OutboxPENDING \<and> ob_available_at r \<le> claimed_at \<and>
          \<not> locked (ob_id r)) rows)"

text \<open>The flush: one UPDATE per claimed row, by primary key, with the token drawn for it.\<close>

fun claim_rows ::
  "(nat \<Rightarrow> uuid) \<Rightarrow> timestamp \<Rightarrow> timestamp \<Rightarrow> nat \<Rightarrow> import_dispatch_outbox list \<Rightarrow> database \<Rightarrow>
     claimed_outbox_event list \<times> database" where
  "claim_rows token claimed_at now k [] db = ([], db)"
| "claim_rows token claimed_at now k (r # rs) db =
     (let (events, db') = claim_rows token claimed_at now (Suc k) rs
            (db\<lparr>db_outbox := sql_update (\<lambda>r'. ob_id r' = ob_id r)
               (\<lambda>r'. (claim_event claimed_at (token k) r')\<lparr>ob_updated_at := now\<rparr>) (db_outbox db)\<rparr>)
      in (\<lparr>oc_outbox_id = ob_id r, oc_import_id = ob_import_id r, oc_claim_token = token k,
           oc_attempt_count = ob_attempt_count r\<rparr> # events, db'))"

definition claim_due_events ::
  "int \<Rightarrow> timestamp \<Rightarrow> ('z world_scheme, claimed_outbox_event list) action" where
  "claim_due_events batch_size claimed_at =
     bindE (gets (\<lambda>w k. uuid_source w (draws w + k))) (\<lambda>token.
     bindE (statement (\<lambda>locked now db.
         Inr (claim_rows token claimed_at now 0 (due_events locked batch_size claimed_at (db_outbox db)) db)))
       (\<lambda>events. bindE (modify (\<lambda>w. w\<lparr>draws := draws w + length events\<rparr>)) (\<lambda>_. ret events)))"

text \<open>The WHERE clause of a publisher's write.\<close>

definition outbox_owned :: "uuid \<Rightarrow> uuid \<Rightarrow> import_dispatch_outbox \<Rightarrow> bool" where
  "outbox_owned outbox_id claim_token r \<longleftrightarrow>
     ob_id r = outbox_id \<and> ob_status r = OutboxPROCESSING \<and> ob_claim_token r = Some claim_token"

definition mark_published :: "claimed_outbox_event \<Rightarrow> ('z world_scheme, bool) action" where
  "mark_published ev =
     bindE (statement (\<lambda>_ now db.
       update_outbox (outbox_owned (oc_outbox_id ev) (oc_claim_token ev))
         (\<lambda>r. r\<lparr>ob_status := OutboxPUBLISHED, ob_published_at := Some now, ob_claim_token := None,
            ob_last_error := None\<rparr>) now db))
     (\<lambda>rowcount. ret (rowcount = 1))"

definition publish_failure_values ::
  "int \<Rightarrow> string \<Rightarrow> outbox_status \<Rightarrow> timestamp option \<Rightarrow> timestamp option \<Rightarrow>
     import_dispatch_outbox \<Rightarrow> import_dispatch_outbox" where
  "publish_failure_values attempt_count error_message status available_at claimed_at r =
     (let r' = r\<lparr>ob_status := status, ob_attempt_count := attempt_count,
        ob_last_error := Some error_message, ob_claimed_at := claimed_at, ob_claim_token := None\<rparr>
      in case available_at of None \<Rightarrow> r' | Some at \<Rightarrow> r'\<lparr>ob_available_at := at\<rparr>)"

definition mark_publish_failure ::
  "claimed_outbox_event \<Rightarrow> int \<Rightarrow> string \<Rightarrow> outbox_status \<Rightarrow> timestamp option \<Rightarrow> timestamp option \<Rightarrow>
     ('z world_scheme, bool) action" where
  "mark_publish_failure ev attempt_count error_message status available_at claimed_at =
     bindE (statement (\<lambda>_ now db.
       update_outbox (outbox_owned (oc_outbox_id ev) (oc_claim_token ev))
         (publish_failure_values attempt_count error_message status available_at claimed_at) now db))
     (\<lambda>rowcount. ret (rowcount = 1))"

definition stale_events ::
  "(uuid \<Rightarrow> bool) \<Rightarrow> int \<Rightarrow> timestamp \<Rightarrow> import_dispatch_outbox list \<Rightarrow> import_dispatch_outbox list" where
  "stale_events locked batch_size stale_before rows =
     order_limit (\<lambda>r. (case ob_claimed_at r of Some t \<Rightarrow> t | None \<Rightarrow> 0, ob_id r)) (nat batch_size)
       (filter (\<lambda>r. ob_status r = OutboxPROCESSING \<and>
          (case ob_claimed_at r of Some t \<Rightarrow> t < stale_before | None \<Rightarrow> False) \<and> \<not> locked (ob_id r)) rows)"

definition lock_stale_claims :: "int \<Rightarrow> timestamp \<Rightarrow> ('z world_scheme, stale_outbox_claim list) action" where
  "lock_stale_claims batch_size stale_before = statement (\<lambda>locked _ db.
     Inr (map (\<lambda>r. \<lparr>sc_outbox_id = ob_id r, sc_import_id = ob_import_id r,
            sc_claim_token = ob_claim_token r, sc_attempt_count = ob_attempt_count r\<rparr>)
       (stale_events locked batch_size stale_before (db_outbox db)), db))"

definition stale_owned :: "stale_outbox_claim \<Rightarrow> import_dispatch_outbox \<Rightarrow> bool" where
  "stale_owned c r \<longleftrightarrow> ob_id r = sc_outbox_id c \<and> ob_status r = OutboxPROCESSING \<and>
     ob_claim_token r = sc_claim_token c"

definition requeue_stale_claim ::
  "stale_outbox_claim \<Rightarrow> timestamp \<Rightarrow> string \<Rightarrow> ('z world_scheme, bool) action" where
  "requeue_stale_claim c recovered_at error_message =
     bindE (statement (\<lambda>_ now db.
       update_outbox (stale_owned c)
         (\<lambda>r. r\<lparr>ob_status := OutboxPENDING, ob_available_at := recovered_at, ob_claimed_at := None,
            ob_claim_token := None, ob_last_error := Some error_message\<rparr>) now db))
     (\<lambda>rowcount. ret (rowcount = 1))"

definition mark_stale_claim_failed :: "stale_outbox_claim \<Rightarrow> string \<Rightarrow> ('z world_scheme, bool) action" where
  "mark_stale_claim_failed c error_message =
     bindE (statement (\<lambda>_ now db.
       update_outbox (stale_owned c)
         (\<lambda>r. r\<lparr>ob_status := OutboxFAILED, ob_claim_token := None,
            ob_last_error := Some error_message\<rparr>) now db))
     (\<lambda>rowcount. ret (rowcount = 1))"

section \<open>PublishOutboxService\<close>

record outbox_publisher =
  pb_settings :: settings
  pb_dispatch :: "uuid \<Rightarrow> timestamp \<Rightarrow> (string \<times> string) option"

record publisher_run = world +
  pb_sent :: "uuid list"

definition DISPATCH_EXHAUSTED_REASON :: string where
  "DISPATCH_EXHAUSTED_REASON = ''Import processing never started because dispatch was exhausted.''"

definition STALE_CLAIM_REASON :: string where
  "STALE_CLAIM_REASON = ''Outbox publisher claim expired.''"

definition safe_error_message :: "string \<times> string \<Rightarrow> string" where
  "safe_error_message exc = (case exc of (name, txt) \<Rightarrow>
     let message = py_strip (name @ '': '' @ txt) in
     if take 1000 message = [] then name else take 1000 message)"

text \<open>\<^verbatim>\<open>xs[i]\<close>: a negative index counts from the end, any other index out of range raises.\<close>

definition py_index :: "'a list \<Rightarrow> int \<Rightarrow> 'a option" where
  "py_index xs i =
     (if 0 \<le> i \<and> i < int (length xs) then Some (xs ! nat i)
      else if - int (length xs) \<le> i \<and> i < 0 then Some (xs ! nat (int (length xs) + i))
      else None)"

definition record_publish_failure ::
  "settings \<Rightarrow> claimed_outbox_event \<Rightarrow> string \<times> string \<Rightarrow> ('z world_scheme, unit) action" where
  "record_publish_failure s ev exc =
     bindE (gets clock) (\<lambda>failed_at.
       let error_message = safe_error_message exc;
           attempt_count = oc_attempt_count ev + 1;
           exhausted = (attempt_count \<ge> set_outbox_max_attempts s);
           delay = py_index (set_outbox_retry_delays_seconds s) (attempt_count - 1)
       in case (if exhausted then Inr None
                else case delay of None \<Rightarrow> Inl IndexError | Some d \<Rightarrow> map_sum id Some (add_seconds failed_at d)) of
            Inl e \<Rightarrow> throw e
          | Inr available_at \<Rightarrow> bindE (with_tx
               (bindE (mark_publish_failure ev attempt_count error_message
                        (if exhausted then OutboxFAILED else OutboxPENDING) available_at
                        (if exhausted then Some failed_at else None)) (\<lambda>failure_recorded.
                if failure_recorded \<and> exhausted
                then bindE (fail_pending_import_after_dispatch_exhausted (oc_import_id ev)
                       DISPATCH_EXHAUSTED_REASON) (\<lambda>_. ret failure_recorded)
                else ret failure_recorded)))
             (\<lambda>failure_recorded. ret ()))"

definition record_publish_success :: "claimed_outbox_event \<Rightarrow> ('z world_scheme, unit) action" where
  "record_publish_success ev = bindE (with_tx (mark_published ev)) (\<lambda>marked_published. ret ())"

text \<open>The call of the broker: an accepted task is in the queue, whatever happens afterwards.\<close>

definition dispatch_import ::
  "outbox_publisher \<Rightarrow> uuid \<Rightarrow> (publisher_run, (string \<times> string) option) action" where
  "dispatch_import pb import_id =
     bindE (gets clock) (\<lambda>now.
       case pb_dispatch pb import_id now of
         None \<Rightarrow> bindE (modify (pb_sent_update (\<lambda>sent. sent @ [import_id]))) (\<lambda>_. ret None)
       | Some exc \<Rightarrow> ret (Some exc))"

fun publish_events ::
  "outbox_publisher \<Rightarrow> claimed_outbox_event list \<Rightarrow> (publisher_run, unit) action" where
  "publish_events pb [] = ret ()"
| "publish_events pb (ev # evs) =
     bindE (dispatch_import pb (oc_import_id ev)) (\<lambda>outcome.
     bindE (case outcome of
              Some exc \<Rightarrow> record_publish_failure (pb_settings pb) ev exc
            | None \<Rightarrow> record_publish_success ev) (\<lambda>_.
     publish_events pb evs))"

definition claim_due_events_tx :: "settings \<Rightarrow> ('z world_scheme, claimed_outbox_event list) action" where
  "claim_due_events_tx s = with_tx
     (bindE (gets clock) (\<lambda>claimed_at. claim_due_events (set_outbox_batch_size s) claimed_at))"

definition publish_due_events :: "outbox_publisher \<Rightarrow> (publisher_run, nat) action" where
  "publish_due_events pb =
     bindE (claim_due_events_tx (pb_settings pb)) (\<lambda>claimed_events.
     bindE (publish_events pb claimed_events) (\<lambda>_. ret (length claimed_events)))"

fun recover_claims ::
  "settings \<Rightarrow> timestamp \<Rightarrow> stale_outbox_claim list \<Rightarrow> uuid list \<Rightarrow> ('z world_scheme, uuid list) action" where
  "recover_claims s recovered_at [] exhausted = ret exhausted"
| "recover_claims s recovered_at (c # cs) exhausted =
     (if sc_attempt_count c \<ge> set_outbox_max_attempts s
      then bindE (mark_stale_claim_failed c STALE_CLAIM_REASON) (\<lambda>failed.
           if failed
           then bindE (fail_pending_import_after_dispatch_exhausted (sc_import_id c)
                  DISPATCH_EXHAUSTED_REASON) (\<lambda>_.
                recover_claims s recovered_at cs (exhausted @ [sc_import_id c]))
           else recover_claims s recovered_at cs exhausted)
      else bindE (requeue_stale_claim c recovered_at STALE_CLAIM_REASON) (\<lambda>_.
           recover_claims s recovered_at cs exhausted))"

definition recover_stale_claims :: "settings \<Rightarrow> ('z world_scheme, nat) action" where
  "recover_stale_claims s =
     bindE (gets clock) (\<lambda>recovered_at.
       case add_seconds recovered_at (- set_outbox_stale_timeout_seconds s) of
         Inl e \<Rightarrow> throw e
       | Inr stale_before \<Rightarrow>
           bindE (with_tx
             (bindE (lock_stale_claims (set_outbox_batch_size s) stale_before) (\<lambda>stale_claims.
              recover_claims s recovered_at stale_claims [])))
           (\<lambda>exhausted_import_ids. ret (length exhausted_import_ids)))"

text \<open>
  \<^verbatim>\<open>time.sleep(n)\<close>: the clock advances; the nanoseconds have to fit 64 bits, and a negative number
  is refused.
\<close>

definition sleep_seconds :: "int \<Rightarrow> ('z world_scheme, unit) action" where
  "sleep_seconds n =
     (if 2 ^ 63 \<le> n * 1000000000 then throw OverflowError
      else if n < 0 then throw ValueError
      else modify (\<lambda>w. w\<lparr>clock := clock w + seconds n\<rparr>))"

text \<open>
  The loop of the publisher process, for a number of rounds: the process runs until an exception
  ends it.
\<close>

fun run_outbox_publisher :: "outbox_publisher \<Rightarrow> nat \<Rightarrow> (publisher_run, unit) action" where
  "run_outbox_publisher pb 0 = ret ()"
| "run_outbox_publisher pb (Suc n) =
     bindE (recover_stale_claims (pb_settings pb)) (\<lambda>_.
     bindE (publish_due_events pb) (\<lambda>_.
     bindE (sleep_seconds (set_outbox_poll_interval_seconds (pb_settings pb))) (\<lambda>_.
     run_outbox_publisher pb n)))"

end
