(* ===== verification/Outbox_Facts.thy ===== *)
theory Outbox_Facts
  imports Outbox Import_Safety
begin

text \<open>
  What the statements of the outbox keep: the contract of an invariant that also looks at the
  dispatch intents, the lemmas of every operation of the publisher under it, and its
  instances. The writes of a publisher are fenced by its claim token as those of a worker are.
\<close>

interpretation outbox_fence: fenced_rows ob_id "\<lambda>r. ob_status r = OutboxPROCESSING"
  ob_claim_token outbox_owned outbox_ok
  by unfold_locales (auto simp: outbox_owned_def outbox_ok_def)

section \<open>The life cycle of an intent\<close>

datatype intent_state =
    Queued int          \<comment> \<open>PENDING, with the failed deliveries\<close>
  | Held uuid int       \<comment> \<open>PROCESSING under a claim token\<close>
  | Published
  | Dropped             \<comment> \<open>FAILED\<close>

datatype intent_label = Take uuid | Publish uuid | Backoff uuid int | Release uuid | GiveUp uuid

inductive intent_step :: "int \<Rightarrow> intent_label \<Rightarrow> intent_state \<Rightarrow> intent_state \<Rightarrow> bool" for m where
  take_up: "intent_step m (Take t) (Queued a) (Held t a)"
| publish: "intent_step m (Publish t) (Held t a) Published"
| backoff: "b < m \<Longrightarrow> intent_step m (Backoff t b) (Held t a) (Queued b)"
| release: "intent_step m (Release t) (Held t a) (Queued a)"
| give_up: "intent_step m (GiveUp t) (Held t a) Dropped"

inductive_simps intent_step_Queued [simp]: "intent_step m l (Queued a) s'"
inductive_simps intent_step_Held [simp]: "intent_step m l (Held t a) s'"
inductive_simps intent_step_Published [simp]: "intent_step m l Published s'"
inductive_simps intent_step_Dropped [simp]: "intent_step m l Dropped s'"

definition intent_of :: "import_dispatch_outbox \<Rightarrow> intent_state" where
  "intent_of r = (case ob_status r of
     OutboxPENDING \<Rightarrow> Queued (ob_attempt_count r)
   | OutboxPROCESSING \<Rightarrow>
       (case ob_claim_token r of
          Some t \<Rightarrow> Held t (ob_attempt_count r) | None \<Rightarrow> Queued (ob_attempt_count r))
   | OutboxPUBLISHED \<Rightarrow> Published
   | OutboxFAILED \<Rightarrow> Dropped)"

definition same_intent :: "import_dispatch_outbox \<Rightarrow> import_dispatch_outbox \<Rightarrow> bool" where
  "same_intent r r' \<longleftrightarrow> ob_id r' = ob_id r \<and> ob_import_id r' = ob_import_id r \<and>
     ob_created_at r' = ob_created_at r"

definition intent_move :: "int \<Rightarrow> intent_label set \<Rightarrow> import_dispatch_outbox \<Rightarrow> import_dispatch_outbox \<Rightarrow> bool"
  where
  "intent_move m moves r r' \<longleftrightarrow>
     (\<exists>l \<in> moves. intent_step m l (intent_of r) (intent_of r')) \<and> same_intent r r' \<and> outbox_ok r'"

lemma intent_of_updated_at [simp]: "intent_of (r\<lparr>ob_updated_at := u\<rparr>) = intent_of r"
  by (simp add: intent_of_def split: outbox_status.split option.split)

lemma intent_of_owned: "outbox_owned i t r \<Longrightarrow> intent_of r = Held t (ob_attempt_count r)"
  by (simp add: outbox_owned_def intent_of_def)

lemma claim_event_move:
  "outbox_ok r \<Longrightarrow> ob_status r = OutboxPENDING \<Longrightarrow> Take t \<in> moves \<Longrightarrow> intent_move m moves r (claim_event at t r)"
  by (auto simp: intent_move_def intent_of_def claim_event_def same_intent_def outbox_ok_def)

lemma publish_failure_move:
  assumes "outbox_ok r" "outbox_owned i t r" "0 \<le> a"
    and "status = OutboxFAILED \<and> GiveUp t \<in> moves \<or> status = OutboxPENDING \<and> a < m \<and> Backoff t a \<in> moves"
  shows "intent_move m moves r (publish_failure_values a msg status at cl r)"
  using assms
  by (auto simp: intent_move_def intent_of_owned publish_failure_values_def same_intent_def outbox_ok_def
      outbox_owned_def intent_of_def Let_def split: option.splits)

section \<open>Invariants of the intents\<close>

text \<open>
  \<open>R\<close> is what the invariant asks of an intent; \<open>retry a\<close> says that an intent whose number of
  attempts is \<open>a\<close> may go back to PENDING.
\<close>

locale dispatch_invariant = db_invariant I labels for I :: "database \<Rightarrow> bool" and labels +
  fixes R :: "import_dispatch_outbox \<Rightarrow> bool"
  assumes I_rows: "I db \<Longrightarrow> r \<in> set (db_outbox db) \<Longrightarrow> R r"
    and I_outbox: "I db \<Longrightarrow> db_ok db' \<Longrightarrow> db_jobs db' = db_jobs db \<Longrightarrow>
      \<forall>r \<in> set (db_outbox db'). R r \<Longrightarrow> I db'"
    and R_updated_at: "R (r\<lparr>ob_updated_at := t\<rparr>) = R r"
begin

lemma I_update_outbox:
  assumes I: "I db" and run: "update_outbox p f now db = Inr (n, db')"
    and f: "\<And>r. r \<in> set (db_outbox db) \<Longrightarrow> outbox_ok r \<Longrightarrow> R r \<Longrightarrow> p r \<Longrightarrow>
      outbox_ok (f r) \<and> ob_id (f r) = ob_id r \<and> ob_import_id (f r) = ob_import_id r \<and> R (f r)"
  shows "I db'"
proof (rule I_outbox [OF I])
  show "db_ok db'"
    by (rule update_outbox_db_ok [OF I_ok [OF I] run]) (use f I_rows [OF I] in blast)
  show "db_jobs db' = db_jobs db" using run by (auto simp: update_outbox_def)
  have "\<forall>r \<in> set (db_outbox db). outbox_ok r" using I_ok [OF I] by (simp add: db_ok_def)
  then show "\<forall>r \<in> set (db_outbox db'). R r"
    using run f I_rows [OF I] by (auto simp: update_outbox_def sql_update_def R_updated_at)
qed

lemma keeps_update_outbox:
  assumes "\<And>now r. outbox_ok r \<Longrightarrow> R r \<Longrightarrow> p r \<Longrightarrow>
      outbox_ok (f now r) \<and> ob_id (f now r) = ob_id r \<and> ob_import_id (f now r) = ob_import_id r \<and>
      R (f now r)"
  shows "keeps I L (statement (\<lambda>_ now db. update_outbox p (f now) now db))"
  by (rule keeps_statement, erule (1) I_update_outbox) (use assms in blast)

lemma I_insert_outbox:
  assumes I: "I db" and run: "insert_outbox r db = Inr db'" and r: "outbox_ok r" "R r"
  shows "I db'"
proof (rule I_outbox [OF I])
  show "db_ok db'" by (rule insert_outbox_db_ok [OF I_ok [OF I] run r(1)])
  show "db_jobs db' = db_jobs db" "\<forall>r \<in> set (db_outbox db'). R r"
    using run I_rows [OF I] r(2) by (auto simp: insert_outbox_def split: if_splits)
qed

end


section \<open>The operations of the publisher\<close>

definition names_row :: "claimed_outbox_event \<Rightarrow> import_dispatch_outbox \<Rightarrow> bool" where
  "names_row ev r \<longleftrightarrow> oc_outbox_id ev = ob_id r \<and> oc_import_id ev = ob_import_id r \<and>
     oc_attempt_count ev = ob_attempt_count r"

text \<open>The database after the first UPDATE of the flush.\<close>

definition claim_one :: "uuid \<Rightarrow> timestamp \<Rightarrow> timestamp \<Rightarrow> uuid \<Rightarrow> database \<Rightarrow> database" where
  "claim_one t at now i db = db\<lparr>db_outbox := sql_update (\<lambda>r'. ob_id r' = i)
     (\<lambda>r'. (claim_event at t r')\<lparr>ob_updated_at := now\<rparr>) (db_outbox db)\<rparr>"

lemma claim_rows_Cons [simp]:
  "claim_rows tok at now k (r # rs) db =
     (\<lparr>oc_outbox_id = ob_id r, oc_import_id = ob_import_id r, oc_claim_token = tok k,
        oc_attempt_count = ob_attempt_count r\<rparr> #
        fst (claim_rows tok at now (Suc k) rs (claim_one (tok k) at now (ob_id r) db)),
      snd (claim_rows tok at now (Suc k) rs (claim_one (tok k) at now (ob_id r) db)))"
  by (simp add: claim_one_def case_prod_beta Let_def)

declare claim_rows.simps(2) [simp del]

lemma claim_rows_events: "list_all2 names_row (fst (claim_rows tok at now k rs db)) rs"
  by (induction rs arbitrary: k db) (simp_all add: names_row_def)

locale publisher_invariant = dispatch_invariant I labels R
  for I :: "database \<Rightarrow> bool" and labels and R :: "import_dispatch_outbox \<Rightarrow> bool" +
  fixes m :: int and moves :: "intent_label set"
  assumes R_move: "R r \<Longrightarrow> outbox_ok r \<Longrightarrow> intent_move m moves r r' \<Longrightarrow> R r'"
    and moves_all: "Take t \<in> moves \<and> Backoff t b \<in> moves \<and> Release t \<in> moves \<and> GiveUp t \<in> moves"
    and undelivered: "Undelivered \<in> labels"
begin

lemma R_move_updated: "R r \<Longrightarrow> outbox_ok r \<Longrightarrow> intent_move m moves r r' \<Longrightarrow>
    outbox_ok r' \<and> ob_id r' = ob_id r \<and> ob_import_id r' = ob_import_id r \<and> R r'"
  using R_move by (auto simp: intent_move_def same_intent_def)

lemma I_claim_rows:
  "I db \<Longrightarrow> \<forall>r \<in> set rs. r \<in> set (db_outbox db) \<and> ob_status r = OutboxPENDING \<Longrightarrow> distinct (map ob_id rs) \<Longrightarrow>
     I (snd (claim_rows tok at now k rs db))"
proof (induction rs arbitrary: k db)
  case (Cons r rs)
  let ?db = "claim_one (tok k) at now (ob_id r) db"
  have ids: "distinct (map ob_id (db_outbox db))" using I_ok [OF Cons.prems(1)] by (simp add: db_ok_def)
  have upd: "update_outbox (\<lambda>r'. ob_id r' = ob_id r) (claim_event at (tok k)) now db =
      Inr (sql_count (\<lambda>r'. ob_id r' = ob_id r) (db_outbox db), ?db)"
    by (simp add: update_outbox_def claim_one_def)
  have "I ?db"
  proof (rule I_update_outbox [OF Cons.prems(1) upd])
    fix r' assume r': "r' \<in> set (db_outbox db)" "outbox_ok r'" "R r'" "ob_id r' = ob_id r"
    then have "r' = r" using ids Cons.prems(2) by (auto simp: distinct_map dest: inj_onD)
    then show "outbox_ok (claim_event at (tok k) r') \<and> ob_id (claim_event at (tok k) r') = ob_id r' \<and>
        ob_import_id (claim_event at (tok k) r') = ob_import_id r' \<and> R (claim_event at (tok k) r')"
      using r' Cons.prems(2) moves_all by (intro R_move_updated claim_event_move) auto
  qed
  moreover have "\<forall>r' \<in> set rs. r' \<in> set (db_outbox ?db) \<and> ob_status r' = OutboxPENDING"
    using Cons.prems(2,3) by (auto simp: claim_one_def sql_update_def image_iff intro!: bexI)
  moreover have "distinct (map ob_id rs)" using Cons.prems(3) by simp
  ultimately have "I (snd (claim_rows tok at now (Suc k) rs ?db))" by (rule Cons.IH)
  then show ?case by simp
qed simp

lemma due_events_rows:
  "db_ok db \<Longrightarrow> due_events locked n at (db_outbox db) = rs \<Longrightarrow>
     (\<forall>r \<in> set rs. r \<in> set (db_outbox db) \<and> ob_status r = OutboxPENDING) \<and> distinct (map ob_id rs)"
  by (auto simp: due_events_def order_limit_def db_ok_def take_map [symmetric] distinct_map_filter
      distinct_map distinct_sort inj_on_def dest!: in_set_takeD)

lemma yields_claim_due_events:
  "yields I L (claim_due_events n at) (list_all (\<lambda>ev. \<exists>r. R r \<and> outbox_ok r \<and> ob_status r = OutboxPENDING \<and> names_row ev r))"
  (is "yields I L _ ?Q")
  unfolding claim_due_events_def
proof (rule yields_bindE [OF keeps_yields [OF keeps_gets]], rule yields_bindE [where Q = ?Q], goal_cases)
  case (1 tok)
  show ?case
  proof (rule yields_statement, goal_cases)
    case (1 locked now db evs db')
    let ?rs = "due_events locked n at (db_outbox db)"
    have rs: "\<forall>r \<in> set ?rs. r \<in> set (db_outbox db) \<and> ob_status r = OutboxPENDING" "distinct (map ob_id ?rs)"
      using due_events_rows [OF I_ok [OF 1(1)] refl] by auto
    have out: "evs = fst (claim_rows tok at now 0 ?rs db)" "db' = snd (claim_rows tok at now 0 ?rs db)"
      using 1(2) by auto
    have "I db'" unfolding out(2) by (rule I_claim_rows [OF 1(1) rs])
    moreover have "?Q evs"
    proof -
      have "\<forall>r \<in> set ?rs. R r \<and> outbox_ok r \<and> ob_status r = OutboxPENDING"
        using rs I_rows [OF 1(1)] I_ok [OF 1(1)] by (auto simp: db_ok_def)
      with claim_rows_events [of tok at now 0 ?rs db] show ?thesis
        unfolding out(1) list_all_length list_all2_conv_all_nth by (metis nth_mem)
    qed
    ultimately show ?case ..
  qed
next
  case (2 tok evs)
  then show ?case
    by (intro yields_bindE [OF keeps_yields [OF keeps_modify]] yields_ret)
      (auto simp: holds_def rely_def)
qed

lemma yields_claim_due_events_tx:
  "yields I L (claim_due_events_tx s) (list_all (\<lambda>ev. \<exists>r. R r \<and> outbox_ok r \<and> ob_status r = OutboxPENDING \<and> names_row ev r))"
  unfolding claim_due_events_tx_def
  by (intro yields_with_tx yields_bindE [OF keeps_yields [OF keeps_gets]] yields_claim_due_events)

lemma keeps_mark_publish_failure:
  assumes "0 \<le> a" "status = OutboxFAILED \<or> status = OutboxPENDING \<and> a < m"
  shows "keeps I L (mark_publish_failure ev a msg status at cl)"
  unfolding mark_publish_failure_def
proof (intro keeps_intro keeps_update_outbox R_move_updated)
  show "intent_move m moves r (publish_failure_values a msg status at cl r)"
    if "outbox_ok r" "outbox_owned (oc_outbox_id ev) (oc_claim_token ev) r" for r
    using that assms moves_all by (intro publish_failure_move) auto
qed

lemma keeps_record_publish_failure:
  assumes "0 \<le> oc_attempt_count ev" "set_outbox_max_attempts s = m"
  shows "keeps I L (record_publish_failure s ev exc)"
  unfolding record_publish_failure_def Let_def
  by (intro keeps_intro keeps_mark_publish_failure keeps_fail_pending undelivered)
    (use assms in auto)

lemma keeps_requeue_stale_claim: "keeps I L (requeue_stale_claim c at msg)"
  unfolding requeue_stale_claim_def
proof (intro keeps_intro keeps_update_outbox R_move_updated)
  show "intent_move m moves r (r\<lparr>ob_status := OutboxPENDING, ob_available_at := at, ob_claimed_at := None,
      ob_claim_token := None, ob_last_error := Some msg\<rparr>)" if "outbox_ok r" "stale_owned c r" for r
    using that moves_all
    by (auto simp: intent_move_def stale_owned_def outbox_ok_def same_intent_def intent_of_def)
qed

lemma keeps_mark_stale_claim_failed: "keeps I L (mark_stale_claim_failed c msg)"
  unfolding mark_stale_claim_failed_def
proof (intro keeps_intro keeps_update_outbox R_move_updated)
  show "intent_move m moves r (r\<lparr>ob_status := OutboxFAILED, ob_claim_token := None,
      ob_last_error := Some msg\<rparr>)" if "outbox_ok r" "stale_owned c r" for r
    using that moves_all
    by (auto simp: intent_move_def stale_owned_def outbox_ok_def same_intent_def intent_of_def)
qed

lemma keeps_recover_claims: "keeps I L (recover_claims s at cs exhausted)"
  by (induction cs arbitrary: exhausted)
    (auto intro!: keeps_intro keeps_requeue_stale_claim keeps_mark_stale_claim_failed
      keeps_fail_pending undelivered)

lemma keeps_lock_stale_claims: "keeps I L (lock_stale_claims n before)"
  unfolding lock_stale_claims_def by (rule keeps_statement) auto

lemma keeps_recover_stale_claims: "keeps I L (recover_stale_claims s)"
  unfolding recover_stale_claims_def Let_def
  by (intro keeps_intro keeps_lock_stale_claims keeps_recover_claims)

lemma keeps_mark_published:
  assumes "\<And>now r. R r \<Longrightarrow> outbox_owned (oc_outbox_id ev) (oc_claim_token ev) r \<Longrightarrow>
    R (r\<lparr>ob_status := OutboxPUBLISHED, ob_published_at := Some now, ob_claim_token := None, ob_last_error := None\<rparr>)"
  shows "keeps I L (record_publish_success ev)"
  unfolding record_publish_success_def mark_published_def
  by (intro keeps_intro keeps_update_outbox) (use assms in \<open>auto simp: outbox_ok_def outbox_owned_def\<close>)

end

section \<open>Instances of the contract\<close>

text \<open>Any property of single intents that does not look at \<^verbatim>\<open>updated_at\<close>.\<close>

locale intent_predicate =
  fixes R :: "import_dispatch_outbox \<Rightarrow> bool"
  assumes ignores_updated_at: "R (r\<lparr>ob_updated_at := t\<rparr>) = R r"
begin

definition intents_ok :: "life_label set \<Rightarrow> database \<Rightarrow> database \<Rightarrow> bool" where
  "intents_ok labels db0 db \<longleftrightarrow> tracks labels db0 db \<and> (\<forall>r \<in> set (db_outbox db). R r)"

lemma intents_db_invariant: "db_invariant (intents_ok labels db0) labels"
proof
  show "intents_ok labels db0 db \<Longrightarrow> db_ok db" for db by (simp add: intents_ok_def tracks_def)
  show "intents_ok labels db0 db'"
    if "intents_ok labels db0 db" "db_ok db'" "db_outbox db' = db_outbox db"
      "moved labels (db_jobs db) (db_jobs db')" for db db'
    using that tracking.I_moved by (auto simp: intents_ok_def)
  show "intents_ok labels db0 db'"
    if "intents_ok labels db0 db" "db_ok db'" "db_outbox db' = db_outbox db"
      "db_jobs db' = db_jobs db @ [j]" "life_of j = Waiting 0" for db db' j
    using that tracking.I_created by (auto simp: intents_ok_def)
qed

sublocale dispatch: dispatch_invariant "intents_ok labels db0" labels R for labels db0
proof (intro dispatch_invariant.intro dispatch_invariant_axioms.intro intents_db_invariant)
  show "intents_ok labels db0 db \<Longrightarrow> r \<in> set (db_outbox db) \<Longrightarrow> R r" for db r
    by (simp add: intents_ok_def)
  show "intents_ok labels db0 db'"
    if "intents_ok labels db0 db" "db_ok db'" "db_jobs db' = db_jobs db" "\<forall>r \<in> set (db_outbox db'). R r"
    for db db'
  proof -
    have "evolves labels db0 db'"
      using that(1,3) by (simp add: intents_ok_def tracks_def evolves_def)
    with that(2,4) show ?thesis by (simp add: intents_ok_def tracks_def)
  qed
qed (rule ignores_updated_at)

end

text \<open>
  First instance: an intent that can still be sent has a failure count below \<open>m\<close>, the number
  at which the publisher gives up.
\<close>

definition deliverable :: "int \<Rightarrow> import_dispatch_outbox \<Rightarrow> bool" where
  "deliverable m r \<longleftrightarrow> ob_status r \<in> {OutboxPENDING, OutboxPROCESSING} \<longrightarrow> ob_attempt_count r < m"

interpretation deliverable: intent_predicate "deliverable m" for m
  by unfold_locales (simp add: deliverable_def)

abbreviation delivers :: "int \<Rightarrow> life_label set \<Rightarrow> database \<Rightarrow> database \<Rightarrow> bool" where
  "delivers m \<equiv> deliverable.intents_ok m"

lemma deliverable_move: "deliverable m r \<Longrightarrow> outbox_ok r \<Longrightarrow> intent_move m moves r r' \<Longrightarrow> deliverable m r'"
  by (cases "intent_of r")
    (auto simp: deliverable_def intent_move_def intent_of_def outbox_ok_def split: outbox_status.splits option.splits)

interpretation delivering: publisher_invariant "delivers m (insert Undelivered labels) db0"
  "insert Undelivered labels" "deliverable m" m UNIV for m labels db0
  by unfold_locales (auto intro: deliverable_move)

text \<open>
  Second instance: intent \<open>x\<close> belongs to import \<open>i\<close> and has not been published.
\<close>

definition unpublished :: "uuid \<Rightarrow> uuid \<Rightarrow> import_dispatch_outbox \<Rightarrow> bool" where
  "unpublished x i r \<longleftrightarrow> ob_id r = x \<longrightarrow> ob_import_id r = i \<and> ob_status r \<noteq> OutboxPUBLISHED"

interpretation unpublished: intent_predicate "unpublished x i" for x i
  by unfold_locales (simp add: unpublished_def)

abbreviation withholds :: "uuid \<Rightarrow> uuid \<Rightarrow> database \<Rightarrow> database \<Rightarrow> bool" where
  "withholds x i \<equiv> unpublished.intents_ok x i UNIV"

definition unpublished_moves :: "intent_label set" where
  "unpublished_moves = {l. \<forall>t. l \<noteq> Publish t}"

lemma unpublished_move:
  "unpublished x i r \<Longrightarrow> outbox_ok r \<Longrightarrow> intent_move m unpublished_moves r r' \<Longrightarrow> unpublished x i r'"
  by (cases "intent_of r")
    (auto simp: unpublished_def intent_move_def unpublished_moves_def same_intent_def intent_of_def outbox_ok_def
      split: outbox_status.splits option.splits)

interpretation withholding: publisher_invariant "withholds x i db0" UNIV
  "unpublished x i" m unpublished_moves for x i m db0
  by unfold_locales (auto intro: unpublished_move simp: unpublished_moves_def)

end
