(* ===== verification/Session_Time.thy ===== *)
theory Session_Time
  imports Db_Session
begin

text \<open>
  The clock of a session: time passes with the events of the script and nowhere else, so no
  statement or transaction moves it past the end of the script. An exception that depends on the
  time of day is then bounded for a whole run.
\<close>

definition horizon :: "'z world_scheme \<Rightarrow> timestamp" where
  "horizon w = clock w + int (sum_list (map ev_elapsed (script w)))"

text \<open>The clock is between two times, now and when the script has run out.\<close>

definition within :: "timestamp \<Rightarrow> timestamp \<Rightarrow> 'z world_scheme \<Rightarrow> bool" where
  "within a b w \<longleftrightarrow> a \<le> clock w \<and> horizon w \<le> b"

lemma within_clock: "within a b w \<Longrightarrow> a \<le> clock w \<and> clock w \<le> b"
  by (simp add: within_def horizon_def)

definition punctual :: "('z world_scheme, 'a) action \<Rightarrow> bool" where
  "punctual m \<longleftrightarrow> (\<forall>w. clock w \<le> clock (snd (m w)) \<and> horizon (snd (m w)) = horizon w)"

lemma punctual_within: "punctual m \<Longrightarrow> m w = (r, w') \<Longrightarrow> within a b w \<Longrightarrow> within a b w'"
  unfolding punctual_def within_def by (metis order_trans snd_conv)

lemma horizon_cong: "clock w' = clock w \<Longrightarrow> script w' = script w \<Longrightarrow> horizon w' = horizon w"
  by (simp add: horizon_def)

named_theorems punctual_intro \<open>actions that take no time but that of the script\<close>

lemma punctual_ret [punctual_intro]: "punctual (ret x)"
  by (simp add: punctual_def ret_def)

lemma punctual_throw [punctual_intro]: "punctual (throw e)"
  by (simp add: punctual_def throw_def)

lemma punctual_gets [punctual_intro]: "punctual (gets f)"
  by (simp add: punctual_def gets_def)

lemma punctual_uuid4 [punctual_intro]: "punctual uuid4"
  by (simp add: punctual_def uuid4_def horizon_def)

lemma punctual_begin_tx [punctual_intro]: "punctual begin_tx"
  by (simp add: punctual_def begin_tx_def horizon_def)

lemma punctual_modify: "(\<And>w. clock (f w) = clock w \<and> script (f w) = script w) \<Longrightarrow> punctual (modify f)"
  by (simp add: punctual_def modify_def horizon_def)

lemma punctual_bindE [punctual_intro]: "punctual m \<Longrightarrow> (\<And>x. punctual (f x)) \<Longrightarrow> punctual (bindE m f)"
  unfolding punctual_def bindE_def by (auto split: prod.splits sum.splits) (metis order_trans snd_conv)+

lemma punctual_if [punctual_intro]: "punctual m \<Longrightarrow> punctual m' \<Longrightarrow> punctual (if b then m else m')"
  by simp

lemma punctual_case_option [punctual_intro]:
  "punctual m \<Longrightarrow> (\<And>x. punctual (f x)) \<Longrightarrow> punctual (case v of None \<Rightarrow> m | Some x \<Rightarrow> f x)"
  by (cases v) auto

lemma punctual_case_sum [punctual_intro]:
  "(\<And>x. punctual (f x)) \<Longrightarrow> (\<And>y. punctual (g y)) \<Longrightarrow> punctual (case s of Inl x \<Rightarrow> f x | Inr y \<Rightarrow> g y)"
  by (cases s) auto

lemma advance_time: "clock w \<le> clock (advance w) \<and> horizon (advance w) = horizon w"
  by (cases "script w") (simp_all add: advance_def next_event_def quiet_def horizon_def Let_def)

lemma punctual_statement [punctual_intro]: "punctual (statement f)"
  using advance_time
  by (auto simp: punctual_def statement_def Let_def horizon_def split: option.split sum.split prod.split)

lemma punctual_commit [punctual_intro]: "punctual commit"
  using advance_time
  by (auto simp: punctual_def commit_def rollback_def Let_def horizon_def split: option.split)

lemma punctual_with_tx [punctual_intro]:
  fixes body :: "('z world_scheme, 'a) action"
  assumes "punctual body"
  shows "punctual (with_tx body)"
  unfolding punctual_def
proof
  fix w :: "'z world_scheme"
  obtain r w1 where run: "bindE begin_tx (\<lambda>_. body) w = (r, w1)" by fastforce
  have "punctual (bindE begin_tx (\<lambda>_. body))" by (intro punctual_intro assms)
  then have 1: "clock w \<le> clock w1 \<and> horizon w1 = horizon w" using run by (metis punctual_def snd_conv)
  show "clock w \<le> clock (snd (with_tx body w)) \<and> horizon (snd (with_tx body w)) = horizon w"
  proof (cases r)
    case (Inl e)
    then show ?thesis using run 1 by (simp add: with_tx_def horizon_def)
  next
    case (Inr x)
    have "punctual (bindE commit (\<lambda>_. ret x) :: ('z world_scheme, 'a) action)" by (intro punctual_intro)
    then show ?thesis using Inr run 1 unfolding punctual_def by (auto simp: with_tx_def intro: order_trans)
  qed
qed

section \<open>The exceptions of an action at a time\<close>

definition throws_within ::
  "timestamp \<Rightarrow> timestamp \<Rightarrow> exn set \<Rightarrow> ('z world_scheme, 'a) action \<Rightarrow> bool" where
  "throws_within a b E m \<longleftrightarrow> (\<forall>w e w'. within a b w \<longrightarrow> m w = (Inl e, w') \<longrightarrow> e \<in> E)"

lemma throws_withinD: "throws_within a b E m \<Longrightarrow> within a b w \<Longrightarrow> m w = (Inl e, w') \<Longrightarrow> e \<in> E"
  unfolding throws_within_def by blast

lemma throws_throws_within: "throws F m \<Longrightarrow> F \<subseteq> E \<Longrightarrow> throws_within a b E m"
  unfolding throws_within_def throws_def by blast

lemma throws_within_bindE:
  "throws_within a b E m \<Longrightarrow> punctual m \<Longrightarrow> (\<And>x. throws_within a b E (f x)) \<Longrightarrow> throws_within a b E (bindE m f)"
  unfolding throws_within_def bindE_def
  by (auto split: prod.splits sum.splits) (blast dest: punctual_within)

lemma throws_within_clock:
  "(\<And>t. a \<le> t \<Longrightarrow> t \<le> b \<Longrightarrow> throws_within a b E (f t)) \<Longrightarrow> throws_within a b E (bindE (gets clock) f)"
  unfolding throws_within_def by (auto simp: bindE_def gets_def dest: within_clock)

end
