(* ===== verification/Outbox_Safety.thy ===== *)
theory Outbox_Safety
  imports Outbox_Facts Session_Time
begin

text \<open>
  The publisher as a whole: what a run keeps, what it can raise, that an intent is PUBLISHED only
  after the broker accepted it, and what a round does when nothing interferes.
\<close>

section \<open>What the others may do\<close>

text \<open>
  The interference a publisher meets: sessions that keep the database consistent, move jobs
  along the labels only, and do not raise a failure count beyond what the settings allow.
\<close>

definition sound_intents :: "int \<Rightarrow> life_label set \<Rightarrow> (database \<Rightarrow> database) \<Rightarrow> bool" where
  "sound_intents m labels f \<longleftrightarrow> (\<forall>db. db_ok db \<longrightarrow> tracks labels db (f db) \<and>
     ((\<forall>r \<in> set (db_outbox db). deliverable m r) \<longrightarrow> (\<forall>r \<in> set (db_outbox (f db)). deliverable m r)))"

lemma tracks_trans: "tracks labels db db1 \<Longrightarrow> tracks labels db1 db2 \<Longrightarrow> tracks labels db db2"
  using evolves_trans by (auto simp: tracks_def)

lemma tracks_refl: "db_ok db \<Longrightarrow> tracks labels db db"
  by (simp add: tracks_def evolves_refl)

lemma delivers_holds:
  assumes "db_ok (committed w)" "\<forall>r \<in> set (db_outbox (committed w)). deliverable m r"
    and "\<forall>e \<in> set (script w). sound_intents m labels (ev_others e)" "working w = committed w"
  shows "holds (delivers m labels (committed w)) (\<lambda>_. True) w"
proof -
  have "rely (delivers m labels (committed w)) w"
    unfolding rely_def
  proof (intro ballI allI impI)
    fix e db assume e: "e \<in> set (script w)" and db: "delivers m labels (committed w) db"
    have "db_ok db" using db by (simp add: deliverable.intents_ok_def tracks_def)
    then show "delivers m labels (committed w) (ev_others e db)"
      using assms(3) e db tracks_trans
      unfolding deliverable.intents_ok_def sound_intents_def by blast
  qed
  then show ?thesis
    using assms(1,2,4) by (simp add: holds_def deliverable.intents_ok_def tracks_refl)
qed

section \<open>The run keeps the database\<close>

lemma keeps_dispatch_import: "keeps I (\<lambda>_. True) (dispatch_import pb i)"
  unfolding dispatch_import_def
  by (auto intro!: keeps_intro simp: holds_def rely_def)

lemma keeps_publish_events:
  assumes "\<And>ev. ev \<in> set evs \<Longrightarrow> 0 \<le> oc_attempt_count ev" "set_outbox_max_attempts (pb_settings pb) = m"
  shows "keeps (delivers m (insert Undelivered labels) db0) (\<lambda>_. True) (publish_events pb evs)"
  using assms
proof (induction evs)
  case (Cons ev evs)
  have "keeps (delivers m (insert Undelivered labels) db0) (\<lambda>_. True) (record_publish_success ev)"
    by (rule delivering.keeps_mark_published) (simp add: deliverable_def)
  moreover have "keeps (delivers m (insert Undelivered labels) db0) (\<lambda>_. True)
      (record_publish_failure (pb_settings pb) ev exc)" for exc
    using Cons.prems by (intro delivering.keeps_record_publish_failure) auto
  ultimately show ?case
    using Cons by (auto intro!: keeps_intro keeps_dispatch_import)
qed (simp add: keeps_ret)

lemma claims_attempts:
  "list_all (\<lambda>ev. \<exists>r. deliverable m r \<and> outbox_ok r \<and> ob_status r = OutboxPENDING \<and> names_row ev r) evs \<Longrightarrow>
     ev \<in> set evs \<Longrightarrow> 0 \<le> oc_attempt_count ev \<and> oc_attempt_count ev < m"
  by (fastforce simp: list_all_iff deliverable_def outbox_ok_def names_row_def)

lemma keeps_publish_due_events:
  assumes "set_outbox_max_attempts (pb_settings pb) = m"
  shows "keeps (delivers m (insert Undelivered labels) db0) (\<lambda>_. True) (publish_due_events pb)"
  unfolding publish_due_events_def
proof (rule keeps_bindE_yields [OF delivering.yields_claim_due_events_tx])
  fix evs
  assume "list_all (\<lambda>ev. \<exists>r. deliverable m r \<and> outbox_ok r \<and> ob_status r = OutboxPENDING \<and> names_row ev r) evs"
  then show "keeps (delivers m (insert Undelivered labels) db0) (\<lambda>_. True)
      (bindE (publish_events pb evs) (\<lambda>_. ret (length evs)))"
    using claims_attempts assms by (intro keeps_intro keeps_publish_events) auto
qed

lemma keeps_run_outbox_publisher:
  assumes "set_outbox_max_attempts (pb_settings pb) = m"
  shows "keeps (delivers m (insert Undelivered labels) db0) (\<lambda>_. True) (run_outbox_publisher pb n)"
  by (induction n)
    (auto intro!: keeps_intro delivering.keeps_recover_stale_claims keeps_publish_due_events assms
      simp: sleep_seconds_def holds_def rely_def)

section \<open>What the run can raise\<close>

lemma throws_fail_pending [throws_intro]:
  "sql_errors \<subseteq> E \<Longrightarrow> throws E (fail_pending_import_after_dispatch_exhausted i reason)"
  unfolding fail_pending_import_after_dispatch_exhausted_def by (intro throws_intro)

lemma throws_mark_publish_failure [throws_intro]:
  "sql_errors \<subseteq> E \<Longrightarrow> throws E (mark_publish_failure ev a msg st at cl)"
  unfolding mark_publish_failure_def by (intro throws_intro)

lemma throws_record_publish_success [throws_intro]: "throws sql_errors (record_publish_success ev)"
  unfolding record_publish_success_def mark_published_def by (intro throws_intro order_refl)

lemma throws_dispatch_import [throws_intro]: "throws E (dispatch_import pb i)"
  unfolding dispatch_import_def by (intro throws_intro)

lemma throws_claim_due_events_tx [throws_intro]: "throws sql_errors (claim_due_events_tx s)"
  unfolding claim_due_events_tx_def claim_due_events_def by (intro throws_intro order_refl)

lemma throws_recover_claims: "throws sql_errors (recover_claims s at cs exhausted)"
  by (induction cs arbitrary: exhausted)
    (auto intro!: throws_intro simp: mark_stale_claim_failed_def requeue_stale_claim_def)

text \<open>
  The durations of the settings fit the calendar between two times: the timeout, the delays and the
  sleep.
\<close>

definition durations_fit :: "settings \<Rightarrow> timestamp \<Rightarrow> timestamp \<Rightarrow> bool" where
  "durations_fit s a b \<longleftrightarrow> datetime_ok (a - seconds (set_outbox_stale_timeout_seconds s)) \<and>
     (\<forall>d \<in> set (set_outbox_retry_delays_seconds s). datetime_ok (b + seconds d)) \<and>
     set_outbox_poll_interval_seconds s * 1000000000 < 2 ^ 63"

definition run_errors :: "settings \<Rightarrow> timestamp \<Rightarrow> timestamp \<Rightarrow> exn set" where
  "run_errors s a b = (if durations_fit s a b then sql_errors else insert OverflowError sql_errors)"

lemma run_errors_sql: "sql_errors \<subseteq> run_errors s a b"
  by (auto simp: run_errors_def)

lemma datetime_between: "datetime_ok a \<Longrightarrow> datetime_ok b \<Longrightarrow> a \<le> t \<Longrightarrow> t \<le> b \<Longrightarrow> datetime_ok t"
  by (simp add: datetime_ok_def)

text \<open>The positive durations the validators ask for.\<close>

definition durations_positive :: "settings \<Rightarrow> bool" where
  "durations_positive s \<longleftrightarrow> 0 < set_outbox_stale_timeout_seconds s \<and> 0 < set_outbox_poll_interval_seconds s \<and>
     (\<forall>d \<in> set (set_outbox_retry_delays_seconds s). 0 < d)"

lemma accepted_durations: "settings_accepted s \<Longrightarrow> durations_positive s"
  by (simp add: settings_accepted_def durations_positive_def validate_retry_delays_ok validators_ok positive_fields_def)

lemma add_seconds_Inl: "add_seconds t n = Inl e \<longleftrightarrow> e = OverflowError \<and> \<not> datetime_ok (t + seconds n)"
  by (auto simp: add_seconds_def Let_def)

lemma throws_recover_stale_claims:
  assumes "durations_positive s" "datetime_ok b"
  shows "throws_within a b (run_errors s a b) (recover_stale_claims s)"
  unfolding recover_stale_claims_def
proof (rule throws_within_clock)
  fix t assume t: "a \<le> t" "t \<le> b"
  let ?before = "add_seconds t (- set_outbox_stale_timeout_seconds s)"
  have "OverflowError \<in> run_errors s a b" if "\<not> datetime_ok (t + seconds (- set_outbox_stale_timeout_seconds s))"
  proof -
    have "\<not> datetime_ok (a - seconds (set_outbox_stale_timeout_seconds s))"
      using that t assms by (auto simp: datetime_ok_def seconds_def durations_positive_def)
    then show ?thesis by (simp add: run_errors_def durations_fit_def)
  qed
  then show "throws_within a b (run_errors s a b) (case ?before of Inl e \<Rightarrow> throw e
      | Inr stale_before \<Rightarrow> bindE (with_tx (bindE (lock_stale_claims (set_outbox_batch_size s) stale_before)
          (\<lambda>stale_claims. recover_claims s t stale_claims []))) (\<lambda>exhausted. ret (length exhausted)))"
    unfolding lock_stale_claims_def
    by (intro throws_throws_within [OF _ order_refl] throws_intro throws_recover_claims [THEN throws_mono] run_errors_sql)
      (simp add: add_seconds_Inl)
qed

lemma py_index_in_range: "0 \<le> i \<Longrightarrow> i < int (length xs) \<Longrightarrow> py_index xs i = Some (xs ! nat i)"
  by (simp add: py_index_def)

lemma throws_record_publish_failure:
  assumes "0 \<le> oc_attempt_count ev" "durations_positive s" "datetime_ok a"
    and "set_outbox_max_attempts s \<le> int (length (set_outbox_retry_delays_seconds s)) + 1"
  shows "throws_within a b (run_errors s a b) (record_publish_failure s ev exc)"
  unfolding record_publish_failure_def Let_def add_diff_cancel_right'
proof (rule throws_within_clock)
  fix t assume t: "a \<le> t" "t \<le> b"
  let ?delay = "py_index (set_outbox_retry_delays_seconds s) (oc_attempt_count ev)"
  let ?at = "if set_outbox_max_attempts s \<le> oc_attempt_count ev + 1 then Inr None
      else case ?delay of None \<Rightarrow> Inl IndexError | Some d \<Rightarrow> map_sum id Some (add_seconds t d)"
  have "e \<in> run_errors s a b" if at: "?at = Inl e" for e
  proof -
    obtain d where d: "d \<in> set (set_outbox_retry_delays_seconds s)" "e = OverflowError" "\<not> datetime_ok (t + seconds d)"
    proof -
      let ?d = "set_outbox_retry_delays_seconds s ! nat (oc_attempt_count ev)"
      have left: "oc_attempt_count ev + 1 < set_outbox_max_attempts s" using at by (auto split: if_splits)
      then have range: "oc_attempt_count ev < int (length (set_outbox_retry_delays_seconds s))" using assms(4) by simp
      then have "?d \<in> set (set_outbox_retry_delays_seconds s)" using assms(1) by (intro nth_mem) simp
      moreover have "e = OverflowError \<and> \<not> datetime_ok (t + seconds ?d)"
        using at left py_index_in_range [OF assms(1) range] by (auto simp: map_sum_def add_seconds_Inl split: sum.splits)
      ultimately show thesis using that by blast
    qed
    then have "\<not> datetime_ok (b + seconds d)"
      using t assms(2,3) by (auto simp: datetime_ok_def seconds_def durations_positive_def)
    then show ?thesis using d by (auto simp: run_errors_def durations_fit_def)
  qed
  then show "throws_within a b (run_errors s a b) (case ?at of Inl e \<Rightarrow> throw e
      | Inr available_at \<Rightarrow> bindE (with_tx (bindE (mark_publish_failure ev (oc_attempt_count ev + 1) (safe_error_message exc)
            (if set_outbox_max_attempts s \<le> oc_attempt_count ev + 1 then OutboxFAILED else OutboxPENDING) available_at
            (if set_outbox_max_attempts s \<le> oc_attempt_count ev + 1 then Some t else None)) (\<lambda>failure_recorded.
          if failure_recorded \<and> set_outbox_max_attempts s \<le> oc_attempt_count ev + 1
          then bindE (fail_pending_import_after_dispatch_exhausted (oc_import_id ev) DISPATCH_EXHAUSTED_REASON)
            (\<lambda>_. ret failure_recorded) else ret failure_recorded))) (\<lambda>failure_recorded. ret ()))"
    by (intro throws_throws_within [OF _ order_refl] throws_intro run_errors_sql)
qed

lemma punctual_record [punctual_intro]:
  "punctual (record_publish_failure s ev exc)" "punctual (record_publish_success ev)" "punctual (dispatch_import pb i)"
  unfolding record_publish_failure_def Let_def mark_publish_failure_def record_publish_success_def mark_published_def
    fail_pending_import_after_dispatch_exhausted_def dispatch_import_def
  by (intro punctual_intro punctual_modify; simp)+

lemma punctual_publish_events [punctual_intro]: "punctual (publish_events pb evs)"
  by (induction evs) (auto intro!: punctual_intro)

lemma punctual_claim_due_events_tx [punctual_intro]: "punctual (claim_due_events_tx s)"
  unfolding claim_due_events_tx_def claim_due_events_def by (intro punctual_intro punctual_modify) simp

lemma punctual_recover_stale_claims: "punctual (recover_stale_claims s)"
proof -
  have "punctual (recover_claims s at cs exhausted :: ('z world_scheme, uuid list) action)" for at cs exhausted
    by (induction cs arbitrary: exhausted)
      (auto intro!: punctual_intro simp: mark_stale_claim_failed_def requeue_stale_claim_def
        fail_pending_import_after_dispatch_exhausted_def)
  then show ?thesis unfolding recover_stale_claims_def lock_stale_claims_def by (intro punctual_intro)
qed

lemma throws_publish_events:
  assumes "\<forall>ev \<in> set evs. 0 \<le> oc_attempt_count ev" "durations_positive (pb_settings pb)" "datetime_ok a"
    and "set_outbox_max_attempts (pb_settings pb) \<le> int (length (set_outbox_retry_delays_seconds (pb_settings pb))) + 1"
  shows "throws_within a b (run_errors (pb_settings pb) a b) (publish_events pb evs)"
  using assms(1)
proof (induction evs)
  case (Cons ev evs)
  let ?E = "run_errors (pb_settings pb) a b"
  have "throws_within a b ?E (case outcome of Some exc \<Rightarrow> record_publish_failure (pb_settings pb) ev exc
      | None \<Rightarrow> record_publish_success ev)" for outcome
    using Cons.prems throws_record_publish_failure [OF _ assms(2-4)] throws_throws_within [OF throws_record_publish_success run_errors_sql]
    by (cases outcome) auto
  then show ?case
    using Cons unfolding publish_events.simps
    by (intro throws_within_bindE punctual_intro throws_throws_within [OF throws_dispatch_import order_refl]) auto
qed (simp add: throws_throws_within [OF throws_ret order_refl])


section \<open>Recovery never exhausts an intent\<close>

lemma yields_lock_stale_claims:
  "yields (delivers m (insert Undelivered labels) db0) L (lock_stale_claims n before)
     (list_all (\<lambda>c. sc_attempt_count c < m))"
  unfolding lock_stale_claims_def
  by (rule yields_statement)
    (auto simp: list_all_iff stale_events_def order_limit_def deliverable.intents_ok_def deliverable_def
      dest!: in_set_takeD)

lemma yields_recover_claims:
  assumes "list_all (\<lambda>c. sc_attempt_count c < set_outbox_max_attempts s) cs"
  shows "yields (delivers m (insert Undelivered labels) db0) L (recover_claims s at cs exhausted)
    (\<lambda>x. x = exhausted)"
  using assms
  by (induction cs arbitrary: exhausted)
    (auto intro!: yields_ret yields_bindE [OF keeps_yields [OF delivering.keeps_requeue_stale_claim]])

lemma yields_recover_stale_claims:
  assumes "set_outbox_max_attempts s = m"
  shows "yields (delivers m (insert Undelivered labels) db0) L (recover_stale_claims s) (\<lambda>n. n = 0)"
  unfolding recover_stale_claims_def Let_def
proof (rule yields_bindE [OF keeps_yields [OF keeps_gets]], rule yields_case_sum [OF yields_throw],
    rule yields_bindE [where Q = "\<lambda>x. x = []"], goal_cases)
  case (1 now before)
  show ?case
  proof (intro yields_with_tx yields_bindE [OF yields_lock_stale_claims])
    fix cs :: "stale_outbox_claim list" assume "list_all (\<lambda>c. sc_attempt_count c < m) cs"
    then show "yields (delivers m (insert Undelivered labels) db0) L (recover_claims s now cs []) (\<lambda>x. x = [])"
      using assms by (intro yields_recover_claims) simp
  qed
qed (simp add: yields_ret)

section \<open>What is published has been sent\<close>

text \<open>The others do not publish intent \<open>x\<close>, and no other intent takes its identity.\<close>

definition leaves_unpublished :: "uuid \<Rightarrow> (database \<Rightarrow> database) \<Rightarrow> bool" where
  "leaves_unpublished x f \<longleftrightarrow> (\<forall>db. db_ok db \<longrightarrow> tracks UNIV db (f db) \<and>
     (\<forall>r' \<in> set (db_outbox (f db)). ob_id r' = x \<longrightarrow> (\<exists>r \<in> set (db_outbox db). ob_id r = x \<and>
        ob_import_id r = ob_import_id r' \<and> (ob_status r' = OutboxPUBLISHED \<longrightarrow> ob_status r = OutboxPUBLISHED))))"

lemma withholds_holds:
  assumes "db_ok (committed w)" "working w = committed w"
    and "\<forall>r \<in> set (db_outbox (committed w)). unpublished x i r"
    and "\<forall>e \<in> set (script w). leaves_unpublished x (ev_others e)"
  shows "holds (withholds x i (committed w)) (\<lambda>_. True) w"
proof -
  have "rely (withholds x i (committed w)) w"
    unfolding rely_def
  proof (intro ballI allI impI)
    fix e db assume e: "e \<in> set (script w)" and db: "withholds x i (committed w) db"
    then have "db_ok db" "tracks UNIV (committed w) db" "\<forall>r \<in> set (db_outbox db). unpublished x i r"
      by (auto simp: unpublished.intents_ok_def tracks_def)
    moreover have "tracks UNIV db (ev_others e db)"
      and "\<forall>r' \<in> set (db_outbox (ev_others e db)). unpublished x i r'"
      using assms(4) e calculation(1,3) by (fastforce simp: leaves_unpublished_def unpublished_def)+
    ultimately show "withholds x i (committed w) (ev_others e db)"
      using tracks_trans unfolding unpublished.intents_ok_def by blast
  qed
  then show ?thesis
    using assms(1-3) by (simp add: holds_def unpublished.intents_ok_def tracks_refl)
qed

text \<open>
  Either import \<open>i\<close> is among what was sent after the first \<open>k\<close> tasks, or intent \<open>x\<close> is
  unpublished.
\<close>

definition sent_first :: "nat \<Rightarrow> uuid \<Rightarrow> uuid \<Rightarrow> database \<Rightarrow> publisher_run \<Rightarrow> bool" where
  "sent_first k x i db0 w \<longleftrightarrow> k \<le> length (pb_sent w) \<and>
     (i \<in> set (drop k (pb_sent w)) \<or> holds (withholds x i db0) (\<lambda>_. True) w)"

definition sends_first :: "nat \<Rightarrow> uuid \<Rightarrow> uuid \<Rightarrow> database \<Rightarrow> (publisher_run, 'a) action \<Rightarrow> bool" where
  "sends_first k x i db0 m \<longleftrightarrow> (\<forall>w. sent_first k x i db0 w \<longrightarrow> sent_first k x i db0 (snd (m w)))"

lemma same_locals: "world.more w' = world.more w \<Longrightarrow> pb_sent w' = pb_sent w" for w w' :: publisher_run
  by (cases w; cases w') simp

lemma sends_first_tame:
  "tame m \<Longrightarrow> keeps (withholds x i db0) (\<lambda>_. True) m \<Longrightarrow> sends_first k x i db0 m"
  unfolding sends_first_def sent_first_def tame_def keeps_def by (metis same_locals)

lemma sends_first_ret: "sends_first k x i db0 (ret y)"
  by (simp add: sends_first_def ret_def)

lemma sends_first_bindE:
  "sends_first k x i db0 m \<Longrightarrow> (\<And>y. sends_first k x i db0 (f y)) \<Longrightarrow> sends_first k x i db0 (bindE m f)"
  unfolding sends_first_def bindE_def by (fastforce split: prod.splits sum.splits)

lemma tame_record_publish_failure: "tame (record_publish_failure s ev exc)"
  unfolding record_publish_failure_def Let_def mark_publish_failure_def
    fail_pending_import_after_dispatch_exhausted_def
  by (intro tame_intro)

lemma tame_record_publish_success: "tame (record_publish_success ev)"
  unfolding record_publish_success_def mark_published_def by (intro tame_intro)

text \<open>Sending an event and recording what became of it.\<close>

definition publish_one :: "outbox_publisher \<Rightarrow> claimed_outbox_event \<Rightarrow> (publisher_run, unit) action" where
  "publish_one pb ev = bindE (dispatch_import pb (oc_import_id ev)) (\<lambda>outcome.
     case outcome of Some exc \<Rightarrow> record_publish_failure (pb_settings pb) ev exc
       | None \<Rightarrow> record_publish_success ev)"

lemma publish_events_Cons: "publish_events pb (ev # evs) = bindE (publish_one pb ev) (\<lambda>_. publish_events pb evs)"
  unfolding publish_one_def by (rule ext) (simp add: bindE_def split: prod.split sum.split)

lemma sends_first_publish_one:
  assumes "0 \<le> oc_attempt_count ev" "oc_outbox_id ev = x \<longrightarrow> oc_import_id ev = i"
  shows "sends_first k x i db0 (publish_one pb ev)"
  unfolding sends_first_def
proof (intro allI impI)
  fix w assume w: "sent_first k x i db0 w"
  let ?I = "withholds x i db0"
  show "sent_first k x i db0 (snd (publish_one pb ev w))"
  proof (cases "pb_dispatch pb (oc_import_id ev) (clock w)")
    case (Some exc)
    have "sends_first k x i db0 (record_publish_failure (pb_settings pb) ev exc)"
      by (intro sends_first_tame tame_record_publish_failure 
          withholding.keeps_record_publish_failure [OF assms(1) refl])
    with w Some show ?thesis
      by (simp add: publish_one_def dispatch_import_def sends_first_def bindE_def gets_def ret_def)
  next
    case None
    let ?w = "pb_sent_update (\<lambda>sent. sent @ [oc_import_id ev]) w"
    have run: "publish_one pb ev w = record_publish_success ev ?w"
      using None by (simp add: publish_one_def dispatch_import_def bindE_def gets_def ret_def modify_def)
    have sent: "pb_sent (snd (record_publish_success ev ?w)) = pb_sent ?w"
      using tame_record_publish_success [of ev] same_locals unfolding tame_def by blast
    show ?thesis
    proof (cases "oc_outbox_id ev = x")
      case True
      then show ?thesis using w assms(2) unfolding run sent_first_def sent by simp
    next
      case False
      have "keeps ?I (\<lambda>_. True) (record_publish_success ev)"
        by (rule withholding.keeps_mark_published) (use False in \<open>auto simp: unpublished_def outbox_owned_def\<close>)
      moreover have "holds ?I (\<lambda>_. True) w \<Longrightarrow> holds ?I (\<lambda>_. True) ?w"
        by (simp add: holds_def rely_def)
      ultimately show ?thesis using w unfolding run sent_first_def sent by (auto simp: keeps_def)
    qed
  qed
qed

lemma sends_first_publish_events:
  "\<forall>ev \<in> set evs. 0 \<le> oc_attempt_count ev \<and> (oc_outbox_id ev = x \<longrightarrow> oc_import_id ev = i) \<Longrightarrow>
     sends_first k x i db0 (publish_events pb evs)"
proof (induction evs)
  case (Cons ev evs)
  then show ?case
    unfolding publish_events_Cons by (intro sends_first_bindE sends_first_publish_one) auto
qed (simp add: sends_first_ret)

text \<open>Nothing is taken back from the broker.\<close>

definition keeps_sent :: "(publisher_run, 'a) action \<Rightarrow> bool" where
  "keeps_sent m \<longleftrightarrow> (\<forall>w. \<exists>more. pb_sent (snd (m w)) = pb_sent w @ more)"

lemma keeps_sent_tame: "tame m \<Longrightarrow> keeps_sent m"
  unfolding keeps_sent_def tame_def by (metis same_locals append_Nil2)

lemma keeps_sent_bindE:
  assumes "keeps_sent m" "\<And>y. keeps_sent (f y)"
  shows "keeps_sent (bindE m f)"
  unfolding keeps_sent_def
proof
  fix w
  obtain r w1 where run: "m w = (r, w1)" by fastforce
  then obtain xs where xs: "pb_sent w1 = pb_sent w @ xs" using assms(1) by (metis keeps_sent_def snd_conv)
  show "\<exists>more. pb_sent (snd (bindE m f w)) = pb_sent w @ more"
  proof (cases r)
    case (Inr y)
    obtain ys where "pb_sent (snd (f y w1)) = pb_sent w1 @ ys" using assms(2) by (metis keeps_sent_def)
    then show ?thesis using run xs Inr by (simp add: bindE_def)
  qed (use run xs in \<open>simp add: bindE_def\<close>)
qed

lemma keeps_sent_dispatch: "keeps_sent (dispatch_import pb i)"
  by (simp add: keeps_sent_def dispatch_import_def bindE_def gets_def modify_def ret_def split: option.split)

lemma keeps_sent_publish_one: "keeps_sent (publish_one pb ev)"
  unfolding publish_one_def
proof (rule keeps_sent_bindE [OF keeps_sent_dispatch])
  show "keeps_sent (case y of Some exc \<Rightarrow> record_publish_failure (pb_settings pb) ev exc
      | None \<Rightarrow> record_publish_success ev)" for y
    by (cases y) (simp_all add: keeps_sent_tame tame_record_publish_failure tame_record_publish_success)
qed

lemma keeps_sent_publish_events: "keeps_sent (publish_events pb evs)"
proof (induction evs)
  case (Cons ev evs)
  then show ?case
    unfolding publish_events_Cons by (intro keeps_sent_bindE keeps_sent_publish_one)
qed (simp add: keeps_sent_tame tame_ret)

lemma keeps_sent_first:
  assumes "keeps_sent m" "i \<in> set (drop k (pb_sent w))" "k \<le> length (pb_sent w)"
  shows "sent_first k x i db0 (snd (m w))"
proof -
  obtain xs where "pb_sent (snd (m w)) = pb_sent w @ xs" using assms(1) by (metis keeps_sent_def)
  then show ?thesis using assms(2,3) by (simp add: sent_first_def)
qed

lemma sends_first_bindE_yields:
  assumes "tame m" "yields (withholds x i db0) (\<lambda>_. True) m Q"
    and "\<And>y. keeps_sent (f y)" "\<And>y. Q y \<Longrightarrow> sends_first k x i db0 (f y)"
  shows "sends_first k x i db0 (bindE m f)"
  unfolding sends_first_def
proof (intro allI impI)
  fix w assume w: "sent_first k x i db0 w"
  show "sent_first k x i db0 (snd (bindE m f w))"
  proof (cases "holds (withholds x i db0) (\<lambda>_. True) w")
    case False
    then show ?thesis
      using w by (intro keeps_sent_first keeps_sent_bindE [OF keeps_sent_tame [OF assms(1)] assms(3)])
        (auto simp: sent_first_def)
  next
    case True
    obtain r w1 where run: "m w = (r, w1)" by fastforce
    have w1: "sent_first k x i db0 w1"
      using sends_first_tame [OF assms(1) yields_keeps [OF assms(2)]] w run
      by (metis sends_first_def snd_conv)
    show ?thesis
    proof (cases r)
      case (Inr y)
      then have "Q y" using assms(2) True run by (auto simp: yields_def)
      then show ?thesis using assms(4) w1 run Inr by (simp add: bindE_def sends_first_def)
    qed (use w1 run in \<open>simp add: bindE_def\<close>)
  qed
qed

lemma tame_claim_due_events_tx: "tame (claim_due_events_tx s)"
proof -
  have "tame (modify (\<lambda>w. w\<lparr>draws := draws w + n\<rparr>) :: ('z world_scheme, unit) action)" for n
    by (simp add: tame_def modify_def)
  then show ?thesis
    unfolding claim_due_events_tx_def claim_due_events_def by (intro tame_intro)
qed

lemma tame_recover_stale_claims: "tame (recover_stale_claims s)"
proof -
  have "tame (recover_claims s at cs exhausted :: ('z world_scheme, uuid list) action)" for at cs exhausted
    by (induction cs arbitrary: exhausted)
      (auto intro!: tame_intro simp: mark_stale_claim_failed_def requeue_stale_claim_def
        fail_pending_import_after_dispatch_exhausted_def)
  then show ?thesis
    unfolding recover_stale_claims_def Let_def lock_stale_claims_def by (intro tame_intro)
qed

lemma sends_first_publish_due_events: "sends_first k x i db0 (publish_due_events pb)"
  unfolding publish_due_events_def
proof (rule sends_first_bindE_yields [OF tame_claim_due_events_tx withholding.yields_claim_due_events_tx])
  show "keeps_sent (bindE (publish_events pb evs) (\<lambda>_. ret (length evs)))" for evs
    by (intro keeps_sent_bindE keeps_sent_publish_events keeps_sent_tame tame_ret)
  fix evs
  assume "list_all (\<lambda>ev. \<exists>r. unpublished x i r \<and> outbox_ok r \<and> ob_status r = OutboxPENDING \<and> names_row ev r) evs"
  then have "\<forall>ev \<in> set evs. 0 \<le> oc_attempt_count ev \<and> (oc_outbox_id ev = x \<longrightarrow> oc_import_id ev = i)"
    by (fastforce simp: list_all_iff unpublished_def outbox_ok_def names_row_def)
  then show "sends_first k x i db0 (bindE (publish_events pb evs) (\<lambda>_. ret (length evs)))"
    by (intro sends_first_bindE sends_first_publish_events sends_first_ret)
qed

lemma sends_first_run: "sends_first k x i db0 (run_outbox_publisher pb n)"
proof (induction n)
  case (Suc n)
  have "sends_first k x i db0 (sleep_seconds d)" for d
    by (simp add: sends_first_def sleep_seconds_def throw_def modify_def sent_first_def holds_def rely_def)
  then show ?case
    unfolding run_outbox_publisher.simps
    by (intro sends_first_bindE sends_first_publish_due_events Suc
        sends_first_tame [OF tame_recover_stale_claims withholding.keeps_recover_stale_claims])
qed (simp add: sends_first_ret)

section \<open>Examples\<close>

text \<open>Two imports with their intents, a broker that is down for the second one.\<close>

definition example_intent :: import_dispatch_outbox where
  "example_intent = new_dispatch_row 21 1 50 50"

definition outbox_db :: database where
  "outbox_db = \<lparr>db_jobs = [example_job, example_job\<lparr>job_id := 2\<rparr>],
     db_outbox = [example_intent, example_intent\<lparr>ob_id := 22, ob_import_id := 2\<rparr>],
     db_shipments = [], db_errors = []\<rparr>"

definition example_publisher :: outbox_publisher where
  "example_publisher = \<lparr>pb_settings = default_settings,
     pb_dispatch = (\<lambda>i _. if i = 2 then Some (''OperationalError'', ''down'') else None)\<rparr>"

definition publisher_world :: publisher_run where
  "publisher_world = \<lparr>committed = outbox_db, working = outbox_db,
     script = [quiet, quiet\<lparr>ev_elapsed := 5\<rparr>, quiet\<lparr>ev_fault := Some OperationalError, ev_applied := True\<rparr>],
     clock = 100, tx_time = 0, draws = 0, uuid_source = (\<lambda>n. n + 10), pg_numeric = (\<lambda>p s d. Some d), advisory = [],
     pb_sent = []\<rparr>"

lemma outbox_db_ok: "db_ok outbox_db"
  by (simp add: db_ok_def jobs_ok_def job_ok_def outbox_db_def example_job_def refs_ok_def outbox_ok_def
      shipments_ok_def idempotency_keys_def ck_failure_reason_terminal_def example_intent_def new_dispatch_row_def)

lemma outbox_db_deliverable: "\<forall>r \<in> set (db_outbox outbox_db). deliverable 5 r"
  by (simp add: outbox_db_def deliverable_def example_intent_def new_dispatch_row_def)

lemma quiet_others: "sound_intents m labels (\<lambda>db. db)" "leaves_unpublished x (\<lambda>db. db)"
  by (auto simp: sound_intents_def leaves_unpublished_def tracks_refl)

lemma publisher_world_simps:
  "committed publisher_world = outbox_db" "working publisher_world = outbox_db"
  "\<forall>e \<in> set (script publisher_world). ev_others e = (\<lambda>db. db)"
  "set_outbox_max_attempts (pb_settings example_publisher) = 5"
  by (simp_all add: publisher_world_def quiet_def example_publisher_def default_settings_def)

section \<open>Properties\<close>

lemma throws_publish_due_events:
  assumes "holds (delivers m (insert Undelivered labels) db0) (\<lambda>_. True) w" "within a b w"
    and "set_outbox_max_attempts (pb_settings pb) = m" "durations_positive (pb_settings pb)" "datetime_ok a"
    and "m \<le> int (length (set_outbox_retry_delays_seconds (pb_settings pb))) + 1"
    and "publish_due_events pb w = (Inl e, w')"
  shows "e \<in> run_errors (pb_settings pb) a b"
proof -
  let ?E = "run_errors (pb_settings pb) a b"
  obtain r w1 where 1: "claim_due_events_tx (pb_settings pb) w = (r, w1)" by fastforce
  have w1: "within a b w1" using punctual_within [OF punctual_claim_due_events_tx 1 assms(2)] .
  have claimed: "throws_within a b ?E (bindE (publish_events pb evs) (\<lambda>_. ret (length evs)))" if "r = Inr evs" for evs
  proof (intro throws_within_bindE throws_publish_events punctual_intro assms throws_throws_within [OF throws_ret order_refl])
    have "list_all (\<lambda>ev. \<exists>r. deliverable m r \<and> outbox_ok r \<and> ob_status r = OutboxPENDING \<and> names_row ev r) evs"
      using delivering.yields_claim_due_events_tx assms(1) 1 that unfolding yields_def by blast
    then show "\<forall>ev \<in> set evs. 0 \<le> oc_attempt_count ev" using claims_attempts by blast
  qed (use assms in simp)
  show ?thesis
  proof (cases r)
    case (Inl e1)
    then show ?thesis
      using assms(7) 1 throwsD [OF throws_claim_due_events_tx 1 [unfolded Inl]] run_errors_sql
      by (auto simp: publish_due_events_def bindE_def)
  next
    case (Inr evs)
    then show ?thesis
      using assms(7) 1 throws_withinD [OF claimed [OF Inr] w1]
      by (simp add: publish_due_events_def bindE_def [of "claim_due_events_tx _"])
  qed
qed

lemma punctual_publish_due_events: "punctual (publish_due_events pb)"
  unfolding publish_due_events_def by (intro punctual_intro)

lemma run_raises:
  assumes "holds (delivers m (insert Undelivered labels) db0) (\<lambda>_. True) w"
    and "set_outbox_max_attempts (pb_settings pb) = m"
    and "m \<le> int (length (set_outbox_retry_delays_seconds (pb_settings pb))) + 1"
    and pos: "durations_positive (pb_settings pb)" and cal: "datetime_ok a" "datetime_ok b"
    and "a \<le> clock w" "horizon w + int n * seconds (set_outbox_poll_interval_seconds (pb_settings pb)) \<le> b"
    and "run_outbox_publisher pb n w = (Inl e, w')"
  shows "e \<in> run_errors (pb_settings pb) a b"
  using assms(1,7-9)
proof (induction n arbitrary: w)
  case (Suc n)
  let ?s = "pb_settings pb" and ?poll = "set_outbox_poll_interval_seconds (pb_settings pb)"
  have poll: "0 < ?poll" using pos by (simp add: durations_positive_def)
  then have w: "within a b w"
    using Suc.prems(2,3) by (simp add: within_def seconds_def) (smt (verit) mult_nonneg_nonneg of_nat_0_le_iff)
  obtain r1 w1 where 1: "recover_stale_claims ?s w = (r1, w1)" by fastforce
  have h1: "holds (delivers m (insert Undelivered labels) db0) (\<lambda>_. True) w1"
    using keepsD [OF delivering.keeps_recover_stale_claims Suc.prems(1) 1] .
  have t1: "within a b w1" "clock w \<le> clock w1" "horizon w1 = horizon w"
    using punctual_within [OF punctual_recover_stale_claims 1 w] punctual_recover_stale_claims [of ?s] 1
    unfolding punctual_def by (metis snd_conv)+
  show ?case
  proof (cases r1)
    case (Inl e1)
    then show ?thesis
      using Suc.prems(4) 1 throws_withinD [OF throws_recover_stale_claims [OF pos cal(2)] w] by (simp add: bindE_def)
  next
    case (Inr x1)
    obtain r2 w2 where 2: "publish_due_events pb w1 = (r2, w2)" by fastforce
    have t2: "clock w1 \<le> clock w2" "horizon w2 = horizon w1"
      using punctual_publish_due_events [of pb] 2 unfolding punctual_def by (metis snd_conv)+
    show ?thesis
    proof (cases r2)
      case (Inl e2)
      then show ?thesis
        using Suc.prems(4) 1 2 Inr throws_publish_due_events [OF h1 t1(1) assms(2) pos cal(1) assms(3)] by (simp add: bindE_def)
    next
      case (Inr x2)
      let ?w3 = "w2\<lparr>clock := clock w2 + seconds ?poll\<rparr>"
      have rest: "holds (delivers m (insert Undelivered labels) db0) (\<lambda>_. True) ?w3"
        "a \<le> clock ?w3" "horizon ?w3 + int n * seconds ?poll \<le> b"
        using keepsD [OF keeps_publish_due_events [OF assms(2)] h1 2] Suc.prems(2,3) t1 t2 poll
        by (simp_all add: holds_def rely_def horizon_def seconds_def algebra_simps)
      show ?thesis
      proof (cases "2 ^ 63 \<le> ?poll * 1000000000")
        case True
        then have "e = OverflowError"
          using Suc.prems(4) 1 2 \<open>r1 = Inr x1\<close> Inr by (simp add: bindE_def sleep_seconds_def throw_def)
        then show ?thesis using True by (simp add: run_errors_def durations_fit_def)
      next
        case False
        then have "run_outbox_publisher pb n ?w3 = (Inl e, w')"
          using Suc.prems(4) 1 2 \<open>r1 = Inr x1\<close> Inr poll by (simp add: bindE_def sleep_seconds_def modify_def)
        then show ?thesis by (rule Suc.IH [OF rest])
      qed
    qed
  qed
qed (simp add: ret_def)

text \<open>
  The publisher process keeps the database: with faults, failed commits and concurrent sessions
  that keep it too, after any number of rounds every row is well formed, every job has only
  moved along its life cycle, the publisher itself only gives up on PENDING jobs, and every
  intent still to be sent has a failure count below the maximum.
\<close>

theorem run_outbox_publisher_keeps:
  assumes "db_ok (committed w)" "working w = committed w"
    and "\<forall>r \<in> set (db_outbox (committed w)). deliverable (set_outbox_max_attempts (pb_settings pb)) r"
    and "\<forall>e \<in> set (script w). sound_intents (set_outbox_max_attempts (pb_settings pb))
      (insert Undelivered labels) (ev_others e)"
  shows "let db = committed (snd (run_outbox_publisher pb n w)) in
    tracks (insert Undelivered labels) (committed w) db \<and>
    (\<forall>r \<in> set (db_outbox db). deliverable (set_outbox_max_attempts (pb_settings pb)) r)"
proof -
  let ?m = "set_outbox_max_attempts (pb_settings pb)"
  have "holds (delivers ?m (insert Undelivered labels) (committed w)) (\<lambda>_. True) w"
    by (rule delivers_holds [OF assms(1,3,4,2)])
  then have "holds (delivers ?m (insert Undelivered labels) (committed w)) (\<lambda>_. True)
      (snd (run_outbox_publisher pb n w))"
    using keeps_run_outbox_publisher [OF refl] by (simp only: keeps_def)
  then show ?thesis by (simp add: holds_def deliverable.intents_ok_def Let_def)
qed

theorem run_outbox_publisher_keeps_witness:
  "tracks {Undelivered} outbox_db (committed (snd (run_outbox_publisher example_publisher 3 publisher_world)))"
  using run_outbox_publisher_keeps [of publisher_world example_publisher "{}" 3]
  by (simp add: publisher_world_simps outbox_db_ok outbox_db_deliverable quiet_others Let_def)

text \<open>
  C14. What can end the publisher process: with settings that pass the validators and at most five
  attempts, nothing but an error of the database does, whatever the broker raises, as long as
  the durations of the settings fit the calendar: the timeout before the start, each delay after
  the last moment of the run, the sleep in 64 bits of nanoseconds. The validators set no upper
  bound, and a duration that does not fit can end the process with OverflowError; nothing else can.
  The run ends before the year 10000.
\<close>

theorem run_outbox_publisher_raises:
  assumes "settings_accepted (pb_settings pb)" "set_outbox_max_attempts (pb_settings pb) \<le> 5"
    and "db_ok (committed w)" "working w = committed w"
    and "\<forall>r \<in> set (db_outbox (committed w)). deliverable (set_outbox_max_attempts (pb_settings pb)) r"
    and "\<forall>e \<in> set (script w). sound_intents (set_outbox_max_attempts (pb_settings pb)) UNIV (ev_others e)"
    and "finish = horizon w + int n * seconds (set_outbox_poll_interval_seconds (pb_settings pb))"
    and "datetime_ok (clock w)" "datetime_ok finish"
    and "fst (run_outbox_publisher pb n w) = Inl exc"
  shows "is_sql_error exc \<or> exc = OverflowError \<and> \<not> durations_fit (pb_settings pb) (clock w) finish"
proof -
  let ?m = "set_outbox_max_attempts (pb_settings pb)"
  have "\<not> is_left (validate_retry_delays (set_outbox_retry_delays_seconds (pb_settings pb)))"
    using assms(1) by (simp add: settings_accepted_def)
  then have len: "?m \<le> int (length (set_outbox_retry_delays_seconds (pb_settings pb))) + 1"
    using assms(2) by (simp add: validate_retry_delays_ok)
  have "holds (delivers ?m (insert Undelivered UNIV) (committed w)) (\<lambda>_. True) w"
    using delivers_holds [OF assms(3,5,6,4)] by simp
  from run_raises [OF this refl len accepted_durations [OF assms(1)] assms(8,9) order_refl]
  have "exc \<in> run_errors (pb_settings pb) (clock w) finish" using assms(7,10) by (metis order_refl prod.collapse)
  then show ?thesis by (auto simp: run_errors_def sql_errors_def is_sql_error_def split: if_splits)
qed

text \<open>The first statement of this process is the one that fails.\<close>

definition failing_world :: publisher_run where
  "failing_world = publisher_world\<lparr>script := [quiet\<lparr>ev_fault := Some OperationalError\<rparr>]\<rparr>"

theorem run_outbox_publisher_raises_witness:
  "\<exists>exc. fst (run_outbox_publisher example_publisher 1 failing_world) = Inl exc \<and> is_sql_error exc"
proof -
  have run: "fst (run_outbox_publisher example_publisher 1 failing_world) = Inl (SqlError OperationalError)"
    by (simp add: failing_world_def publisher_world_def recover_stale_claims_def Let_def with_tx_def bindE_def gets_def
        begin_tx_def lock_stale_claims_def statement_def next_event_def quiet_def add_seconds_def datetime_ok_def seconds_def
        example_publisher_def default_settings_def)
  have "is_sql_error (SqlError OperationalError)"
  proof -
    have "is_sql_error (SqlError OperationalError) \<or> SqlError OperationalError = OverflowError \<and>
        \<not> durations_fit (pb_settings example_publisher) (clock failing_world) (seconds 1 + 100)"
      by (rule run_outbox_publisher_raises [OF _ _ _ _ _ _ _ _ _ run])
        (simp_all add: failing_world_def publisher_world_simps outbox_db_ok outbox_db_deliverable quiet_others
          example_publisher_def default_settings_accepted quiet_def, simp_all add: default_settings_def outbox_db_deliverable
          quiet_others publisher_world_def horizon_def datetime_ok_def seconds_def)
    then show ?thesis by simp
  qed
  with run show ?thesis by blast
qed

text \<open>A timeout that reaches back before the year 1 passes the validators and ends the process at once.\<close>

definition long_timeout :: settings where
  "long_timeout = default_settings\<lparr>set_outbox_stale_timeout_seconds := 100000000000\<rparr>"

lemma long_timeout_overflows:
  "settings_accepted long_timeout \<and>
   fst (run_outbox_publisher (example_publisher\<lparr>pb_settings := long_timeout\<rparr>) 1 publisher_world) = Inl OverflowError"
  by (simp add: long_timeout_def settings_accepted_def validate_retry_delays_ok validators_ok positive_fields_def
      default_settings_def bindE_def recover_stale_claims_def gets_def add_seconds_def datetime_ok_def seconds_def
      publisher_world_def throw_def)

text \<open>
  C15. When recording a failed delivery raises IndexError: exactly when attempts are left but the
  delays have run out, which settings with more than five attempts and the four delays the
  validator asks for allow.
\<close>

theorem record_publish_failure_index_error:
  assumes "0 \<le> oc_attempt_count ev"
  shows "fst (record_publish_failure s ev exc w) = Inl IndexError \<longleftrightarrow>
    oc_attempt_count ev + 1 < set_outbox_max_attempts s \<and>
    int (length (set_outbox_retry_delays_seconds s)) \<le> oc_attempt_count ev"
proof (cases "\<not> set_outbox_max_attempts s \<le> oc_attempt_count ev + 1 \<and>
    py_index (set_outbox_retry_delays_seconds s) (oc_attempt_count ev) = None")
  case True
  then have "fst (record_publish_failure s ev exc w) = Inl IndexError"
    by (simp add: record_publish_failure_def Let_def bindE_def gets_def throw_def)
  moreover have "int (length (set_outbox_retry_delays_seconds s)) \<le> oc_attempt_count ev"
    using True assms py_index_in_range [of "oc_attempt_count ev" "set_outbox_retry_delays_seconds s"]
    by (auto simp: not_le [symmetric])
  ultimately show ?thesis using True by simp
next
  case False
  then have only: "throws (insert OverflowError sql_errors) (record_publish_failure s ev exc)"
    unfolding record_publish_failure_def Let_def add_diff_cancel_right'
    by (intro throws_intro)
      (auto simp: map_sum_def add_seconds_Inl split: if_splits option.splits sum.splits)
  have "fst (record_publish_failure s ev exc w) \<noteq> Inl IndexError"
  proof
    assume "fst (record_publish_failure s ev exc w) = Inl IndexError"
    then have "IndexError \<in> insert OverflowError sql_errors" using throwsD [OF only] by (metis prod.collapse)
    then show False by (auto simp: sql_errors_def)
  qed
  moreover have "\<not> (oc_attempt_count ev + 1 < set_outbox_max_attempts s \<and>
      int (length (set_outbox_retry_delays_seconds s)) \<le> oc_attempt_count ev)"
    using False assms by (auto simp: py_index_def)
  ultimately show ?thesis by blast
qed

text \<open>Settings with six attempts pass the validators; the fifth failure of a delivery raises.\<close>

theorem record_publish_failure_index_error_witness:
  "settings_accepted (default_settings\<lparr>set_outbox_max_attempts := 6\<rparr>) \<and>
   fst (record_publish_failure (default_settings\<lparr>set_outbox_max_attempts := 6\<rparr>)
     \<lparr>oc_outbox_id = 21, oc_import_id = 1, oc_claim_token = 7, oc_attempt_count = 4\<rparr> (''E'', []) publisher_world)
     = Inl IndexError"
proof
  show "settings_accepted (default_settings\<lparr>set_outbox_max_attempts := 6\<rparr>)"
    by (simp add: settings_accepted_def validate_retry_delays_ok validators_ok positive_fields_def default_settings_def)
  show "fst (record_publish_failure (default_settings\<lparr>set_outbox_max_attempts := 6\<rparr>)
     \<lparr>oc_outbox_id = 21, oc_import_id = 1, oc_claim_token = 7, oc_attempt_count = 4\<rparr> (''E'', []) publisher_world)
     = Inl IndexError"
    by (subst record_publish_failure_index_error) (simp_all add: default_settings_def)
qed

text \<open>
  C32. Recovering the claims of a publisher that died never gives up on an intent: the attempt count
  of a claim is below the maximum, and a recovery does not raise it. The branch of the service
  that fails the import of a stale claim is never taken.
\<close>

theorem recover_stale_claims_never_exhausts:
  assumes "db_ok (committed w)" "working w = committed w"
    and "\<forall>r \<in> set (db_outbox (committed w)). deliverable (set_outbox_max_attempts s) r"
    and "\<forall>e \<in> set (script w). sound_intents (set_outbox_max_attempts s) UNIV (ev_others e)"
    and "fst (recover_stale_claims s w) = Inr n"
  shows "n = 0"
proof -
  have "holds (delivers (set_outbox_max_attempts s) (insert Undelivered UNIV) (committed w)) (\<lambda>_. True) w"
    using delivers_holds [OF assms(1,3,4,2)] by simp
  then show ?thesis
    using yields_recover_stale_claims [OF refl] assms(5) unfolding yields_def by (metis prod.collapse)
qed



theorem recover_stale_claims_never_exhausts_witness:
  "fst (recover_stale_claims default_settings publisher_world) = Inr 0"
proof -
  obtain n where n: "fst (recover_stale_claims default_settings publisher_world) = Inr n"
    by (simp add: publisher_world_def recover_stale_claims_def Let_def with_tx_def bindE_def gets_def
        begin_tx_def lock_stale_claims_def statement_def next_event_def quiet_def advance_def stale_events_def
        outbox_db_def example_intent_def new_dispatch_row_def order_limit_def ret_def commit_def
        add_seconds_def datetime_ok_def seconds_def default_settings_def)
  have "n = 0"
    by (rule recover_stale_claims_never_exhausts [OF _ _ _ _ n])
      (simp_all add: publisher_world_simps outbox_db_ok outbox_db_deliverable quiet_others default_settings_def)
  with n show ?thesis by simp
qed

text \<open>
  C9. Nothing is lost between the outbox and the broker: an intent is PUBLISHED only after the broker
  accepted a task for its import. If intent \<open>x\<close> of import \<open>i\<close> was not PUBLISHED before the
  publisher ran, no other session published it, and it is PUBLISHED afterwards (whatever
  faults there were, and even if the process ended with an exception), then \<open>i\<close> is among the
  tasks the broker accepted meanwhile.
\<close>

theorem published_was_sent:
  assumes "db_ok (committed w)" "working w = committed w"
    and "r \<in> set (db_outbox (committed w))" "ob_status r \<noteq> OutboxPUBLISHED"
    and "\<forall>e \<in> set (script w). leaves_unpublished (ob_id r) (ev_others e)"
    and "r' \<in> set (db_outbox (committed (snd (run_outbox_publisher pb n w))))"
    and "ob_id r' = ob_id r" "ob_status r' = OutboxPUBLISHED"
  shows "ob_import_id r \<in> set (drop (length (pb_sent w)) (pb_sent (snd (run_outbox_publisher pb n w))))"
proof -
  let ?w' = "snd (run_outbox_publisher pb n w)"
  have "\<forall>r1 \<in> set (db_outbox (committed w)). unpublished (ob_id r) (ob_import_id r) r1"
    using assms(1,3,4) by (auto simp: unpublished_def db_ok_def distinct_map dest: inj_onD)
  then have "holds (withholds (ob_id r) (ob_import_id r) (committed w)) (\<lambda>_. True) w"
    using assms(1,2,5) by (intro withholds_holds)
  then have "sent_first (length (pb_sent w)) (ob_id r) (ob_import_id r) (committed w) w"
    by (simp add: sent_first_def)
  then have "sent_first (length (pb_sent w)) (ob_id r) (ob_import_id r) (committed w) ?w'"
    using sends_first_run by (simp only: sends_first_def)
  moreover have "\<not> holds (withholds (ob_id r) (ob_import_id r) (committed w)) (\<lambda>_. True) ?w'"
    using assms(6-8) by (auto simp: holds_def unpublished.intents_ok_def unpublished_def)
  ultimately show ?thesis by (simp add: sent_first_def)
qed

definition round_world :: publisher_run where
  "round_world = publisher_world\<lparr>script := []\<rparr>"

theorem published_was_sent_witness:
  "1 \<in> set (pb_sent (snd (run_outbox_publisher example_publisher 1 round_world)))"
proof -
  let ?db = "committed (snd (run_outbox_publisher example_publisher 1 round_world))"
  have "\<exists>r' \<in> set (db_outbox ?db). ob_id r' = 21 \<and> ob_status r' = OutboxPUBLISHED"
    by code_simp
  then obtain r' where r': "r' \<in> set (db_outbox ?db)" "ob_id r' = 21" "ob_status r' = OutboxPUBLISHED" by blast
  have "ob_import_id example_intent \<in> set (drop (length (pb_sent round_world))
      (pb_sent (snd (run_outbox_publisher example_publisher 1 round_world))))"
    by (rule published_was_sent [OF _ _ _ _ _ r'(1) _ r'(3)])
      (simp_all add: round_world_def publisher_world_simps outbox_db_ok r'(2), simp_all add: outbox_db_def
        example_intent_def new_dispatch_row_def)
  then show ?thesis
    by (auto simp: example_intent_def new_dispatch_row_def dest: in_set_dropD)
qed

end
