(* ===== verification/Outbox_Round.thy ===== *)
theory Outbox_Round
  imports Outbox_Safety Quiet_Session
begin

text \<open>
  What one round of the publisher does when nothing interferes, as one function of the database:
  every due intent is sent and gets the outcome of its delivery; nothing else changes.
\<close>

section \<open>The reference\<close>

text \<open>The row of a claimed intent after its delivery was accepted or refused.\<close>

definition delivered_row ::
  "settings \<Rightarrow> (string \<times> string) option \<Rightarrow> timestamp \<Rightarrow> import_dispatch_outbox \<Rightarrow> import_dispatch_outbox" where
  "delivered_row s outcome now r = (case outcome of
     None \<Rightarrow> r\<lparr>ob_status := OutboxPUBLISHED, ob_published_at := Some now, ob_claim_token := None,
       ob_last_error := None, ob_updated_at := now\<rparr>
   | Some exc \<Rightarrow>
       if ob_attempt_count r + 1 \<ge> set_outbox_max_attempts s
       then r\<lparr>ob_status := OutboxFAILED, ob_attempt_count := ob_attempt_count r + 1,
         ob_last_error := Some (safe_error_message exc), ob_claimed_at := Some now,
         ob_claim_token := None, ob_updated_at := now\<rparr>
       else r\<lparr>ob_status := OutboxPENDING, ob_attempt_count := ob_attempt_count r + 1,
         ob_last_error := Some (safe_error_message exc), ob_claimed_at := None, ob_claim_token := None,
         ob_available_at := now + seconds (set_outbox_retry_delays_seconds s ! nat (ob_attempt_count r)),
         ob_updated_at := now\<rparr>)"

definition given_up :: "settings \<Rightarrow> (string \<times> string) option \<Rightarrow> int \<Rightarrow> bool" where
  "given_up s outcome a \<longleftrightarrow> outcome \<noteq> None \<and> a + 1 \<ge> set_outbox_max_attempts s"

definition undelivered_job :: "timestamp \<Rightarrow> import_job \<Rightarrow> import_job" where
  "undelivered_job now j = j\<lparr>
     job_status := ImportFAILED,
     job_failure_reason := Some DISPATCH_EXHAUSTED_REASON,
     job_last_failure_reason := Some DISPATCH_EXHAUSTED_REASON,
     job_finished_at := Some now, job_processing_token := None, job_locked_by_worker := None,
     job_updated_at := now\<rparr>"

definition publish_round :: "outbox_publisher \<Rightarrow> timestamp \<Rightarrow> import_dispatch_outbox list \<Rightarrow> database \<Rightarrow> database" where
  "publish_round pb now due db =
     (let s = pb_settings pb; outcome = (\<lambda>r. pb_dispatch pb (ob_import_id r) now) in
      db\<lparr>db_outbox := map (\<lambda>r. if r \<in> set due
             then delivered_row s (outcome r) now (r\<lparr>ob_claimed_at := Some now\<rparr>) else r) (db_outbox db),
         db_jobs := map (\<lambda>j. if job_status j = ImportPENDING \<and>
               (\<exists>r \<in> set due. given_up s (outcome r) (ob_attempt_count r) \<and> ob_import_id r = job_id j)
             then undelivered_job now j else j) (db_jobs db)\<rparr>)"

section \<open>One event\<close>

text \<open>The claim is still the publisher's: its row, and only its row, carries the token.\<close>

definition claim_held :: "claimed_outbox_event \<Rightarrow> database \<Rightarrow> bool" where
  "claim_held ev db \<longleftrightarrow> (\<exists>r \<in> set (db_outbox db). ob_id r = oc_outbox_id ev) \<and>
     (\<forall>r \<in> set (db_outbox db). ob_id r = oc_outbox_id ev \<longrightarrow>
        outbox_owned (oc_outbox_id ev) (oc_claim_token ev) r \<and> ob_attempt_count r = oc_attempt_count ev)"

definition settle_intent :: "outbox_publisher \<Rightarrow> timestamp \<Rightarrow> claimed_outbox_event \<Rightarrow>
    import_dispatch_outbox list \<Rightarrow> import_dispatch_outbox list" where
  "settle_intent pb now ev = sql_update (\<lambda>r. ob_id r = oc_outbox_id ev)
     (delivered_row (pb_settings pb) (pb_dispatch pb (oc_import_id ev) now) now)"

definition settle_job :: "outbox_publisher \<Rightarrow> timestamp \<Rightarrow> claimed_outbox_event \<Rightarrow> import_job list \<Rightarrow> import_job list" where
  "settle_job pb now ev jobs =
     (if given_up (pb_settings pb) (pb_dispatch pb (oc_import_id ev) now) (oc_attempt_count ev)
      then sql_update (\<lambda>j. job_id j = oc_import_id ev \<and> job_status j = ImportPENDING) (undelivered_job now) jobs
      else jobs)"

definition settle :: "outbox_publisher \<Rightarrow> timestamp \<Rightarrow> claimed_outbox_event \<Rightarrow> database \<Rightarrow> database" where
  "settle pb now ev db = db\<lparr>db_outbox := settle_intent pb now ev (db_outbox db),
     db_jobs := settle_job pb now ev (db_jobs db)\<rparr>"

definition jobs_stored :: "database \<Rightarrow> bool" where
  "jobs_stored db \<longleftrightarrow> (\<forall>j \<in> set (db_jobs db). job_constraints j = None)"

lemma undelivered_job_constraints: "job_constraints j = None \<Longrightarrow> job_constraints (undelivered_job now j) = None"
  by (auto simp: job_constraints_def undelivered_job_def ck_failure_reason_terminal_def varchar_ok_def
      split: if_splits)

lemma jobs_stored_settle: "jobs_stored db \<Longrightarrow> jobs_stored (settle pb now ev db)"
  by (auto simp: jobs_stored_def settle_def settle_job_def sql_update_def undelivered_job_constraints)

lemma fail_pending_quiet:
  assumes "script w = []" "jobs_stored (working w)"
  shows "\<exists>b. fail_pending_import_after_dispatch_exhausted i DISPATCH_EXHAUSTED_REASON w =
    (Inr b, w\<lparr>working := (working w)\<lparr>db_jobs := sql_update
       (\<lambda>j. job_id j = i \<and> job_status j = ImportPENDING) (undelivered_job (tx_time w)) (db_jobs (working w))\<rparr>\<rparr>)"
proof -
  have "\<forall>j \<in> set (db_jobs (working w)). job_constraints (undelivered_job (tx_time w) j) = None"
    using assms(2) undelivered_job_constraints by (auto simp: jobs_stored_def)
  then have none: "List.map_filter (\<lambda>j. job_constraints (undelivered_job (tx_time w) j))
      (filter (\<lambda>j. job_id j = i \<and> job_status j = ImportPENDING) (db_jobs (working w))) = []"
    by (auto simp: List.map_filter_def filter_empty_conv)
  then show ?thesis
    using assms(1)
    by (simp add: fail_pending_import_after_dispatch_exhausted_def bindE_def statement_def quiet_def
        update_jobs_def Let_def undelivered_job_def [abs_def] ret_def)
qed

lemma held_rows:
  assumes "claim_held ev db" "distinct (map ob_id (db_outbox db))"
  shows "sql_count (outbox_owned (oc_outbox_id ev) (oc_claim_token ev)) (db_outbox db) = 1"
    and "sql_update (outbox_owned (oc_outbox_id ev) (oc_claim_token ev)) f (db_outbox db) =
      sql_update (\<lambda>r. ob_id r = oc_outbox_id ev) f (db_outbox db)"
proof -
  show "sql_count (outbox_owned (oc_outbox_id ev) (oc_claim_token ev)) (db_outbox db) = 1"
    using assms by (subst outbox_fence.owner_count_iff) (auto simp: claim_held_def)
  show "sql_update (outbox_owned (oc_outbox_id ev) (oc_claim_token ev)) f (db_outbox db) =
      sql_update (\<lambda>r. ob_id r = oc_outbox_id ev) f (db_outbox db)"
    by (rule sql_update_cong_rows) (use assms(1) in \<open>auto simp: claim_held_def outbox_owned_def\<close>)
qed


lemma record_success_quiet:
  assumes "script w = []" "distinct (map ob_id (db_outbox (committed w)))" "claim_held ev (committed w)"
    and "pb_dispatch pb (oc_import_id ev) (clock w) = None"
  shows "\<exists>w'. record_publish_success ev w = (Inr (), w') \<and> committed w' = settle pb (clock w) ev (committed w) \<and>
    script w' = [] \<and> clock w' = clock w"
proof -
  let ?p = "outbox_owned (oc_outbox_id ev) (oc_claim_token ev)"
  let ?f = "\<lambda>r. r\<lparr>ob_status := OutboxPUBLISHED, ob_published_at := Some (clock w), ob_claim_token := None,
    ob_last_error := None, ob_updated_at := clock w\<rparr>"
  have "sql_update ?p ?f (db_outbox (committed w)) = settle_intent pb (clock w) ev (db_outbox (committed w))"
    unfolding held_rows(2) [OF assms(3,2)] settle_intent_def by (rule sql_update_cong_rows) (simp_all add: assms(4) delivered_row_def)
  then show ?thesis
    using assms(1,4) held_rows(1) [OF assms(3,2)]
    by (simp add: record_publish_success_def mark_published_def with_tx_def bindE_def begin_tx_def statement_def
        quiet_def update_outbox_def ret_def commit_quiet settle_def settle_job_def given_up_def)
qed

lemma record_failure_quiet:
  assumes "script w = []" "distinct (map ob_id (db_outbox (committed w)))" "claim_held ev (committed w)" "jobs_stored (committed w)"
    and out: "pb_dispatch pb (oc_import_id ev) (clock w) = Some exc" and pos: "0 \<le> oc_attempt_count ev"
    and delays: "oc_attempt_count ev + 1 < set_outbox_max_attempts (pb_settings pb) \<Longrightarrow>
      oc_attempt_count ev < int (length (set_outbox_retry_delays_seconds (pb_settings pb)))"
    and calendar: "\<forall>d \<in> set (set_outbox_retry_delays_seconds (pb_settings pb)). datetime_ok (clock w + seconds d)"
  shows "\<exists>w'. record_publish_failure (pb_settings pb) ev exc w = (Inr (), w') \<and>
    committed w' = settle pb (clock w) ev (committed w) \<and> script w' = [] \<and> clock w' = clock w"
proof -
  let ?s = "pb_settings pb" and ?db = "committed w" and ?now = "clock w"
  let ?p = "outbox_owned (oc_outbox_id ev) (oc_claim_token ev)" and ?a = "oc_attempt_count ev"
  have idx: "?a + 1 < set_outbox_max_attempts ?s \<Longrightarrow> py_index (set_outbox_retry_delays_seconds ?s) ?a =
      Some (set_outbox_retry_delays_seconds ?s ! nat ?a)"
    using pos delays by (simp add: py_index_in_range)
  show ?thesis
  proof (cases "set_outbox_max_attempts ?s \<le> ?a + 1")
    case True
    let ?f = "\<lambda>r. (publish_failure_values (?a + 1) (safe_error_message exc) OutboxFAILED None (Some ?now) r)\<lparr>ob_updated_at := ?now\<rparr>"
    let ?w1 = "w\<lparr>tx_time := ?now, working := ?db\<lparr>db_outbox := settle_intent pb ?now ev (db_outbox ?db)\<rparr>\<rparr>"
    have "sql_update ?p ?f (db_outbox ?db) = settle_intent pb ?now ev (db_outbox ?db)"
      unfolding held_rows(2) [OF assms(3,2)] settle_intent_def
      by (rule sql_update_cong_rows)
        (use assms(3) True in \<open>auto simp: out delivered_row_def publish_failure_values_def claim_held_def\<close>)
    then have mark: "mark_publish_failure ev (?a + 1) (safe_error_message exc) OutboxFAILED None (Some ?now)
        (w\<lparr>working := ?db, tx_time := ?now\<rparr>) = (Inr True, ?w1)"
      using assms(1) held_rows(1) [OF assms(3,2)]
      by (simp add: mark_publish_failure_def bindE_def statement_def quiet_def update_outbox_def ret_def)
    have "script ?w1 = []" "jobs_stored (working ?w1)" using assms(1,4) by (simp_all add: jobs_stored_def)
    from fail_pending_quiet [OF this] obtain b where fail:
      "fail_pending_import_after_dispatch_exhausted (oc_import_id ev) DISPATCH_EXHAUSTED_REASON ?w1 =
        (Inr b, ?w1\<lparr>working := settle pb ?now ev ?db\<rparr>)"
      using True by (auto simp: settle_def settle_job_def given_up_def out)
    show ?thesis
      using assms(1) True
      by (simp add: record_publish_failure_def gets_run Let_def with_tx_def bindE_def begin_tx_def mark fail
          ret_def commit_quiet gets_def)
  next
    case False
    then have lt: "?a + 1 < set_outbox_max_attempts ?s" by simp
    have "set_outbox_retry_delays_seconds ?s ! nat ?a \<in> set (set_outbox_retry_delays_seconds ?s)"
      using pos delays [OF lt] by (intro nth_mem) simp
    then have add: "add_seconds ?now (set_outbox_retry_delays_seconds ?s ! nat ?a) =
        Inr (?now + seconds (set_outbox_retry_delays_seconds ?s ! nat ?a))"
      using calendar by (simp add: add_seconds_def)
    let ?at = "Some (?now + seconds (set_outbox_retry_delays_seconds ?s ! nat ?a))"
    let ?f = "\<lambda>r. (publish_failure_values (?a + 1) (safe_error_message exc) OutboxPENDING ?at None r)\<lparr>ob_updated_at := ?now\<rparr>"
    have "sql_update ?p ?f (db_outbox ?db) = settle_intent pb ?now ev (db_outbox ?db)"
      unfolding held_rows(2) [OF assms(3,2)] settle_intent_def
      by (rule sql_update_cong_rows)
        (use assms(3) False in \<open>auto simp: out delivered_row_def publish_failure_values_def claim_held_def\<close>)
    then show ?thesis
      using assms(1) False held_rows(1) [OF assms(3,2)] idx [OF lt] add
      by (simp add: record_publish_failure_def gets_def Let_def with_tx_def bindE_def begin_tx_def
          mark_publish_failure_def statement_def quiet_def update_outbox_def ret_def commit_quiet
          settle_def settle_job_def given_up_def)
  qed
qed


section \<open>All events\<close>

definition accepted_imports :: "outbox_publisher \<Rightarrow> timestamp \<Rightarrow> claimed_outbox_event list \<Rightarrow> uuid list" where
  "accepted_imports pb now evs = map oc_import_id (filter (\<lambda>ev. pb_dispatch pb (oc_import_id ev) now = None) evs)"

text \<open>There is a delay for every attempt but the last, and none leads past the calendar.\<close>

definition delays_suffice :: "settings \<Rightarrow> timestamp \<Rightarrow> bool" where
  "delays_suffice s now \<longleftrightarrow> set_outbox_max_attempts s \<le> int (length (set_outbox_retry_delays_seconds s)) + 1 \<and>
     (\<forall>d \<in> set (set_outbox_retry_delays_seconds s). datetime_ok (now + seconds d))"

lemma publish_one_quiet:
  assumes "script w = []" "distinct (map ob_id (db_outbox (committed w)))" "claim_held ev (committed w)"
    and "jobs_stored (committed w)" "0 \<le> oc_attempt_count ev" "delays_suffice (pb_settings pb) (clock w)"
  shows "\<exists>w'. publish_one pb ev w = (Inr (), w') \<and> committed w' = settle pb (clock w) ev (committed w) \<and>
    script w' = [] \<and> clock w' = clock w \<and> pb_sent w' = pb_sent w @ accepted_imports pb (clock w) [ev]"
proof (cases "pb_dispatch pb (oc_import_id ev) (clock w)")
  case None
  let ?w = "pb_sent_update (\<lambda>sent. sent @ [oc_import_id ev]) w"
  obtain w' where w': "record_publish_success ev ?w = (Inr (), w')"
    "committed w' = settle pb (clock w) ev (committed w)" "script w' = []" "clock w' = clock w"
    using record_success_quiet [of ?w ev pb] assms None by auto
  have "pb_sent w' = pb_sent ?w" using tame_record_publish_success w'(1) by (metis tameD same_locals)
  then show ?thesis
    using None w' by (simp add: publish_one_def dispatch_import_def bindE_def gets_def modify_def ret_def accepted_imports_def)
next
  case (Some exc)
  obtain w' where w': "record_publish_failure (pb_settings pb) ev exc w = (Inr (), w')"
    "committed w' = settle pb (clock w) ev (committed w)" "script w' = []" "clock w' = clock w"
    using record_failure_quiet [of w ev pb exc] assms Some by (auto simp: delays_suffice_def)
  have "pb_sent w' = pb_sent w" using tame_record_publish_failure w'(1) by (metis tameD same_locals)
  then show ?thesis
    using Some w' by (simp add: publish_one_def dispatch_import_def bindE_def gets_def ret_def accepted_imports_def)
qed

lemma delivered_row_id [simp]: "ob_id (delivered_row s outcome now r) = ob_id r"
  by (simp add: delivered_row_def split: option.split)

lemma settle_ids [simp]: "map ob_id (db_outbox (settle pb now ev db)) = map ob_id (db_outbox db)"
  by (simp add: settle_def settle_intent_def sql_update_def)

lemma claim_held_settle:
  "claim_held ev' db \<Longrightarrow> oc_outbox_id ev' \<noteq> oc_outbox_id ev \<Longrightarrow> claim_held ev' (settle pb now ev db)"
  by (auto simp: claim_held_def settle_def settle_intent_def sql_update_def)

lemma publish_events_quiet:
  assumes "script w = []" "distinct (map ob_id (db_outbox (committed w)))" "jobs_stored (committed w)"
    and "\<forall>ev \<in> set evs. claim_held ev (committed w) \<and> 0 \<le> oc_attempt_count ev"
    and "distinct (map oc_outbox_id evs)" "delays_suffice (pb_settings pb) (clock w)"
  shows "\<exists>w'. publish_events pb evs w = (Inr (), w') \<and>
    committed w' = fold (settle pb (clock w)) evs (committed w) \<and>
    script w' = [] \<and> clock w' = clock w \<and> pb_sent w' = pb_sent w @ accepted_imports pb (clock w) evs"
  using assms
proof (induction evs arbitrary: w)
  case (Cons ev evs)
  obtain w1 where w1: "publish_one pb ev w = (Inr (), w1)" "committed w1 = settle pb (clock w) ev (committed w)"
    "script w1 = []" "clock w1 = clock w" "pb_sent w1 = pb_sent w @ accepted_imports pb (clock w) [ev]"
    using publish_one_quiet [of w ev pb] Cons.prems by auto
  have "\<forall>ev' \<in> set evs. claim_held ev' (committed w1) \<and> 0 \<le> oc_attempt_count ev'"
    using Cons.prems(4,5) unfolding w1(2) by (auto intro!: claim_held_settle simp: image_iff)
  then obtain w' where "publish_events pb evs w1 = (Inr (), w')"
    "committed w' = fold (settle pb (clock w1)) evs (committed w1)" "script w' = []" "clock w' = clock w1"
    "pb_sent w' = pb_sent w1 @ accepted_imports pb (clock w1) evs"
    using Cons.IH [of w1] Cons.prems w1 jobs_stored_settle by auto
  moreover have "publish_events pb (ev # evs) w = publish_events pb evs w1"
    unfolding publish_events_Cons by (simp add: w1(1) del: publish_events.simps)
  ultimately show ?case
    using w1 by (simp add: accepted_imports_def del: publish_events.simps)
qed (simp add: ret_def accepted_imports_def)

section \<open>The claim\<close>

lemma snd_claim_rows:
  "snd (claim_rows tok at now k rs db) = db\<lparr>db_outbox := fold (\<lambda>ev. sql_update (\<lambda>r. ob_id r = oc_outbox_id ev)
     (\<lambda>r. (claim_event at (oc_claim_token ev) r)\<lparr>ob_updated_at := now\<rparr>))
     (fst (claim_rows tok at now k rs db)) (db_outbox db)\<rparr>"
  by (induction rs arbitrary: k db) (simp_all add: claim_one_def)

text \<open>The database after the claim and after all outcomes, row by row.\<close>

lemma fold_settle:
  "fold (settle pb now) evs db = db\<lparr>db_outbox := fold (settle_intent pb now) evs (db_outbox db),
     db_jobs := fold (settle_job pb now) evs (db_jobs db)\<rparr>"
  by (induction evs arbitrary: db) (simp_all add: settle_def)

lemma fold_settle_job:
  "fold (settle_job pb now) evs jobs = map (\<lambda>j. if job_status j = ImportPENDING \<and>
     (\<exists>ev \<in> set evs. given_up (pb_settings pb) (pb_dispatch pb (oc_import_id ev) now) (oc_attempt_count ev) \<and>
        oc_import_id ev = job_id j) then undelivered_job now j else j) jobs"
proof (induction evs arbitrary: jobs)
  case (Cons ev evs)
  let ?g = "\<lambda>ev. given_up (pb_settings pb) (pb_dispatch pb (oc_import_id ev) now) (oc_attempt_count ev)"
  have undelivered: "job_status (undelivered_job now j) = ImportFAILED" for j by (simp add: undelivered_job_def)
  show ?case
  proof (cases "?g ev")
    case True
    then show ?thesis
      unfolding fold_Cons comp_apply Cons.IH
      by (simp add: settle_job_def sql_update_def undelivered cong: if_cong) blast
  next
    case False
    then show ?thesis unfolding fold_Cons comp_apply Cons.IH by (simp add: settle_job_def)
  qed
qed simp

lemma names_row_find:
  assumes "list_all2 names_row evs rs" "distinct (map ob_id rs)" "r \<in> set rs"
  shows "\<exists>ev \<in> set evs. List.find (\<lambda>ev. oc_outbox_id ev = ob_id r) evs = Some ev \<and> names_row ev r"
proof -
  have ids: "map oc_outbox_id evs = map ob_id rs"
    using assms(1) by (induction rule: list_all2_induct) (auto simp: names_row_def)
  obtain ev where ev: "ev \<in> set evs" "names_row ev r"
    using assms(1,3) by (metis list_all2_conv_all_nth in_set_conv_nth)
  then have "List.find (\<lambda>e. oc_outbox_id e = oc_outbox_id ev) evs = Some ev"
    using assms(2) ids by (intro find_by_key) auto
  with ev show ?thesis by (auto simp: names_row_def)
qed

lemma names_row_find_None:
  assumes "list_all2 names_row evs rs" "ob_id r \<notin> set (map ob_id rs)"
  shows "List.find (\<lambda>ev. oc_outbox_id ev = ob_id r) evs = None"
proof -
  have "map oc_outbox_id evs = map ob_id rs"
    using assms(1) by (induction rule: list_all2_induct) (auto simp: names_row_def)
  then have "ob_id r \<notin> set (map oc_outbox_id evs)" using assms(2) by simp
  then show ?thesis by (auto simp: find_None_iff) (metis imageI)
qed

lemma delivered_claim_event:
  "delivered_row s outcome now ((claim_event now t r)\<lparr>ob_updated_at := u\<rparr>) = delivered_row s outcome now (r\<lparr>ob_claimed_at := Some now\<rparr>)"
  by (cases outcome) (auto simp: delivered_row_def claim_event_def)

lemma settled_intents:
  assumes evs: "list_all2 names_row evs due" and ids: "distinct (map ob_id rows)"
    and due: "set due \<subseteq> set rows" "distinct (map ob_id due)"
  shows "fold (settle_intent pb now) evs
      (fold (\<lambda>ev. sql_update (\<lambda>r. ob_id r = oc_outbox_id ev)
         (\<lambda>r. (claim_event now (oc_claim_token ev) r)\<lparr>ob_updated_at := now\<rparr>)) evs rows) =
    map (\<lambda>r. if r \<in> set due
       then delivered_row (pb_settings pb) (pb_dispatch pb (ob_import_id r) now) now (r\<lparr>ob_claimed_at := Some now\<rparr>)
       else r) rows"
proof -
  have keys: "map oc_outbox_id evs = map ob_id due"
    using evs by (induction rule: list_all2_induct) (auto simp: names_row_def)
  then have dist: "distinct (map oc_outbox_id evs)" using due(2) by simp
  have "List.find (\<lambda>ev. oc_outbox_id ev = ob_id r) evs = None" if "r \<in> set rows" "r \<notin> set due" for r
    using that ids due(1) by (intro names_row_find_None [OF evs]) (auto simp: distinct_map dest: inj_onD)
  moreover have "\<exists>ev. List.find (\<lambda>ev. oc_outbox_id ev = ob_id r) evs = Some ev \<and> oc_import_id ev = ob_import_id r"
    if "r \<in> set due" for r
    using names_row_find [OF evs due(2) that] by (auto simp: names_row_def)
  ultimately show ?thesis
    unfolding settle_intent_def
    by (subst (1 2) sql_update_by_keys [where key = ob_id and k = oc_outbox_id])
      (fastforce simp: dist claim_event_def delivered_claim_event [unfolded claim_event_def] split: option.splits)+
qed

section \<open>The round\<close>

lemma claim_due_events_tx_quiet:
  fixes w :: publisher_run
  assumes "script w = []"
  shows "\<exists>w' evs. claim_due_events_tx s w = (Inr evs, w') \<and>
    (evs, committed w') = claim_rows (\<lambda>k. uuid_source w (draws w + k)) (clock w) (clock w) 0
      (due_events (\<lambda>_. False) (set_outbox_batch_size s) (clock w) (db_outbox (committed w))) (committed w) \<and>
    script w' = [] \<and> clock w' = clock w \<and> pb_sent w' = pb_sent w"
  using assms
  by (simp add: claim_due_events_tx_def claim_due_events_def with_tx_def bindE_def begin_tx_def gets_def
      statement_def quiet_def modify_def ret_def commit_quiet split: prod.split)

lemma claim_rows_held:
  assumes "distinct (map ob_id (db_outbox db))" "distinct (map ob_id rs)" "set rs \<subseteq> set (db_outbox db)"
    and "ev \<in> set (fst (claim_rows tok at now k rs db))"
  shows "claim_held ev (snd (claim_rows tok at now k rs db))"
proof -
  let ?evs = "fst (claim_rows tok at now k rs db)"
  obtain r where r: "r \<in> set rs" "names_row ev r"
    using claim_rows_events [of tok at now k rs db] assms(4) by (metis list_all2_conv_all_nth in_set_conv_nth)
  have keys: "map oc_outbox_id ?evs = map ob_id rs"
    using claim_rows_events [of tok at now k rs db]
    by (induction rule: list_all2_induct) (auto simp: names_row_def)
  then have dist: "distinct (map oc_outbox_id ?evs)" using assms(2) by simp
  have found: "List.find (\<lambda>e. oc_outbox_id e = ob_id r) ?evs = Some ev"
    using find_by_key [OF dist assms(4)] r(2) by (simp add: names_row_def)
  have rows: "db_outbox (snd (claim_rows tok at now k rs db)) =
    map (\<lambda>r. case List.find (\<lambda>ev. oc_outbox_id ev = ob_id r) ?evs of None \<Rightarrow> r
       | Some ev \<Rightarrow> (claim_event at (oc_claim_token ev) r)\<lparr>ob_updated_at := now\<rparr>) (db_outbox db)"
    unfolding snd_claim_rows
    by (subst sql_update_by_keys [where key = ob_id and k = oc_outbox_id]) (simp_all add: dist claim_event_def)
  have same: "r' = r" if "r' \<in> set (db_outbox db)" "ob_id r' = ob_id r" for r'
    using that assms(1,3) r(1) by (auto simp: distinct_map dest: inj_onD)
  have id: "ob_id (case List.find (\<lambda>ev. oc_outbox_id ev = ob_id r') ?evs of None \<Rightarrow> r'
       | Some ev \<Rightarrow> (claim_event at (oc_claim_token ev) r')\<lparr>ob_updated_at := now\<rparr>) = ob_id r'" for r'
    by (simp add: claim_event_def split: option.split)
  show ?thesis
    unfolding claim_held_def rows
  proof (intro conjI ballI impI)
    show "\<exists>r \<in> set (map (\<lambda>r. case List.find (\<lambda>ev. oc_outbox_id ev = ob_id r) ?evs of None \<Rightarrow> r
       | Some ev \<Rightarrow> (claim_event at (oc_claim_token ev) r)\<lparr>ob_updated_at := now\<rparr>) (db_outbox db)). ob_id r = oc_outbox_id ev"
      using r assms(3) id by (fastforce simp: names_row_def)
  next
    fix r1 assume "r1 \<in> set (map (\<lambda>r. case List.find (\<lambda>ev. oc_outbox_id ev = ob_id r) ?evs of None \<Rightarrow> r
       | Some ev \<Rightarrow> (claim_event at (oc_claim_token ev) r)\<lparr>ob_updated_at := now\<rparr>) (db_outbox db))"
      and key: "ob_id r1 = oc_outbox_id ev"
    then obtain r0 where r0: "r0 \<in> set (db_outbox db)" "ob_id r0 = ob_id r1"
      "r1 = (case List.find (\<lambda>ev. oc_outbox_id ev = ob_id r0) ?evs of None \<Rightarrow> r0
       | Some ev \<Rightarrow> (claim_event at (oc_claim_token ev) r0)\<lparr>ob_updated_at := now\<rparr>)"
      using id by auto
    then have "r0 = r" using same key r(2) by (simp add: names_row_def)
    then show "outbox_owned (oc_outbox_id ev) (oc_claim_token ev) r1" "ob_attempt_count r1 = oc_attempt_count ev"
      using r0(3) found r(2) by (simp_all add: outbox_owned_def claim_event_def names_row_def)
  qed
qed

lemma names_row_bex:
  "list_all2 names_row evs rs \<Longrightarrow>
     (\<exists>ev \<in> set evs. P (oc_import_id ev) (oc_attempt_count ev)) = (\<exists>r \<in> set rs. P (ob_import_id r) (ob_attempt_count r))"
  by (induction rule: list_all2_induct) (auto simp: names_row_def)

lemma names_row_accepted:
  "list_all2 names_row evs rs \<Longrightarrow>
     accepted_imports pb now evs = map ob_import_id (filter (\<lambda>r. pb_dispatch pb (ob_import_id r) now = None) rs)"
  by (induction rule: list_all2_induct) (auto simp: names_row_def accepted_imports_def)

lemma publish_due_events_quiet:
  assumes "script w = []" "db_ok (committed w)" "jobs_stored (committed w)"
    and "delays_suffice (pb_settings pb) (clock w)"
    and "due = due_events (\<lambda>_. False) (set_outbox_batch_size (pb_settings pb)) (clock w) (db_outbox (committed w))"
  shows "\<exists>w'. publish_due_events pb w = (Inr (length due), w') \<and>
    committed w' = publish_round pb (clock w) due (committed w) \<and>
    pb_sent w' = pb_sent w @ map ob_import_id (filter (\<lambda>r. pb_dispatch pb (ob_import_id r) (clock w) = None) due)"
proof -
  let ?db = "committed w" and ?tok = "\<lambda>k. uuid_source w (draws w + k)" and ?now = "clock w"
  obtain w1 evs where claim: "claim_due_events_tx (pb_settings pb) w = (Inr evs, w1)"
    "(evs, committed w1) = claim_rows ?tok ?now ?now 0 due ?db" "script w1 = []" "clock w1 = ?now"
    "pb_sent w1 = pb_sent w"
    using claim_due_events_tx_quiet [OF assms(1)] unfolding assms(5) by blast
  have evs: "evs = fst (claim_rows ?tok ?now ?now 0 due ?db)" "committed w1 = snd (claim_rows ?tok ?now ?now 0 due ?db)"
    using claim(2) by (metis fst_conv, metis snd_conv)
  have ids: "distinct (map ob_id (db_outbox ?db))" using assms(2) by (simp add: db_ok_def)
  have due: "\<forall>r \<in> set due. r \<in> set (db_outbox ?db) \<and> ob_status r = OutboxPENDING" "distinct (map ob_id due)"
    using delivering.due_events_rows [OF assms(2) assms(5) [symmetric]] by auto
  have named: "list_all2 names_row evs due" unfolding evs(1) by (rule claim_rows_events)
  then have keys: "map oc_outbox_id evs = map ob_id due" "map oc_import_id evs = map ob_import_id due"
    by (induction rule: list_all2_induct) (auto simp: names_row_def)
  have rows: "db_outbox (committed w1) = fold (\<lambda>ev. sql_update (\<lambda>r. ob_id r = oc_outbox_id ev)
       (\<lambda>r. (claim_event ?now (oc_claim_token ev) r)\<lparr>ob_updated_at := ?now\<rparr>)) evs (db_outbox ?db)"
    and rest: "db_jobs (committed w1) = db_jobs ?db" "committed w1 = ?db\<lparr>db_outbox := db_outbox (committed w1)\<rparr>"
    unfolding evs snd_claim_rows by simp_all
  have "map ob_id (db_outbox (committed w1)) = map ob_id (db_outbox ?db)"
    unfolding rows by (rule keys_of_updates) (simp add: claim_event_def)
  moreover have "\<forall>ev \<in> set evs. claim_held ev (committed w1) \<and> 0 \<le> oc_attempt_count ev"
  proof (intro ballI conjI)
    fix ev assume ev: "ev \<in> set evs"
    show "claim_held ev (committed w1)"
      using claim_rows_held [OF ids due(2)] due(1) ev unfolding evs by blast
    obtain r where "r \<in> set due" "names_row ev r" using named ev by (metis list_all2_conv_all_nth in_set_conv_nth)
    then show "0 \<le> oc_attempt_count ev"
      using due(1) assms(2) by (auto simp: names_row_def db_ok_def outbox_ok_def)
  qed
  ultimately obtain w2 where w2: "publish_events pb evs w1 = (Inr (), w2)"
    "committed w2 = fold (settle pb ?now) evs (committed w1)" "pb_sent w2 = pb_sent w1 @ accepted_imports pb ?now evs"
    using publish_events_quiet [of w1 evs pb] claim(3,4) ids keys(1) due(2) assms(3,4) rest(1)
    by (auto simp: jobs_stored_def)
  have "fold (settle_intent pb ?now) evs (db_outbox (committed w1)) =
      db_outbox (publish_round pb ?now due ?db)"
    unfolding rows publish_round_def Let_def using due(1) by (subst settled_intents [OF named ids _ due(2)]) auto
  moreover have "fold (settle_job pb ?now) evs (db_jobs (committed w1)) = db_jobs (publish_round pb ?now due ?db)"
    unfolding rest(1) fold_settle_job publish_round_def Let_def
    by (simp add: names_row_bex [OF named, of "\<lambda>i a. given_up (pb_settings pb) (pb_dispatch pb i ?now) a \<and> i = job_id _"])
  ultimately have "committed w2 = publish_round pb ?now due ?db"
    unfolding w2(2) fold_settle by (subst rest(2)) (simp add: publish_round_def Let_def)
  moreover have "pb_sent w2 = pb_sent w @ map ob_import_id (filter (\<lambda>r. pb_dispatch pb (ob_import_id r) ?now = None) due)"
    using w2(3) claim(5) names_row_accepted [OF named] by simp
  moreover have "length evs = length due" using named by (rule list_all2_lengthD)
  ultimately show ?thesis
    using claim(1) w2(1) by (simp add: publish_due_events_def bindE_def ret_def)
qed

text \<open>
  C8. A round of the publisher when nothing interferes: the due intents (PENDING, available, the
  oldest first, at most a batch) are all sent, in that order. Each one the broker accepts
  becomes PUBLISHED; one it refuses goes back to PENDING with its failure counted and the next
  delay added to the current time, or, when the attempts are used up, to FAILED, and its import
  is failed if it is still PENDING. No other intent and no other job changes, no shipment or
  error row does.
\<close>

theorem publish_due_events_round:
  assumes "script w = []" "db_ok (committed w)" "jobs_stored (committed w)"
    and "delays_suffice (pb_settings pb) (clock w)"
    and "due = due_events (\<lambda>_. False) (set_outbox_batch_size (pb_settings pb)) (clock w) (db_outbox (committed w))"
  shows "\<exists>w'. publish_due_events pb w = (Inr (length due), w') \<and>
    committed w' = publish_round pb (clock w) due (committed w) \<and>
    pb_sent w' = pb_sent w @ map ob_import_id (filter (\<lambda>r. pb_dispatch pb (ob_import_id r) (clock w) = None) due)"
  by (rule publish_due_events_quiet [OF assms])

text \<open>
  Two intents are due: the first is accepted, the broker is down for the second, which waits for
  two seconds.
\<close>

theorem publish_due_events_round_witness:
  "\<exists>w'. publish_due_events example_publisher round_world = (Inr 2, w') \<and> pb_sent w' = [1] \<and>
     map ob_status (db_outbox (committed w')) = [OutboxPUBLISHED, OutboxPENDING] \<and>
     map ob_available_at (db_outbox (committed w')) = [50, 2000100]"
proof -
  let ?due = "due_events (\<lambda>_. False) (set_outbox_batch_size (pb_settings example_publisher)) (clock round_world)
    (db_outbox (committed round_world))"
  have due: "?due = db_outbox outbox_db" by code_simp
  have "\<exists>w'. publish_due_events example_publisher round_world = (Inr (length ?due), w') \<and>
    committed w' = publish_round example_publisher (clock round_world) ?due (committed round_world) \<and>
    pb_sent w' = pb_sent round_world @ map ob_import_id
      (filter (\<lambda>r. pb_dispatch example_publisher (ob_import_id r) (clock round_world) = None) ?due)"
  proof (rule publish_due_events_round)
    show "script round_world = []" by (simp add: round_world_def)
    show "db_ok (committed round_world)" by (simp add: round_world_def publisher_world_def outbox_db_ok)
    show "jobs_stored (committed round_world)" by code_simp
    show "delays_suffice (pb_settings example_publisher) (clock round_world)" by code_simp
  qed rule
  moreover have "length ?due = 2" "map ob_import_id
      (filter (\<lambda>r. pb_dispatch example_publisher (ob_import_id r) (clock round_world) = None) ?due) = [1]"
    "pb_sent round_world = []"
    unfolding due by code_simp+
  moreover have "map ob_status (db_outbox (publish_round example_publisher (clock round_world) ?due
      (committed round_world))) = [OutboxPUBLISHED, OutboxPENDING]"
    "map ob_available_at (db_outbox (publish_round example_publisher (clock round_world) ?due
      (committed round_world))) = [50, 2000100]"
    unfolding due by code_simp+
  ultimately show ?thesis by auto
qed

end
