(* ===== verification/Import_Outcome.thy ===== *)
theory Import_Outcome
  imports Import_Safety Row_Validation_Spec Outbox_Round
begin

text \<open>
  What a run of the worker does when nothing interferes: the job it claims is COMPLETED with the
  counters of its workbook, and the shipments and the errors of the import are those the
  validation of the rows gives. What an earlier attempt left of the import is replaced.
\<close>

section \<open>One job among many\<close>

definition put_job :: "import_job \<Rightarrow> import_job list \<Rightarrow> import_job list" where
  "put_job J jobs = map (\<lambda>j. if job_id j = job_id J then J else j) jobs"

lemma put_job_ids [simp]: "map job_id (put_job J jobs) = map job_id jobs"
  by (simp add: put_job_def o_def cong: if_cong)

lemma put_job_id: "distinct (map job_id jobs) \<Longrightarrow> j \<in> set jobs \<Longrightarrow> put_job j jobs = jobs"
  unfolding put_job_def by (intro map_idI) (auto dest: distinct_key_eq)

lemma put_job_put [simp]: "job_id J' = job_id J \<Longrightarrow> put_job J' (put_job J jobs) = put_job J' jobs"
  by (simp add: put_job_def)

lemma put_job_filter:
  assumes "distinct (map job_id jobs)" "job_id J \<in> set (map job_id jobs)" "\<And>j. p j \<Longrightarrow> job_id j = job_id J" "p J"
  shows "filter p (put_job J jobs) = [J]"
  using assms(1,2)
proof (induction jobs)
  case (Cons j jobs)
  have other: "\<not> p j" if "job_id j \<noteq> job_id J" for j using that assms(3) by blast
  have none: "filter p (put_job J jobs) = []" if "job_id J \<notin> set (map job_id jobs)"
  proof -
    have ne: "job_id j \<noteq> job_id J" if "j \<in> set jobs" for j
      using that \<open>job_id J \<notin> set (map job_id jobs)\<close> by (metis image_eqI set_map)
    then have "put_job J jobs = jobs" unfolding put_job_def by (intro map_idI) simp
    then show ?thesis using ne other by (simp add: filter_empty_conv)
  qed
  show ?case
  proof (cases "job_id j = job_id J")
    case True
    then have "filter p (put_job J jobs) = []" using Cons.prems none by simp
    then show ?thesis using True assms(4) by (simp add: put_job_def)
  next
    case False
    then show ?thesis using Cons other [OF False] by (simp add: put_job_def)
  qed
qed simp

text \<open>What \<^verbatim>\<open>UPDATE\<close> does to the one row it selects.\<close>

definition touched :: "timestamp \<Rightarrow> import_job \<Rightarrow> import_job" where
  "touched now j = j\<lparr>job_updated_at := now\<rparr>"

lemma update_put:
  assumes "distinct (map job_id jobs)" "job_id J \<in> set (map job_id jobs)" "\<And>j. p j \<Longrightarrow> job_id j = job_id J" "p J"
    and "db_jobs db = put_job J jobs" "job_constraints (touched now (f J)) = None" "job_id (f J) = job_id J"
  shows "update_jobs p f now db = Inr (1, db\<lparr>db_jobs := put_job (touched now (f J)) jobs\<rparr>)"
proof -
  have other: "\<not> p j" if "job_id j \<noteq> job_id J" for j using that assms(3) by blast
  have "sql_update p (\<lambda>j. (f j)\<lparr>job_updated_at := now\<rparr>) (put_job J jobs) = put_job (touched now (f J)) jobs"
    by (simp add: sql_update_def put_job_def touched_def assms(4,7) other)
  moreover have "List.map_filter (\<lambda>j. job_constraints ((f j)\<lparr>job_updated_at := now\<rparr>)) [J] = []"
    using assms(6) by (simp add: List.map_filter_def touched_def)
  moreover have "filter p (put_job J jobs) = [J]" by (rule put_job_filter) (use assms in blast)+
  ultimately show ?thesis by (simp add: update_jobs_def Let_def assms(5) sql_count_def)
qed

text \<open>The state of a transaction that has the table \<open>jobs\<close> with the row \<open>J\<close> in it.\<close>

definition has_job :: "import_job list \<Rightarrow> uuid \<Rightarrow> bool" where
  "has_job jobs i \<longleftrightarrow> distinct (map job_id jobs) \<and> i \<in> set (map job_id jobs)"

lemma update_current_run:
  assumes "has_job jobs i" "script w = []" "db_jobs (working w) = put_job J jobs" "job_owned i t J"
    and "job_constraints (touched (tx_time w) (v (tx_time w) J)) = None" "job_id (v (tx_time w) J) = i"
  shows "update_current_processing_import i t v w =
    (Inr True, w\<lparr>working := (working w)\<lparr>db_jobs := put_job (touched (tx_time w) (v (tx_time w) J)) jobs\<rparr>\<rparr>)"
proof -
  have J: "job_id J = i" using assms(4) by (simp add: job_owned_def)
  have "update_jobs (job_owned i t) (v (tx_time w)) (tx_time w) (working w) =
      Inr (1, (working w)\<lparr>db_jobs := put_job (touched (tx_time w) (v (tx_time w) J)) jobs\<rparr>)"
    by (rule update_put) (use J assms in \<open>auto simp: job_owned_def has_job_def\<close>)
  then show ?thesis
    unfolding update_current_processing_import_def
    by (simp add: bindE_def statement_quiet [OF assms(2)] ret_def)
qed

lemma owned_run:
  assumes "has_job jobs i" "script w = []" "db_jobs (working w) = put_job J jobs" "job_owned i t J"
    "cl_import_id claimed = i" "cl_processing_token claimed = t"
  shows "require_current_ownership claimed w = (Inr (), w)"
proof -
  have "job_id J = i" using assms(4) by (simp add: job_owned_def)
  then have "J \<in> set (put_job J jobs)" using assms(1) by (auto simp: put_job_def has_job_def)
  then have "List.find (job_owned i t) (db_jobs (working w)) \<noteq> None"
    using assms(3,4) by (auto simp: find_None_iff)
  then show ?thesis
    using assms by (simp add: require_current_ownership_def has_current_ownership_def bindE_def query_quiet ret_def)
qed

section \<open>Stored rows\<close>

definition storable :: "numeric \<Rightarrow> shipment \<Rightarrow> bool" where
  "storable num s \<longleftrightarrow> (\<exists>s'. stored_shipment num s = Some s' \<and> shipment_constraints s' = None)"

definition stored_row :: "numeric \<Rightarrow> timestamp \<Rightarrow> shipment \<Rightarrow> shipment_row" where
  "stored_row num now s = shipment.extend (the (stored_shipment num s)) (shipment_row.fields now now)"

definition stored_error :: "timestamp \<Rightarrow> import_error \<Rightarrow> import_error_row" where
  "stored_error now r = import_error.extend (r\<lparr>err_raw_data := jsonb_safe (err_raw_data r)\<rparr>) (import_error_row.fields now)"

lemma stored_shipment_keys:
  "stored_shipment num s = Some s' \<Longrightarrow> ship_id s' = ship_id s \<and> ship_import_id s' = ship_import_id s \<and>
     ship_shipment_code s' = ship_shipment_code s"
  by (auto simp: stored_shipment_def split: option.splits)

lemma stored_row_keys:
  "storable num s \<Longrightarrow> ship_id (stored_row num now s) = ship_id s \<and> ship_import_id (stored_row num now s) = ship_import_id s \<and>
     ship_shipment_code (stored_row num now s) = ship_shipment_code s"
  by (auto simp: storable_def stored_row_def shipment.defs shipment_row.defs dest: stored_shipment_keys)

lemma storable_id: "storable num (s\<lparr>ship_id := x\<rparr>) \<longleftrightarrow> storable num s"
proof -
  have "stored_shipment num (s\<lparr>ship_id := x\<rparr>) = map_option (ship_id_update (\<lambda>_. x)) (stored_shipment num s)"
    by (simp add: stored_shipment_def split: option.split)
  moreover have "shipment_constraints (s'\<lparr>ship_id := x\<rparr>) = shipment_constraints s'" for s' :: shipment
    by (simp add: shipment_constraints_def)
  ultimately show ?thesis by (auto simp: storable_def)
qed

lemma insert_shipments_run:
  assumes "\<forall>s \<in> set ss. storable num s \<and> ship_import_id s \<in> set (map job_id (db_jobs db))"
    and "distinct (map ship_id ss)" "set (map ship_id ss) \<inter> set (map ship_id (db_shipments db)) = {}"
    and "distinct (map ship_shipment_code ss)" "set (map ship_shipment_code ss) \<inter> stored_codes db = {}"
  shows "insert_all (insert_shipment num now) ss db =
    Inr (db\<lparr>db_shipments := db_shipments db @ map (stored_row num now) ss\<rparr>)"
  using assms
proof (induction ss arbitrary: db)
  case (Cons s ss)
  then have s: "storable num s" by simp
  then obtain s' where s': "stored_shipment num s = Some s'" "shipment_constraints s' = None" by (auto simp: storable_def)
  let ?db = "db\<lparr>db_shipments := db_shipments db @ [stored_row num now s]\<rparr>"
  have "insert_shipment num now s db = Inr ?db"
    using s' Cons.prems stored_shipment_keys [OF s'(1)]
    by (auto simp: insert_shipment_def stored_row_def stored_codes_def)
  moreover have "insert_all (insert_shipment num now) ss ?db =
      Inr (?db\<lparr>db_shipments := db_shipments ?db @ map (stored_row num now) ss\<rparr>)"
    using Cons.prems stored_row_keys [OF s] by (intro Cons.IH) (auto simp: stored_codes_def)
  ultimately show ?case by simp
qed simp

lemma insert_errors_run:
  assumes "\<forall>r \<in> set rs. length (err_field r) \<le> 255 \<and> finite_value (err_raw_data r) \<and> err_import_id r \<in> set (map job_id (db_jobs db))"
    and "distinct (map err_id rs)" "set (map err_id rs) \<inter> set (map err_id (db_errors db)) = {}"
  shows "insert_all (insert_error now) (map (\<lambda>r. r\<lparr>err_raw_data := jsonb_safe (err_raw_data r)\<rparr>) rs) db =
    Inr (db\<lparr>db_errors := db_errors db @ map (stored_error now) rs\<rparr>)"
  using assms
proof (induction rs arbitrary: db)
  case (Cons r rs)
  let ?db = "db\<lparr>db_errors := db_errors db @ [stored_error now r]\<rparr>"
  have "insert_error now (r\<lparr>err_raw_data := jsonb_safe (err_raw_data r)\<rparr>) db = Inr ?db"
    using Cons.prems by (auto simp: insert_error_def stored_error_def)
  moreover have "insert_all (insert_error now) (map (\<lambda>r. r\<lparr>err_raw_data := jsonb_safe (err_raw_data r)\<rparr>) rs) ?db =
      Inr (?db\<lparr>db_errors := db_errors ?db @ map (stored_error now) rs\<rparr>)"
    using Cons.prems by (intro Cons.IH) (auto simp: stored_error_def import_error.defs import_error_row.defs)
  ultimately show ?case by simp
qed simp

text \<open>The fields an issue can name are columns of the workbook, so they fit their column of the table.\<close>

lemma parse_required_fields:
  "set fs \<subseteq> F \<Longrightarrow> \<forall>x \<in> set issues. issue_field x \<in> F \<Longrightarrow>
     parse_required ad vs fs (issues, d) = (issues', d') \<Longrightarrow> \<forall>x \<in> set issues'. issue_field x \<in> F"
proof (induction fs arbitrary: issues d)
  case (Cons f fs)
  have "f \<in> F" "set fs \<subseteq> F" using Cons.prems(1) by auto
  note IH = Cons.IH [OF this(2)]
  consider x d1 where "issue_field x = f" "parse_required ad vs fs (issues @ [x], d1) = (issues', d')"
    | d1 where "parse_required ad vs fs (issues, d1) = (issues', d')"
    using Cons.prems(3) that(1) [of "\<lparr>issue_field = f, issue_error = _\<rparr>"]
    by (auto simp: parse_field_def split: if_splits sum.splits)
  then show ?case
  proof cases
    case (1 x d1)
    then show ?thesis using \<open>f \<in> F\<close> Cons.prems(2) by (intro IH [OF _ 1(2)]) auto
  next
    case (2 d1)
    then show ?thesis by (rule IH [OF Cons.prems(2)])
  qed
qed simp

lemma rule_fields: "x \<in> set (validate_partial_shipment_draft s) \<Longrightarrow> issue_field x \<in> set WORKBOOK_ROW_FIELDS"
  by (auto simp: validate_partial_shipment_draft_def set_issue_when WORKBOOK_ROW_FIELDS_def
      REQUIRED_WORKBOOK_HEADERS_def OPTIONAL_WORKBOOK_HEADERS_def)

lemma prepared_fields: "x \<in> set (prep_issues (prepare_row ad row)) \<Longrightarrow> issue_field x \<in> set WORKBOOK_ROW_FIELDS"
proof -
  obtain issues1 d1 where r: "parse_required ad (row_values row) REQUIRED_WORKBOOK_HEADERS ([], []) = (issues1, d1)"
    by fastforce
  have "\<forall>x \<in> set issues1. issue_field x \<in> set WORKBOOK_ROW_FIELDS"
    by (rule parse_required_fields [OF _ _ r]) (auto simp: WORKBOOK_ROW_FIELDS_def)
  moreover obtain issues2 d2 where d: "parse_delivery_date ad (row_values row) (issues1, d1) = (issues2, d2)" by fastforce
  ultimately have "\<forall>x \<in> set issues2. issue_field x \<in> set WORKBOOK_ROW_FIELDS"
    by (auto simp: parse_delivery_date_def parse_field_def WORKBOOK_ROW_FIELDS_def OPTIONAL_WORKBOOK_HEADERS_def
        split: if_splits sum.splits)
  then show "x \<in> set (prep_issues (prepare_row ad row)) \<Longrightarrow> issue_field x \<in> set WORKBOOK_ROW_FIELDS"
    using rule_fields
    by (auto simp: prepare_row_def parse_row_def r d Let_def validate_row_rules_def validate_shipment_draft_def
        validate_partial_row_rules_def split: if_splits)
qed

text \<open>No cell of the rows holds NaN or an infinite number.\<close>

definition finite_rows :: "parsed_workbook_row list \<Rightarrow> bool" where
  "finite_rows rows \<longleftrightarrow> (\<forall>row \<in> set rows. finite_value (PDict (row_values row)))"

lemma finite_rows_simps [simp]:
  "finite_rows []" "finite_rows (r # rows) \<longleftrightarrow> finite_value (PDict (row_values r)) \<and> finite_rows rows"
  "finite_rows (rows @ rows') \<longleftrightarrow> finite_rows rows \<and> finite_rows rows'"
  by (auto simp: finite_rows_def)

lemma prep_row_prepare: "prep_row (prepare_row ad row) = row"
  by (simp add: prepare_row_def split: prod.split)

lemma error_of_fields:
  "err_field (error_of i p x) = issue_field x" "err_import_id (error_of i p x) = i"
  "finite_value (err_raw_data (error_of i p x)) \<longleftrightarrow> finite_value (PDict (row_values (prep_row p)))"
  by (simp_all only: error_of_def import_error.simps finite_value_jsonb_safe)

lemma row_error_fields:
  assumes "e \<in> set (row_errors i (verdicts seen ex (map (prepare_row ad) rows)))" "finite_rows rows"
  shows "length (err_field e) \<le> 255 \<and> finite_value (err_raw_data e) \<and> err_import_id e = i"
proof -
  have short: "\<forall>f \<in> set WORKBOOK_ROW_FIELDS. length f \<le> 255"
    by (simp add: WORKBOOK_ROW_FIELDS_def REQUIRED_WORKBOOK_HEADERS_def OPTIONAL_WORKBOOK_HEADERS_def)
  from assms show ?thesis
  proof (induction rows arbitrary: seen)
    case (Cons r rows)
    let ?issues = "prep_issues (prepare_row ad r) @ duplicate_issues seen {} ex (prep_shipment_code (prepare_row ad r))"
    have "issue_field x \<in> set WORKBOOK_ROW_FIELDS" if "x \<in> set ?issues" for x
      using that prepared_fields [of x ad r]
      by (auto simp: duplicate_issues_def duplicate_in_file_def duplicate_in_database_def WORKBOOK_ROW_FIELDS_def
          REQUIRED_WORKBOOK_HEADERS_def split: option.splits if_splits)
    then have "length (issue_field x) \<le> 255" if "x \<in> set ?issues" for x using short that by blast
    moreover have "e \<in> error_of i (prepare_row ad r) ` set ?issues \<or>
        e \<in> set (row_errors i (verdicts (seen \<union> set_option (prep_shipment_code (prepare_row ad r))) ex (map (prepare_row ad) rows)))"
      using Cons.prems by (simp add: image_Un)
    ultimately show ?case using Cons.IH Cons.prems(2) by (auto simp: error_of_fields prep_row_prepare simp del: finite_value.simps)
  qed simp
qed

section \<open>A chunk\<close>

definition counted :: "timestamp \<Rightarrow> nat \<Rightarrow> nat \<Rightarrow> nat \<Rightarrow> import_job \<Rightarrow> import_job" where
  "counted now n s f j = j\<lparr>job_total_rows := job_total_rows j + n, job_processed_rows := job_processed_rows j + n,
     job_success_count := job_success_count j + s, job_failed_count := job_failed_count j + f,
     job_last_heartbeat_at := Some now, job_updated_at := now\<rparr>"

text \<open>The new rows have new keys, and the shipments fit the table.\<close>

definition rows_fit :: "numeric \<Rightarrow> uuid \<Rightarrow> database \<Rightarrow> shipment list \<Rightarrow> import_error list \<Rightarrow> bool" where
  "rows_fit num i db ss es \<longleftrightarrow>
     (\<forall>s \<in> set ss. storable num s \<and> ship_import_id s = i) \<and>
     distinct (map ship_id ss) \<and> set (map ship_id ss) \<inter> set (map ship_id (db_shipments db)) = {} \<and>
     distinct (map ship_shipment_code ss) \<and> set (map ship_shipment_code ss) \<inter> stored_codes db = {} \<and>
     (\<forall>r \<in> set es. length (err_field r) \<le> 255 \<and> finite_value (err_raw_data r) \<and> err_import_id r = i) \<and>
     distinct (map err_id es) \<and> set (map err_id es) \<inter> set (map err_id (db_errors db)) = {}"

definition with_rows :: "numeric \<Rightarrow> timestamp \<Rightarrow> import_job list \<Rightarrow> shipment list \<Rightarrow> import_error list \<Rightarrow> database \<Rightarrow> database" where
  "with_rows num now jobs ss es db = db\<lparr>db_jobs := jobs, db_shipments := db_shipments db @ map (stored_row num now) ss,
     db_errors := db_errors db @ map (stored_error now) es\<rparr>"

lemma job_constraints_progress [simp]:
  "job_constraints (counted now n s f J) = job_constraints J"
  "job_constraints (touched now J) = job_constraints J"
  "job_constraints (J\<lparr>job_total_rows := a, job_processed_rows := b, job_success_count := c, job_failed_count := d\<rparr>) = job_constraints J"
  "job_constraints (J\<lparr>job_last_heartbeat_at := h\<rparr>) = job_constraints J"
  by (simp_all add: job_constraints_def ck_failure_reason_terminal_def counted_def touched_def)

lemma owned_progress [simp]:
  "job_owned i t (counted now n s f J) = job_owned i t J" "job_owned i t (touched now J) = job_owned i t J"
  "job_id (counted now n s f J) = job_id J" "job_id (touched now J) = job_id J"
  by (simp_all add: job_owned_def counted_def touched_def)

lemma bulk_shipments_run:
  assumes "script w = []" "insert_all (insert_shipment (pg_numeric w) (tx_time w)) ss (working w) = Inr db"
  shows "bulk_insert_shipments ss w = (Inr (length ss), w\<lparr>working := db\<rparr>)"
proof (cases "ss = []")
  case True
  then have "db = working w" using assms(2) by simp
  then show ?thesis using True by (simp add: bulk_insert_shipments_def ret_def)
next
  case False
  then show ?thesis using assms by (simp add: bulk_insert_shipments_def bindE_def gets_def statement_quiet ret_def)
qed

lemma bulk_errors_run:
  assumes "script w = []"
    "insert_all (insert_error (tx_time w)) (map (\<lambda>r. r\<lparr>err_raw_data := jsonb_safe (err_raw_data r)\<rparr>) es) (working w) = Inr db"
  shows "bulk_insert_errors es w = (Inr (length es), w\<lparr>working := db\<rparr>)"
proof (cases "es = []")
  case True
  then have "db = working w" using assms(2) by simp
  then show ?thesis using True by (simp add: bulk_insert_errors_def ret_def)
next
  case False
  then show ?thesis using assms by (simp add: bulk_insert_errors_def bindE_def statement_quiet ret_def)
qed

lemma persist_chunk_run:
  assumes "has_job jobs i" "script w = []" "db_jobs (working w) = put_job J jobs" "job_owned i t J" "job_constraints J = None"
    and "cl_import_id claimed = i" "cl_processing_token claimed = t"
    and "rows_fit (pg_numeric w) i (working w) (map valid_shipment xs) es"
  shows "persist_chunk claimed (chunk_result n f xs es) w = (Inr (), w\<lparr>working :=
    with_rows (pg_numeric w) (tx_time w) (put_job (counted (tx_time w) n (length xs) f J) jobs)
      (map valid_shipment xs) es (working w)\<rparr>)"
proof -
  let ?num = "pg_numeric w" and ?now = "tx_time w" and ?db = "working w"
  have J: "job_id J = i" using assms(4) by (simp add: job_owned_def)
  have i: "i \<in> set (map job_id (db_jobs ?db))" using assms(1,3) by (simp add: has_job_def)
  let ?db1 = "?db\<lparr>db_shipments := db_shipments ?db @ map (stored_row ?num ?now) (map valid_shipment xs)\<rparr>"
  let ?db2 = "?db1\<lparr>db_errors := db_errors ?db1 @ map (stored_error ?now) es\<rparr>"
  let ?J1 = "touched ?now (J\<lparr>job_total_rows := job_total_rows J + n, job_processed_rows := job_processed_rows J + n,
    job_success_count := job_success_count J + length xs, job_failed_count := job_failed_count J + f\<rparr>)"
  let ?w2 = "w\<lparr>working := ?db2\<rparr>" and ?w3 = "w\<lparr>working := ?db2\<lparr>db_jobs := put_job ?J1 jobs\<rparr>\<rparr>"
  have 1: "bulk_insert_shipments (map valid_shipment xs) w = (Inr (length xs), w\<lparr>working := ?db1\<rparr>)"
    using bulk_shipments_run [OF assms(2) insert_shipments_run, of "map valid_shipment xs"] assms(8) i
    by (simp add: rows_fit_def)
  have 2: "bulk_insert_errors es (w\<lparr>working := ?db1\<rparr>) = (Inr (length es), ?w2)"
    using bulk_errors_run [OF _ insert_errors_run, of "w\<lparr>working := ?db1\<rparr>" es] assms(2,8) i
    by (simp add: rows_fit_def)
  have own: "job_owned i t ?J1" using assms(4) by (simp add: job_owned_def touched_def)
  have 3: "record_chunk_counts i t n (length xs) f ?w2 = (Inr True, ?w3)"
    unfolding record_chunk_counts_def
    by (subst update_current_run [of jobs i ?w2 J]) (use assms J in \<open>simp_all add: job_owned_def\<close>)
  have 4: "heartbeat i t ?w3 = (Inr True, w\<lparr>working := ?db2\<lparr>db_jobs :=
      put_job (touched ?now (?J1\<lparr>job_last_heartbeat_at := Some ?now\<rparr>)) jobs\<rparr>\<rparr>)"
    unfolding heartbeat_def
    by (subst update_current_run [of jobs i ?w3 ?J1]) (use assms(1,2,5) own J in simp_all)
  have "touched ?now (?J1\<lparr>job_last_heartbeat_at := Some ?now\<rparr>) = counted ?now n (length xs) f J"
    by (simp add: touched_def counted_def)
  then show ?thesis
    using 1 2 3 4 assms(6,7) by (simp add: persist_chunk_def chunk_result_def with_rows_def ret_def)
qed

text \<open>What validation produced fits, when the codes the database has were looked up.\<close>

lemma clean_code:
  "p \<in> set (clean_rows (verdicts seen ex (map (prepare_row ad) rows))) \<Longrightarrow>
     prep_shipment_code p = Some (ship_shipment_code (shipment_of i p))"
  by (auto dest!: clean_verdict prepare_row_clean simp: shipment_of_def new_shipment_def)

lemma produced_fit:
  assumes "produced u k n i vs xs es" "vs = verdicts seen ex (map (prepare_row ad) rows)" "inj u"
    and fresh: "\<forall>j \<ge> k. u j \<notin> set (map ship_id (db_shipments db)) \<and> u j \<notin> set (map err_id (db_errors db))"
    and fits: "\<forall>p \<in> set (clean_rows vs). storable num (shipment_of i p)"
    and known: "\<forall>c \<in> code_set (map (prepare_row ad) rows) - seen. c \<in> stored_codes db \<longrightarrow> c \<in> ex"
    and finite: "finite_rows rows"
  shows "rows_fit num i db (map valid_shipment xs) es"
    and "set (map ship_shipment_code (map valid_shipment xs)) \<subseteq> code_set (map (prepare_row ad) rows)"
proof -
  let ?ss = "map valid_shipment xs"
  have ss: "map (\<lambda>s. s\<lparr>ship_id := 0\<rparr>) ?ss = map (shipment_of i) (clean_rows vs)"
    and es: "map (\<lambda>e. e\<lparr>err_id := 0\<rparr>) es = row_errors i vs"
    and ids: "drawn u k n (map ship_id ?ss)" "drawn u k n (map err_id es)"
    using assms(1) by (simp_all add: produced_def o_def)
  have codes: "map ship_shipment_code ?ss = map (ship_shipment_code \<circ> shipment_of i) (clean_rows vs)"
    using arg_cong [OF ss, of "map ship_shipment_code"] by (simp add: o_def)
  have code: "prep_shipment_code p = Some (ship_shipment_code (shipment_of i p))" if "p \<in> set (clean_rows vs)" for p
    using clean_code that unfolding assms(2) by blast
  have "map prep_shipment_code (clean_rows vs) = map Some (map (ship_shipment_code \<circ> shipment_of i) (clean_rows vs))"
    using code by simp
  moreover have "distinct (map prep_shipment_code (clean_rows vs))"
    unfolding assms(2) by (rule clean_codes_distinct [OF prepared_code])
  ultimately have "distinct (map ship_shipment_code ?ss)" unfolding codes by (metis distinct_map)
  moreover have new: "c \<in> code_set (map (prepare_row ad) rows) \<and> c \<notin> stored_codes db"
    if "c \<in> set (map ship_shipment_code ?ss)" for c
  proof -
    obtain p where p: "p \<in> set (clean_rows vs)" "c = ship_shipment_code (shipment_of i p)"
      using \<open>c \<in> _\<close> unfolding codes by auto
    then have "p \<in> set (map (prepare_row ad) rows)" "c \<notin> seen" "c \<notin> ex"
      using clean_verdict [of p seen ex "map (prepare_row ad) rows"] code [OF p(1)] unfolding assms(2) by auto
    moreover have "c \<in> code_set (map (prepare_row ad) rows)"
      using calculation(1) code [OF p(1)] p(2) by (force simp: code_set_def)
    ultimately show ?thesis using known by blast
  qed
  moreover have "storable num s \<and> ship_import_id s = i" if "s \<in> set ?ss" for s
  proof -
    have "s\<lparr>ship_id := 0\<rparr> \<in> set (map (shipment_of i) (clean_rows vs))"
      unfolding ss [symmetric] using that by auto
    then obtain p where p: "p \<in> set (clean_rows vs)" "s\<lparr>ship_id := 0\<rparr> = shipment_of i p" by auto
    have "storable num (s\<lparr>ship_id := 0\<rparr>)" "ship_import_id (s\<lparr>ship_id := 0\<rparr>) = i"
      unfolding p(2) using fits p(1) by (simp_all add: shipment_of_def new_shipment_def)
    then show ?thesis by (simp add: storable_id)
  qed
  moreover have "length (err_field e) \<le> 255 \<and> finite_value (err_raw_data e) \<and> err_import_id e = i" if "e \<in> set es" for e
  proof -
    have "e\<lparr>err_id := 0\<rparr> \<in> set (row_errors i vs)" unfolding es [symmetric] using that by auto
    from row_error_fields [OF this [unfolded assms(2)] finite] show ?thesis by simp
  qed
  moreover have "set (map ship_id ?ss) \<inter> set (map ship_id (db_shipments db)) = {}"
    using drawn_distinct(2) [OF assms(3) ids(1)] fresh by fastforce
  moreover have "set (map err_id es) \<inter> set (map err_id (db_errors db)) = {}"
    using drawn_distinct(2) [OF assms(3) ids(2)] fresh by fastforce
  ultimately show "rows_fit num i db ?ss es"
    unfolding rows_fit_def using drawn_distinct(1) [OF assms(3)] ids by blast
  show "set (map ship_shipment_code ?ss) \<subseteq> code_set (map (prepare_row ad) rows)" using new by blast
qed

lemma with_rows_simps [simp]:
  "db_jobs (with_rows num now jobs ss es db) = jobs"
  "db_shipments (with_rows num now jobs ss es db) = db_shipments db @ map (stored_row num now) ss"
  "db_errors (with_rows num now jobs ss es db) = db_errors db @ map (stored_error now) es"
  "db_outbox (with_rows num now jobs ss es db) = db_outbox db"
  "with_rows num now jobs' ss' es' (with_rows num now jobs ss es db) = with_rows num now jobs' (ss @ ss') (es @ es') db"
  "with_rows num now (db_jobs db) [] [] db = db"
  by (simp_all add: with_rows_def)

text \<open>What stays of a state while only this session runs.\<close>

definition undisturbed :: "'z world_scheme \<Rightarrow> 'z world_scheme \<Rightarrow> bool" where
  "undisturbed w w' \<longleftrightarrow> script w' = [] \<and> clock w' = clock w \<and> uuid_source w' = uuid_source w \<and>
     pg_numeric w' = pg_numeric w"

text \<open>The worker holds job \<open>i\<close> under \<open>t\<close>; its row is \<open>J\<close>, the other rows are those of \<open>jobs\<close>.\<close>

definition holds_claim :: "claimed_import \<Rightarrow> import_job list \<Rightarrow> import_job \<Rightarrow> database \<Rightarrow> bool" where
  "holds_claim claimed jobs J db \<longleftrightarrow> has_job jobs (cl_import_id claimed) \<and> db_jobs db = put_job J jobs \<and>
     job_owned (cl_import_id claimed) (cl_processing_token claimed) J \<and> job_constraints J = None"

definition unused_ids :: "(nat \<Rightarrow> uuid) \<Rightarrow> nat \<Rightarrow> database \<Rightarrow> bool" where
  "unused_ids u k db \<longleftrightarrow>
     (\<forall>j \<ge> k. u j \<notin> set (map ship_id (db_shipments db)) \<and> u j \<notin> set (map err_id (db_errors db)))"

lemma next_validated_run:
  fixes w :: import_run
  defines "seen \<equiv> seen_shipment_codes (lv_tracker w)"
  assumes quiet: "script w = []" and rows: "lv_rows w = (c # cs, ended)"
    and vs: "vs = verdicts seen codes (map (prepare_row ad) c)"
    and known: "\<forall>x. x \<notin> seen \<longrightarrow> x \<in> codes \<longleftrightarrow> x \<in> stored_codes (working w)"
  shows "\<exists>xs es n. produced (uuid_source w) (draws w) n i vs xs es \<and>
    next_validated_chunk ad i w = (Inr (Some (chunk_result (length c) (length (failed_rows vs)) xs es)),
      w\<lparr>draws := n, lv_rows := (cs, ended), lv_tracker := remember_codes (code_set (map (prepare_row ad) c)) (lv_tracker w)\<rparr>)"
proof -
  let ?ps = "map (prepare_row ad) c" and ?db = "working w"
  define w1 where "w1 = lv_rows_update (\<lambda>_. ([], None)) w"
  define ex where "ex = stored_codes ?db \<inter> unseen_codes (lv_tracker w) (code_set ?ps)"
  have "find_existing_shipment_codes (unseen_codes (lv_tracker w) (code_set ?ps)) w1 = (Inr ex, w1)"
    using find_existing_quiet [of w1] quiet by (simp add: w1_def ex_def)
  from validate_chunk_run [OF this, of i] obtain xs es n where
    val: "validate_chunk ad c (lv_tracker w) i w1 =
      (Inr (chunk_result (length c) (length (failed_rows (verdicts seen ex ?ps))) xs es, remember_codes (code_set ?ps) (lv_tracker w)),
        w1\<lparr>draws := n\<rparr>)"
    and prod: "produced (uuid_source w1) (draws w1) n i (verdicts seen ex ?ps) xs es"
    by (auto simp: seen_def)
  have look: "verdicts seen ex ?ps = vs"
    unfolding vs by (rule verdicts_cong) (use known in \<open>auto simp: ex_def unseen_codes_def seen_def\<close>)
  have "next_validated_chunk ad i w = (Inr (Some (chunk_result (length c) (length (failed_rows vs)) xs es)),
      w1\<lparr>draws := n, lv_rows := (cs, ended), lv_tracker := remember_codes (code_set ?ps) (lv_tracker w)\<rparr>)"
    using val rows by (simp add: next_validated_chunk_def bindE_def gets_def modify_def ret_def w1_def [symmetric] look)
  then show ?thesis using prod look by (auto simp: w1_def)
qed

lemma next_chunk_run:
  fixes w :: import_run and claimed :: claimed_import
  defines "i \<equiv> cl_import_id claimed" and "seen \<equiv> seen_shipment_codes (lv_tracker w)" and "db \<equiv> committed w"
  assumes holds: "holds_claim claimed jobs J db" and quiet: "script w = []" and rows: "lv_rows w = (c # cs, ended)" and finite: "finite_rows c"
    and vs: "vs = verdicts seen codes (map (prepare_row ad) c)"
    and known: "\<forall>x. x \<notin> seen \<longrightarrow> x \<in> codes \<longleftrightarrow> x \<in> stored_codes db"
    and inj: "inj (uuid_source w)" and fresh: "unused_ids (uuid_source w) (draws w) db"
    and fits: "\<forall>p \<in> set (clean_rows vs). storable (pg_numeric w) (shipment_of i p)"
  shows "\<exists>xs es n w'. produced (uuid_source w) (draws w) n i vs xs es \<and>
    process_next_chunk ad claimed w = (Inr (Some (chunk_result (length c) (length (failed_rows vs)) xs es)), w') \<and>
    undisturbed w w' \<and> draws w' = n \<and> lv_rows w' = (cs, ended) \<and>
    seen_shipment_codes (lv_tracker w') = seen \<union> code_set (map (prepare_row ad) c) \<and>
    committed w' = with_rows (pg_numeric w) (clock w)
      (put_job (counted (clock w) (length c) (length xs) (length (failed_rows vs)) J) jobs) (map valid_shipment xs) es db \<and>
    set (map ship_shipment_code (map valid_shipment xs)) \<subseteq> code_set (map (prepare_row ad) c) \<and>
    (\<forall>s \<in> set (map valid_shipment xs). storable (pg_numeric w) s)"
proof -
  let ?ps = "map (prepare_row ad) c" and ?t = "cl_processing_token claimed"
  define w0 where "w0 = lv_chunk_result_update (\<lambda>_. None) w\<lparr>working := db, tx_time := clock w\<rparr>"
  have own: "require_current_ownership claimed w0 = (Inr (), w0)"
    using holds quiet by (intro owned_run [where jobs = jobs and J = J]) (auto simp: w0_def holds_claim_def i_def)
  have "script w0 = []" "lv_rows w0 = (c # cs, ended)" "vs = verdicts (seen_shipment_codes (lv_tracker w0)) codes ?ps"
    "\<forall>x. x \<notin> seen_shipment_codes (lv_tracker w0) \<longrightarrow> x \<in> codes \<longleftrightarrow> x \<in> stored_codes (working w0)"
    using quiet rows vs known by (simp_all add: w0_def seen_def)
  from next_validated_run [OF this, of i] obtain xs es n where
    prod: "produced (uuid_source w) (draws w) n i vs xs es"
    and chunk: "next_validated_chunk ad i w0 = (Inr (Some (chunk_result (length c) (length (failed_rows vs)) xs es)),
      w0\<lparr>draws := n, lv_rows := (cs, ended), lv_tracker := remember_codes (code_set ?ps) (lv_tracker w)\<rparr>)"
    by (auto simp: w0_def)
  let ?res = "chunk_result (length c) (length (failed_rows vs)) xs es"
  define w2 where "w2 = lv_chunk_result_update (\<lambda>_. Some ?res)
    (w0\<lparr>draws := n, lv_rows := (cs, ended), lv_tracker := remember_codes (code_set ?ps) (lv_tracker w)\<rparr>)"
  note fit = produced_fit [OF prod vs inj fresh [unfolded unused_ids_def] fits]
  have fit: "rows_fit (pg_numeric w) i db (map valid_shipment xs) es"
    "set (map ship_shipment_code (map valid_shipment xs)) \<subseteq> code_set ?ps"
    by (rule fit, use known in blast, rule finite)+
  have "persist_chunk claimed ?res w2 = (Inr (), w2\<lparr>working :=
      with_rows (pg_numeric w2) (tx_time w2) (put_job (counted (tx_time w2) (length c) (length xs) (length (failed_rows vs)) J) jobs)
        (map valid_shipment xs) es (working w2)\<rparr>)"
    using holds quiet fit(1) by (intro persist_chunk_run [where i = i and t = ?t])
      (auto simp: w2_def w0_def holds_claim_def i_def)
  then have persist: "persist_chunk claimed ?res w2 = (Inr (), w2\<lparr>working :=
      with_rows (pg_numeric w) (clock w) (put_job (counted (clock w) (length c) (length xs) (length (failed_rows vs)) J) jobs)
        (map valid_shipment xs) es db\<rparr>)"
    by (simp add: w2_def w0_def)
  define w3 where "w3 = w2\<lparr>working := with_rows (pg_numeric w) (clock w)
      (put_job (counted (clock w) (length c) (length xs) (length (failed_rows vs)) J) jobs) (map valid_shipment xs) es db\<rparr>"
  have "next_chunk_tx ad claimed (lv_chunk_result_update (\<lambda>_. None) w) = (Inr (Some ?res), w3\<lparr>committed := working w3, advisory := []\<rparr>)"
    unfolding next_chunk_tx_def
  proof (rule with_tx_quiet)
    have "(lv_chunk_result_update (\<lambda>_. None) w)
        \<lparr>working := committed (lv_chunk_result_update (\<lambda>_. None) w), tx_time := clock (lv_chunk_result_update (\<lambda>_. None) w)\<rparr> = w0"
      unfolding w0_def db_def by (cases w) simp
    then show "bindE (require_current_ownership claimed) (\<lambda>_.
        bindE (next_validated_chunk ad (cl_import_id claimed)) (\<lambda>chunk.
        case chunk of None \<Rightarrow> ret None
        | Some res \<Rightarrow> bindE (modify (lv_chunk_result_update (\<lambda>_. Some res))) (\<lambda>_.
            bindE (persist_chunk claimed res) (\<lambda>_. ret (Some res)))))
        ((lv_chunk_result_update (\<lambda>_. None) w)
          \<lparr>working := committed (lv_chunk_result_update (\<lambda>_. None) w), tx_time := clock (lv_chunk_result_update (\<lambda>_. None) w)\<rparr>) =
        (Inr (Some ?res), w3)"
      using own chunk persist by (simp add: modify_run ret_def w2_def [symmetric] w3_def [symmetric] i_def [symmetric])
    show "script w3 = []" using quiet by (simp add: w3_def w2_def w0_def)
  qed
  then have "process_next_chunk ad claimed w = (Inr (Some ?res), w3\<lparr>committed := working w3, advisory := []\<rparr>)"
    by (simp add: process_next_chunk_eq)
  moreover have "undisturbed w (w3\<lparr>committed := working w3, advisory := []\<rparr>)"
    using quiet by (simp add: undisturbed_def w3_def w2_def w0_def)
  moreover have "\<forall>s \<in> set (map valid_shipment xs). storable (pg_numeric w) s" using fit(1) by (simp add: rows_fit_def)
  ultimately show ?thesis
    using prod fit(2) by (intro exI [of _ xs] exI [of _ es] exI [of _ n] exI [of _ "w3\<lparr>committed := working w3, advisory := []\<rparr>"])
      (simp add: w3_def w2_def w0_def remember_codes_def seen_def)
qed

section \<open>All chunks\<close>

text \<open>The row of the job when the import is complete.\<close>

definition completed :: "timestamp \<Rightarrow> nat \<Rightarrow> nat \<Rightarrow> nat \<Rightarrow> import_job \<Rightarrow> import_job" where
  "completed now n s f j = j\<lparr>job_status := ImportCOMPLETED, job_total_rows := n, job_processed_rows := n,
     job_success_count := s, job_failed_count := f, job_finished_at := Some now, job_last_heartbeat_at := Some now,
     job_processing_token := None, job_locked_by_worker := None, job_updated_at := now\<rparr>"

lemma completed_progress [simp]:
  "completed now n s f (counted now n' s' f' J) = completed now n s f J"
  "completed now n s f (touched now J) = completed now n s f J"
  "completed now n s f (J\<lparr>job_total_rows := a, job_processed_rows := b, job_success_count := c, job_failed_count := d,
     job_finished_at := h\<rparr>) = completed now n s f J"
  by (simp_all add: completed_def counted_def touched_def)

lemma process_next_chunk_ends:
  assumes "holds_claim claimed jobs J (committed w)" "script w = []" "lv_rows w = ([], None)"
  shows "\<exists>w'. process_next_chunk ad claimed w = (Inr None, w') \<and> undisturbed w w' \<and>
    draws w' = draws w \<and> committed w' = committed w"
proof -
  define w0 where "w0 = lv_chunk_result_update (\<lambda>_. None) w\<lparr>working := committed w, tx_time := clock w\<rparr>"
  let ?w = "lv_chunk_result_update (\<lambda>_. None) w"
  have start: "?w\<lparr>working := committed ?w, tx_time := clock ?w\<rparr> = w0" unfolding w0_def by (cases w) simp
  have own: "require_current_ownership claimed w0 = (Inr (), w0)"
    using assms by (intro owned_run [where jobs = jobs and J = J]) (auto simp: w0_def holds_claim_def)
  have "next_chunk_tx ad claimed ?w = (Inr None, w0\<lparr>committed := working w0, advisory := []\<rparr>)"
    unfolding next_chunk_tx_def
    by (rule with_tx_quiet)
      (use own assms in \<open>simp_all only: start, simp_all add: w0_def next_validated_chunk_def bindE_def gets_def ret_def\<close>)
  then show ?thesis
    using assms(2) by (simp add: process_next_chunk_eq undisturbed_def w0_def)
qed

lemma produced_length: "produced u k n i vs xs es \<Longrightarrow> length xs = length (clean_rows vs)"
  by (metis produced_def length_map)

lemma holds_claim_after:
  assumes "holds_claim claimed jobs J db"
  shows "holds_claim claimed jobs (counted now n s f J)
    (with_rows num now (put_job (counted now n s f J) jobs) ss es db)"
  using assms by (simp add: holds_claim_def)

lemma drawn_later: "inj u \<Longrightarrow> drawn u k n ids \<Longrightarrow> n \<le> j \<Longrightarrow> u j \<notin> set ids"
  by (metis drawn_distinct(2) injD not_le)

lemma unused_after:
  assumes "unused_ids u k db" "inj u" "produced u k n i vs xs es" "\<forall>s \<in> set (map valid_shipment xs). storable num s"
  shows "unused_ids u n (with_rows num now jobs (map valid_shipment xs) es db)"
proof -
  have "k \<le> n" and ids: "drawn u k n (map ship_id (map valid_shipment xs))" "drawn u k n (map err_id es)"
    using assms(3) by (simp_all add: produced_def o_def)
  have "u j \<notin> set (map ship_id (map valid_shipment xs))" "u j \<notin> set (map err_id es)" if "n \<le> j" for j
    using drawn_later [OF assms(2) ids(1)] drawn_later [OF assms(2) ids(2)] that by blast+
  moreover have "map ship_id (map (stored_row num now) (map valid_shipment xs)) = map ship_id (map valid_shipment xs)"
    using assms(4) by (auto simp: stored_row_keys)
  moreover have "map err_id (map (stored_error now) es) = map err_id es"
    by (simp add: stored_error_def import_error.defs import_error_row.defs)
  ultimately show ?thesis
    using assms(1) \<open>k \<le> n\<close> unfolding unused_ids_def
    by (simp only: with_rows_simps map_append set_append Un_iff) (meson order_trans)
qed

lemma stored_codes_after:
  "\<forall>s \<in> set ss. storable num s \<Longrightarrow>
     stored_codes (with_rows num now jobs ss es db) = stored_codes db \<union> set (map ship_shipment_code ss)"
  by (auto simp: stored_codes_def stored_row_keys image_iff)

lemma counted_counted [simp]:
  "counted now n s f (counted now n' s' f' J) = counted now (n' + n) (s' + s) (f' + f) J"
  by (simp add: counted_def)

text \<open>The row of the job when some chunks are stored.\<close>

definition progressed :: "timestamp \<Rightarrow> parsed_workbook_row list list \<Rightarrow> nat \<Rightarrow> nat \<Rightarrow> import_job \<Rightarrow> import_job" where
  "progressed now cs s f J = (if cs = [] then J else counted now (length (concat cs)) s f J)"

lemma completed_progressed [simp]: "completed now n s f (progressed now cs s' f' J) = completed now n s f J"
  by (simp add: progressed_def)

text \<open>A prefix of the chunks that fits is stored, and the loop goes on with the rest.\<close>

lemma process_chunks_prefix:
  fixes w :: import_run
  assumes "holds_claim claimed jobs J (committed w)" "script w = []" "lv_rows w = (cs @ rest, ended)" "finite_rows (concat cs)"
    and "vs = verdicts (seen_shipment_codes (lv_tracker w)) codes (map (prepare_row ad) (concat cs))"
    and "\<forall>x. x \<notin> seen_shipment_codes (lv_tracker w) \<longrightarrow> x \<in> codes \<longleftrightarrow> x \<in> stored_codes (committed w)"
    and "inj (uuid_source w)" "unused_ids (uuid_source w) (draws w) (committed w)"
    and "\<forall>p \<in> set (clean_rows vs). storable (pg_numeric w) (shipment_of (cl_import_id claimed) p)"
  shows "\<exists>xs es w'. produced (uuid_source w) (draws w) (draws w') (cl_import_id claimed) vs xs es \<and>
    process_chunks ad claimed (a, b, f) w =
      process_chunks ad claimed (a + length (concat cs), b + length (clean_rows vs), f + length (failed_rows vs)) w' \<and>
    undisturbed w w' \<and> lv_rows w' = (rest, ended) \<and>
    seen_shipment_codes (lv_tracker w') = seen_shipment_codes (lv_tracker w) \<union> code_set (map (prepare_row ad) (concat cs)) \<and>
    committed w' = with_rows (pg_numeric w) (clock w)
      (put_job (progressed (clock w) cs (length (clean_rows vs)) (length (failed_rows vs)) J) jobs)
      (map valid_shipment xs) es (committed w) \<and>
    holds_claim claimed jobs (progressed (clock w) cs (length (clean_rows vs)) (length (failed_rows vs)) J) (committed w') \<and>
    (\<forall>x. x \<notin> seen_shipment_codes (lv_tracker w') \<longrightarrow> x \<in> codes \<longleftrightarrow> x \<in> stored_codes (committed w')) \<and>
    unused_ids (uuid_source w) (draws w') (committed w')"
  using assms
proof (induction cs arbitrary: w J a b f vs)
  case Nil
  have "with_rows (pg_numeric w) (clock w) (put_job J jobs) [] [] (committed w) = committed w"
    using Nil(1) by (simp add: holds_claim_def with_rows_def)
  moreover have "produced (uuid_source w) (draws w) (draws w) (cl_import_id claimed) vs [] []"
    using Nil(5) by (simp add: produced_def)
  ultimately show ?case
    using Nil by (intro exI [of _ "[]"] exI [of _ "[]"] exI [of _ w]) (simp add: progressed_def undisturbed_def)
next
  case (Cons c cs)
  let ?seen = "seen_shipment_codes (lv_tracker w)" and ?i = "cl_import_id claimed" and ?num = "pg_numeric w" and ?now = "clock w"
  let ?us = "verdicts ?seen codes (map (prepare_row ad) c)"
  let ?vs = "verdicts (?seen \<union> code_set (map (prepare_row ad) c)) codes (map (prepare_row ad) (concat cs))"
  have vs: "vs = ?us @ ?vs" using Cons.prems(5) by (simp add: verdicts_append)
  have fits: "\<forall>p \<in> set (clean_rows ?us). storable ?num (shipment_of ?i p)"
    "\<forall>p \<in> set (clean_rows ?vs). storable ?num (shipment_of ?i p)" using Cons.prems(9) by (auto simp: vs)
  have rows: "lv_rows w = (c # (cs @ rest), ended)" "finite_rows c" "finite_rows (concat cs)" using Cons.prems(3,4) by simp_all
  from next_chunk_run [OF Cons.prems(1,2) rows(1,2) refl Cons.prems(6-8) fits(1)] obtain xs es n w1 where
    prod: "produced (uuid_source w) (draws w) n ?i ?us xs es"
    and chunk: "process_next_chunk ad claimed w =
      (Inr (Some (chunk_result (length c) (length (failed_rows ?us)) xs es)), w1)"
    and w1: "undisturbed w w1" "draws w1 = n" "lv_rows w1 = (cs @ rest, ended)"
      "seen_shipment_codes (lv_tracker w1) = ?seen \<union> code_set (map (prepare_row ad) c)"
    and db1: "committed w1 = with_rows ?num ?now
      (put_job (counted ?now (length c) (length xs) (length (failed_rows ?us)) J) jobs) (map valid_shipment xs) es (committed w)"
    and new: "set (map ship_shipment_code (map valid_shipment xs)) \<subseteq> code_set (map (prepare_row ad) c)"
      "\<forall>s \<in> set (map valid_shipment xs). storable ?num s"
    by blast
  let ?J = "counted ?now (length c) (length xs) (length (failed_rows ?us)) J"
  have same: "script w1 = []" "clock w1 = ?now" "uuid_source w1 = uuid_source w" "pg_numeric w1 = ?num"
    using w1(1) by (simp_all add: undisturbed_def)
  have holds: "holds_claim claimed jobs ?J (committed w1)" unfolding db1 by (rule holds_claim_after [OF Cons.prems(1)])
  have known: "\<forall>x. x \<notin> seen_shipment_codes (lv_tracker w1) \<longrightarrow> x \<in> codes \<longleftrightarrow> x \<in> stored_codes (committed w1)"
    unfolding db1 stored_codes_after [OF new(2)] w1(4) using Cons.prems(6) new(1) by blast
  have fresh: "unused_ids (uuid_source w1) (draws w1) (committed w1)"
    unfolding db1 same w1(2) by (rule unused_after [OF Cons.prems(8,7) prod new(2)])
  from Cons.IH [where a = "a + length c" and b = "b + length xs" and f = "f + length (failed_rows ?us)",
      OF holds same(1) w1(3) rows(3) refl known _ fresh] Cons.prems(7) fits(2)
  obtain ys fs w2 where
    prod2: "produced (uuid_source w) n (draws w2) ?i ?vs ys fs"
    and go: "process_chunks ad claimed (a + length c, b + length xs, f + length (failed_rows ?us)) w1 =
      process_chunks ad claimed (a + length c + length (concat cs), b + length xs + length (clean_rows ?vs),
        f + length (failed_rows ?us) + length (failed_rows ?vs)) w2"
    and w2: "undisturbed w1 w2" "lv_rows w2 = (rest, ended)"
      "seen_shipment_codes (lv_tracker w2) = ?seen \<union> code_set (map (prepare_row ad) c) \<union> code_set (map (prepare_row ad) (concat cs))"
    and db2: "committed w2 = with_rows ?num ?now
      (put_job (progressed ?now cs (length (clean_rows ?vs)) (length (failed_rows ?vs)) ?J) jobs) (map valid_shipment ys) fs (committed w1)"
    and holds2: "holds_claim claimed jobs (progressed ?now cs (length (clean_rows ?vs)) (length (failed_rows ?vs)) ?J) (committed w2)"
    and ends: "\<forall>x. x \<notin> seen_shipment_codes (lv_tracker w2) \<longrightarrow> x \<in> codes \<longleftrightarrow> x \<in> stored_codes (committed w2)"
      "unused_ids (uuid_source w) (draws w2) (committed w2)"
    unfolding same w1(2,4) by blast
  have len: "length xs = length (clean_rows ?us)" by (rule produced_length [OF prod])
  have J: "progressed ?now cs (length (clean_rows ?vs)) (length (failed_rows ?vs)) ?J =
      progressed ?now (c # cs) (length (clean_rows vs)) (length (failed_rows vs)) J"
    unfolding vs by (cases cs) (simp_all add: progressed_def len)
  have "process_chunks ad claimed (a, b, f) w =
      process_chunks ad claimed (a + length (concat (c # cs)), b + length (clean_rows vs), f + length (failed_rows vs)) w2"
    using go by (subst process_chunks.simps) (simp add: chunk chunk_result_def vs len add.assoc)
  moreover have "produced (uuid_source w) (draws w) (draws w2) ?i vs (xs @ ys) (es @ fs)"
    unfolding vs by (rule produced_append [OF prod prod2])
  moreover have "undisturbed w w2" using w1(1) w2(1) by (simp add: undisturbed_def)
  moreover have "committed w2 = with_rows ?num ?now
      (put_job (progressed ?now (c # cs) (length (clean_rows vs)) (length (failed_rows vs)) J) jobs)
      (map valid_shipment (xs @ ys)) (es @ fs) (committed w)"
    unfolding db2 db1 J by simp
  ultimately show ?case using holds2 w2(2,3) ends unfolding J by (intro exI conjI) (assumption | simp add: Un_assoc)+
qed

lemma process_chunks_run:
  fixes w :: import_run
  assumes "holds_claim claimed jobs J (committed w)" "script w = []" "lv_rows w = (cs, None)" "finite_rows (concat cs)"
    and "vs = verdicts (seen_shipment_codes (lv_tracker w)) codes (map (prepare_row ad) (concat cs))"
    and "\<forall>x. x \<notin> seen_shipment_codes (lv_tracker w) \<longrightarrow> x \<in> codes \<longleftrightarrow> x \<in> stored_codes (committed w)"
    and "inj (uuid_source w)" "unused_ids (uuid_source w) (draws w) (committed w)"
    and "\<forall>p \<in> set (clean_rows vs). storable (pg_numeric w) (shipment_of (cl_import_id claimed) p)"
  shows "\<exists>xs es n w' J'. produced (uuid_source w) (draws w) n (cl_import_id claimed) vs xs es \<and>
    process_chunks ad claimed (a, b, f) w =
      (Inr (a + length (concat cs), b + length (clean_rows vs), f + length (failed_rows vs)), w') \<and>
    undisturbed w w' \<and> draws w' = n \<and>
    (\<forall>n s f. completed (clock w) n s f J' = completed (clock w) n s f J) \<and>
    committed w' = with_rows (pg_numeric w) (clock w) (put_job J' jobs) (map valid_shipment xs) es (committed w) \<and>
    holds_claim claimed jobs J' (committed w')"
proof -
  from process_chunks_prefix [where rest = "[]" and a = a and b = b and f = f, unfolded append_Nil2, OF assms]
  obtain xs es w1 where
    prod: "produced (uuid_source w) (draws w) (draws w1) (cl_import_id claimed) vs xs es"
    and go: "process_chunks ad claimed (a, b, f) w =
      process_chunks ad claimed (a + length (concat cs), b + length (clean_rows vs), f + length (failed_rows vs)) w1"
    and w1: "undisturbed w w1" "lv_rows w1 = ([], None)"
    and db1: "committed w1 = with_rows (pg_numeric w) (clock w)
      (put_job (progressed (clock w) cs (length (clean_rows vs)) (length (failed_rows vs)) J) jobs)
      (map valid_shipment xs) es (committed w)"
    and holds: "holds_claim claimed jobs (progressed (clock w) cs (length (clean_rows vs)) (length (failed_rows vs)) J) (committed w1)"
    by blast
  have quiet: "script w1 = []" using w1(1) by (simp add: undisturbed_def)
  from process_next_chunk_ends [OF holds quiet w1(2)] obtain w2 where
    stop: "process_next_chunk ad claimed w1 = (Inr None, w2)" "undisturbed w1 w2" "draws w2 = draws w1" "committed w2 = committed w1"
    by blast
  have "process_chunks ad claimed (a, b, f) w =
      (Inr (a + length (concat cs), b + length (clean_rows vs), f + length (failed_rows vs)), w2)"
    unfolding go by (subst process_chunks.simps) (simp add: stop(1))
  moreover have "undisturbed w w2" using w1(1) stop(2) by (simp add: undisturbed_def)
  ultimately show ?thesis using prod db1 holds stop(3,4) completed_progressed by metis
qed

section \<open>Claim, preparation and completion\<close>

definition claimed_job :: "uuid \<Rightarrow> string \<Rightarrow> timestamp \<Rightarrow> import_job \<Rightarrow> import_job" where
  "claimed_job t worker now j = touched now (claim_values t worker now j)"

definition claim_of :: "uuid \<Rightarrow> import_job \<Rightarrow> claimed_import" where
  "claim_of t j = \<lparr>cl_import_id = job_id j, cl_stored_file_path = job_stored_file_path j, cl_processing_token = t,
     cl_attempt_count = job_attempt_count j + 1, cl_max_attempts = job_max_attempts j\<rparr>"

lemma claimable_constraints:
  assumes "job_constraints j = None" "claimable i j" "length worker \<le> 255"
  shows "job_constraints (claimed_job t worker now j) = None"
  using assms by (auto simp: job_constraints_def claimed_job_def touched_def claim_values_def claimable_def
      ck_failure_reason_terminal_def varchar_ok_def split: if_splits)

lemma claim_pending_run:
  assumes "next_event w = quiet" "next_event (w\<lparr>script := tl (script w)\<rparr>) = quiet"
    and "distinct (map job_id (db_jobs (working w)))" "j \<in> set (db_jobs (working w))"
    and "claimable i j" "job_constraints j = None" "length worker \<le> 255"
  shows "claim_pending_import i t worker w = (Inr (Some (claim_of t j)),
    w\<lparr>working := (working w)\<lparr>db_jobs := put_job (claimed_job t worker (tx_time w) j) (db_jobs (working w))\<rparr>,
      script := tl (tl (script w))\<rparr>)"
proof -
  let ?db = "working w" and ?now = "tx_time w"
  let ?db' = "?db\<lparr>db_jobs := put_job (claimed_job t worker ?now j) (db_jobs ?db)\<rparr>"
  have id: "job_id j = i" using assms(5) by (simp add: claimable_def)
  have only: "k = j" if "k \<in> set (db_jobs ?db)" "claimable i k" for k
    using that distinct_key_eq [OF assms(3) that(1) assms(4)] id by (simp add: claimable_def)
  have found: "List.find (\<lambda>k. claimable i k \<and> \<not> False) (db_jobs ?db) = Some j"
  proof (cases "List.find (\<lambda>k. claimable i k \<and> \<not> False) (db_jobs ?db)")
    case (Some k)
    then have "k \<in> set (db_jobs ?db)" "claimable i k" by (auto simp: find_Some_iff)
    then show ?thesis using Some only by blast
  qed (use assms(4,5) in \<open>auto simp: find_None_iff\<close>)
  have rows: "db_jobs ?db = put_job j (db_jobs ?db)" by (rule put_job_id [OF assms(3,4), symmetric])
  have "filter (claimable i) (put_job j (db_jobs ?db)) = [j]"
    by (rule put_job_filter) (use assms(3-5) id in \<open>auto simp: claimable_def\<close>)
  then have one: "filter (claimable i) (db_jobs ?db) = [j]" using rows by simp
  have "update_jobs (claimable i) (claim_values t worker ?now) ?now ?db =
      Inr (1, ?db\<lparr>db_jobs := put_job (touched ?now (claim_values t worker ?now j)) (db_jobs ?db)\<rparr>)"
    by (rule update_put [OF assms(3)])
      (use assms(4,5) id rows claimable_constraints [OF assms(6,5,7), of t ?now]
       in \<open>auto simp: claimable_def claim_values_def claimed_job_def\<close>)
  then show ?thesis
    using found one assms(1,2)
    by (simp add: claim_pending_import_def bindE_def statement_quiet_event one_or_none_def claim_of_def
        claim_values_def claimed_job_def)
qed

lemma claim_step_run:
  fixes w :: import_run
  assumes "script w = []" "distinct (map job_id (db_jobs (committed w)))" "j \<in> set (db_jobs (committed w))"
    and "claimable i j" "job_constraints j = None" "length (wk_worker_id wk) \<le> 255"
  shows "\<exists>w'. claim_step wk i t w = (Inr (), w') \<and> undisturbed w w' \<and> draws w' = draws w \<and>
    lv_claimed w' = Some (claim_of t j) \<and>
    committed w' = (committed w)\<lparr>db_jobs := put_job (claimed_job t (wk_worker_id wk) (clock w) j) (db_jobs (committed w))\<rparr>"
proof -
  let ?db = "committed w" and ?now = "clock w" and ?wid = "wk_worker_id wk"
  define w0 where "w0 = w\<lparr>working := ?db, tx_time := ?now\<rparr>"
  let ?db' = "?db\<lparr>db_jobs := put_job (claimed_job t ?wid ?now j) (db_jobs ?db)\<rparr>"
  have quiet: "script w0 = []" using assms(1) by (simp add: w0_def)
  have "w0\<lparr>working := ?db', script := []\<rparr> = w0\<lparr>working := ?db'\<rparr>" using quiet by (cases w0) simp
  then have "claim_pending_import i t ?wid w0 = (Inr (Some (claim_of t j)), w0\<lparr>working := ?db'\<rparr>)"
    using claim_pending_run [of w0 j i ?wid t] quiet assms by (simp add: w0_def)
  then have "claim_step wk i t w =
      (Inr (), (w0\<lparr>working := ?db', lv_claimed := Some (claim_of t j)\<rparr>)\<lparr>committed := ?db', advisory := []\<rparr>)"
    unfolding claim_step_def using quiet
    by (subst with_tx_quiet [where ?w1.0 = "w0\<lparr>working := ?db', lv_claimed := Some (claim_of t j)\<rparr>"])
      (simp_all add: w0_def [symmetric] modify_run)
  then show ?thesis using assms(1) by (simp add: undisturbed_def w0_def)
qed

definition cleared :: "uuid \<Rightarrow> database \<Rightarrow> database" where
  "cleared i db = db\<lparr>db_shipments := filter (\<lambda>s. ship_import_id s \<noteq> i) (db_shipments db),
     db_errors := filter (\<lambda>r. err_import_id r \<noteq> i) (db_errors db)\<rparr>"

definition restarted :: "timestamp \<Rightarrow> import_job \<Rightarrow> import_job" where
  "restarted now j = touched now (j\<lparr>job_total_rows := 0, job_processed_rows := 0, job_success_count := 0,
     job_failed_count := 0, job_finished_at := None\<rparr>)"

lemma restarted_simps [simp]:
  "job_constraints (restarted now j) = job_constraints j" "job_id (restarted now j) = job_id j"
  "job_owned i t (restarted now j) = job_owned i t j" "completed now n s f (restarted now j) = completed now n s f j"
  by (simp_all add: restarted_def job_constraints_def ck_failure_reason_terminal_def touched_def job_owned_def completed_def)

lemma deletes_run:
  assumes "script w = []"
  shows "\<exists>n. delete_shipments_by_import_id i w = (Inr n, w\<lparr>working := (working w)
      \<lparr>db_shipments := filter (\<lambda>s. ship_import_id s \<noteq> i) (db_shipments (working w))\<rparr>\<rparr>)"
    and "\<exists>n. delete_errors_by_import_id i w = (Inr n, w\<lparr>working := (working w)
      \<lparr>db_errors := filter (\<lambda>r. err_import_id r \<noteq> i) (db_errors (working w))\<rparr>\<rparr>)"
  unfolding delete_shipments_by_import_id_def delete_errors_by_import_id_def
  by (simp_all add: statement_quiet [OF assms])

lemma prepare_run:
  assumes "script w = []" "holds_claim claimed jobs J (committed w)"
  shows "\<exists>w'. prepare_for_reprocessing claimed w = (Inr (), w') \<and> undisturbed w w' \<and> draws w' = draws w \<and>
    committed w' = (cleared (cl_import_id claimed) (committed w))\<lparr>db_jobs := put_job (restarted (clock w) J) jobs\<rparr>"
proof -
  let ?i = "cl_import_id claimed" and ?t = "cl_processing_token claimed" and ?db = "committed w"
  define w0 where "w0 = w\<lparr>working := ?db, tx_time := clock w\<rparr>"
  define w1 where "w1 = w0\<lparr>working := ?db\<lparr>db_jobs := put_job (restarted (clock w) J) jobs\<rparr>\<rparr>"
  define w2 where "w2 = w1\<lparr>working := (working w1)\<lparr>db_shipments := filter (\<lambda>s. ship_import_id s \<noteq> ?i) (db_shipments (working w1))\<rparr>\<rparr>"
  define w3 where "w3 = w2\<lparr>working := (working w2)\<lparr>db_errors := filter (\<lambda>r. err_import_id r \<noteq> ?i) (db_errors (working w2))\<rparr>\<rparr>"
  have quiet: "script w0 = []" "script w1 = []" "script w2 = []" "script w3 = []"
    using assms(1) by (simp_all add: w0_def w1_def w2_def w3_def)
  have job: "has_job jobs ?i" "db_jobs (working w0) = put_job J jobs" "job_owned ?i ?t J" "job_constraints J = None" "job_id J = ?i"
    using assms(2) by (auto simp: holds_claim_def w0_def job_owned_def)
  have "reset_for_reprocessing ?i ?t w0 = (Inr True, w1)"
    unfolding reset_for_reprocessing_def
  proof (subst update_current_run [where jobs = jobs and J = J])
    show "job_constraints (touched (tx_time w0) (J\<lparr>job_total_rows := 0, job_processed_rows := 0, job_success_count := 0,
        job_failed_count := 0, job_finished_at := None\<rparr>)) = None"
      using job(4) by (simp add: restarted_def [symmetric])
  qed (use job quiet in \<open>simp_all add: w1_def w0_def restarted_def\<close>)
  moreover obtain a where "delete_shipments_by_import_id ?i w1 = (Inr a, w2)"
    using deletes_run(1) [OF quiet(2)] unfolding w2_def by blast
  moreover obtain b where "delete_errors_by_import_id ?i w2 = (Inr b, w3)"
    using deletes_run(2) [OF quiet(3)] unfolding w3_def by blast
  ultimately have "prepare_for_reprocessing claimed w = (Inr (), w3\<lparr>committed := working w3, advisory := []\<rparr>)"
    unfolding prepare_for_reprocessing_def using quiet(4)
    by (intro with_tx_quiet) (simp_all add: w0_def [symmetric] ret_def)
  moreover have "working w3 = (cleared ?i ?db)\<lparr>db_jobs := put_job (restarted (clock w) J) jobs\<rparr>"
    by (simp add: w3_def w2_def w1_def cleared_def)
  ultimately show ?thesis
    using assms(1) by (simp add: undisturbed_def) (simp add: w3_def w2_def w1_def w0_def)
qed

lemma finish_run:
  assumes "script w = []" "holds_claim claimed jobs J (committed w)"
  shows "\<exists>w'. finish_import claimed (n, s, f) w = (Inr (), w') \<and> undisturbed w w' \<and>
    committed w' = (committed w)\<lparr>db_jobs := put_job (completed (clock w) n s f J) jobs\<rparr>"
proof -
  let ?i = "cl_import_id claimed" and ?t = "cl_processing_token claimed" and ?db = "committed w"
  define w0 where "w0 = w\<lparr>working := ?db, tx_time := clock w\<rparr>"
  define w1 where "w1 = w0\<lparr>working := ?db\<lparr>db_jobs := put_job (completed (clock w) n s f J) jobs\<rparr>\<rparr>"
  have quiet: "script w0 = []" "script w1 = []" using assms(1) by (simp_all add: w0_def w1_def)
  have job: "has_job jobs ?i" "db_jobs (working w0) = put_job J jobs" "job_owned ?i ?t J" "job_constraints J = None" "job_id J = ?i"
    "job_status J = ImportPROCESSING"
    using assms(2) by (auto simp: holds_claim_def w0_def job_owned_def)
  have "complete_import ?i ?t n s f w0 = (Inr True, w1)"
    unfolding complete_import_def
    by (subst update_current_run [where jobs = jobs and J = J])
      (use job quiet in \<open>auto simp: w1_def w0_def completed_def touched_def job_constraints_def
         ck_failure_reason_terminal_def varchar_ok_def split: if_splits\<close>)
  then have "finish_import claimed (n, s, f) w = (Inr (), w1\<lparr>committed := working w1, advisory := []\<rparr>)"
    unfolding finish_import_def prod.case using quiet(2)
    by (intro with_tx_quiet) (simp_all add: w0_def [symmetric] ret_def)
  then show ?thesis using assms(1) by (simp add: undisturbed_def w1_def w0_def)
qed

section \<open>The run\<close>

text \<open>After the preparation: the state in which the first chunk is asked for.\<close>

definition ready :: "import_worker \<Rightarrow> claimed_import \<Rightarrow> import_job list \<Rightarrow> import_job \<Rightarrow> import_run \<Rightarrow> import_run \<Rightarrow> bool" where
  "ready wk claimed jobs J w w2 \<longleftrightarrow>
     process_claimed wk claimed w = bindE (process_chunks (wk_adapters wk) claimed (0, 0, 0)) (finish_import claimed) w2 \<and>
     undisturbed w w2 \<and> draws w2 = draws w \<and>
     lv_rows w2 = iter_chunks (wk_load wk) (cl_stored_file_path claimed) (wk_chunk_size wk) \<and>
     seen_shipment_codes (lv_tracker w2) = {} \<and>
     committed w2 = (cleared (cl_import_id claimed) (committed w))\<lparr>db_jobs := put_job (restarted (clock w) J) jobs\<rparr> \<and>
     holds_claim claimed jobs (restarted (clock w) J) (committed w2)"

lemma process_claimed_ready:
  assumes "holds_claim claimed jobs J (committed w)" "script w = []"
  shows "\<exists>w2. ready wk claimed jobs J w w2"
proof -
  let ?db = "(cleared (cl_import_id claimed) (committed w))\<lparr>db_jobs := put_job (restarted (clock w) J) jobs\<rparr>"
  from prepare_run [OF assms(2,1)] obtain w1 where
    prep: "prepare_for_reprocessing claimed w = (Inr (), w1)" "undisturbed w w1" "draws w1 = draws w" "committed w1 = ?db"
    by blast
  define w2 where "w2 = w1\<lparr>lv_rows := iter_chunks (wk_load wk) (cl_stored_file_path claimed) (wk_chunk_size wk), lv_tracker := new_tracker\<rparr>"
  have "start_chunks wk claimed w1 = (Inr (), w2)" by (simp add: start_chunks_def modify_run w2_def)
  then have "ready wk claimed jobs J w w2"
    using prep assms(1) by (simp add: ready_def process_claimed_def undisturbed_def w2_def new_tracker_def holds_claim_def)
  then show ?thesis by blast
qed

lemma ready_codes:
  assumes "ready wk claimed jobs J w w2" "db = cleared (cl_import_id claimed) (committed w)"
  shows "\<forall>x. x \<notin> seen_shipment_codes (lv_tracker w2) \<longrightarrow> x \<in> stored_codes db \<longleftrightarrow> x \<in> stored_codes (committed w2)"
    and "unused_ids u k (committed w) \<Longrightarrow> unused_ids u k (committed w2)"
  using assms by (auto simp: ready_def stored_codes_def unused_ids_def cleared_def)

lemma process_claimed_run:
  fixes w :: import_run and claimed :: claimed_import
  defines "db \<equiv> cleared (cl_import_id claimed) (committed w)"
  assumes holds: "holds_claim claimed jobs J (committed w)" and quiet: "script w = []"
    and rows: "iter_chunks (wk_load wk) (cl_stored_file_path claimed) (wk_chunk_size wk) = (chunks, None)"
    and vs: "vs = verdicts {} (stored_codes db) (map (prepare_row (wk_adapters wk)) (concat chunks))"
    and finite: "finite_rows (concat chunks)"
    and ids: "inj (uuid_source w)" "unused_ids (uuid_source w) (draws w) (committed w)"
    and fits: "\<forall>p \<in> set (clean_rows vs). storable (pg_numeric w) (shipment_of (cl_import_id claimed) p)"
  shows "\<exists>xs es n w'. produced (uuid_source w) (draws w) n (cl_import_id claimed) vs xs es \<and>
    process_claimed wk claimed w = (Inr (), w') \<and>
    committed w' = with_rows (pg_numeric w) (clock w)
      (put_job (completed (clock w) (length (concat chunks)) (length (clean_rows vs)) (length (failed_rows vs)) J) jobs)
      (map valid_shipment xs) es db"
proof -
  let ?now = "clock w" and ?num = "pg_numeric w"
  let ?J = "restarted ?now J" and ?db = "db\<lparr>db_jobs := put_job (restarted ?now J) jobs\<rparr>"
  from process_claimed_ready [OF holds quiet] obtain w2 where ready: "ready wk claimed jobs J w w2" by blast
  then have w2: "script w2 = []" "clock w2 = ?now" "uuid_source w2 = uuid_source w" "pg_numeric w2 = ?num"
    "draws w2 = draws w" "committed w2 = ?db" "lv_rows w2 = (chunks, None)" "seen_shipment_codes (lv_tracker w2) = {}"
    by (simp_all add: ready_def undisturbed_def rows db_def)
  have holds2: "holds_claim claimed jobs ?J (committed w2)" using ready unfolding ready_def by blast
  have ok: "inj (uuid_source w2)" "unused_ids (uuid_source w2) (draws w2) (committed w2)"
    "\<forall>p \<in> set (clean_rows vs). storable (pg_numeric w2) (shipment_of (cl_import_id claimed) p)"
    using ids ready_codes(2) [OF ready refl] fits unfolding w2(3-5) by blast+
  from process_chunks_run [where a = 0 and b = 0 and f = 0, OF holds2 w2(1,7) finite vs [folded w2(8)]
      ready_codes(1) [OF ready db_def [THEN meta_eq_to_obj_eq]] ok]
  obtain xs es n w3 J' where
    prod: "produced (uuid_source w) (draws w) n (cl_import_id claimed) vs xs es"
    and run: "process_chunks (wk_adapters wk) claimed (0, 0, 0) w2 =
      (Inr (length (concat chunks), length (clean_rows vs), length (failed_rows vs)), w3)"
    and w3: "undisturbed w2 w3" and J': "\<forall>n s f. completed ?now n s f J' = completed ?now n s f ?J"
    and db3: "committed w3 = with_rows ?num ?now (put_job J' jobs) (map valid_shipment xs) es ?db"
    and holds3: "holds_claim claimed jobs J' (committed w3)"
    unfolding w2(2-6) add_0 by blast
  have same: "script w3 = []" "clock w3 = ?now" using w3 w2 by (simp_all add: undisturbed_def)
  from finish_run [OF same(1) holds3, of "length (concat chunks)" "length (clean_rows vs)" "length (failed_rows vs)"]
  obtain w4 where finish: "finish_import claimed (length (concat chunks), length (clean_rows vs), length (failed_rows vs)) w3 = (Inr (), w4)"
    and db4: "committed w4 = (committed w3)\<lparr>db_jobs := put_job (completed ?now (length (concat chunks))
      (length (clean_rows vs)) (length (failed_rows vs)) J') jobs\<rparr>"
    unfolding same by blast
  have "process_claimed wk claimed w = (Inr (), w4)" using ready run finish by (simp add: ready_def)
  moreover have "committed w4 = with_rows ?num ?now
      (put_job (completed ?now (length (concat chunks)) (length (clean_rows vs)) (length (failed_rows vs)) J) jobs)
      (map valid_shipment xs) es db"
    unfolding db4 db3 J' [rule_format] by (simp add: with_rows_def)
  ultimately show ?thesis using prod by blast
qed

text \<open>A run up to the claim; what follows is the processing, its exceptions go to the handler.\<close>

definition handled :: "(exn + unit) \<times> import_run \<Rightarrow> (exn + unit) \<times> import_run" where
  "handled r = (case r of (Inl e, w) \<Rightarrow> run_handler e w | (Inr x, w) \<Rightarrow> (Inr x, w))"

lemma handled_simps [simp]: "handled (Inl e, w) = run_handler e w" "handled (Inr x, w) = (Inr x, w)"
  by (simp_all add: handled_def)

lemma process_import_run_claims:
  fixes w :: import_run
  defines "t \<equiv> uuid_source w (draws w)" and "jobs \<equiv> db_jobs (committed w)"
  assumes "db_ok (committed w)" "jobs_stored (committed w)" "script w = []"
    and "j \<in> set jobs" "claimable i j" "length (wk_worker_id wk) \<le> 255"
  shows "\<exists>w2. process_import_run wk i w = handled (process_claimed wk (claim_of t j) w2) \<and>
    lv_claimed w2 = Some (claim_of t j) \<and> script w2 = [] \<and> clock w2 = clock w \<and> uuid_source w2 = uuid_source w \<and>
    pg_numeric w2 = pg_numeric w \<and> draws w2 = Suc (draws w) \<and>
    committed w2 = (committed w)\<lparr>db_jobs := put_job (claimed_job t (wk_worker_id wk) (clock w) j) jobs\<rparr> \<and>
    holds_claim (claim_of t j) jobs (claimed_job t (wk_worker_id wk) (clock w) j) (committed w2) \<and>
    cl_import_id (claim_of t j) = i \<and> cl_stored_file_path (claim_of t j) = job_stored_file_path j"
proof -
  let ?db = "committed w" and ?J = "claimed_job t (wk_worker_id wk) (clock w) j"
  define w1 where "w1 = (new_locals w)\<lparr>draws := Suc (draws w)\<rparr>"
  have w1: "script w1 = []" "committed w1 = ?db" "clock w1 = clock w" "uuid_source w1 = uuid_source w"
    "pg_numeric w1 = pg_numeric w" "draws w1 = Suc (draws w)"
    using assms(5) by (simp_all add: w1_def new_locals_def)
  have start: "uuid4 (new_locals w) = (Inr t, w1)" by (simp add: uuid4_def w1_def new_locals_def t_def)
  have ids: "distinct (map job_id jobs)" using assms(3) by (simp add: db_ok_def jobs_ok_def jobs_def)
  have stored: "job_constraints j = None" using assms(4,6) by (simp add: jobs_stored_def jobs_def)
  have i: "job_id j = i" using assms(7) by (simp add: claimable_def)
  from claim_step_run [OF w1(1) ids [unfolded jobs_def, folded w1(2)] assms(6) [unfolded jobs_def, folded w1(2)] assms(7) stored assms(8), of t]
  obtain w2 where claim: "claim_step wk i t w1 = (Inr (), w2)" "lv_claimed w2 = Some (claim_of t j)"
    and w2: "script w2 = []" "clock w2 = clock w" "uuid_source w2 = uuid_source w" "pg_numeric w2 = pg_numeric w"
      "draws w2 = Suc (draws w)" "committed w2 = ?db\<lparr>db_jobs := put_job ?J jobs\<rparr>"
    unfolding w1 undisturbed_def jobs_def by blast
  have "holds_claim (claim_of t j) jobs ?J (committed w2)"
    using ids assms(6) i claimable_constraints [OF stored assms(7,8)] unfolding w2(6)
    by (auto simp: holds_claim_def has_job_def claim_of_def job_owned_def claimed_job_def touched_def claim_values_def)
  moreover have "process_import_run wk i w = handled (process_claimed wk (claim_of t j) w2)"
    unfolding process_import_run_def by (simp add: modify_run start claim gets_run try_except_def handled_def)
  ultimately show ?thesis using claim(2) w2 i by (auto simp: claim_of_def)
qed

text \<open>When the accepted rows fit the columns, the shipments made of the clean rows do.\<close>

lemma accepted_storable:
  assumes "\<forall>k \<in> set (accepted_rows ad codes rows). \<forall>p. accepted ad codes rows k p \<longrightarrow> storable num (new_shipment 0 i p)"
  shows "\<forall>p \<in> set (clean_rows (verdicts {} codes (map (prepare_row ad) rows))). storable num (shipment_of i p)"
proof
  fix p assume p: "p \<in> set (clean_rows (verdicts {} codes (map (prepare_row ad) rows)))"
  then obtain k where k: "k \<in> set (accepted_rows ad codes rows)" "p = prepare_row ad (rows ! k)"
    unfolding clean_rows_accepted by auto
  then obtain r where r: "accepted ad codes rows k r" by (auto simp: accepted_rows_def)
  show "storable num (shipment_of i p)"
    using assms k(1) r accepted_parsed [OF r] unfolding k(2) by (simp add: shipment_of_def)
qed

lemma process_import_run_quiet:
  assumes "db_ok (committed w)" "jobs_stored (committed w)" "script w = []"
    and "j \<in> set (db_jobs (committed w))" "claimable i j" "length (wk_worker_id wk) \<le> 255"
    and "iter_chunks (wk_load wk) (job_stored_file_path j) (wk_chunk_size wk) = (chunks, None)"
    and "finite_rows (concat chunks)" "inj (uuid_source w)" "unused_ids (uuid_source w) (Suc (draws w)) (committed w)"
    and "\<forall>k \<in> set (accepted_rows (wk_adapters wk) (stored_codes (cleared i (committed w))) (concat chunks)). \<forall>p.
      accepted (wk_adapters wk) (stored_codes (cleared i (committed w))) (concat chunks) k p \<longrightarrow>
      storable (pg_numeric w) (new_shipment 0 i p)"
  shows "\<exists>w' ss es. process_import_run wk i w = (Inr (), w') \<and>
    committed w' = with_rows (pg_numeric w) (clock w)
      (put_job (completed (clock w) (length (concat chunks)) (length ss) (length (concat chunks) - length ss)
          (j\<lparr>job_attempt_count := job_attempt_count j + 1, job_started_at := Some (clock w)\<rparr>))
        (db_jobs (committed w))) ss es (cleared i (committed w)) \<and>
    list_all2 (\<lambda>k s. \<exists>p. accepted (wk_adapters wk) (stored_codes (cleared i (committed w))) (concat chunks) k p \<and>
        s\<lparr>ship_id := 0\<rparr> = new_shipment 0 i p)
      (accepted_rows (wk_adapters wk) (stored_codes (cleared i (committed w))) (concat chunks)) ss \<and>
    err_row_number ` set es = {row_number (concat chunks ! k) |k. k < length (concat chunks) \<and>
      (\<nexists>p. accepted (wk_adapters wk) (stored_codes (cleared i (committed w))) (concat chunks) k p)}"
proof -
  let ?db = "committed w" and ?now = "clock w" and ?t = "uuid_source w (draws w)" and ?rows = "concat chunks"
  let ?codes = "stored_codes (cleared i (committed w))" and ?jobs = "db_jobs (committed w)"
  let ?vs = "verdicts {} ?codes (map (prepare_row (wk_adapters wk)) ?rows)"
  let ?J = "claimed_job ?t (wk_worker_id wk) ?now j"
  from process_import_run_claims [OF assms(1-6)] obtain w2 where
    go: "process_import_run wk i w = handled (process_claimed wk (claim_of ?t j) w2)"
    and w2: "script w2 = []" "clock w2 = ?now" "uuid_source w2 = uuid_source w" "pg_numeric w2 = pg_numeric w"
      "draws w2 = Suc (draws w)" "committed w2 = ?db\<lparr>db_jobs := put_job ?J ?jobs\<rparr>"
    and holds: "holds_claim (claim_of ?t j) ?jobs ?J (committed w2)"
    and claim_id: "cl_import_id (claim_of ?t j) = i" "cl_stored_file_path (claim_of ?t j) = job_stored_file_path j"
    by blast
  have clear: "cleared i (committed w2) = (cleared i ?db)\<lparr>db_jobs := put_job ?J ?jobs\<rparr>"
    unfolding w2(6) by (simp add: cleared_def)
  have fits: "\<forall>p \<in> set (clean_rows ?vs). storable (pg_numeric w2) (shipment_of i p)"
    unfolding w2(4) by (rule accepted_storable [OF assms(11)])
  have codes: "stored_codes (cleared i (committed w2)) = ?codes" unfolding clear by (simp add: stored_codes_def)
  have fresh: "unused_ids (uuid_source w2) (draws w2) (committed w2)"
    unfolding w2 using assms(10) by (simp add: unused_ids_def)
  from process_claimed_run [OF holds w2(1) assms(7) [folded claim_id(2)], of ?vs] assms(8,9) fresh fits
  obtain xs es n w3 where prod: "produced (uuid_source w) (Suc (draws w)) n i ?vs xs es"
    and run: "process_claimed wk (claim_of ?t j) w2 = (Inr (), w3)"
    and db3: "committed w3 = with_rows (pg_numeric w) ?now
      (put_job (completed ?now (length ?rows) (length (clean_rows ?vs)) (length (failed_rows ?vs)) ?J) ?jobs)
      (map valid_shipment xs) es (cleared i (committed w2))"
    unfolding claim_id codes w2(2-5) by (simp add: w2) blast
  have counts: "length (clean_rows ?vs) = length (map valid_shipment xs)"
    "length (failed_rows ?vs) = length ?rows - length (map valid_shipment xs)"
    using produced_length [OF prod] verdict_split [of ?vs] by simp_all
  have "process_import_run wk i w = (Inr (), w3)" unfolding go run by simp
  moreover have "committed w3 = with_rows (pg_numeric w) ?now
      (put_job (completed ?now (length ?rows) (length (map valid_shipment xs)) (length ?rows - length (map valid_shipment xs))
          (j\<lparr>job_attempt_count := job_attempt_count j + 1, job_started_at := Some ?now\<rparr>)) ?jobs)
      (map valid_shipment xs) es (cleared i ?db)"
    unfolding db3 counts clear
    by (simp add: with_rows_def) (simp add: claimed_job_def touched_def claim_values_def completed_def)
  ultimately show ?thesis using produced_accepted [OF prod] by blast
qed

text \<open>
  C1. The outcome of a run nothing interferes with, on a consistent database in which import \<open>i\<close>
  waits and whose workbook can be read: the run returns, the job is COMPLETED, with one more
  attempt, no token, and the numbers of rows, of accepted rows and of the others as counters.
  What an earlier attempt stored for the import is gone; instead there is exactly one shipment
  for each accepted row (accepted against the codes of the other imports), in order and with the
  parsed values, and errors for exactly the rejected rows. Other jobs, other imports' rows and
  the outbox are as before. Chunks and transactions do not show. (Accepted rows fit the columns
  of the table, no cell is NaN or infinite, and the identifiers to be drawn are new.)
\<close>

theorem process_import_run_completes:
  assumes "db_ok (committed w)" "jobs_stored (committed w)" "script w = []"
    and "j \<in> set (db_jobs (committed w))" "claimable i j" "length (wk_worker_id wk) \<le> 255"
    and "iter_chunks (wk_load wk) (job_stored_file_path j) (wk_chunk_size wk) = (chunks, None)"
    and "finite_rows (concat chunks)" "inj (uuid_source w)" "unused_ids (uuid_source w) (Suc (draws w)) (committed w)"
    and "\<forall>k \<in> set (accepted_rows (wk_adapters wk) (stored_codes (cleared i (committed w))) (concat chunks)). \<forall>p.
      accepted (wk_adapters wk) (stored_codes (cleared i (committed w))) (concat chunks) k p \<longrightarrow>
      storable (pg_numeric w) (new_shipment 0 i p)"
  shows "\<exists>w' ss es. process_import_run wk i w = (Inr (), w') \<and>
    committed w' = with_rows (pg_numeric w) (clock w)
      (put_job (completed (clock w) (length (concat chunks)) (length ss) (length (concat chunks) - length ss)
          (j\<lparr>job_attempt_count := job_attempt_count j + 1, job_started_at := Some (clock w)\<rparr>))
        (db_jobs (committed w))) ss es (cleared i (committed w)) \<and>
    list_all2 (\<lambda>k s. \<exists>p. accepted (wk_adapters wk) (stored_codes (cleared i (committed w))) (concat chunks) k p \<and>
        s\<lparr>ship_id := 0\<rparr> = new_shipment 0 i p)
      (accepted_rows (wk_adapters wk) (stored_codes (cleared i (committed w))) (concat chunks)) ss \<and>
    err_row_number ` set es = {row_number (concat chunks ! k) |k. k < length (concat chunks) \<and>
      (\<nexists>p. accepted (wk_adapters wk) (stored_codes (cleared i (committed w))) (concat chunks) k p)}"
  by (rule process_import_run_quiet [OF assms])

section \<open>An example\<close>

text \<open>
  A workbook with three data rows: a shipment, a row with the same code, and a row without a
  price. Strings and whole numbers are accepted by the adapters.
\<close>

definition sheet_rows :: "pyval list list" where
  "sheet_rows =
     [[PStr ''A1'', PStr ''Ann'', PStr ''Oslo'', PStr ''Rome'', PInt 3, PInt 20, PStr ''PENDING''],
      [PStr ''A1'', PStr ''Bob'', PStr ''Bonn'', PStr ''Lyon'', PInt 4, PInt 30, PStr ''DELIVERED''],
      [PStr ''A2'', PStr ''Cid'', PStr ''Bonn'', PStr ''Lyon'', PInt 4, PNone, PStr ''PENDING'']]"

definition sheet_adapters :: adapters where
  "sheet_adapters = \<lparr>ad_str = (\<lambda>v. case v of PStr s \<Rightarrow> Inr s | _ \<Rightarrow> Inl ''not a string''),
     ad_decimal = (\<lambda>v. case v of PInt n \<Rightarrow> Inr (Decimal (n < 0) (nat \<bar>n\<bar>) 0) | _ \<Rightarrow> Inl ''not a number''),
     ad_date = (\<lambda>v. Inl ''not a date'')\<rparr>"

definition sheet_worker :: import_worker where
  "sheet_worker = \<lparr>wk_load = (\<lambda>_. Inr [\<lparr>ws_header = Inr (Some (map PStr REQUIRED_WORKBOOK_HEADERS)),
       ws_data = sheet_rows, ws_data_error = None\<rparr>]),
     wk_adapters = sheet_adapters, wk_chunk_size = 2, wk_worker_id = ''w1''\<rparr>"

definition sheet_run :: import_run where
  "sheet_run = example_run\<lparr>script := []\<rparr>"

definition sheet_chunks :: "parsed_workbook_row list list" where
  "sheet_chunks = fst (iter_chunks (wk_load sheet_worker) ''/s/a.xlsx'' 2)"

definition sheet_shipment :: parsed_shipment where
  "sheet_shipment = \<lparr>pr_shipment_code = ''A1'', pr_customer_name = ''Ann'', pr_origin_city = ''Oslo'',
     pr_destination_city = ''Rome'', pr_weight_kg = Decimal False 3 0, pr_price = Decimal False 20 0,
     pr_status = ''PENDING'', pr_delivery_date = None\<rparr>"

lemma sheet_chunks: "iter_chunks (wk_load sheet_worker) ''/s/a.xlsx'' 2 = (sheet_chunks, None)"
  "map row_number (concat sheet_chunks) = [2, 3, 4]"
  by code_simp+

lemma sheet_first: "prep_parsed_row (prepare_row sheet_adapters (concat sheet_chunks ! 0)) = Some sheet_shipment"
  by code_simp

lemma sheet_accepted: "accepted_rows sheet_adapters {} (concat sheet_chunks) = [0]"
  unfolding accepted_rows_verdicts by code_simp

lemma sheet_accepted_shipment: "accepted sheet_adapters {} (concat sheet_chunks) 0 p \<Longrightarrow> p = sheet_shipment"
  using accepted_parsed [of sheet_adapters "{}" "concat sheet_chunks" 0 p] sheet_first by simp

lemma sheet_storable: "storable (\<lambda>p s d. Some d) (new_shipment 0 1 sheet_shipment)"
proof -
  let ?s = "new_shipment 0 1 sheet_shipment"
  have "stored_shipment (\<lambda>p s d. Some d) ?s = Some ?s" "shipment_constraints ?s = None" by code_simp+
  then show ?thesis unfolding storable_def by blast
qed

theorem process_import_run_completes_witness:
  "\<exists>w' s es. process_import_run sheet_worker 1 sheet_run = (Inr (), w') \<and>
     db_jobs (committed w') = [completed 100 3 1 2 (example_job\<lparr>job_attempt_count := 1, job_started_at := Some 100\<rparr>)] \<and>
     db_shipments (committed w') = [stored_row (\<lambda>p s d. Some d) 100 s] \<and> ship_shipment_code s = ''A1''"
proof -
  have run: "script sheet_run = []" "committed sheet_run = example_db" "clock sheet_run = 100"
    "uuid_source sheet_run = (\<lambda>n. n + 10)" "pg_numeric sheet_run = (\<lambda>p s d. Some d)" "draws sheet_run = 0"
    by (simp_all add: sheet_run_def example_run_def)
  have wk: "wk_adapters sheet_worker = sheet_adapters" "wk_chunk_size sheet_worker = 2" "wk_worker_id sheet_worker = ''w1''"
    by (simp_all add: sheet_worker_def)
  have db: "db_jobs example_db = [example_job]" "db_shipments example_db = []" "db_errors example_db = []"
    by (simp_all add: example_db_def)
  have none: "stored_codes (cleared 1 example_db) = {}" by (simp add: stored_codes_def cleared_def db)
  have path: "job_stored_file_path example_job = ''/s/a.xlsx''" by (simp add: example_job_def)
  have "inj (\<lambda>n :: nat. n + 10)" by (simp add: inj_def)
  moreover have "jobs_stored example_db" unfolding jobs_stored_def db by code_simp
  moreover have "claimable 1 example_job" by code_simp
  moreover have "finite_rows (concat sheet_chunks)" unfolding finite_rows_def by code_simp
  moreover have "unused_ids (\<lambda>n. n + 10) (Suc 0) example_db" by (simp add: unused_ids_def db)
  moreover have "length ''w1'' \<le> 255" by simp
  ultimately obtain w' ss es where w': "process_import_run sheet_worker 1 sheet_run = (Inr (), w')"
    "committed w' = with_rows (\<lambda>p s d. Some d) 100
      (put_job (completed 100 (length (concat sheet_chunks)) (length ss) (length (concat sheet_chunks) - length ss)
          (example_job\<lparr>job_attempt_count := job_attempt_count example_job + 1, job_started_at := Some 100\<rparr>))
        [example_job]) ss es (cleared 1 example_db)"
    and ss: "list_all2 (\<lambda>k s. \<exists>p. accepted sheet_adapters {} (concat sheet_chunks) k p \<and> s\<lparr>ship_id := 0\<rparr> = new_shipment 0 1 p) [0] ss"
    using process_import_run_completes [of sheet_run example_job 1 sheet_worker sheet_chunks, unfolded run wk none path db
        sheet_accepted, OF example_db_ok] sheet_chunks(1) sheet_accepted_shipment sheet_storable
    by (simp add: sheet_accepted) blast
  from ss obtain s where s: "ss = [s]" "s\<lparr>ship_id := 0\<rparr> = new_shipment 0 1 sheet_shipment"
    by (auto simp: list_all2_Cons1 dest: sheet_accepted_shipment)
  have "ship_shipment_code s = ship_shipment_code (s\<lparr>ship_id := 0\<rparr>)" by simp
  then have "ship_shipment_code s = ''A1''" unfolding s(2) by (simp add: new_shipment_def sheet_shipment_def)
  moreover have "length (concat sheet_chunks) = 3" using arg_cong [OF sheet_chunks(2), of length] by simp
  ultimately show ?thesis
    using w' unfolding s(1) by (auto simp: put_job_def completed_def cleared_def db example_job_def)
qed

end
