(* ===== verification/Recovery.thy ===== *)
theory Recovery
  imports Outbox_Facts Quiet_Session
begin

text \<open>
  The recovery of abandoned imports: RecoverStaleImportsService
  (app/imports/services/recover_stale_imports.py), run by each worker when it starts
  (app/workers/startup_recovery.py) and periodically by the watchdog task
  (app/workers/beat_schedule.py).

  The ORM loads the stale jobs with SELECT ... FOR UPDATE, changes the objects and adds the new
  intents; the flush at the commit writes them: the UPDATEs of the jobs, each by primary key, then
  the INSERTs of the intents. The rows stay locked in between, so all of it is one statement.
\<close>

section \<open>The service\<close>

definition STALE_HEARTBEAT_REASON :: string where
  "STALE_HEARTBEAT_REASON = ''Worker heartbeat expired.''"

definition MAX_ATTEMPTS_REASON :: string where
  "MAX_ATTEMPTS_REASON = ''Import processing failed after the maximum number of attempts.''"

definition stale_imports :: "(uuid \<Rightarrow> bool) \<Rightarrow> int \<Rightarrow> timestamp \<Rightarrow> import_job list \<Rightarrow> import_job list" where
  "stale_imports locked batch_size stale_before jobs =
     order_limit (\<lambda>j. (case job_last_heartbeat_at j of Some t \<Rightarrow> t | None \<Rightarrow> 0, job_id j)) (nat batch_size)
       (filter (\<lambda>j. job_status j = ImportPROCESSING \<and>
          (case job_last_heartbeat_at j of Some t \<Rightarrow> t < stale_before | None \<Rightarrow> False) \<and>
          \<not> locked (job_id j)) jobs)"

definition mark_stale_failed :: "timestamp \<Rightarrow> import_job \<Rightarrow> import_job" where
  "mark_stale_failed now j = j\<lparr>
     job_status := ImportFAILED,
     job_processing_token := None,
     job_locked_by_worker := None,
     job_last_failure_reason := Some STALE_HEARTBEAT_REASON,
     job_failure_reason := Some MAX_ATTEMPTS_REASON,
     job_finished_at := Some now\<rparr>"

definition requeue_stale :: "timestamp \<Rightarrow> import_job \<Rightarrow> import_job" where
  "requeue_stale now j = j\<lparr>
     job_status := ImportPENDING,
     job_processing_token := None,
     job_locked_by_worker := None,
     job_failure_reason := None,
     job_last_failure_reason := Some STALE_HEARTBEAT_REASON,
     job_last_requeued_at := Some now,
     job_finished_at := None,
     job_last_heartbeat_at := None\<rparr>"

definition recovered :: "timestamp \<Rightarrow> import_job \<Rightarrow> import_job" where
  "recovered now j = (if job_attempt_count j \<ge> job_max_attempts j then mark_stale_failed now j else requeue_stale now j)"

fun flush_jobs :: "timestamp \<Rightarrow> timestamp \<Rightarrow> import_job list \<Rightarrow> database \<Rightarrow> sql_error + database" where
  "flush_jobs now tx [] db = Inr db"
| "flush_jobs now tx (j # js) db =
     (case update_jobs (\<lambda>j'. job_id j' = job_id j) (recovered now) tx db of
        Inl e \<Rightarrow> Inl e | Inr (_, db') \<Rightarrow> flush_jobs now tx js db')"

text \<open>\<^verbatim>\<open>create_pending_dispatch_intent\<close>: the intents added, with the keys the flush draws.\<close>

definition pending_intents ::
  "(nat \<Rightarrow> uuid) \<Rightarrow> timestamp \<Rightarrow> timestamp \<Rightarrow> import_job list \<Rightarrow> import_dispatch_outbox list" where
  "pending_intents new_id now tx stale =
     map (\<lambda>(k, j). new_dispatch_row (new_id k) (job_id j) now tx)
       (enumerate 0 (filter (\<lambda>j. \<not> job_attempt_count j \<ge> job_max_attempts j) stale))"

definition flush_recovery ::
  "(nat \<Rightarrow> uuid) \<Rightarrow> timestamp \<Rightarrow> timestamp \<Rightarrow> import_job list \<Rightarrow> database \<Rightarrow> sql_error + database" where
  "flush_recovery new_id now tx stale db =
     (case flush_jobs now tx stale db of
        Inl e \<Rightarrow> Inl e
      | Inr db' \<Rightarrow> insert_all insert_outbox (pending_intents new_id now tx stale) db')"

definition recover_batch :: "int \<Rightarrow> timestamp \<Rightarrow> timestamp \<Rightarrow> ('z world_scheme, import_job list) action" where
  "recover_batch batch_size now stale_before =
     bindE (gets (\<lambda>w k. uuid_source w (draws w + k))) (\<lambda>new_id.
     bindE (statement (\<lambda>locked tx db.
         let stale = stale_imports locked batch_size stale_before (db_jobs db)
         in map_sum id (Pair stale) (flush_recovery new_id now tx stale db)))
     (\<lambda>stale. bindE (modify (\<lambda>w. w\<lparr>draws := draws w +
         length (filter (\<lambda>j. \<not> job_attempt_count j \<ge> job_max_attempts j) stale)\<rparr>)) (\<lambda>_. ret stale)))"

definition recover_stale_imports :: "settings \<Rightarrow> int \<Rightarrow> ('z world_scheme, nat) action" where
  "recover_stale_imports s batch_size =
     bindE (gets clock) (\<lambda>now.
       case add_seconds now (- set_processing_stale_timeout_seconds s) of
         Inl e \<Rightarrow> throw e
       | Inr stale_before \<Rightarrow>
           bindE (with_tx (recover_batch batch_size now stale_before)) (\<lambda>stale. ret (length stale)))"

definition recover_stale_imports_on_startup :: "settings \<Rightarrow> ('z world_scheme, nat) action" where
  "recover_stale_imports_on_startup s = recover_stale_imports s (set_startup_recovery_batch_size s)"

definition recover_stale_imports_task :: "settings \<Rightarrow> ('z world_scheme, nat) action" where
  "recover_stale_imports_task s = recover_stale_imports s (set_watchdog_batch_size s)"

section \<open>What it keeps\<close>

lemma recovered_step:
  assumes "job_ok j" "job_status j = ImportPROCESSING"
  shows "\<exists>l \<in> {Recover, Expire}. job_step l j (recovered now j)"
proof -
  obtain t where t: "job_processing_token j = Some t" using assms by (auto simp: job_ok_def)
  then have life: "life_of j = Running t (job_attempt_count j)" using assms(2) by (simp add: life_of_def)
  show ?thesis
  proof (cases "job_attempt_count j \<ge> job_max_attempts j")
    case True
    then have "job_step Expire j (recovered now j)"
      using assms by (auto simp: job_step_def life life_step_Running recovered_def mark_stale_failed_def
          life_of_def same_import_def job_ok_def ck_failure_reason_terminal_def)
    then show ?thesis by blast
  next
    case False
    then have "job_step Recover j (recovered now j)"
      using assms by (auto simp: job_step_def life life_step_Running recovered_def requeue_stale_def
          life_of_def same_import_def job_ok_def ck_failure_reason_terminal_def)
    then show ?thesis by blast
  qed
qed

lemma stale_imports_rows:
  "j \<in> set (stale_imports locked n before jobs) \<Longrightarrow> j \<in> set jobs \<and> job_status j = ImportPROCESSING"
  by (auto simp: stale_imports_def order_limit_def dest!: in_set_takeD)

lemma stale_imports_distinct: "distinct (map job_id jobs) \<Longrightarrow> distinct (map job_id (stale_imports locked n before jobs))"
  by (simp add: stale_imports_def order_limit_def take_map [symmetric] distinct_map_filter distinct_map inj_on_def)

locale recovery_invariant = dispatch_invariant I labels R
  for I :: "database \<Rightarrow> bool" and labels and R :: "import_dispatch_outbox \<Rightarrow> bool" +
  assumes R_new: "R (new_dispatch_row x i at now)"
    and recovers: "Recover \<in> labels" "Expire \<in> labels"
begin

lemma I_flush_jobs:
  "I db \<Longrightarrow> \<forall>j \<in> set js. j \<in> set (db_jobs db) \<and> job_status j = ImportPROCESSING \<Longrightarrow> distinct (map job_id js) \<Longrightarrow>
     flush_jobs now tx js db = Inr db' \<Longrightarrow> I db'"
proof (induction js arbitrary: db)
  case (Cons j js)
  obtain n db1 where upd: "update_jobs (\<lambda>j'. job_id j' = job_id j) (recovered now) tx db = Inr (n, db1)"
    and rest: "flush_jobs now tx js db1 = Inr db'" using Cons.prems(4) by (auto split: sum.splits prod.splits)
  have ids: "distinct (map job_id (db_jobs db))" using I_ok [OF Cons.prems(1)] by (simp add: db_ok_def jobs_ok_def)
  have "I db1"
  proof (rule I_update_jobs [OF Cons.prems(1) upd])
    fix j' assume j': "j' \<in> set (db_jobs db)" "job_ok j'" "job_id j' = job_id j"
    then have "j' = j" using ids Cons.prems(2) by (auto simp: distinct_map dest: inj_onD)
    then show "\<exists>l \<in> labels. job_step l j' (recovered now j')"
      using recovered_step [OF j'(2)] Cons.prems(2) recovers by auto
  qed
  moreover have "\<forall>j' \<in> set js. j' \<in> set (db_jobs db1) \<and> job_status j' = ImportPROCESSING"
    using Cons.prems(2,3) update_jobs_Inr [OF upd] by (auto simp: sql_update_def image_iff intro!: bexI)
  ultimately show ?case using Cons.IH rest Cons.prems(3) by simp
qed simp

lemma I_flush_recovery:
  assumes "I db" "flush_recovery new_id now tx (stale_imports locked n before (db_jobs db)) db = Inr db'"
  shows "I db'"
proof -
  let ?stale = "stale_imports locked n before (db_jobs db)"
  obtain db1 where 1: "flush_jobs now tx ?stale db = Inr db1"
    and 2: "insert_all insert_outbox (pending_intents new_id now tx ?stale) db1 = Inr db'"
    using assms(2) by (auto simp: flush_recovery_def split: sum.splits)
  have "distinct (map job_id (db_jobs db))" using I_ok [OF assms(1)] by (simp add: db_ok_def jobs_ok_def)
  then have "I db1"
    using stale_imports_rows stale_imports_distinct by (intro I_flush_jobs [OF assms(1) _ _ 1]) blast+
  moreover have "outbox_ok r \<and> R r" if "r \<in> set (pending_intents new_id now tx ?stale)" for r
    using that R_new by (auto simp: pending_intents_def outbox_ok_def new_dispatch_row_def)
  ultimately show ?thesis
    by (intro insert_all_keeps [where I = I, OF _ _ 2]) (use I_insert_outbox in blast)+
qed

lemma keeps_recover_stale_imports: "keeps I L (recover_stale_imports s n)"
  unfolding recover_stale_imports_def recover_batch_def Let_def
  by (intro keeps_intro keeps_statement)
    (auto intro: I_flush_recovery simp: holds_def rely_def map_sum_def split: sum.splits)

end

text \<open>A new intent has no failures, so the maximum has to be positive, as the settings ask.\<close>

interpretation recovering: recovery_invariant "delivers (max 1 m) (insert Recover (insert Expire labels)) db0"
  "insert Recover (insert Expire labels)" "deliverable (max 1 m)" for m labels db0
  by unfold_locales (auto simp: deliverable_def new_dispatch_row_def)

end
