(* ===== verification/Recovery_Safety.thy ===== *)
theory Recovery_Safety
  imports Recovery Outbox_Round
begin

text \<open>
  The recovery of abandoned imports as a whole: what it keeps under interference, and what it
  does when nothing interferes.
\<close>

section \<open>The reference\<close>

definition recovery_round :: "(nat \<Rightarrow> uuid) \<Rightarrow> timestamp \<Rightarrow> import_job list \<Rightarrow> database \<Rightarrow> database" where
  "recovery_round new_id now stale db = db\<lparr>
     db_jobs := map (\<lambda>j. if j \<in> set stale then (recovered now j)\<lparr>job_updated_at := now\<rparr> else j) (db_jobs db),
     db_outbox := db_outbox db @ pending_intents new_id now now stale\<rparr>"

lemma recovered_constraints:
  "job_constraints j = None \<Longrightarrow> job_constraints ((recovered now j)\<lparr>job_updated_at := u\<rparr>) = None"
  by (auto simp: job_constraints_def recovered_def mark_stale_failed_def requeue_stale_def
      ck_failure_reason_terminal_def varchar_ok_def split: if_splits)

lemma recovered_id [simp]: "job_id (recovered now j) = job_id j"
  by (simp add: recovered_def mark_stale_failed_def requeue_stale_def)

lemma update_jobs_stored:
  assumes "jobs_stored db"
  shows "update_jobs p (recovered now) tx db = Inr (sql_count p (db_jobs db),
    db\<lparr>db_jobs := sql_update p (\<lambda>j. (recovered now j)\<lparr>job_updated_at := tx\<rparr>) (db_jobs db)\<rparr>)"
proof -
  have "List.map_filter (\<lambda>j. job_constraints ((recovered now j)\<lparr>job_updated_at := tx\<rparr>)) (filter p (db_jobs db)) = []"
    using assms recovered_constraints by (auto simp: jobs_stored_def List.map_filter_def filter_empty_conv)
  then show ?thesis by (simp add: update_jobs_def Let_def)
qed

lemma flush_jobs_stored:
  "jobs_stored db \<Longrightarrow> flush_jobs now tx js db = Inr (db\<lparr>db_jobs :=
     fold (\<lambda>j. sql_update (\<lambda>j'. job_id j' = job_id j) (\<lambda>j'. (recovered now j')\<lparr>job_updated_at := tx\<rparr>)) js (db_jobs db)\<rparr>)"
proof (induction js arbitrary: db)
  case (Cons j js)
  let ?db = "db\<lparr>db_jobs := sql_update (\<lambda>j'. job_id j' = job_id j)
      (\<lambda>j'. (recovered now j')\<lparr>job_updated_at := tx\<rparr>) (db_jobs db)\<rparr>"
  have "jobs_stored ?db"
    using Cons.prems recovered_constraints by (auto simp: jobs_stored_def sql_update_def)
  from Cons.IH [OF this] show ?case by (simp add: update_jobs_stored [OF Cons.prems])
qed simp

lemma insert_intents:
  "set (map ob_import_id rs) \<subseteq> set (map job_id (db_jobs db)) \<Longrightarrow> distinct (map ob_id rs) \<Longrightarrow>
   set (map ob_id rs) \<inter> set (map ob_id (db_outbox db)) = {} \<Longrightarrow>
     insert_all insert_outbox rs db = Inr (db\<lparr>db_outbox := db_outbox db @ rs\<rparr>)"
proof (induction rs arbitrary: db)
  case (Cons r rs)
  then have "insert_outbox r db = Inr (db\<lparr>db_outbox := db_outbox db @ [r]\<rparr>)"
    by (auto simp: insert_outbox_def)
  moreover have "insert_all insert_outbox rs (db\<lparr>db_outbox := db_outbox db @ [r]\<rparr>) =
      Inr (db\<lparr>db_outbox := (db_outbox db @ [r]) @ rs\<rparr>)"
    using Cons.IH [of "db\<lparr>db_outbox := db_outbox db @ [r]\<rparr>"] Cons.prems by auto
  ultimately show ?case by simp
qed simp

lemma recovered_jobs:
  assumes "distinct (map job_id jobs)" "set stale \<subseteq> set jobs" "distinct (map job_id stale)"
  shows "fold (\<lambda>j. sql_update (\<lambda>j'. job_id j' = job_id j) (\<lambda>j'. (recovered now j')\<lparr>job_updated_at := tx\<rparr>)) stale jobs =
    map (\<lambda>j. if j \<in> set stale then (recovered now j)\<lparr>job_updated_at := tx\<rparr> else j) jobs"
proof -
  have "List.find (\<lambda>j'. job_id j' = job_id j) stale = (if j \<in> set stale then Some j else None)"
    if "j \<in> set jobs" for j
    using find_by_key [OF assms(3)] that assms(1,2)
    by (auto simp: find_None_iff distinct_map dest: inj_onD)
  then show ?thesis
    by (subst sql_update_by_keys [where key = job_id and k = job_id]) (auto simp: assms(3))
qed

text \<open>The keys the flush draws are new, and differ from each other.\<close>

definition fresh_ids :: "(nat \<Rightarrow> uuid) \<Rightarrow> database \<Rightarrow> bool" where
  "fresh_ids new_id db \<longleftrightarrow> inj new_id \<and> range new_id \<inter> set (map ob_id (db_outbox db)) = {}"

lemma pending_intents_ids:
  "map ob_id (pending_intents new_id now tx stale) =
     map new_id [0..<length (filter (\<lambda>j. \<not> job_attempt_count j \<ge> job_max_attempts j) stale)]"
  by (simp add: pending_intents_def new_dispatch_row_def enumerate_eq_zip comp_def case_prod_beta map_fst_zip
      flip: map_map [of new_id fst, unfolded comp_def])

lemma pending_intents_imports:
  "map ob_import_id (pending_intents new_id now tx stale) =
     map job_id (filter (\<lambda>j. \<not> job_attempt_count j \<ge> job_max_attempts j) stale)"
  by (simp add: pending_intents_def new_dispatch_row_def enumerate_eq_zip comp_def case_prod_beta
      flip: map_map [of job_id snd, unfolded comp_def])

lemma flush_recovery_stored:
  assumes "db_ok db" "jobs_stored db" "fresh_ids new_id db" "stale = stale_imports locked n before (db_jobs db)"
  shows "flush_recovery new_id now now stale db = Inr (recovery_round new_id now stale db)"
proof -
  have ids: "distinct (map job_id (db_jobs db))" using assms(1) by (simp add: db_ok_def jobs_ok_def)
  have stale: "set stale \<subseteq> set (db_jobs db)" "distinct (map job_id stale)"
    unfolding assms(4) using stale_imports_rows stale_imports_distinct [OF ids] by blast+
  let ?db = "db\<lparr>db_jobs := map (\<lambda>j. if j \<in> set stale then (recovered now j)\<lparr>job_updated_at := now\<rparr> else j) (db_jobs db)\<rparr>"
  have "insert_all insert_outbox (pending_intents new_id now now stale) ?db =
      Inr (?db\<lparr>db_outbox := db_outbox ?db @ pending_intents new_id now now stale\<rparr>)"
  proof (rule insert_intents)
    show "set (map ob_import_id (pending_intents new_id now now stale)) \<subseteq> set (map job_id (db_jobs ?db))"
      unfolding pending_intents_imports using stale(1) by auto
    show "distinct (map ob_id (pending_intents new_id now now stale))"
      unfolding pending_intents_ids using assms(3) by (simp add: distinct_map fresh_ids_def inj_on_def)
    show "set (map ob_id (pending_intents new_id now now stale)) \<inter> set (map ob_id (db_outbox ?db)) = {}"
      unfolding pending_intents_ids using assms(3) by (auto simp: fresh_ids_def)
  qed
  then show ?thesis
    by (simp add: flush_recovery_def flush_jobs_stored [OF assms(2)] recovered_jobs [OF ids stale] recovery_round_def)
qed

section \<open>Examples\<close>

text \<open>
  Two abandoned imports, one on its last attempt, and one that is alive; their heartbeats are 400,
  350 and 10 seconds old.
\<close>

definition running_job :: "uuid \<Rightarrow> int \<Rightarrow> timestamp \<Rightarrow> import_job" where
  "running_job i a beat = example_job\<lparr>job_id := i, job_status := ImportPROCESSING, job_attempt_count := a,
     job_processing_token := Some (90 + i), job_locked_by_worker := Some ''w1'',
     job_started_at := Some 0, job_last_heartbeat_at := Some beat\<rparr>"

definition abandoned_db :: database where
  "abandoned_db = \<lparr>db_jobs = [running_job 1 1 (seconds 100), running_job 2 3 (seconds 150), running_job 3 1 (seconds 490)],
     db_outbox = [], db_shipments = [], db_errors = []\<rparr>"

definition watchdog_world :: world where
  "watchdog_world = \<lparr>committed = abandoned_db, working = abandoned_db, script = [], clock = seconds 500,
     tx_time = 0, draws = 0, uuid_source = (\<lambda>n. n + 10), pg_numeric = (\<lambda>p s d. Some d), advisory = []\<rparr>"

lemma abandoned_db_ok: "db_ok abandoned_db"
  by (simp add: db_ok_def jobs_ok_def job_ok_def abandoned_db_def running_job_def example_job_def refs_ok_def
      shipments_ok_def idempotency_keys_def ck_failure_reason_terminal_def)

section \<open>Properties\<close>

text \<open>
  The recovery keeps the database under interference and faults: jobs only move along their
  life cycle (the recovery itself requeues a running job that has attempts left and fails one
  that has none), rows stay well formed, and intents stay deliverable.
\<close>

theorem recover_stale_imports_keeps:
  assumes "db_ok (committed w)" "working w = committed w" "0 < m"
    and "\<forall>r \<in> set (db_outbox (committed w)). deliverable m r"
    and "\<forall>e \<in> set (script w). sound_intents m (insert Recover (insert Expire labels)) (ev_others e)"
  shows "let db = committed (snd (recover_stale_imports s n w)) in
    tracks (insert Recover (insert Expire labels)) (committed w) db \<and> (\<forall>r \<in> set (db_outbox db). deliverable m r)"
proof -
  have m: "max 1 m = m" using assms(3) by simp
  have "holds (delivers m (insert Recover (insert Expire labels)) (committed w)) (\<lambda>_. True) w"
    by (rule delivers_holds [OF assms(1,4,5,2)])
  then have "holds (delivers m (insert Recover (insert Expire labels)) (committed w)) (\<lambda>_. True)
      (snd (recover_stale_imports s n w))"
    using recovering.keeps_recover_stale_imports [of m labels "committed w"] unfolding m keeps_def by blast
  then show ?thesis by (simp add: holds_def deliverable.intents_ok_def Let_def)
qed

theorem recover_stale_imports_keeps_witness:
  "tracks {Recover, Expire} abandoned_db (committed (snd (recover_stale_imports default_settings 2 watchdog_world)))"
proof -
  have "let db = committed (snd (recover_stale_imports default_settings 2 watchdog_world)) in
    tracks (insert Recover (insert Expire {})) (committed watchdog_world) db \<and> (\<forall>r \<in> set (db_outbox db). deliverable 5 r)"
    by (rule recover_stale_imports_keeps) (simp_all add: watchdog_world_def abandoned_db_ok, simp add: abandoned_db_def)
  then show ?thesis by (simp add: Let_def watchdog_world_def)
qed

lemma add_seconds_back: "datetime_ok (t - seconds n) \<Longrightarrow> add_seconds t (- n) = Inr (t - seconds n)"
  by (simp add: add_seconds_def seconds_def)

lemma recover_stale_imports_quiet:
  assumes "script w = []" "db_ok (committed w)" "jobs_stored (committed w)"
    and "fresh_ids (\<lambda>k. uuid_source w (draws w + k)) (committed w)"
    and "stale = stale_imports (\<lambda>_. False) n (clock w - seconds (set_processing_stale_timeout_seconds s)) (db_jobs (committed w))"
    and "datetime_ok (clock w - seconds (set_processing_stale_timeout_seconds s))"
  shows "\<exists>w'. recover_stale_imports s n w = (Inr (length stale), w') \<and>
    committed w' = recovery_round (\<lambda>k. uuid_source w (draws w + k)) (clock w) stale (committed w)"
  using flush_recovery_stored [OF assms(2-5)] assms(1) assms(5) [symmetric] add_seconds_back [OF assms(6)]
  by (simp add: recover_stale_imports_def recover_batch_def Let_def bindE_def gets_def with_tx_def begin_tx_def
      statement_def quiet_def modify_def ret_def commit_quiet)

text \<open>
  C19. A recovery when nothing interferes (and the timeout does not reach back before the year 1): of the jobs whose last heartbeat is older than the timeout,
  the oldest first and at most a batch, those without attempts left become FAILED, the others go
  back to PENDING without token, owner or heartbeat, each with one new PENDING intent that is
  due at once. Every other job and intent is as before, and the result is the number of jobs
  recovered.
\<close>

theorem recover_stale_imports_round:
  assumes "script w = []" "db_ok (committed w)" "jobs_stored (committed w)"
    and "fresh_ids (\<lambda>k. uuid_source w (draws w + k)) (committed w)"
    and "stale = stale_imports (\<lambda>_. False) n (clock w - seconds (set_processing_stale_timeout_seconds s)) (db_jobs (committed w))"
    and "datetime_ok (clock w - seconds (set_processing_stale_timeout_seconds s))"
  shows "\<exists>w'. recover_stale_imports s n w = (Inr (length stale), w') \<and>
    committed w' = recovery_round (\<lambda>k. uuid_source w (draws w + k)) (clock w) stale (committed w)"
  by (rule recover_stale_imports_quiet [OF assms])

theorem recover_stale_imports_round_witness:
  "\<exists>w'. recover_stale_imports default_settings 5 watchdog_world = (Inr 2, w') \<and>
     map job_status (db_jobs (committed w')) = [ImportPENDING, ImportFAILED, ImportPROCESSING] \<and>
     map ob_import_id (db_outbox (committed w')) = [1]"
proof -
  let ?stale = "stale_imports (\<lambda>_. False) 5 (clock watchdog_world - seconds (set_processing_stale_timeout_seconds default_settings))
    (db_jobs (committed watchdog_world))"
  let ?ids = "\<lambda>k. uuid_source watchdog_world (draws watchdog_world + k)"
  have "\<exists>w'. recover_stale_imports default_settings 5 watchdog_world = (Inr (length ?stale), w') \<and>
    committed w' = recovery_round ?ids (clock watchdog_world) ?stale (committed watchdog_world)"
  proof (rule recover_stale_imports_round)
    show "jobs_stored (committed watchdog_world)" by code_simp
    show "fresh_ids ?ids (committed watchdog_world)"
      by (simp add: fresh_ids_def watchdog_world_def abandoned_db_def inj_def)
    show "datetime_ok (clock watchdog_world - seconds (set_processing_stale_timeout_seconds default_settings))" by code_simp
  qed (simp_all add: watchdog_world_def abandoned_db_ok)
  moreover have "length ?stale = 2"
    "map job_status (db_jobs (recovery_round ?ids (clock watchdog_world) ?stale (committed watchdog_world))) =
       [ImportPENDING, ImportFAILED, ImportPROCESSING]"
    "map ob_import_id (db_outbox (recovery_round ?ids (clock watchdog_world) ?stale (committed watchdog_world))) = [1]"
    by code_simp+
  ultimately show ?thesis by auto
qed

text \<open>
  C20. The watchdog leaves nothing behind: when at most a batch of jobs is stale, the cutoff is a
  valid date and nothing interferes, after the recovery no job is stale any more.
\<close>

theorem recover_stale_imports_complete:
  assumes "script w = []" "db_ok (committed w)" "jobs_stored (committed w)"
    and "fresh_ids (\<lambda>k. uuid_source w (draws w + k)) (committed w)"
    and "before = clock w - seconds (set_processing_stale_timeout_seconds s)" "datetime_ok before"
    and "sql_count (\<lambda>j. job_status j = ImportPROCESSING \<and>
      (case job_last_heartbeat_at j of Some t \<Rightarrow> t < before | None \<Rightarrow> False)) (db_jobs (committed w)) \<le> nat n"
  shows "stale_imports (\<lambda>_. False) k before (db_jobs (committed (snd (recover_stale_imports s n w)))) = []"
proof -
  let ?stale = "stale_imports (\<lambda>_. False) n before (db_jobs (committed w))"
  let ?old = "\<lambda>j. job_status j = ImportPROCESSING \<and>
      (case job_last_heartbeat_at j of Some t \<Rightarrow> t < before | None \<Rightarrow> False)"
  have "flush_recovery (\<lambda>k. uuid_source w (draws w + k)) (clock w) (clock w) ?stale (committed w) =
      Inr (recovery_round (\<lambda>k. uuid_source w (draws w + k)) (clock w) ?stale (committed w))"
    by (rule flush_recovery_stored [OF assms(2-4) refl])
  then have run: "db_jobs (committed (snd (recover_stale_imports s n w))) =
      map (\<lambda>j. if j \<in> set ?stale then (recovered (clock w) j)\<lparr>job_updated_at := clock w\<rparr> else j) (db_jobs (committed w))"
    using assms(1) add_seconds_back [OF assms(6) [unfolded assms(5)]]
    by (simp add: recover_stale_imports_def recover_batch_def Let_def bindE_def gets_def with_tx_def
        begin_tx_def statement_def quiet_def modify_def ret_def commit_quiet recovery_round_def assms(5))
  have all: "j \<in> set ?stale" if "j \<in> set (db_jobs (committed w))" "?old j" for j
    using that assms(7) by (auto simp: stale_imports_def order_limit_def sql_count_def)
  have "\<not> ?old ((recovered (clock w) j)\<lparr>job_updated_at := clock w\<rparr>)" for j
    by (simp add: recovered_def mark_stale_failed_def requeue_stale_def)
  then have "filter ?old (db_jobs (committed (snd (recover_stale_imports s n w)))) = []"
    unfolding run using all by (auto simp: filter_empty_conv)
  then show ?thesis by (simp add: stale_imports_def order_limit_def)
qed

theorem recover_stale_imports_complete_witness:
  "stale_imports (\<lambda>_. False) 9 (seconds 200) (db_jobs (committed (snd (recover_stale_imports default_settings 2 watchdog_world)))) = []"
proof (rule recover_stale_imports_complete)
  show "jobs_stored (committed watchdog_world)" by code_simp
  show "fresh_ids (\<lambda>k. uuid_source watchdog_world (draws watchdog_world + k)) (committed watchdog_world)"
    by (simp add: fresh_ids_def watchdog_world_def abandoned_db_def inj_def)
  show "datetime_ok (seconds 200)" by code_simp
  show "seconds 200 = clock watchdog_world - seconds (set_processing_stale_timeout_seconds default_settings)" by code_simp
  show "sql_count (\<lambda>j. job_status j = ImportPROCESSING \<and>
      (case job_last_heartbeat_at j of Some t \<Rightarrow> t < seconds 200 | None \<Rightarrow> False)) (db_jobs (committed watchdog_world)) \<le> nat 2"
    by code_simp
qed (simp_all add: watchdog_world_def abandoned_db_ok)

end
