(* ===== verification/Create_Import.thy ===== *)
theory Create_Import
  imports Recovery_Safety
begin

text \<open>
  The creation of an import: CreateImportService (app/imports/services/create_import.py). The
  session begins a transaction with its first statement, and again with the first statement
  after a commit or a rollback; leaving the \<^verbatim>\<open>with\<close> block closes the session, which rolls back
  what is open.
\<close>

section \<open>The service\<close>

record import_created_result =
  cr_import_id :: uuid
  cr_status :: string
  cr_created_at :: timestamp

record import_create_outcome =
  co_result :: import_created_result
  co_created :: bool

text \<open>\<^verbatim>\<open>with session_factory() as session: body\<close>\<close>

definition with_session :: "('z world_scheme, 'a) action \<Rightarrow> ('z world_scheme, 'a) action" where
  "with_session body w = (case bindE begin_tx (\<lambda>_. body) w of (r, w1) \<Rightarrow> (r, rollback w1))"

text \<open>The new ORM object; the flush fills its key and the server its timestamps.\<close>

definition new_import_job ::
  "settings \<Rightarrow> string \<Rightarrow> string \<Rightarrow> int \<Rightarrow> string option \<Rightarrow> string option \<Rightarrow> string \<Rightarrow> import_job" where
  "new_import_job s original_file_name stored_file_path file_size_bytes content_type idempotency_key
       idempotency_fingerprint =
     \<lparr>job_id = 0, job_status = ImportPENDING, job_original_file_name = original_file_name,
      job_stored_file_path = stored_file_path, job_file_size_bytes = file_size_bytes,
      job_content_type = content_type, job_idempotency_key = idempotency_key,
      job_idempotency_fingerprint = idempotency_fingerprint, job_total_rows = 0, job_processed_rows = 0,
      job_success_count = 0, job_failed_count = 0, job_attempt_count = 0,
      job_max_attempts = set_import_max_attempts s, job_processing_token = None,
      job_locked_by_worker = None, job_started_at = None, job_last_heartbeat_at = None,
      job_finished_at = None, job_last_failure_reason = None, job_failure_reason = None,
      job_last_requeued_at = None, job_created_at = 0, job_updated_at = 0\<rparr>"

text \<open>An import that already has the key: the same upload is returned again, another one refused.\<close>

definition existing_outcome ::
  "import_snapshot \<Rightarrow> string \<Rightarrow> ('z world_scheme, import_create_outcome) action" where
  "existing_outcome existing idempotency_fingerprint =
     (if snap_fingerprint existing \<noteq> idempotency_fingerprint
      then throw (IdempotencyConflictError ''Idempotency key already exists for a different upload.'')
      else ret \<lparr>co_result = \<lparr>cr_import_id = snap_import_id existing, cr_status = snap_status existing,
             cr_created_at = snap_created_at existing\<rparr>, co_created = False\<rparr>)"

definition insert_records :: "import_job \<Rightarrow> ('z world_scheme, uuid) action" where
  "insert_records job =
     bindE (create_import_job job) (\<lambda>import_id.
     bindE (create_dispatch_intent import_id) (\<lambda>_.
     bindE commit (\<lambda>_. ret import_id)))"

definition write_failed :: exn where
  "write_failed = DatabaseWriteError ''Failed to persist import records.''"

text \<open>The \<^verbatim>\<open>except\<close> clauses around the insertion.\<close>

definition insert_failed ::
  "string option \<Rightarrow> string \<Rightarrow> exn \<Rightarrow> ('z world_scheme, import_create_outcome) action" where
  "insert_failed idempotency_key idempotency_fingerprint e =
     (if e = SqlError IntegrityError
      then bindE (modify rollback) (\<lambda>_.
        case idempotency_key of
          None \<Rightarrow> throw write_failed
        | Some key \<Rightarrow>
            bindE begin_tx (\<lambda>_.
            bindE (get_snapshot_by_idempotency_key key) (\<lambda>existing.
              case existing of
                None \<Rightarrow> throw write_failed
              | Some snap \<Rightarrow> existing_outcome snap idempotency_fingerprint)))
      else if is_sql_error e then bindE (modify rollback) (\<lambda>_. throw write_failed)
      else throw e)"

text \<open>\<^verbatim>\<open>session.refresh\<close>: the row is read again, in a new transaction.\<close>

definition refresh_job :: "uuid \<Rightarrow> ('z world_scheme, import_job) action" where
  "refresh_job import_id =
     bindE begin_tx (\<lambda>_.
     bindE (query (\<lambda>db. List.find (\<lambda>j. job_id j = import_id) (db_jobs db))) (\<lambda>row.
       case row of None \<Rightarrow> throw (SqlError OtherSQLAlchemyError) | Some j \<Rightarrow> ret j))"

definition persist_import ::
  "import_job \<Rightarrow> string option \<Rightarrow> string \<Rightarrow> ('z world_scheme, import_create_outcome) action" where
  "persist_import job idempotency_key idempotency_fingerprint =
     bindE (try_except (bindE (insert_records job) (\<lambda>import_id. ret (Inl import_id)))
              (\<lambda>e. bindE (insert_failed idempotency_key idempotency_fingerprint e) (\<lambda>outcome. ret (Inr outcome))))
       (\<lambda>inserted. case inserted of
          Inr outcome \<Rightarrow> ret outcome
        | Inl import_id \<Rightarrow> bindE (refresh_job import_id) (\<lambda>j.
            ret \<lparr>co_result = \<lparr>cr_import_id = job_id j, cr_status = import_status_str (job_status j),
                   cr_created_at = job_created_at j\<rparr>, co_created = True\<rparr>))"

definition create_new_import ::
  "import_job \<Rightarrow> string option \<Rightarrow> string \<Rightarrow> ('z world_scheme, import_create_outcome) action" where
  "create_new_import job idempotency_key idempotency_fingerprint =
     bindE (get_snapshot_by_fingerprint idempotency_fingerprint) (\<lambda>existing.
       case existing of
         Some snap \<Rightarrow> throw (DuplicateImportError snap)
       | None \<Rightarrow> persist_import job idempotency_key idempotency_fingerprint)"

definition create_import ::
  "settings \<Rightarrow> string \<Rightarrow> string \<Rightarrow> int \<Rightarrow> string option \<Rightarrow> string option \<Rightarrow> string \<Rightarrow>
     ('z world_scheme, import_create_outcome) action" where
  "create_import s original_file_name stored_file_path file_size_bytes content_type idempotency_key
       idempotency_fingerprint =
     (let job = new_import_job s original_file_name stored_file_path file_size_bytes content_type
            idempotency_key idempotency_fingerprint
      in with_session
        (bindE (acquire_fingerprint_lock idempotency_fingerprint) (\<lambda>_.
         bindE (case idempotency_key of None \<Rightarrow> ret None | Some key \<Rightarrow> get_snapshot_by_idempotency_key key) (\<lambda>existing.
           case existing of
             Some snap \<Rightarrow> existing_outcome snap idempotency_fingerprint
           | None \<Rightarrow> create_new_import job idempotency_key idempotency_fingerprint))))"

section \<open>What it keeps\<close>

lemma keeps_with_session [keeps_intro]:
  assumes "keeps I L body" shows "keeps I L (with_session body)"
proof -
  have "keeps I L (bindE begin_tx (\<lambda>_. body))" by (intro keeps_intro assms)
  then show ?thesis
    unfolding keeps_def with_session_def by (auto split: prod.split intro: holds_rollback simp: prod.case_eq_if)
qed

lemma keeps_existing_outcome [keeps_intro]: "keeps I L (existing_outcome snap fp)"
  unfolding existing_outcome_def by (intro keeps_intro)

lemma keeps_snapshots [keeps_intro]:
  "keeps I L (get_snapshot_by_idempotency_key k)" "keeps I L (get_snapshot_by_fingerprint fp)"
  unfolding get_snapshot_by_idempotency_key_def get_snapshot_by_fingerprint_def
  by (rule keeps_statement; auto simp: map_sum_def split: sum.splits)+

lemma keeps_insert_failed [keeps_intro]: "keeps I L (insert_failed k fp e)"
  unfolding insert_failed_def by (intro keeps_intro) (erule holds_rollback)+

lemma keeps_refresh_job [keeps_intro]: "keeps I L (refresh_job i)"
  unfolding refresh_job_def by (intro keeps_intro)

text \<open>
  The insertion is the only write. The invariant has to accept a new job \<open>j\<close>, and the
  intent of an import that exists.
\<close>

lemma keeps_create_import:
  assumes "\<And>now i db db'. I db \<Longrightarrow>
      insert_job (new_import_job s ofn path sz ct key fp\<lparr>job_id := i, job_created_at := now, job_updated_at := now\<rparr>) db
        = Inr db' \<Longrightarrow> I db'"
    and "\<And>now x i db db'. I db \<Longrightarrow> insert_outbox (new_dispatch_row x i now now) db = Inr db' \<Longrightarrow> I db'"
  shows "keeps I L (create_import s ofn path sz ct key fp)"
proof -
  have "keeps I L (insert_records (new_import_job s ofn path sz ct key fp))"
    unfolding insert_records_def create_import_job_def create_dispatch_intent_def
    by (intro keeps_intro keeps_statement) (auto simp: map_sum_def split: sum.splits intro: assms)
  then show ?thesis
    unfolding create_import_def create_new_import_def persist_import_def acquire_fingerprint_lock_def Let_def
    by (intro keeps_intro)
qed

lemma new_import_job_ok:
  "0 < set_import_max_attempts s \<Longrightarrow>
     job_ok (new_import_job s ofn path sz ct key fp\<lparr>job_id := i, job_created_at := now, job_updated_at := now\<rparr>)"
  by (simp add: new_import_job_def job_ok_def ck_failure_reason_terminal_def)

lemma insert_job_Inr: "insert_job j db = Inr db' \<Longrightarrow> db' = db\<lparr>db_jobs := db_jobs db @ [j]\<rparr>"
  by (auto simp: insert_job_def split: option.splits if_splits)

context recovery_invariant
begin

lemma keeps_creation:
  assumes "0 < set_import_max_attempts s"
  shows "keeps I L (create_import s ofn path sz ct key fp)"
proof (rule keeps_create_import)
  fix now i db db'
  let ?j = "new_import_job s ofn path sz ct key fp\<lparr>job_id := i, job_created_at := now, job_updated_at := now\<rparr>"
  assume I: "I db" and ins: "insert_job ?j db = Inr db'"
  have "life_of ?j = Waiting 0" by (simp add: life_of_def new_import_job_def)
  then show "I db'"
    using I_created [OF I insert_job_db_ok [OF I_ok [OF I] ins new_import_job_ok [OF assms]]]
      insert_job_Inr [OF ins] by simp
next
  fix now x i db db'
  assume I: "I db" and ins: "insert_outbox (new_dispatch_row x i now now) db = Inr db'"
  show "I db'"
    by (rule I_insert_outbox [OF I ins _ R_new]) (simp add: outbox_ok_def new_dispatch_row_def)
qed

end

end
