(* ===== verification/Create_Import_Spec.thy ===== *)
theory Create_Import_Spec
  imports Create_Import
begin

text \<open>
  What the creation of an import guarantees: the database stays consistent, the same content is
  never imported twice, and the outcome of every case when nothing interferes.
\<close>

section \<open>One job per content\<close>

definition fingerprints :: "database \<Rightarrow> string set" where
  "fingerprints db = set (map job_idempotency_fingerprint (db_jobs db))"

definition unique_content :: "database \<Rightarrow> bool" where
  "unique_content db \<longleftrightarrow> distinct (map job_idempotency_fingerprint (db_jobs db))"

text \<open>
  The convention of the code: who adds a job holds the advisory lock on its fingerprint when it
  commits. Nothing is said about when the others do so: that they wait is the lock's doing.
\<close>

definition takes_lock :: "string \<Rightarrow> event \<Rightarrow> bool" where
  "takes_lock fp e \<longleftrightarrow> (\<forall>db. unique_content db \<longrightarrow> unique_content (ev_others e db)) \<and>
     (ev_holds e = Some fp \<or> (\<forall>db. fp \<notin> fingerprints db \<longrightarrow> fp \<notin> fingerprints (ev_others e db)))"

lemma others_locked:
  "takes_lock fp e \<Longrightarrow> fp \<in> set locks \<Longrightarrow> fp \<notin> fingerprints db \<Longrightarrow> fp \<notin> fingerprints (others e locks db)"
  by (auto simp: takes_lock_def others_def split: option.split)

definition ensures :: "('s \<Rightarrow> bool) \<Rightarrow> ('s \<Rightarrow> bool) \<Rightarrow> ('s, 'a) action \<Rightarrow> bool" where
  "ensures P Q m \<longleftrightarrow> (\<forall>w. P w \<longrightarrow> Q (snd (m w)))"

lemma ensures_bindE: "ensures P Q m \<Longrightarrow> (\<And>x. ensures Q Q (f x)) \<Longrightarrow> ensures P Q (bindE m f)"
  unfolding ensures_def bindE_def by (fastforce split: prod.splits sum.splits)

lemma ensures_try_except: "ensures P Q m \<Longrightarrow> (\<And>e. ensures Q Q (h e)) \<Longrightarrow> ensures P Q (try_except m h)"
  unfolding ensures_def try_except_def by (fastforce split: prod.splits sum.splits)

lemma ensures_keeps: "keeps I L m \<Longrightarrow> ensures (holds I L) (holds I L) m"
  by (simp add: ensures_def keeps_def)

text \<open>The content is not there, and stays away while the lock is held.\<close>

definition unshared :: "string \<Rightarrow> 'z world_scheme \<Rightarrow> bool" where
  "unshared fp w \<longleftrightarrow> fp \<notin> fingerprints (working w) \<and> fp \<in> set (advisory w) \<and> (\<forall>e \<in> set (script w). takes_lock fp e)"

lemma unshared_advance: "unshared fp w \<Longrightarrow> unshared fp (advance w)"
  by (cases "script w") (auto simp: unshared_def advance_def next_event_def Let_def others_locked)

abbreviation shared :: "'z world_scheme \<Rightarrow> bool" where
  "shared \<equiv> holds unique_content (\<lambda>_. True)"

lemma insert_job_unique:
  "unique_content db \<Longrightarrow> job_idempotency_fingerprint j \<notin> fingerprints db \<Longrightarrow> insert_job j db = Inr db' \<Longrightarrow>
     unique_content db'"
  by (auto simp: unique_content_def fingerprints_def dest!: insert_job_Inr)

lemma insert_outbox_unique:
  "unique_content db \<Longrightarrow> insert_outbox r db = Inr db' \<Longrightarrow> unique_content db'"
  by (auto simp: unique_content_def insert_outbox_def split: if_splits)

lemma ensures_create_import_job:
  fixes job :: import_job
  assumes "job_idempotency_fingerprint job = fp"
  shows "ensures (\<lambda>w. shared w \<and> unshared fp w) shared (create_import_job job :: ('z world_scheme, uuid) action)"
  unfolding ensures_def
proof (intro allI impI)
  fix w :: "'z world_scheme" assume w: "shared w \<and> unshared fp w"
  let ?w = "w\<lparr>draws := Suc (draws w)\<rparr>"
  have "shared ?w" "unshared fp ?w" using w by (simp_all add: holds_def rely_def unshared_def)
  then have adv: "shared (advance ?w)" "unshared fp (advance ?w)" by (simp_all add: holds_advance unshared_advance)
  show "shared (snd (create_import_job job w))"
  proof (cases "insert_job (job\<lparr>job_id := uuid_source w (draws w), job_created_at := tx_time (advance ?w),
      job_updated_at := tx_time (advance ?w)\<rparr>) (working (advance ?w))")
    case (Inl e)
    then show ?thesis
      using adv(1) by (simp add: create_import_job_def bindE_def uuid4_def statement_def Let_def split: option.split)
  next
    case (Inr db)
    have "unique_content db"
      using insert_job_unique [OF _ _ Inr] adv assms by (simp add: holds_def unshared_def)
    with Inr show ?thesis
      using adv(1) by (simp add: create_import_job_def bindE_def uuid4_def statement_def Let_def ret_def holds_def rely_def
          split: option.split)
  qed
qed

lemma ensures_persist_import:
  assumes "job_idempotency_fingerprint job = fp"
  shows "ensures (\<lambda>w. shared w \<and> unshared fp w) shared (persist_import job k fp)"
  unfolding persist_import_def insert_records_def
proof (intro ensures_bindE ensures_try_except ensures_create_import_job assms ensures_keeps)
  show "keeps unique_content L (create_dispatch_intent i)" for L :: "'z \<Rightarrow> bool" and i
    unfolding create_dispatch_intent_def
    by (intro keeps_intro keeps_statement) (auto simp: map_sum_def split: sum.splits intro: insert_outbox_unique)
  show "keeps unique_content L (case r of Inl i \<Rightarrow> bindE (refresh_job i) (\<lambda>j.
      ret \<lparr>co_result = \<lparr>cr_import_id = job_id j, cr_status = import_status_str (job_status j),
        cr_created_at = job_created_at j\<rparr>, co_created = True\<rparr>) | Inr outcome \<Rightarrow> ret outcome)" for L r
    by (intro keeps_intro)
qed (intro keeps_intro)+

text \<open>Nothing written yet: the session sees what is committed; then it holds the lock as well.\<close>

definition clean :: "string \<Rightarrow> 'z world_scheme \<Rightarrow> bool" where
  "clean fp w \<longleftrightarrow> shared w \<and> working w = committed w \<and> (\<forall>e \<in> set (script w). takes_lock fp e)"

definition locked :: "string \<Rightarrow> 'z world_scheme \<Rightarrow> bool" where
  "locked fp w \<longleftrightarrow> clean fp w \<and> fp \<in> set (advisory w)"

lemma clean_advance: "clean fp w \<Longrightarrow> clean fp (advance w)"
  by (cases "script w") (auto simp: clean_def holds_advance, auto simp: advance_def next_event_def Let_def)

lemma locked_advance: "locked fp w \<Longrightarrow> locked fp (advance w)"
  by (simp add: locked_def clean_advance)

lemma clean_shared: "clean fp w \<Longrightarrow> shared w" "locked fp w \<Longrightarrow> shared w"
  by (simp_all add: locked_def clean_def)

lemma locked_unshared: "locked fp w \<Longrightarrow> fp \<notin> fingerprints (working w) \<Longrightarrow> unshared fp w"
  by (simp add: locked_def clean_def unshared_def)

lemma statement_reads:
  fixes w :: "'z world_scheme"
  assumes "\<And>locks now db r db'. f locks now db = Inr (r, db') \<Longrightarrow> db' = db"
  shows "snd (statement f w) = advance w"
proof -
  have same: "(advance w)\<lparr>working := working (advance w)\<rparr> = advance w" by simp
  show ?thesis
    using assms same by (auto simp: statement_def Let_def split: option.split sum.split prod.split)
qed

lemma locked_snapshots:
  "locked fp w \<Longrightarrow> locked fp (snd (get_snapshot_by_idempotency_key k w))"
  "locked fp w \<Longrightarrow> locked fp (snd (get_snapshot_by_fingerprint fp' w))"
  unfolding get_snapshot_by_idempotency_key_def get_snapshot_by_fingerprint_def
  by (subst statement_reads; auto simp: map_sum_def locked_advance split: sum.splits)+

lemma locked_snapshot_run:
  "locked fp w \<Longrightarrow> get_snapshot_by_idempotency_key k w = (r, w') \<Longrightarrow> locked fp w'"
  using locked_snapshots(1) by (metis snd_conv)

text \<open>Taking the lock: afterwards the session has it, unless the statement failed.\<close>

lemma lock_run:
  assumes "clean fp w" "acquire_fingerprint_lock fp w = (r, w1)"
  shows "clean fp w1" "r = Inr x \<Longrightarrow> locked fp w1"
proof -
  let ?s = "statement (\<lambda>_ _ db. Inr ((), db)) w"
  have adv: "clean fp (snd ?s)" using clean_advance [OF assms(1)] by (subst statement_reads) auto
  have w1: "(case fst ?s of Inl e \<Rightarrow> (Inl e, snd ?s) | Inr _ \<Rightarrow> (Inr (), (snd ?s)\<lparr>advisory := fp # advisory (snd ?s)\<rparr>)) = (r, w1)"
    using assms(2) by (simp add: acquire_fingerprint_lock_def advisory_xact_lock_def bindE_def modify_def prod.case_eq_if)
  show c: "clean fp w1"
    using w1 adv by (cases "fst ?s") (auto simp: clean_def holds_def rely_def)
  show "r = Inr x \<Longrightarrow> locked fp w1"
    using w1 c by (cases "fst ?s") (auto simp: locked_def)
qed

lemma one_or_none_None: "one_or_none rows = Inr None \<Longrightarrow> rows = []"
  by (auto simp: one_or_none_def split: list.splits)

lemma snapshot_absent:
  fixes w :: "'z world_scheme"
  assumes "get_snapshot_by_fingerprint fp w = (Inr None, w1)"
  shows "fp \<notin> fingerprints (working w1)"
proof -
  let ?rows = "filter (\<lambda>j. job_idempotency_fingerprint j = fp) (db_jobs (working (advance w)))"
  have "one_or_none (order_limit (\<lambda>j. (- job_created_at j, - int (job_id j))) 1 ?rows) = Inr None"
    and w1: "working w1 = working (advance w)"
    using assms by (auto simp: get_snapshot_by_fingerprint_def statement_def Let_def map_sum_def
        split: option.splits sum.splits)
  then have "take 1 (sort_key (\<lambda>j. (- job_created_at j, - int (job_id j))) ?rows) = []"
    unfolding order_limit_def by (intro one_or_none_None)
  then have "?rows = []" by (metis length_0_conv length_sort take_eq_Nil zero_neq_one)
  then show ?thesis by (auto simp: fingerprints_def w1 filter_empty_conv)
qed

lemma create_new_import_unique:
  assumes "locked fp w" "job_idempotency_fingerprint job = fp"
  shows "shared (snd (create_new_import job k fp w))"
proof -
  obtain r w1 where run: "get_snapshot_by_fingerprint fp w = (r, w1)" by fastforce
  have c1: "locked fp w1" using locked_snapshots(2) [OF assms(1), of fp] run by simp
  show ?thesis
  proof (cases "r = Inr None")
    case True
    then have "unshared fp w1" using locked_unshared [OF c1] snapshot_absent run by blast
    then have "shared (snd (persist_import job k fp w1))"
      using ensures_persist_import [OF assms(2)] clean_shared(2) [OF c1] unfolding ensures_def by blast
    with True run show ?thesis by (simp add: create_new_import_def bindE_def)
  next
    case False
    then show ?thesis
      using run clean_shared(2) [OF c1]
      by (auto simp: create_new_import_def bindE_def throw_def split: sum.split option.split)
  qed
qed

lemma create_import_shared:
  fixes w :: "'z world_scheme"
  assumes "clean fp w"
  shows "shared (snd (create_import s ofn path sz ct key fp w))"
proof -
  let ?job = "new_import_job s ofn path sz ct key fp" and ?w0 = "w\<lparr>working := committed w, tx_time := clock w\<rparr>"
  have fp: "job_idempotency_fingerprint ?job = fp" by (simp add: new_import_job_def)
  have c0: "clean fp ?w0" using assms by (auto simp: clean_def holds_def rely_def)
  obtain r1 w1 where lock: "acquire_fingerprint_lock fp ?w0 = (r1, w1)" by fastforce
  have c1: "clean fp w1" and l1: "r1 = Inr () \<Longrightarrow> locked fp w1" using lock_run [OF c0 lock] by blast+
  let ?look = "case key of None \<Rightarrow> ret None | Some k \<Rightarrow> get_snapshot_by_idempotency_key k"
  let ?next = "\<lambda>existing. case existing of Some snap \<Rightarrow> existing_outcome snap fp
      | None \<Rightarrow> create_new_import ?job key fp"
  have "shared (snd (bindE ?look ?next w1))" if "r1 = Inr ()"
  proof -
    obtain r2 w2 where look: "?look w1 = (r2, w2)" by fastforce
    have l2: "locked fp w2"
      using look l1 [OF that] by (cases key) (auto simp: ret_def dest: locked_snapshot_run [OF l1 [OF that]])
    have "shared (snd (?next existing w2))" for existing
    proof (cases existing)
      case None
      then show ?thesis using create_new_import_unique [OF l2 fp] by simp
    next
      case (Some snap)
      have "keeps unique_content (\<lambda>_. True) (existing_outcome snap fp :: ('z world_scheme, import_create_outcome) action)" by (rule keeps_existing_outcome)
      then show ?thesis using clean_shared(2) [OF l2] Some by (simp add: keeps_def)
    qed
    then show ?thesis using look clean_shared(2) [OF l2] by (auto simp: bindE_def split: sum.split)
  qed
  then have "shared (snd (bindE (acquire_fingerprint_lock fp) (\<lambda>_. bindE ?look ?next) ?w0))"
    using lock clean_shared(1) [OF c1] by (auto simp: bindE_def [of "acquire_fingerprint_lock fp"] split: sum.split)
  then show ?thesis
    by (auto simp: create_import_def Let_def with_session_def bindE_def [of begin_tx] begin_tx_def
        intro!: holds_rollback split: prod.split dest: arg_cong [where f = snd])
qed

section \<open>Without interference\<close>

text \<open>The job that has the key, and the newest job that has the content.\<close>

definition keyed_job :: "string option \<Rightarrow> database \<Rightarrow> import_job option" where
  "keyed_job key db = (case key of None \<Rightarrow> None
     | Some k \<Rightarrow> List.find (\<lambda>j. job_idempotency_key j = Some k) (db_jobs db))"

definition newest_job :: "string \<Rightarrow> database \<Rightarrow> import_job option" where
  "newest_job fp db = (case order_limit (\<lambda>j. (- job_created_at j, - int (job_id j))) 1
       (filter (\<lambda>j. job_idempotency_fingerprint j = fp) (db_jobs db)) of
     [] \<Rightarrow> None | j # _ \<Rightarrow> Some j)"

definition result_of :: "import_job \<Rightarrow> bool \<Rightarrow> import_create_outcome" where
  "result_of j created = \<lparr>co_result = \<lparr>cr_import_id = job_id j, cr_status = import_status_str (job_status j),
     cr_created_at = job_created_at j\<rparr>, co_created = created\<rparr>"

text \<open>The outcome and the database afterwards: \<open>i\<close> and \<open>x\<close> are the keys drawn.\<close>

definition create_outcome ::
  "import_job \<Rightarrow> string option \<Rightarrow> string \<Rightarrow> uuid \<Rightarrow> uuid \<Rightarrow> timestamp \<Rightarrow> database \<Rightarrow>
     (exn + import_create_outcome) \<times> database" where
  "create_outcome job key fp i x now db =
     (case keyed_job key db of
        Some j \<Rightarrow>
          (if job_idempotency_fingerprint j = fp then Inr (result_of j False)
           else Inl (IdempotencyConflictError ''Idempotency key already exists for a different upload.''), db)
      | None \<Rightarrow>
          (case newest_job fp db of
             Some j \<Rightarrow> (Inl (DuplicateImportError (snapshot_of j)), db)
           | None \<Rightarrow>
               if job_constraints job \<noteq> None then (Inl write_failed, db)
               else let j = job\<lparr>job_id := i, job_created_at := now, job_updated_at := now\<rparr>
                    in (Inr (result_of j True),
                        db\<lparr>db_jobs := db_jobs db @ [j], db_outbox := db_outbox db @ [new_dispatch_row x i now now]\<rparr>)))"

lemma find_snoc: "\<forall>x \<in> set xs. \<not> P x \<Longrightarrow> P y \<Longrightarrow> List.find P (xs @ [y]) = Some y"
  by (induction xs) auto

lemma filter_distinct_find:
  "distinct (filter P (map f xs)) \<Longrightarrow> P (f y) \<Longrightarrow>
     filter (\<lambda>x. f x = f y) xs = (case List.find (\<lambda>x. f x = f y) xs of None \<Rightarrow> [] | Some x \<Rightarrow> [x])"
proof (induction xs)
  case (Cons x xs)
  show ?case
  proof (cases "f x = f y")
    case True
    then have "filter (\<lambda>z. f z = f y) xs = []"
      using Cons.prems by (auto simp: filter_empty_conv image_iff)
    then show ?thesis using True by simp
  next
    case False
    then show ?thesis using Cons by (auto split: if_splits)
  qed
qed simp

lemma keyed_rows:
  assumes "db_ok db"
  shows "one_or_none (filter (\<lambda>j. job_idempotency_key j = Some k) (db_jobs db)) = Inr (keyed_job (Some k) db)"
proof (cases "\<exists>j \<in> set (db_jobs db). job_idempotency_key j = Some k")
  case True
  then obtain j :: import_job where j: "job_idempotency_key j = Some k" by blast
  have "distinct (filter (\<lambda>k. k \<noteq> None) (map job_idempotency_key (db_jobs db)))"
    using assms by (simp add: db_ok_def jobs_ok_def idempotency_keys_def)
  from filter_distinct_find [OF this, of j] j show ?thesis
    by (simp add: keyed_job_def one_or_none_def split: option.split)
next
  case False
  then have "filter (\<lambda>j. job_idempotency_key j = Some k) (db_jobs db) = []"
    "List.find (\<lambda>j. job_idempotency_key j = Some k) (db_jobs db) = None"
    by (auto simp: filter_empty_conv find_None_iff)
  then show ?thesis by (simp add: keyed_job_def one_or_none_def)
qed

lemma keyed_quiet:
  "script w = [] \<Longrightarrow> db_ok (working w) \<Longrightarrow>
     (case key of None \<Rightarrow> ret None | Some k \<Rightarrow> get_snapshot_by_idempotency_key k) w =
       (Inr (map_option snapshot_of (keyed_job key (working w))), w)"
  by (cases key) (simp_all add: ret_def keyed_job_def [of None] get_snapshot_by_idempotency_key_def
      statement_def quiet_def keyed_rows)

lemma newest_quiet:
  "script w = [] \<Longrightarrow> get_snapshot_by_fingerprint fp w = (Inr (map_option snapshot_of (newest_job fp (working w))), w)"
proof -
  assume w: "script w = []"
  let ?rows = "order_limit (\<lambda>j. (- job_created_at j, - int (job_id j))) 1
       (filter (\<lambda>j. job_idempotency_fingerprint j = fp) (db_jobs (working w)))"
  have "length ?rows \<le> 1" by (simp add: order_limit_def)
  then have "one_or_none ?rows = Inr (newest_job fp (working w))"
    by (auto simp: one_or_none_def newest_job_def split: list.split)
  then show ?thesis
    using w by (simp add: get_snapshot_by_fingerprint_def statement_def quiet_def)
qed

section \<open>Properties\<close>

text \<open>
  C21. The same content is imported at most once: if no two jobs have the same fingerprint, then none
  have after a creation, whatever fails and whatever other sessions commit at any moment, as long
  as each of them that adds a job with this content does so under the advisory lock on it. That
  no such commit falls between the creation's lookup and its own commit is what the lock
  the creation takes first, and holds until its transaction ends, brings about.
\<close>

theorem create_import_unique_content:
  assumes "unique_content (committed w)" "working w = committed w"
    and "\<forall>e \<in> set (script w). takes_lock fp e"
  shows "unique_content (committed (snd (create_import s ofn path sz ct key fp w)))"
proof -
  have "clean fp w" using assms by (auto simp: clean_def holds_def rely_def takes_lock_def)
  from create_import_shared [OF this] show ?thesis by (simp add: holds_def)
qed

text \<open>An upload of new content, and one of content that is there already.\<close>

definition upload_world :: world where
  "upload_world = \<lparr>committed = example_db, working = example_db,
     script = [quiet, quiet, quiet\<lparr>ev_elapsed := 3\<rparr>], clock = 100, tx_time = 0, draws = 0,
     uuid_source = (\<lambda>n. n + 10), pg_numeric = (\<lambda>p s d. Some d), advisory = []\<rparr>"

text \<open>
  A rival adds the same content under the lock, if it is not there; its commit is due right after
  this session has looked for the content, and waits.
\<close>

definition rival_upload :: event where
  "rival_upload = quiet\<lparr>ev_holds := Some ''g'', ev_others := (\<lambda>db. if ''g'' \<in> fingerprints db then db
     else db\<lparr>db_jobs := db_jobs db @ [example_job\<lparr>job_id := 77, job_idempotency_fingerprint := ''g''\<rparr>]\<rparr>)\<rparr>"

definition rival_world :: world where
  "rival_world = upload_world\<lparr>script := [quiet, quiet, rival_upload]\<rparr>"

lemma rival_takes_lock: "takes_lock fp quiet" "takes_lock ''g'' rival_upload"
  by (auto simp: takes_lock_def quiet_def rival_upload_def unique_content_def fingerprints_def)

theorem create_import_unique_content_witness:
  "map job_idempotency_fingerprint (db_jobs (committed (snd
     (create_import default_settings ''b.xlsx'' ''/s/b'' 9 None None ''g'' rival_world)))) = [''f'', ''g''] \<and>
   unique_content (committed (snd (create_import default_settings ''b.xlsx'' ''/s/b'' 9 None None ''g'' rival_world)))"
proof
  show "map job_idempotency_fingerprint (db_jobs (committed (snd
     (create_import default_settings ''b.xlsx'' ''/s/b'' 9 None None ''g'' rival_world)))) = [''f'', ''g'']"
    by code_simp
  show "unique_content (committed (snd (create_import default_settings ''b.xlsx'' ''/s/b'' 9 None None ''g'' rival_world)))"
  proof (rule create_import_unique_content)
    show "unique_content (committed rival_world)" "working rival_world = committed rival_world"
      by (simp_all add: rival_world_def upload_world_def unique_content_def example_db_def)
    show "\<forall>e \<in> set (script rival_world). takes_lock ''g'' e" by (simp add: rival_world_def rival_takes_lock)
  qed
qed

lemma persist_import_quiet:
  assumes w: "script w = []" "db_ok (working w)" "committed w = working w" "tx_time w = clock w"
    and fresh: "uuid_source w (draws w) \<notin> set (map job_id (db_jobs (working w)))"
      "uuid_source w (Suc (draws w)) \<notin> set (map ob_id (db_outbox (working w)))"
    and "keyed_job key (working w) = None" "newest_job fp (working w) = None"
    and job: "job_idempotency_key job = key" "job_status job = ImportPENDING" "ck_failure_reason_terminal job"
  shows "(fst (persist_import job key fp w), committed (snd (persist_import job key fp w))) =
    create_outcome job key fp (uuid_source w (draws w)) (uuid_source w (Suc (draws w))) (clock w) (working w)"
proof -
  let ?db = "working w" and ?now = "clock w" and ?i = "uuid_source w (draws w)" and ?x = "uuid_source w (Suc (draws w))"
  let ?j = "job\<lparr>job_id := ?i, job_created_at := ?now, job_updated_at := ?now\<rparr>"
  have same: "job_constraints ?j = job_constraints job"
    by (simp add: job_constraints_def ck_failure_reason_terminal_def)
  have new_key: "\<not> (key \<noteq> None \<and> key \<in> set (map job_idempotency_key (db_jobs ?db)))"
    using assms(7) by (cases key) (auto simp: keyed_job_def find_None_iff)
  show ?thesis
  proof (cases "job_constraints job")
    case None
    have "insert_job ?j ?db = Inr (?db\<lparr>db_jobs := db_jobs ?db @ [?j]\<rparr>)"
      using None same fresh(1) new_key job(1) by (auto simp: insert_job_def)
    moreover have "insert_outbox (new_dispatch_row ?x ?i ?now ?now) (?db\<lparr>db_jobs := db_jobs ?db @ [?j]\<rparr>) =
        Inr (?db\<lparr>db_jobs := db_jobs ?db @ [?j], db_outbox := db_outbox ?db @ [new_dispatch_row ?x ?i ?now ?now]\<rparr>)"
      using fresh(2) by (auto simp: insert_outbox_def new_dispatch_row_def)
    moreover have "List.find (\<lambda>j. job_id j = ?i) (db_jobs ?db @ [?j]) = Some ?j"
      using fresh(1) by (intro find_snoc) (auto simp: image_iff)
    ultimately show ?thesis
      using w None assms(7,8)
      by (simp add: persist_import_def insert_records_def create_import_job_def create_dispatch_intent_def
          bindE_def try_except_def uuid4_def statement_def quiet_def ret_def commit_quiet refresh_job_def begin_tx_def
          query_def create_outcome_def result_of_def Let_def)
  next
    case (Some e)
    then have e: "e = OtherSQLAlchemyError"
      using job(3) by (auto simp: job_constraints_def split: if_splits)
    have "insert_job ?j ?db = Inl e"
      using Some same by (simp add: insert_job_def)
    then show ?thesis
      using w Some e assms(7,8)
      by (simp add: persist_import_def insert_records_def create_import_job_def bindE_def try_except_def uuid4_def
          statement_def quiet_def ret_def create_outcome_def insert_failed_def is_sql_error_def modify_def throw_def)
  qed
qed

lemma existing_outcome_run:
  "existing_outcome (snapshot_of j) fp w =
     (if job_idempotency_fingerprint j = fp then Inr (result_of j False)
      else Inl (IdempotencyConflictError ''Idempotency key already exists for a different upload.''), w)"
  by (simp add: existing_outcome_def snapshot_of_def result_of_def ret_def throw_def)

lemma create_import_quiet:
  assumes w: "script w = []" "db_ok (committed w)"
    and fresh: "uuid_source w (draws w) \<notin> set (map job_id (db_jobs (committed w)))"
      "uuid_source w (Suc (draws w)) \<notin> set (map ob_id (db_outbox (committed w)))"
  shows "(fst (create_import s ofn path sz ct key fp w), committed (snd (create_import s ofn path sz ct key fp w))) =
    create_outcome (new_import_job s ofn path sz ct key fp) key fp (uuid_source w (draws w))
      (uuid_source w (Suc (draws w))) (clock w) (committed w)"
proof -
  let ?job = "new_import_job s ofn path sz ct key fp" and ?begun = "w\<lparr>working := committed w, tx_time := clock w\<rparr>"
  let ?w0 = "?begun\<lparr>advisory := fp # advisory w\<rparr>"
  have lock: "acquire_fingerprint_lock fp ?begun = (Inr (), ?w0)"
    using w by (simp add: acquire_fingerprint_lock_def advisory_xact_lock_def bindE_def modify_def statement_def quiet_def)
  have look: "(case key of None \<Rightarrow> ret None | Some k \<Rightarrow> get_snapshot_by_idempotency_key k) ?w0 =
      (Inr (map_option snapshot_of (keyed_job key (committed w))), ?w0)"
    using keyed_quiet [of ?w0 key] w by simp
  have newest: "get_snapshot_by_fingerprint fp ?w0 = (Inr (map_option snapshot_of (newest_job fp (committed w))), ?w0)"
    using newest_quiet [of ?w0 fp] w by simp
  have run: "create_import s ofn path sz ct key fp w = (let r = (case keyed_job key (committed w) of
      Some j \<Rightarrow> existing_outcome (snapshot_of j) fp ?w0
    | None \<Rightarrow> (case newest_job fp (committed w) of
        Some j \<Rightarrow> (Inl (DuplicateImportError (snapshot_of j)), ?w0)
      | None \<Rightarrow> persist_import ?job key fp ?w0)) in (fst r, rollback (snd r)))"
  proof -
    let ?next = "\<lambda>existing. case existing of Some snap \<Rightarrow> existing_outcome snap fp
      | None \<Rightarrow> create_new_import ?job key fp"
    have "bindE (acquire_fingerprint_lock fp) (\<lambda>_. bindE (case key of None \<Rightarrow> ret None
        | Some k \<Rightarrow> get_snapshot_by_idempotency_key k) ?next) ?begun =
      ?next (map_option snapshot_of (keyed_job key (committed w))) ?w0"
      by (simp only: bindE_def lock look prod.case sum.case)
    moreover have "create_new_import ?job key fp ?w0 = (case newest_job fp (committed w) of
        Some j \<Rightarrow> (Inl (DuplicateImportError (snapshot_of j)), ?w0) | None \<Rightarrow> persist_import ?job key fp ?w0)"
      by (simp add: create_new_import_def bindE_def newest throw_def split: option.split)
    ultimately show ?thesis
      by (simp add: create_import_def Let_def with_session_def bindE_def [of begin_tx] begin_tx_def case_prod_beta
          split: option.split)
  qed
  have job: "job_idempotency_key ?job = key" "job_status ?job = ImportPENDING" "ck_failure_reason_terminal ?job"
    by (simp_all add: new_import_job_def ck_failure_reason_terminal_def)
  show ?thesis
  proof (cases "keyed_job key (committed w)")
    case (Some j)
    then show ?thesis unfolding run Let_def by (simp add: existing_outcome_run create_outcome_def)
  next
    case no_key: None
    show ?thesis
    proof (cases "newest_job fp (committed w)")
      case (Some j)
      with no_key show ?thesis unfolding run Let_def by (simp add: create_outcome_def)
    next
      case None
      then show ?thesis
        unfolding run Let_def
        using persist_import_quiet [of ?w0 key fp ?job] no_key w fresh job by simp
    qed
  qed
qed

text \<open>
  C22. Every outcome of a creation when nothing interferes. An idempotency key that was used before
  gives the import it was used for, or a conflict when the content differs; content that was
  imported before is refused with the newest import that has it; a record that does not fit the
  columns is refused; and otherwise a PENDING job and a PENDING intent for it, due at once, are
  there together and the new import is returned. Only the last case changes the database.
\<close>

theorem create_import_outcome:
  assumes "script w = []" "db_ok (committed w)"
    and "uuid_source w (draws w) \<notin> set (map job_id (db_jobs (committed w)))"
    and "uuid_source w (Suc (draws w)) \<notin> set (map ob_id (db_outbox (committed w)))"
  shows "(fst (create_import s ofn path sz ct key fp w), committed (snd (create_import s ofn path sz ct key fp w))) =
    create_outcome (new_import_job s ofn path sz ct key fp) key fp (uuid_source w (draws w))
      (uuid_source w (Suc (draws w))) (clock w) (committed w)"
  by (rule create_import_quiet [OF assms])

definition calm_world :: world where
  "calm_world = upload_world\<lparr>script := []\<rparr>"

theorem create_import_outcome_witness:
  "fst (create_import default_settings ''b.xlsx'' ''/s/b'' 9 None (Some ''k'') ''g'' calm_world) =
     Inr \<lparr>co_result = \<lparr>cr_import_id = 10, cr_status = ''PENDING'', cr_created_at = 100\<rparr>, co_created = True\<rparr> \<and>
   map job_id (db_jobs (committed (snd (create_import default_settings ''b.xlsx'' ''/s/b'' 9 None (Some ''k'') ''g'' calm_world))))
     = [1, 10]"
proof -
  have "(fst (create_import default_settings ''b.xlsx'' ''/s/b'' 9 None (Some ''k'') ''g'' calm_world),
      committed (snd (create_import default_settings ''b.xlsx'' ''/s/b'' 9 None (Some ''k'') ''g'' calm_world))) =
    create_outcome (new_import_job default_settings ''b.xlsx'' ''/s/b'' 9 None (Some ''k'') ''g'') (Some ''k'') ''g''
      (uuid_source calm_world (draws calm_world)) (uuid_source calm_world (Suc (draws calm_world))) (clock calm_world)
      (committed calm_world)"
    by (rule create_import_outcome)
      (simp_all add: calm_world_def upload_world_def example_db_ok, simp_all add: example_db_def example_job_def)
  moreover have "fst (create_outcome (new_import_job default_settings ''b.xlsx'' ''/s/b'' 9 None (Some ''k'') ''g'') (Some ''k'') ''g''
      (uuid_source calm_world (draws calm_world)) (uuid_source calm_world (Suc (draws calm_world))) (clock calm_world)
      (committed calm_world)) =
    Inr \<lparr>co_result = \<lparr>cr_import_id = 10, cr_status = ''PENDING'', cr_created_at = 100\<rparr>, co_created = True\<rparr>"
    "map job_id (db_jobs (snd (create_outcome (new_import_job default_settings ''b.xlsx'' ''/s/b'' 9 None (Some ''k'') ''g'') (Some ''k'') ''g''
      (uuid_source calm_world (draws calm_world)) (uuid_source calm_world (Suc (draws calm_world))) (clock calm_world)
      (committed calm_world)))) = [1, 10]"
    by code_simp+
  ultimately show ?thesis by (metis fst_conv snd_conv)
qed

text \<open>
  C23. A client that retries an upload under its idempotency key creates nothing twice: after a first
  call returned, a second call with the same key and the same content, under another stored file,
  returns the same import, says that it created nothing, and leaves the database as it is.
\<close>

theorem create_import_retry:
  assumes "script w = []" "db_ok (committed w)" "script w' = []"
    and "uuid_source w (draws w) \<notin> set (map job_id (db_jobs (committed w)))"
    and "uuid_source w (Suc (draws w)) \<notin> set (map ob_id (db_outbox (committed w)))"
    and "uuid_source w' (draws w') \<notin> set (map job_id (db_jobs (committed w')))"
    and "uuid_source w' (Suc (draws w')) \<notin> set (map ob_id (db_outbox (committed w')))"
    and "create_import s ofn path sz ct (Some key) fp w = (Inr first, w1)"
    and "committed w' = committed w1" "db_ok (committed w1)"
  shows "fst (create_import s ofn' path' sz' ct' (Some key) fp w') = Inr \<lparr>co_result = co_result first, co_created = False\<rparr> \<and>
    committed (snd (create_import s ofn' path' sz' ct' (Some key) fp w')) = committed w'"
proof -
  let ?job = "new_import_job s ofn path sz ct (Some key) fp"
  let ?j = "?job\<lparr>job_id := uuid_source w (draws w), job_created_at := clock w, job_updated_at := clock w\<rparr>"
  have out: "create_outcome ?job (Some key) fp (uuid_source w (draws w)) (uuid_source w (Suc (draws w))) (clock w) (committed w)
      = (Inr first, committed w1)"
    using create_import_quiet [OF assms(1,2,4,5), of s ofn path sz ct "Some key" fp] assms(8) by simp
  have "\<exists>j. keyed_job (Some key) (committed w1) = Some j \<and> job_idempotency_fingerprint j = fp \<and>
      co_result (result_of j False) = co_result first"
  proof (cases "keyed_job (Some key) (committed w)")
    case (Some j)
    then show ?thesis using out by (auto simp: create_outcome_def result_of_def split: if_splits)
  next
    case None
    then have first: "first = result_of ?j True" and jobs: "db_jobs (committed w1) = db_jobs (committed w) @ [?j]"
      using out by (auto simp: create_outcome_def Let_def dest: arg_cong [where f = db_jobs] split: option.splits if_splits)
    have "List.find (\<lambda>j. job_idempotency_key j = Some key) (db_jobs (committed w) @ [?j]) = Some ?j"
      using None by (intro find_snoc) (auto simp: keyed_job_def find_None_iff new_import_job_def)
    then have "keyed_job (Some key) (committed w1) = Some ?j" by (simp add: keyed_job_def jobs)
    then show ?thesis by (auto simp: first result_of_def new_import_job_def)
  qed
  then obtain j where j: "keyed_job (Some key) (committed w1) = Some j" "job_idempotency_fingerprint j = fp"
    "co_result (result_of j False) = co_result first" by blast
  have "(fst (create_import s ofn' path' sz' ct' (Some key) fp w'),
      committed (snd (create_import s ofn' path' sz' ct' (Some key) fp w'))) =
    (Inr \<lparr>co_result = co_result first, co_created = False\<rparr>, committed w')"
    using create_import_quiet [OF assms(3) _ assms(6,7), of s ofn' path' sz' ct' "Some key" fp] assms(9,10) j
    by (simp add: create_outcome_def result_of_def)
  then show ?thesis by simp
qed

text \<open>The upload of the example above, and the retry of its client a minute later.\<close>

definition first_upload :: "(exn + import_create_outcome) \<times> world" where
  "first_upload = create_import default_settings ''b.xlsx'' ''/s/b'' 9 None (Some ''k'') ''g'' calm_world"

definition retry_world :: world where
  "retry_world = calm_world\<lparr>committed := committed (snd first_upload), draws := 7, clock := seconds 60\<rparr>"

theorem create_import_retry_witness:
  "fst (create_import default_settings ''b.xlsx'' ''/s/c'' 9 None (Some ''k'') ''g'' retry_world) =
     Inr \<lparr>co_result = \<lparr>cr_import_id = 10, cr_status = ''PENDING'', cr_created_at = 100\<rparr>, co_created = False\<rparr>"
proof -
  let ?first = "\<lparr>co_result = \<lparr>cr_import_id = 10, cr_status = ''PENDING'', cr_created_at = 100\<rparr>, co_created = True\<rparr>"
  have fst: "fst first_upload = Inr ?first" by code_simp
  have out: "(fst first_upload, committed (snd first_upload)) =
    create_outcome (new_import_job default_settings ''b.xlsx'' ''/s/b'' 9 None (Some ''k'') ''g'') (Some ''k'') ''g''
      (uuid_source calm_world (draws calm_world)) (uuid_source calm_world (Suc (draws calm_world))) (clock calm_world)
      (committed calm_world)"
    unfolding first_upload_def
    by (rule create_import_quiet)
      (simp_all add: calm_world_def upload_world_def example_db_ok, simp_all add: example_db_def example_job_def)
  have "snd (create_outcome (new_import_job default_settings ''b.xlsx'' ''/s/b'' 9 None (Some ''k'') ''g'') (Some ''k'') ''g''
      (uuid_source calm_world (draws calm_world)) (uuid_source calm_world (Suc (draws calm_world))) (clock calm_world)
      (committed calm_world)) =
    \<lparr>db_jobs = [example_job, new_import_job default_settings ''b.xlsx'' ''/s/b'' 9 None (Some ''k'') ''g''
        \<lparr>job_id := 10, job_created_at := 100, job_updated_at := 100\<rparr>],
     db_outbox = [new_dispatch_row 11 10 100 100], db_shipments = [], db_errors = []\<rparr>"
    by code_simp
  then have db: "committed (snd first_upload) =
    \<lparr>db_jobs = [example_job, new_import_job default_settings ''b.xlsx'' ''/s/b'' 9 None (Some ''k'') ''g''
        \<lparr>job_id := 10, job_created_at := 100, job_updated_at := 100\<rparr>],
     db_outbox = [new_dispatch_row 11 10 100 100], db_shipments = [], db_errors = []\<rparr>"
    using out by (metis snd_conv)
  have ok: "db_ok (committed (snd first_upload))"
    unfolding db by (simp add: db_ok_def jobs_ok_def job_ok_def example_job_def new_import_job_def refs_ok_def
        shipments_ok_def idempotency_keys_def ck_failure_reason_terminal_def new_dispatch_row_def outbox_ok_def
        default_settings_def)
  have "fst (create_import default_settings ''b.xlsx'' ''/s/c'' 9 None (Some ''k'') ''g'' retry_world) =
      Inr \<lparr>co_result = co_result ?first, co_created = False\<rparr> \<and>
    committed (snd (create_import default_settings ''b.xlsx'' ''/s/c'' 9 None (Some ''k'') ''g'' retry_world)) = committed retry_world"
  proof (rule create_import_retry [of calm_world retry_world])
    show "create_import default_settings ''b.xlsx'' ''/s/b'' 9 None (Some ''k'') ''g'' calm_world = (Inr ?first, snd first_upload)"
      using fst unfolding first_upload_def by (metis prod.collapse)
    show "uuid_source retry_world (draws retry_world) \<notin> set (map job_id (db_jobs (committed retry_world)))"
      "uuid_source retry_world (Suc (draws retry_world)) \<notin> set (map ob_id (db_outbox (committed retry_world)))"
      by (simp_all add: retry_world_def db calm_world_def upload_world_def example_job_def new_import_job_def
          new_dispatch_row_def)
  qed (simp_all add: ok, simp_all add: retry_world_def calm_world_def upload_world_def example_db_ok,
      simp_all add: example_db_def example_job_def)
  then show ?thesis by simp
qed

text \<open>
  A creation keeps the database consistent under interference and faults (also when the commit
  fails although the server applied it): every row is well formed, existing jobs only move along
  their life cycle as the other sessions move them, and the new intent can be delivered.
\<close>

theorem create_import_keeps:
  assumes "db_ok (committed w)" "working w = committed w" "0 < m" "0 < set_import_max_attempts s"
    and "\<forall>r \<in> set (db_outbox (committed w)). deliverable m r"
    and "\<forall>e \<in> set (script w). sound_intents m (insert Recover (insert Expire labels)) (ev_others e)"
  shows "let db = committed (snd (create_import s ofn path sz ct key fp w)) in
    tracks (insert Recover (insert Expire labels)) (committed w) db \<and> (\<forall>r \<in> set (db_outbox db). deliverable m r)"
proof -
  have m: "max 1 m = m" using assms(3) by simp
  have "holds (delivers m (insert Recover (insert Expire labels)) (committed w)) (\<lambda>_. True) w"
    by (rule delivers_holds [OF assms(1,5,6,2)])
  then have "holds (delivers m (insert Recover (insert Expire labels)) (committed w)) (\<lambda>_. True)
      (snd (create_import s ofn path sz ct key fp w))"
    using recovering.keeps_creation [OF assms(4), of m labels "committed w"] unfolding m keeps_def by blast
  then show ?thesis by (simp add: holds_def deliverable.intents_ok_def Let_def)
qed

theorem create_import_keeps_witness:
  "db_ok (committed (snd (create_import default_settings ''b.xlsx'' ''/s/b'' 9 None (Some ''k'') ''g'' upload_world)))"
proof -
  have "sound_intents 5 labels (ev_others e)" if "e \<in> set (script upload_world)" for labels e
    using that quiet_others by (auto simp: upload_world_def quiet_def)
  then have "let db = committed (snd (create_import default_settings ''b.xlsx'' ''/s/b'' 9 None (Some ''k'') ''g'' upload_world)) in
    tracks (insert Recover (insert Expire {})) (committed upload_world) db \<and> (\<forall>r \<in> set (db_outbox db). deliverable 5 r)"
    by (intro create_import_keeps) (simp_all add: upload_world_def example_db_ok default_settings_def, simp add: example_db_def)
  then show ?thesis by (simp add: Let_def tracks_def)
qed

end
