(* ===== verification/Import_System.thy ===== *)
theory Import_System
  imports Import_Outcome Outbox_Round Recovery_Safety Create_Import_Spec
begin

text \<open>
  The processes of the service together: workers, publishers, the recovery and the creation of
  imports, each a run from the database the last one left, with other sessions committing in
  between its statements.
\<close>

inductive service_step :: "settings \<Rightarrow> database \<Rightarrow> database \<Rightarrow> bool" for s where
  worker_run: "committed w = db \<Longrightarrow> t = uuid_source w (draws w) \<Longrightarrow>
    \<forall>j \<in> set (db_jobs db). job_processing_token j \<noteq> Some t \<Longrightarrow>
    \<forall>e \<in> set (script w). sound_intents (set_outbox_max_attempts s) (- {Claim t}) (ev_others e) \<Longrightarrow>
    service_step s db (committed (snd (process_import_run wk i w)))"
| publisher_run: "committed w = db \<Longrightarrow> working w = db \<Longrightarrow> pb_settings pb = s \<Longrightarrow>
    \<forall>e \<in> set (script w). sound_intents (set_outbox_max_attempts s) UNIV (ev_others e) \<Longrightarrow>
    service_step s db (committed (snd (run_outbox_publisher pb n w)))"
| recovery_run: "committed (w :: world) = db \<Longrightarrow> working w = db \<Longrightarrow>
    \<forall>e \<in> set (script w). sound_intents (set_outbox_max_attempts s) UNIV (ev_others e) \<Longrightarrow>
    service_step s db (committed (snd (recover_stale_imports s n w)))"
| creation_run: "committed (w :: world) = db \<Longrightarrow> working w = db \<Longrightarrow>
    \<forall>e \<in> set (script w). sound_intents (set_outbox_max_attempts s) UNIV (ev_others e) \<Longrightarrow>
    service_step s db (committed (snd (create_import s ofn path sz ct key fp w)))"

abbreviation service_runs :: "settings \<Rightarrow> database \<Rightarrow> database \<Rightarrow> bool" where
  "service_runs s \<equiv> (service_step s)\<^sup>*\<^sup>*"

definition service_ok :: "settings \<Rightarrow> database \<Rightarrow> bool" where
  "service_ok s db \<longleftrightarrow> db_ok db \<and> (\<forall>r \<in> set (db_outbox db). deliverable (set_outbox_max_attempts s) r)"

lemma delivers_refl: "service_ok s db \<Longrightarrow> delivers (set_outbox_max_attempts s) labels db db"
  by (simp add: service_ok_def deliverable.intents_ok_def tracks_refl)

lemma delivers_sound:
  "delivers m labels db db1 \<Longrightarrow> sound_intents m labels' f \<Longrightarrow> labels' \<subseteq> labels \<Longrightarrow> delivers m labels db (f db1)"
  unfolding deliverable.intents_ok_def sound_intents_def tracks_def using evolves_trans evolves_mono by blast

lemma worker_keeps:
  assumes ok: "service_ok s (committed w)"
    and fresh: "\<forall>j \<in> set (db_jobs (committed w)). job_processing_token j \<noteq> Some (uuid_source w (draws w))"
    and env: "\<forall>e \<in> set (script w). sound_intents (set_outbox_max_attempts s) (- {Claim (uuid_source w (draws w))}) (ev_others e)"
  shows "delivers (set_outbox_max_attempts s) UNIV (committed w) (committed (snd (process_import_run wk i w)))"
proof (rule deliverable.dispatch.process_import_run_keeps [OF subset_UNIV refl])
  let ?t = "uuid_source w (draws w)" and ?m = "set_outbox_max_attempts s"
  show "deliverable.dispatch.linked ?m UNIV (committed w) i ?t a n (committed w)" for a n
    using delivers_refl [OF ok] fresh_unowned [OF fresh] by (intro deliverable.dispatch.unowned_linked)
  show "rely (deliverable.dispatch.linked ?m UNIV (committed w) i ?t a n) w" for a n
    unfolding rely_def
  proof (intro ballI allI impI)
    fix e db assume e: "e \<in> set (script w)" and link: "deliverable.dispatch.linked ?m UNIV (committed w) i ?t a n db"
    then have del: "delivers ?m UNIV (committed w) db" and own: "own_attempt i ?t a n db"
      by (simp_all add: deliverable.dispatch.linked_def)
    have sound: "sound_intents ?m (- {Claim ?t}) (ev_others e)" using env e by blast
    have db: "db_ok db" using del by (simp add: deliverable.intents_ok_def tracks_def)
    then have "evolves (- {Claim ?t}) db (ev_others e db)" using sound by (simp add: sound_intents_def tracks_def)
    from evolves_own_attempt [OF this db own] delivers_sound [OF del sound]
    show "deliverable.dispatch.linked ?m UNIV (committed w) i ?t a n (ev_others e db)"
      by (simp add: deliverable.dispatch.linked_def)
  qed
qed

lemma session_keeps:
  assumes "service_ok s (committed w)" "working w = committed w"
    and "\<forall>e \<in> set (script w). sound_intents (set_outbox_max_attempts s) UNIV (ev_others e)"
    and "keeps (delivers (set_outbox_max_attempts s) UNIV (committed w)) (\<lambda>_. True) m"
  shows "delivers (set_outbox_max_attempts s) UNIV (committed w) (committed (snd (m w)))"
proof -
  have "holds (delivers (set_outbox_max_attempts s) UNIV (committed w)) (\<lambda>_. True) w"
    using delivers_holds [OF _ _ assms(3,2)] assms(1) by (simp add: service_ok_def)
  then show ?thesis using assms(4) by (simp add: keeps_def holds_def)
qed

lemma service_step_keeps:
  assumes "service_step s db db'" "settings_accepted s" "service_ok s db"
  shows "delivers (set_outbox_max_attempts s) UNIV db db'"
proof -
  have m: "max 1 (set_outbox_max_attempts s) = set_outbox_max_attempts s" "0 < set_import_max_attempts s"
    using assms(2) by (simp_all add: settings_accepted_def validators_ok positive_fields_def)
  from assms(1,3) show ?thesis
  proof (induction rule: service_step.induct)
    case (worker_run w db t wk i)
    then show ?case using worker_keeps [of s w wk i] by simp
  next
    case (publisher_run w db pb n)
    have "keeps (delivers (set_outbox_max_attempts s) UNIV (committed w)) (\<lambda>_. True) (run_outbox_publisher pb n)"
      using keeps_run_outbox_publisher [of pb "set_outbox_max_attempts s" UNIV "committed w" n] publisher_run by simp
    from session_keeps [OF _ _ _ this] publisher_run show ?case by simp
  next
    case (recovery_run w db n)
    have "keeps (delivers (set_outbox_max_attempts s) UNIV (committed w)) (\<lambda>_. True) (recover_stale_imports s n)"
      using recovering.keeps_recover_stale_imports [of "set_outbox_max_attempts s" UNIV "committed w"] m by simp
    from session_keeps [OF _ _ _ this] recovery_run show ?case by simp
  next
    case (creation_run w db ofn path sz ct key fp)
    have "keeps (delivers (set_outbox_max_attempts s) UNIV (committed w)) (\<lambda>_. True) (create_import s ofn path sz ct key fp)"
      using recovering.keeps_creation [OF m(2), of "set_outbox_max_attempts s" UNIV "committed w"] m by simp
    from session_keeps [OF _ _ _ this] creation_run show ?case by simp
  qed
qed

lemma service_runs_keep:
  assumes "service_runs s db db'" "settings_accepted s" "service_ok s db"
  shows "service_ok s db' \<and> tracks UNIV db db'"
  using assms(1)
proof (induction rule: rtranclp_induct)
  case base
  then show ?case using assms(3) by (simp add: service_ok_def tracks_refl)
next
  case (step db1 db2)
  then have ok: "service_ok s db1" and old: "tracks UNIV db db1" by simp_all
  have new: "delivers (set_outbox_max_attempts s) UNIV db1 db2"
    by (rule service_step_keeps [OF step.hyps(2) assms(2) ok])
  then have "service_ok s db2" by (simp add: deliverable.intents_ok_def service_ok_def tracks_def)
  moreover have "tracks UNIV db db2" using tracks_trans [OF old] new by (simp add: deliverable.intents_ok_def)
  ultimately show ?case by simp
qed

lemma empty_service_ok: "service_ok s empty_database"
  by (simp add: service_ok_def empty_database_def db_ok_def jobs_ok_def refs_ok_def shipments_ok_def idempotency_keys_def)

text \<open>
  C2. The service as a whole: from an empty database, whatever workers, publishers, recoveries and
  uploads run in whatever order, with faults and with sound interference at every statement, the
  database is consistent, every intent still to be sent can be sent, and between any two moments
  jobs have only been added or moved along their life cycle: none disappears, and one that was
  COMPLETED or FAILED still is, after as many attempts.
\<close>

theorem service_invariant:
  assumes "settings_accepted s" "service_runs s empty_database db" "service_runs s db db'"
  shows "db_ok db \<and> (\<forall>r \<in> set (db_outbox db). deliverable (set_outbox_max_attempts s) r) \<and> tracks UNIV db db' \<and>
    (\<forall>j \<in> set (db_jobs db). job_status j \<in> {ImportCOMPLETED, ImportFAILED} \<longrightarrow>
       (\<exists>j' \<in> set (db_jobs db'). same_import j j' \<and> job_status j' = job_status j \<and> job_attempt_count j' = job_attempt_count j))"
proof -
  have ok: "service_ok s db" using service_runs_keep [OF assms(2,1) empty_service_ok] by blast
  then have tr: "tracks UNIV db db'" using service_runs_keep [OF assms(3,1)] by blast
  have "\<exists>j' \<in> set (db_jobs db'). same_import j j' \<and> job_status j' = job_status j \<and> job_attempt_count j' = job_attempt_count j"
    if j: "j \<in> set (db_jobs db)" "job_status j \<in> {ImportCOMPLETED, ImportFAILED}" for j
  proof -
    from tr j(1) obtain j' where j': "j' \<in> set (db_jobs db')" "job_run UNIV j j'"
      using evolves_member unfolding tracks_def by blast
    have "job_ok j" "job_ok j'" using ok tr j(1) j'(1) by (auto simp: service_ok_def tracks_def db_ok_def jobs_ok_def)
    from job_run_terminal [OF j'(2) this j(2)] j' show ?thesis by (auto simp: job_run_def)
  qed
  then show ?thesis using ok tr by (simp add: service_ok_def)
qed

definition first_world :: world where
  "first_world = \<lparr>committed = empty_database, working = empty_database, script = [quiet], clock = 100, tx_time = 0,
     draws = 0, uuid_source = (\<lambda>n. n + 10), pg_numeric = (\<lambda>p s d. Some d), advisory = []\<rparr>"

definition first_upload :: database where
  "first_upload = committed (snd (create_import default_settings ''b.xlsx'' ''/s/b'' 9 None (Some ''k'') ''g'' first_world))"

lemma first_upload_jobs: "map job_status (db_jobs first_upload) = [ImportPENDING]"
  by code_simp

theorem service_invariant_witness: "db_ok first_upload \<and> length (db_jobs first_upload) = 1"
proof -
  have "service_step default_settings empty_database first_upload"
    unfolding first_upload_def
    by (rule creation_run) (simp_all add: first_world_def quiet_def quiet_others)
  then have "service_runs default_settings empty_database first_upload" by (rule r_into_rtranclp)
  from service_invariant [OF default_settings_accepted this rtranclp.rtrancl_refl]
  have "db_ok first_upload" by simp
  then show ?thesis using arg_cong [OF first_upload_jobs, of length] by simp
qed

end
