(* ===== verification/Import_Race.thy ===== *)
theory Import_Race
  imports Import_Outcome
begin

text \<open>
  The race between two imports that store the same shipment code: another session commits its
  shipments after this worker has looked the codes of its chunk up and before it inserts them. The
  INSERT fails; the worker reclassifies the rows it lost and stores the others.
\<close>

section \<open>One statement among events\<close>

lemma query_quiet_event:
  "next_event w = quiet \<Longrightarrow> query q w = (Inr (q (working w)), w\<lparr>script := tl (script w)\<rparr>)"
  unfolding query_def by (subst statement_quiet_event) auto

lemma owned_quiet_event:
  assumes "has_job jobs (cl_import_id claimed)" "next_event w = quiet" "db_jobs (working w) = put_job J jobs"
    "job_owned (cl_import_id claimed) (cl_processing_token claimed) J"
  shows "require_current_ownership claimed w = (Inr (), w\<lparr>script := tl (script w)\<rparr>)"
proof -
  have "job_id J = cl_import_id claimed" using assms(4) by (simp add: job_owned_def)
  then have "J \<in> set (put_job J jobs)" using assms(1) by (auto simp: put_job_def has_job_def)
  then have "List.find (job_owned (cl_import_id claimed) (cl_processing_token claimed)) (db_jobs (working w)) \<noteq> None"
    using assms(3,4) by (auto simp: find_None_iff)
  then show ?thesis
    by (simp add: require_current_ownership_def has_current_ownership_def bindE_def
        query_quiet_event [OF assms(2)] ret_def)
qed

lemma find_existing_event:
  "next_event w = quiet \<Longrightarrow> codes \<noteq> {} \<Longrightarrow>
     find_existing_shipment_codes codes w = (Inr (stored_codes (working w) \<inter> codes), w\<lparr>script := tl (script w)\<rparr>)"
  by (auto simp: find_existing_shipment_codes_def query_quiet_event stored_codes_def)

lemma with_tx_error:
  "body (w\<lparr>working := committed w, tx_time := clock w\<rparr>) = (Inl e, w1) \<Longrightarrow> with_tx body w = (Inl e, rollback w1)"
  by (simp add: with_tx_def bindE_def begin_tx_def)

text \<open>A row whose code is taken makes the INSERT of all of them fail, whatever the others are.\<close>

lemma insert_taken_code:
  assumes "\<forall>s \<in> set ss. storable num s" "s \<in> set ss" "ship_shipment_code s \<in> stored_codes db"
  shows "insert_all (insert_shipment num now) ss db = Inl IntegrityError"
  using assms
proof (induction ss arbitrary: db)
  case (Cons s' ss)
  obtain r where r: "stored_shipment num s' = Some r" "shipment_constraints r = None"
    using Cons.prems(1) by (auto simp: storable_def)
  show ?case
  proof (cases "s = s'")
    case True
    then show ?thesis
      using r Cons.prems(3) stored_shipment_keys [OF r(1)] by (simp add: insert_shipment_def stored_codes_def)
  next
    case False
    let ?db = "db\<lparr>db_shipments := db_shipments db @ [shipment.extend r (shipment_row.fields now now)]\<rparr>"
    have "insert_all (insert_shipment num now) ss ?db = Inl IntegrityError"
      using Cons.prems False by (intro Cons.IH) (auto simp: stored_codes_def)
    then show ?thesis using r by (simp add: insert_shipment_def [of num now s' db])
  qed
qed simp

section \<open>The reclassification\<close>

abbreviation code_of :: "validated_shipment_row \<Rightarrow> string" where
  "code_of v \<equiv> ship_shipment_code (valid_shipment v)"

definition lost_error :: "uuid \<Rightarrow> validated_shipment_row \<Rightarrow> import_error" where
  "lost_error i v = \<lparr>err_id = 0, err_import_id = i, err_row_number = valid_row_number v,
     err_field = issue_field duplicate_in_database, err_error = issue_error duplicate_in_database,
     err_raw_data = jsonb_safe (PDict (valid_raw_data v))\<rparr>"

lemma reclassify_rows_run:
  "\<exists>fs n. reclassify_rows i ex vs retained errors w =
      (Inr (retained @ filter (\<lambda>v. code_of v \<notin> ex) vs, errors @ fs), w\<lparr>draws := n\<rparr>) \<and> draws w \<le> n \<and>
     drawn (uuid_source w) (draws w) n (map err_id fs) \<and>
     map (\<lambda>e. e\<lparr>err_id := 0\<rparr>) fs = map (lost_error i) (filter (\<lambda>v. code_of v \<in> ex) vs)"
proof (induction vs arbitrary: retained errors w)
  case Nil
  show ?case by (rule exI [of _ "[]"], rule exI [of _ "draws w"]) (simp add: ret_def)
next
  case (Cons v vs)
  show ?case
  proof (cases "code_of v \<in> ex")
    case True
    obtain es m where E: "build_import_errors i (valid_row_number v) (valid_raw_data v) [duplicate_in_database] w =
        (Inr es, w\<lparr>draws := m\<rparr>)" "draws w \<le> m" "drawn (uuid_source w) (draws w) m (map err_id es)"
      "map (\<lambda>e. e\<lparr>err_id := 0\<rparr>) es = [lost_error i v]"
      using build_import_errors_run [of i "valid_row_number v" "valid_raw_data v" "[duplicate_in_database]" w]
      by (auto simp: lost_error_def)
    from Cons.IH [of retained "errors @ es" "w\<lparr>draws := m\<rparr>"] obtain fs n where
      F: "reclassify_rows i ex vs retained (errors @ es) (w\<lparr>draws := m\<rparr>) =
        (Inr (retained @ filter (\<lambda>v. code_of v \<notin> ex) vs, (errors @ es) @ fs), w\<lparr>draws := n\<rparr>)" "m \<le> n"
      "drawn (uuid_source w) m n (map err_id fs)"
      "map (\<lambda>e. e\<lparr>err_id := 0\<rparr>) fs = map (lost_error i) (filter (\<lambda>v. code_of v \<in> ex) vs)"
      by auto
    have "drawn (uuid_source w) (draws w) n (map err_id (es @ fs))"
      using drawn_append [OF E(3) F(3) E(2) F(2)] by simp
    then show ?thesis
      using True E F by (intro exI [of _ "es @ fs"] exI [of _ n]) simp
  qed (use Cons.IH [of "retained @ [v]" errors w] in simp)
qed

lemma reclassify_quiet:
  fixes i :: uuid and xs :: "validated_shipment_row list" and w :: "'z world_scheme"
  defines "taken \<equiv> stored_codes (working w)"
  defines "kept \<equiv> filter (\<lambda>v. code_of v \<notin> taken) xs" and "lost \<equiv> filter (\<lambda>v. code_of v \<in> taken) xs"
  assumes "script w = []" "lost \<noteq> []"
  shows "\<exists>fs n. reclassify_database_duplicates i (chunk_result rows f xs es) w =
      (Inr (chunk_result rows (f + length lost) kept (es @ fs)), w\<lparr>draws := n\<rparr>) \<and> draws w \<le> n \<and>
     drawn (uuid_source w) (draws w) n (map err_id fs) \<and> map (\<lambda>e. e\<lparr>err_id := 0\<rparr>) fs = map (lost_error i) lost"
proof -
  let ?ex = "taken \<inter> set (map code_of xs)"
  have same: "filter (\<lambda>v. code_of v \<notin> ?ex) xs = kept" "filter (\<lambda>v. code_of v \<in> ?ex) xs = lost"
    by (auto simp: kept_def lost_def intro: filter_cong)
  have some: "?ex \<noteq> {}" using assms(5) by (auto simp: lost_def filter_empty_conv)
  have count: "length kept + length lost = length xs"
    using sum_length_filter_compl [of "\<lambda>v. code_of v \<notin> taken" xs] by (simp add: kept_def lost_def)
  have look: "find_existing_shipment_codes (set (map code_of xs)) w = (Inr ?ex, w)"
    using find_existing_quiet [OF assms(4)] by (simp add: taken_def)
  from reclassify_rows_run [of i ?ex xs "[]" es w, unfolded same] obtain fs n where
    run: "reclassify_rows i ?ex xs [] es w = (Inr (kept, es @ fs), w\<lparr>draws := n\<rparr>)"
    and rest: "draws w \<le> n" "drawn (uuid_source w) (draws w) n (map err_id fs)"
      "map (\<lambda>e. e\<lparr>err_id := 0\<rparr>) fs = map (lost_error i) lost" by auto
  have "reclassify_database_duplicates i (chunk_result rows f xs es) w =
      (Inr (chunk_result rows (f + length lost) kept (es @ fs)), w\<lparr>draws := n\<rparr>)"
    unfolding reclassify_database_duplicates_def
    using look some run count by (simp add: chunk_result_def ret_def)
  then show ?thesis using rest by blast
qed

lemma rows_fit_reclassified:
  assumes old: "rows_fit num i db (map valid_shipment xs) es"
    and ids: "drawn u k n (map ship_id (map valid_shipment xs))" "drawn u k n (map err_id es)" "k \<le> n"
    and new: "drawn u n m (map err_id fs)" "n \<le> m" "map (\<lambda>e. e\<lparr>err_id := 0\<rparr>) fs = map (lost_error i) lost"
    and finite: "\<forall>v \<in> set lost. finite_value (PDict (valid_raw_data v))"
    and fresh: "inj u" "unused_ids u k db'"
  shows "rows_fit num i db' (map valid_shipment (filter (\<lambda>v. code_of v \<notin> stored_codes db') xs)) (es @ fs)"
proof -
  let ?kept = "filter (\<lambda>v. code_of v \<notin> stored_codes db') xs"
  have ship: "u j \<notin> set (map ship_id (db_shipments db'))" and err: "u j \<notin> set (map err_id (db_errors db'))"
    if "k \<le> j" for j using fresh(2) that unfolding unused_ids_def by blast+
  have errs: "drawn u k m (map err_id (es @ fs))" using drawn_append [OF ids(2) new(1) ids(3) new(2)] by simp
  have "length (err_field e) \<le> 255 \<and> finite_value (err_raw_data e) \<and> err_import_id e = i" if "e \<in> set fs" for e
  proof -
    have "e\<lparr>err_id := 0\<rparr> \<in> set (map (lost_error i) lost)" unfolding new(3) [symmetric] using that by simp
    then obtain v where v: "e\<lparr>err_id := 0\<rparr> = lost_error i v" "v \<in> set lost" by auto
    have "err_field e = err_field (lost_error i v)" "err_import_id e = err_import_id (lost_error i v)"
      "err_raw_data e = err_raw_data (lost_error i v)"
      unfolding v(1) [symmetric] by simp_all
    then show ?thesis using finite v(2)
      by (simp add: lost_error_def duplicate_in_database_def del: finite_value.simps jsonb_safe.simps)
  qed
  moreover have "distinct (map err_id (es @ fs))" using drawn_distinct(1) [OF fresh(1) errs] .
  moreover have "set (map err_id (es @ fs)) \<inter> set (map err_id (db_errors db')) = {}"
  proof -
    have "x \<notin> set (map err_id (db_errors db'))" if x: "x \<in> set (map err_id (es @ fs))" for x
    proof -
      from bspec [OF drawn_distinct(2) [OF fresh(1) errs] x] obtain j where "k \<le> j" "x = u j" by blast
      then show ?thesis using err by simp
    qed
    then show ?thesis by blast
  qed
  moreover have "distinct (map ship_id (map valid_shipment ?kept))"
    using drawn_distinct(1) [OF fresh(1) ids(1)] by (simp add: distinct_map_filter)
  moreover have "set (map ship_id (map valid_shipment ?kept)) \<inter> set (map ship_id (db_shipments db')) = {}"
  proof -
    have "x \<notin> set (map ship_id (db_shipments db'))" if x: "x \<in> set (map ship_id (map valid_shipment xs))" for x
    proof -
      from bspec [OF drawn_distinct(2) [OF fresh(1) ids(1)] x] obtain j where "k \<le> j" "x = u j" by blast
      then show ?thesis using ship by simp
    qed
    then show ?thesis by auto
  qed
  moreover have "distinct (map ship_shipment_code (map valid_shipment ?kept))"
    using old by (simp add: rows_fit_def distinct_map_filter)
  ultimately show ?thesis using old by (auto simp: rows_fit_def)
qed

lemma race_turn_quiet:
  fixes w :: import_run and claimed :: claimed_import and xs :: "validated_shipment_row list"
  defines "i \<equiv> cl_import_id claimed" and "taken \<equiv> stored_codes (committed w)"
  defines "kept \<equiv> filter (\<lambda>v. code_of v \<notin> taken) xs" and "lost \<equiv> filter (\<lambda>v. code_of v \<in> taken) xs"
  assumes holds: "holds_claim claimed jobs J (committed w)" and quiet: "script w = []" and some: "lost \<noteq> []"
    and fit: "\<forall>fs n. draws w \<le> n \<and> drawn (uuid_source w) (draws w) n (map err_id fs) \<and>
      map (\<lambda>e. e\<lparr>err_id := 0\<rparr>) fs = map (lost_error i) lost \<longrightarrow>
      rows_fit (pg_numeric w) i (committed w) (map valid_shipment kept) (es @ fs)"
  shows "\<exists>fs w'. race_turn claimed (chunk_result rows f xs es) w =
      (Inr (Some (chunk_result rows (f + length lost) kept (es @ fs))), w') \<and>
    map (\<lambda>e. e\<lparr>err_id := 0\<rparr>) fs = map (lost_error i) lost \<and>
    committed w' = with_rows (pg_numeric w) (clock w)
      (put_job (counted (clock w) rows (length kept) (f + length lost) J) jobs) (map valid_shipment kept) (es @ fs) (committed w)"
proof -
  let ?db = "committed w" and ?t = "cl_processing_token claimed"
  let ?w = "lv_corrected_update (\<lambda>_. None) w"
  define w0 where "w0 = ?w\<lparr>working := ?db, tx_time := clock w\<rparr>"
  have start: "?w\<lparr>working := committed ?w, tx_time := clock ?w\<rparr> = w0" unfolding w0_def by (cases w) simp
  have w0: "script w0 = []" "working w0 = ?db" "draws w0 = draws w" "uuid_source w0 = uuid_source w"
    using quiet by (simp_all add: w0_def)
  have own: "require_current_ownership claimed w0 = (Inr (), w0)"
    using holds quiet by (intro owned_run [where jobs = jobs and J = J]) (auto simp: w0_def holds_claim_def)
  from reclassify_quiet [where xs = xs, OF w0(1), unfolded w0(2-4), folded taken_def, folded kept_def lost_def, OF some,
      of i rows f es]
  obtain fs n where
    re: "reclassify_database_duplicates i (chunk_result rows f xs es) w0 =
      (Inr (chunk_result rows (f + length lost) kept (es @ fs)), w0\<lparr>draws := n\<rparr>)"
    and fs: "draws w \<le> n" "drawn (uuid_source w) (draws w) n (map err_id fs)"
      "map (\<lambda>e. e\<lparr>err_id := 0\<rparr>) fs = map (lost_error i) lost" by blast
  let ?res = "chunk_result rows (f + length lost) kept (es @ fs)"
  let ?db' = "with_rows (pg_numeric w) (clock w)
      (put_job (counted (clock w) rows (length kept) (f + length lost) J) jobs) (map valid_shipment kept) (es @ fs) ?db"
  define w1 where "w1 = lv_corrected_update (\<lambda>_. Some ?res) (w0\<lparr>draws := n\<rparr>)"
  have "persist_chunk claimed ?res w1 = (Inr (), w1\<lparr>working := with_rows (pg_numeric w1) (tx_time w1)
      (put_job (counted (tx_time w1) rows (length kept) (f + length lost) J) jobs) (map valid_shipment kept) (es @ fs) (working w1)\<rparr>)"
    using holds quiet fit fs by (intro persist_chunk_run [where i = i and t = ?t])
      (auto simp: w1_def w0_def holds_claim_def i_def)
  then have persist: "persist_chunk claimed ?res w1 = (Inr (), w1\<lparr>working := ?db'\<rparr>)" by (simp add: w1_def w0_def)
  have fewer: "res_success_count ?res \<noteq> res_success_count (chunk_result rows f xs es)"
    using some length_filter_less [of _ xs "\<lambda>v. code_of v \<notin> taken"]
    by (auto simp: chunk_result_def kept_def lost_def filter_empty_conv) fastforce
  define w2 where "w2 = w1\<lparr>working := ?db'\<rparr>"
  have "race_turn claimed (chunk_result rows f xs es) w = (Inr (Some ?res), w2\<lparr>committed := working w2, advisory := []\<rparr>)"
    unfolding race_turn_def bindE_run [of "modify (lv_corrected_update (\<lambda>_. None))", OF modify_run]
  proof (rule with_tx_quiet)
    show "bindE (require_current_ownership claimed) (\<lambda>_.
        bindE (reclassify_database_duplicates (cl_import_id claimed) (chunk_result rows f xs es)) (\<lambda>corrected.
        bindE (modify (lv_corrected_update (\<lambda>_. Some corrected))) (\<lambda>_.
        if res_success_count corrected = res_success_count (chunk_result rows f xs es) then ret None
        else bindE (persist_chunk claimed corrected) (\<lambda>_. ret (Some corrected)))))
        (?w\<lparr>working := committed ?w, tx_time := clock ?w\<rparr>) = (Inr (Some ?res), w2)"
      unfolding start using own re persist fewer
      by (simp add: modify_run ret_def i_def [symmetric] w1_def [symmetric] w2_def)
  qed (use quiet in \<open>simp add: w2_def w1_def w0_def\<close>)
  moreover have "committed (w2\<lparr>committed := working w2, advisory := []\<rparr>) = ?db'" by (simp add: w2_def)
  ultimately show ?thesis using fs(3) by blast
qed

section \<open>The lost race\<close>

text \<open>More codes in the database: the rows that stay accepted.\<close>

lemma clean_rows_more_codes:
  "clean_rows (verdicts seen (ex \<union> ex') ps) =
     filter (\<lambda>p. prep_shipment_code p \<notin> Some ` ex') (clean_rows (verdicts seen ex ps))"
  by (induction ps arbitrary: seen) (auto simp: duplicate_issues_def split: option.splits)

text \<open>A valid row and the prepared row it comes from.\<close>

definition comes_from :: "uuid \<Rightarrow> validated_shipment_row \<Rightarrow> prepared_row \<Rightarrow> bool" where
  "comes_from i v p \<longleftrightarrow> (valid_shipment v)\<lparr>ship_id := 0\<rparr> = shipment_of i p \<and>
     prep_shipment_code p = Some (code_of v) \<and> lost_error i v = error_of i p duplicate_in_database"

lemma produced_comes_from:
  assumes "produced u k n i vs xs es" "vs = verdicts seen ex (map (prepare_row ad) rows)"
  shows "list_all2 (comes_from i) xs (clean_rows vs)"
  unfolding list_all2_conv_all_nth
proof (intro conjI allI impI)
  have maps: "map (\<lambda>v. (valid_shipment v)\<lparr>ship_id := 0\<rparr>) xs = map (shipment_of i) (clean_rows vs)"
    "map valid_row_number xs = map (row_number \<circ> prep_row) (clean_rows vs)"
    "map valid_raw_data xs = map (row_values \<circ> prep_row) (clean_rows vs)"
    using assms(1) by (simp_all add: produced_def)
  show len: "length xs = length (clean_rows vs)" by (rule produced_length [OF assms(1)])
  fix j assume j: "j < length xs"
  let ?v = "xs ! j" and ?p = "clean_rows vs ! j"
  have p: "?p \<in> set (clean_rows vs)" using j len by simp
  have eqs: "(valid_shipment ?v)\<lparr>ship_id := 0\<rparr> = shipment_of i ?p" "valid_row_number ?v = row_number (prep_row ?p)"
    "valid_raw_data ?v = row_values (prep_row ?p)"
    using maps [THEN arg_cong, of "\<lambda>l. l ! j"] j len by simp_all
  have "ship_shipment_code (shipment_of i ?p) = code_of ?v" using arg_cong [OF eqs(1), of ship_shipment_code] by simp
  moreover have "prep_shipment_code ?p = Some (ship_shipment_code (shipment_of i ?p))"
    using p unfolding assms(2) by (rule clean_code)
  ultimately have "prep_shipment_code ?p = Some (code_of ?v)" by simp
  then show "comes_from i ?v ?p"
    using eqs by (simp add: comes_from_def lost_error_def error_of_def)
qed

lemma produced_finite:
  assumes "produced u k n i vs xs es" "vs = verdicts seen ex (map (prepare_row ad) rows)" "finite_rows rows"
  shows "\<forall>v \<in> set xs. finite_value (PDict (valid_raw_data v))"
proof
  fix v assume "v \<in> set xs"
  then have "valid_raw_data v \<in> set (map valid_raw_data xs)" by simp
  also have "map valid_raw_data xs = map (row_values \<circ> prep_row) (clean_rows vs)"
    using assms(1) by (simp only: produced_def)
  finally have "valid_raw_data v \<in> set (map (row_values \<circ> prep_row) (clean_rows vs))" .
  then obtain p where p: "p \<in> set (clean_rows vs)" "valid_raw_data v = row_values (prep_row p)" by auto
  then obtain r where "r \<in> set rows" "p = prepare_row ad r"
    using clean_verdict [of p seen ex "map (prepare_row ad) rows"] p(1) unfolding assms(2) by auto
  then show "finite_value (PDict (valid_raw_data v))"
    using assms(3) p(2) by (simp add: finite_rows_def prep_row_prepare del: finite_value.simps)
qed

lemma comes_from_filters:
  assumes "list_all2 (comes_from i) xs ps"
  shows "map (\<lambda>v. (valid_shipment v)\<lparr>ship_id := 0\<rparr>) (filter (\<lambda>v. code_of v \<notin> C) xs) =
      map (shipment_of i) (filter (\<lambda>p. prep_shipment_code p \<notin> Some ` C) ps)"
    and "map (lost_error i) (filter (\<lambda>v. code_of v \<in> C) xs) =
      map (\<lambda>p. error_of i p duplicate_in_database) (filter (\<lambda>p. prep_shipment_code p \<in> Some ` C) ps)"
  using assms by (induction rule: list_all2_induct) (auto simp: comes_from_def)

text \<open>The first attempt: the other session commits before the INSERT, the second transaction starts from there.\<close>

lemma first_attempt_conflict:
  fixes w :: import_run and claimed :: claimed_import
  defines "i \<equiv> cl_import_id claimed" and "seen \<equiv> seen_shipment_codes (lv_tracker w)" and "db \<equiv> committed w"
  assumes holds: "holds_claim claimed jobs J db" and script: "script w = [quiet, quiet, e]" "ev_fault e = None"
    and rows: "lv_rows w = (c # cs, None)" "finite_rows c" and vs: "vs = verdicts seen (stored_codes db) (map (prepare_row ad) c)"
    and ids: "inj (uuid_source w)" "unused_ids (uuid_source w) (draws w) db"
    and fits: "\<forall>p \<in> set (clean_rows vs). storable (pg_numeric w) (shipment_of i p)"
    and p: "p \<in> set (clean_rows vs)" "prep_shipment_code p \<in> Some ` stored_codes (ev_others e db)"
    and unlocked: "ev_holds e = None"
  shows "\<exists>xs es n w1. produced (uuid_source w) (draws w) n i vs xs es \<and> rows_fit (pg_numeric w) i db (map valid_shipment xs) es \<and>
    process_next_chunk ad claimed w =
      chunk_conflict claimed (SqlError IntegrityError) w1 \<and> script w1 = [] \<and> committed w1 = ev_others e db \<and>
    clock w1 = clock w + int (ev_elapsed e) \<and> draws w1 = n \<and> uuid_source w1 = uuid_source w \<and> pg_numeric w1 = pg_numeric w \<and>
    lv_chunk_result w1 = Some (chunk_result (length c) (length (failed_rows vs)) xs es)"
proof -
  let ?ps = "map (prepare_row ad) c" and ?w = "lv_chunk_result_update (\<lambda>_. None) w"
  let ?codes = "unseen_codes (lv_tracker w) (code_set (map (prepare_row ad) c))"
  define w0 where "w0 = ?w\<lparr>working := db, tx_time := clock w\<rparr>"
  define w1 where "w1 = w0\<lparr>script := [quiet, e]\<rparr>"
  define w2 where "w2 = lv_rows_update (\<lambda>_. ([], None)) w1"
  have start: "?w\<lparr>working := committed ?w, tx_time := clock ?w\<rparr> = w0" unfolding w0_def db_def by (cases w) simp
  have script0: "script w0 = [quiet, quiet, e]" by (simp add: w0_def script)
  have own: "require_current_ownership claimed w0 = (Inr (), w1)"
    using owned_quiet_event [of jobs claimed w0 J] holds script0
    by (simp add: w1_def w0_def holds_claim_def next_event_def script)
  have code: "prep_shipment_code p = Some (ship_shipment_code (shipment_of i p))"
    using p(1) unfolding vs by (rule clean_code)
  then have "ship_shipment_code (shipment_of i p) \<in> ?codes"
    using clean_verdict [OF p(1) [unfolded vs]] by (force simp: unseen_codes_def code_set_def seen_def)
  then have "?codes \<noteq> {}" by blast
  then have look: "find_existing_shipment_codes ?codes w2 = (Inr (stored_codes db \<inter> ?codes), w2\<lparr>script := [e]\<rparr>)"
    using find_existing_event [of w2 ?codes] by (simp add: w2_def w1_def w0_def next_event_def)
  have same: "verdicts seen (stored_codes db \<inter> ?codes) ?ps = vs"
    unfolding vs by (rule verdicts_cong) (auto simp: unseen_codes_def seen_def)
  from validate_chunk_run [OF look, of i] obtain xs es n where
    val: "validate_chunk ad c (lv_tracker w) i w2 = (Inr (chunk_result (length c) (length (failed_rows vs)) xs es,
      remember_codes (code_set ?ps) (lv_tracker w)), w2\<lparr>script := [e], draws := n\<rparr>)"
    and prod: "produced (uuid_source w) (draws w) n i vs xs es"
    by (auto simp: seen_def [symmetric] same) (auto simp: w2_def w1_def w0_def)
  let ?res = "chunk_result (length c) (length (failed_rows vs)) xs es"
  define w3 where "w3 = w2\<lparr>script := [e], draws := n, lv_rows := (cs, None), lv_tracker := remember_codes (code_set ?ps) (lv_tracker w)\<rparr>"
  define w4 where "w4 = lv_chunk_result_update (\<lambda>_. Some ?res) w3"
  have chunk: "next_validated_chunk ad i w1 = (Inr (Some ?res), w3)"
  proof -
    have "lv_rows w1 = (c # cs, None)" "lv_tracker w1 = lv_tracker w" using rows(1) by (simp_all add: w1_def w0_def)
    then show ?thesis
      using val by (simp add: next_validated_chunk_def bindE_def gets_def modify_def ret_def w2_def [symmetric] w3_def)
  qed
  have fit: "rows_fit (pg_numeric w) i db (map valid_shipment xs) es"
    by (rule produced_fit(1) [OF prod vs ids(1) ids(2) [unfolded unused_ids_def] fits _ rows(2)]) blast
  have from_rows: "list_all2 (comes_from i) xs (clean_rows vs)" by (rule produced_comes_from [OF prod vs])
  then obtain v where v: "v \<in> set xs" "comes_from i v p"
    using p(1) by (metis in_set_conv_nth list_all2_conv_all_nth)
  then have "code_of v \<in> stored_codes (ev_others e db)" using p(2) by (auto simp: comes_from_def)
  then have "insert_all (insert_shipment (pg_numeric w) (clock w)) (map valid_shipment xs) (ev_others e db) = Inl IntegrityError"
    using fit v(1) by (intro insert_taken_code [of _ _ "valid_shipment v"]) (auto simp: rows_fit_def)
  moreover have "map valid_shipment xs \<noteq> []" using v(1) by auto
  ultimately have insert: "bulk_insert_shipments (map valid_shipment xs) w4 = (Inl (SqlError IntegrityError), advance w4)"
    by (simp add: bulk_insert_shipments_def bindE_def gets_def statement_def next_event_def advance_def script(2) unlocked others_unlocked
        w4_def w3_def w2_def w1_def w0_def)
  then have "persist_chunk claimed ?res w4 = (Inl (SqlError IntegrityError), advance w4)"
    by (simp add: persist_chunk_def bindE_raise chunk_result_def)
  then have "next_chunk_tx ad claimed ?w = (Inl (SqlError IntegrityError), rollback (advance w4))"
    unfolding next_chunk_tx_def
  proof (intro with_tx_error, goal_cases)
    case 1
    then show ?case unfolding start
      using own chunk by (simp add: modify_run i_def [symmetric] w4_def [symmetric] bindE_raise)
  qed
  then have "process_next_chunk ad claimed w = chunk_conflict claimed (SqlError IntegrityError) (rollback (advance w4))"
    by (simp add: process_next_chunk_eq)
  moreover have "rollback (advance w4) = (advance w4)\<lparr>working := ev_others e db, advisory := []\<rparr>"
    by (simp add: rollback_def advance_def next_event_def w4_def w3_def w2_def w1_def w0_def db_def unlocked others_unlocked)
  ultimately show ?thesis
    using prod fit by (intro exI [of _ xs] exI [of _ es] exI [of _ n] exI [of _ "rollback (advance w4)"])
      (simp add: advance_def next_event_def w4_def w3_def w2_def w1_def w0_def db_def unlocked others_unlocked)
qed

text \<open>The codes of the rows accepted before, of which another session stored some (\<open>C\<close>) in the meantime.\<close>

lemma rival_codes:
  assumes "before = verdicts seen codes ps" "after = verdicts seen (codes \<union> C) ps"
  shows "clean_rows after = filter (\<lambda>p. prep_shipment_code p \<notin> Some ` C) (clean_rows before)"
    and "filter (\<lambda>p. prep_shipment_code p \<notin> Some ` (codes \<union> C)) (clean_rows before) = clean_rows after"
    and "filter (\<lambda>p. prep_shipment_code p \<in> Some ` (codes \<union> C)) (clean_rows before) =
      filter (\<lambda>p. prep_shipment_code p \<in> Some ` C) (clean_rows before)"
    and "clean_rows after \<noteq> clean_rows before \<Longrightarrow> \<exists>p \<in> set (clean_rows before). prep_shipment_code p \<in> Some ` C"
proof -
  show kept: "clean_rows after = filter (\<lambda>p. prep_shipment_code p \<notin> Some ` C) (clean_rows before)"
    unfolding assms by (rule clean_rows_more_codes)
  have "prep_shipment_code q \<notin> Some ` codes" if "q \<in> set (clean_rows before)" for q
    using clean_verdict [OF that [unfolded assms(1)]] by auto
  then have same: "prep_shipment_code q \<in> Some ` (codes \<union> C) \<longleftrightarrow> prep_shipment_code q \<in> Some ` C"
    if "q \<in> set (clean_rows before)" for q
    using that by (simp add: image_Un)
  show "filter (\<lambda>p. prep_shipment_code p \<notin> Some ` (codes \<union> C)) (clean_rows before) = clean_rows after"
    "filter (\<lambda>p. prep_shipment_code p \<in> Some ` (codes \<union> C)) (clean_rows before) =
      filter (\<lambda>p. prep_shipment_code p \<in> Some ` C) (clean_rows before)"
    unfolding kept by (rule filter_cong [OF refl], use same in blast)+
  show "\<exists>p \<in> set (clean_rows before). prep_shipment_code p \<in> Some ` C" if "clean_rows after \<noteq> clean_rows before"
  proof (rule ccontr)
    assume "\<not> ?thesis"
    then have "clean_rows after = clean_rows before" unfolding kept by (intro filter_True) blast
    then show False using that by simp
  qed
qed

text \<open>The handler of the conflict when nothing interferes any more.\<close>

lemma chunk_conflict_resolved:
  fixes w :: import_run and claimed :: claimed_import and xs :: "validated_shipment_row list"
  defines "i \<equiv> cl_import_id claimed" and "taken \<equiv> stored_codes (committed w)"
  defines "kept \<equiv> filter (\<lambda>v. code_of v \<notin> taken) xs" and "lost \<equiv> filter (\<lambda>v. code_of v \<in> taken) xs"
  assumes "holds_claim claimed jobs J (committed w)" "script w = []" "lost \<noteq> []"
    and "\<forall>fs n. draws w \<le> n \<and> drawn (uuid_source w) (draws w) n (map err_id fs) \<and>
      map (\<lambda>e. e\<lparr>err_id := 0\<rparr>) fs = map (lost_error i) lost \<longrightarrow>
      rows_fit (pg_numeric w) i (committed w) (map valid_shipment kept) (es @ fs)"
    and result: "lv_chunk_result w = Some (chunk_result rows f xs es)"
  shows "\<exists>fs w'. chunk_conflict claimed (SqlError IntegrityError) w =
      (Inr (Some (chunk_result rows (f + length lost) kept (es @ fs))), w') \<and>
    map (\<lambda>e. e\<lparr>err_id := 0\<rparr>) fs = map (lost_error i) lost \<and>
    committed w' = with_rows (pg_numeric w) (clock w)
      (put_job (counted (clock w) rows (length kept) (f + length lost) J) jobs) (map valid_shipment kept) (es @ fs) (committed w)"
proof -
  from race_turn_quiet [OF assms(5-8) [unfolded i_def kept_def lost_def taken_def], of rows f,
      folded i_def taken_def, folded kept_def lost_def]
  obtain fs w' where turn: "race_turn claimed (chunk_result rows f xs es) w =
      (Inr (Some (chunk_result rows (f + length lost) kept (es @ fs))), w')"
    and rest: "map (\<lambda>e. e\<lparr>err_id := 0\<rparr>) fs = map (lost_error i) lost"
      "committed w' = with_rows (pg_numeric w) (clock w)
        (put_job (counted (clock w) rows (length kept) (f + length lost) J) jobs) (map valid_shipment kept) (es @ fs) (committed w)"
    by blast
  have "chunk_conflict claimed (SqlError IntegrityError) w = (Inr (Some (chunk_result rows (f + length lost) kept (es @ fs))), w')"
    unfolding chunk_conflict_def
    by (simp add: gets_run result) (simp add: bindE_def persist_chunk_after_duplicate_race.simps turn ret_def)
  then show ?thesis using rest by blast
qed

text \<open>
  C16. The race README.md describes: between the lookup of the chunk's codes and the INSERT another
  session commits shipments, among them some with codes of accepted rows of this chunk. The import
  does not fail. The chunk is stored in a second transaction: a shipment for exactly the rows
  that validation accepts against the codes now in the database, a duplicate error for each row
  lost to the other session, after the errors the chunk had, and the counters of the job say so.
  What the other session stored stays. (No cell of the chunk is NaN or infinite.)
\<close>

theorem duplicate_race_reported:
  fixes w :: import_run
  assumes "holds_claim claimed jobs J (committed w)" "lv_rows w = (c # cs, None)" "finite_rows c"
    and "script w = [quiet, quiet, e]" "ev_fault e = None"
    and "ev_others e (committed w) = (committed w)\<lparr>db_shipments := db_shipments (committed w) @ new\<rparr>"
    and "inj (uuid_source w)" "unused_ids (uuid_source w) (draws w) (ev_others e (committed w))"
    and "before = verdicts (seen_shipment_codes (lv_tracker w)) (stored_codes (committed w)) (map (prepare_row ad) c)"
    and "after = verdicts (seen_shipment_codes (lv_tracker w)) (stored_codes (ev_others e (committed w))) (map (prepare_row ad) c)"
    and "\<forall>p \<in> set (clean_rows before). storable (pg_numeric w) (shipment_of (cl_import_id claimed) p)"
    and "clean_rows after \<noteq> clean_rows before" "now = clock w + int (ev_elapsed e)" "ev_holds e = None"
  shows "\<exists>ss es res w'. process_next_chunk ad claimed w = (Inr (Some res), w') \<and>
    res_total_rows res = length c \<and> res_success_count res = length ss \<and> res_failed_count res = length c - length ss \<and>
    committed w' = with_rows (pg_numeric w) now
      (put_job (counted now (length c) (length ss) (length c - length ss) J) jobs) ss es (ev_others e (committed w)) \<and>
    map (\<lambda>s. s\<lparr>ship_id := 0\<rparr>) ss = map (shipment_of (cl_import_id claimed)) (clean_rows after) \<and>
    map (\<lambda>r. r\<lparr>err_id := 0\<rparr>) es = row_errors (cl_import_id claimed) before @
      map (\<lambda>p. error_of (cl_import_id claimed) p duplicate_in_database)
        (filter (\<lambda>p. prep_shipment_code p \<in> Some ` ship_shipment_code ` set new) (clean_rows before))"
proof -
  let ?db = "committed w" and ?db' = "ev_others e (committed w)" and ?i = "cl_import_id claimed"
  let ?new = "ship_shipment_code ` set new"
  let ?taken = "stored_codes ?db \<union> ?new"
  have codes: "stored_codes ?db' = ?taken" unfolding assms(6) by (auto simp: stored_codes_def)
  note rivals = rival_codes [OF assms(9,10) [unfolded codes]]
  from rivals(4) [OF assms(12)] obtain p where
    p: "p \<in> set (clean_rows before)" "prep_shipment_code p \<in> Some ` ?new" by blast
  have old: "unused_ids (uuid_source w) (draws w) ?db" using assms(8) by (simp add: unused_ids_def assms(6))
  have "prep_shipment_code p \<in> Some ` stored_codes ?db'" using p(2) unfolding codes by blast
  from first_attempt_conflict [OF assms(1,4,5,2,3,9,7) old assms(11) p(1) this assms(14)]
  obtain xs es n w1 where prod: "produced (uuid_source w) (draws w) n ?i before xs es"
    and fit: "rows_fit (pg_numeric w) ?i ?db (map valid_shipment xs) es"
    and run: "process_next_chunk ad claimed w = chunk_conflict claimed (SqlError IntegrityError) w1"
    and w1: "script w1 = []" "committed w1 = ?db'" "clock w1 = now" "draws w1 = n" "uuid_source w1 = uuid_source w"
      "pg_numeric w1 = pg_numeric w" and result: "lv_chunk_result w1 = Some (chunk_result (length c) (length (failed_rows before)) xs es)"
    unfolding assms(13) by blast
  let ?kept = "filter (\<lambda>v. code_of v \<notin> ?taken) xs" and ?lost = "filter (\<lambda>v. code_of v \<in> ?taken) xs"
  have pairs: "list_all2 (comes_from ?i) xs (clean_rows before)" by (rule produced_comes_from [OF prod assms(9)])
  note parts = comes_from_filters [OF pairs, of ?taken, unfolded rivals(2,3)]
  have "map (lost_error ?i) ?lost \<noteq> []" unfolding parts(2) using p by (auto simp: filter_empty_conv)
  then have some: "?lost \<noteq> []" by fastforce
  have holds: "holds_claim claimed jobs J (committed w1)" using assms(1) unfolding w1(2) assms(6) by (simp add: holds_claim_def)
  have ids: "drawn (uuid_source w) (draws w) n (map ship_id (map valid_shipment xs))"
    "drawn (uuid_source w) (draws w) n (map err_id es)" "draws w \<le> n"
    using prod by (simp_all add: produced_def o_def)
  have finite: "\<forall>v \<in> set ?lost. finite_value (PDict (valid_raw_data v))"
    using produced_finite [OF prod assms(9,3)] by simp
  have fit': "\<forall>fs m. n \<le> m \<and> drawn (uuid_source w) n m (map err_id fs) \<and>
      map (\<lambda>e. e\<lparr>err_id := 0\<rparr>) fs = map (lost_error ?i) ?lost \<longrightarrow>
      rows_fit (pg_numeric w) ?i ?db' (map valid_shipment ?kept) (es @ fs)"
    using rows_fit_reclassified [OF fit ids _ _ _ finite assms(7,8)] unfolding codes by blast
  from chunk_conflict_resolved [OF holds w1(1) _ _ result, unfolded w1 codes, OF some fit']
  obtain fs w2 where final: "process_next_chunk ad claimed w =
      (Inr (Some (chunk_result (length c) (length (failed_rows before) + length ?lost) ?kept (es @ fs))), w2)"
    and fs: "map (\<lambda>e. e\<lparr>err_id := 0\<rparr>) fs = map (lost_error ?i) ?lost"
    and db2: "committed w2 = with_rows (pg_numeric w) now
      (put_job (counted now (length c) (length ?kept) (length (failed_rows before) + length ?lost) J) jobs)
      (map valid_shipment ?kept) (es @ fs) ?db'" unfolding run by blast
  have "length ?kept + length ?lost = length xs"
    using sum_length_filter_compl [of "\<lambda>v. code_of v \<notin> ?taken" xs] by simp
  moreover have "length xs + length (failed_rows before) = length c"
    using produced_length [OF prod] verdict_split [of before] by (simp add: assms(9))
  ultimately have count: "length (failed_rows before) + length ?lost = length c - length (map valid_shipment ?kept)" by simp
  have "map (\<lambda>r. r\<lparr>err_id := 0\<rparr>) es = row_errors ?i before" using prod by (simp add: produced_def)
  then show ?thesis
    using final db2 parts fs count
    by (intro exI [of _ "map valid_shipment ?kept"] exI [of _ "es @ fs"] exI [of _ w2]
        exI [of _ "chunk_result (length c) (length (failed_rows before) + length ?lost) ?kept (es @ fs)"])
      (simp add: chunk_result_def o_def)
qed

section \<open>An example\<close>

text \<open>Two good rows; another import commits the first one's code between the lookup and the INSERT.\<close>

definition race_chunk :: "parsed_workbook_row list" where
  "race_chunk = concat (fst (iter_chunks (\<lambda>_. Inr [\<lparr>ws_header = Inr (Some (map PStr REQUIRED_WORKBOOK_HEADERS)),
     ws_data = [hd sheet_rows, [PStr ''A2'', PStr ''Cid'', PStr ''Bonn'', PStr ''Lyon'', PInt 4, PInt 30, PStr ''PENDING'']],
     ws_data_error = None\<rparr>]) ''/s/a.xlsx'' 5))"

definition race_jobs :: "import_job list" where
  "race_jobs = [claimed_job 7 ''w1'' 90 example_job, example_job\<lparr>job_id := 2\<rparr>]"

definition rival_rows :: "shipment_row list" where
  "rival_rows = [stored_row (\<lambda>p s d. Some d) 95 (new_shipment 5 2 sheet_shipment)]"

definition race_run :: import_run where
  "race_run = sheet_run\<lparr>committed := example_db\<lparr>db_jobs := race_jobs\<rparr>, lv_rows := ([race_chunk], None),
     script := [quiet, quiet, quiet\<lparr>ev_others := \<lambda>db. db\<lparr>db_shipments := db_shipments db @ rival_rows\<rparr>, ev_elapsed := 5\<rparr>]\<rparr>"

lemma race_verdicts:
  "map prep_shipment_code (clean_rows (verdicts {} {} (map (prepare_row sheet_adapters) race_chunk))) = [Some ''A1'', Some ''A2'']"
  "map prep_shipment_code (clean_rows (verdicts {} {''A1''} (map (prepare_row sheet_adapters) race_chunk))) = [Some ''A2'']"
  "row_errors 1 (verdicts {} {} (map (prepare_row sheet_adapters) race_chunk)) = []"
  "map (ship_shipment_code \<circ> shipment_of 1) (clean_rows (verdicts {} {''A1''} (map (prepare_row sheet_adapters) race_chunk))) = [''A2'']"
  by code_simp+

lemma race_errors:
  "map (\<lambda>e. (err_row_number e, err_error e)) (map (\<lambda>p. error_of 1 p duplicate_in_database)
     (filter (\<lambda>p. prep_shipment_code p \<in> {Some ''A1''}) (clean_rows (verdicts {} {} (map (prepare_row sheet_adapters) race_chunk))))) =
   [(2, ''Shipment code already exists in the database.'')]"
  by code_simp

lemma race_storable:
  "\<forall>p \<in> set (clean_rows (verdicts {} {} (map (prepare_row sheet_adapters) race_chunk))). storable (\<lambda>p s d. Some d) (shipment_of 1 p)"
proof -
  have "list_all (\<lambda>p. case stored_shipment (\<lambda>p s d. Some d) (shipment_of 1 p) of None \<Rightarrow> False | Some s \<Rightarrow> shipment_constraints s = None)
      (clean_rows (verdicts {} {} (map (prepare_row sheet_adapters) race_chunk)))" by code_simp
  then show ?thesis by (auto simp: storable_def list_all_iff split: option.splits)
qed

lemma race_codes: "ship_shipment_code ` set rival_rows = {''A1''}" "map ship_shipment_code rival_rows = [''A1'']"
  "map ship_id rival_rows = [5]"
  by code_simp+

theorem duplicate_race_reported_witness:
  "\<exists>res w'. process_next_chunk sheet_adapters (claim_of 7 example_job) race_run = (Inr (Some res), w') \<and>
     res_success_count res = 1 \<and> res_failed_count res = 1 \<and>
     map ship_shipment_code (db_shipments (committed w')) = [''A1'', ''A2''] \<and>
     map (\<lambda>e. (err_row_number e, err_error e)) (db_errors (committed w')) = [(2, ''Shipment code already exists in the database.'')]"
proof -
  let ?J = "claimed_job 7 ''w1'' 90 example_job" and ?db = "example_db\<lparr>db_jobs := race_jobs\<rparr>"
  let ?db' = "?db\<lparr>db_shipments := rival_rows\<rparr>" and ?ps = "map (prepare_row sheet_adapters) race_chunk"
  have run: "committed race_run = ?db" "lv_rows race_run = ([race_chunk], None)" "uuid_source race_run = (\<lambda>n. n + 10)"
    "draws race_run = 0" "pg_numeric race_run = (\<lambda>p s d. Some d)" "clock race_run = 100" "lv_tracker race_run = new_tracker"
    by (simp_all add: race_run_def sheet_run_def example_run_def)
  have script: "script race_run = [quiet, quiet, quiet\<lparr>ev_others := \<lambda>db. db\<lparr>db_shipments := db_shipments db @ rival_rows\<rparr>, ev_elapsed := 5\<rparr>]"
    by (simp add: race_run_def)
  have holds: "holds_claim (claim_of 7 example_job) race_jobs ?J ?db" by code_simp
  have finite: "finite_rows race_chunk" unfolding finite_rows_def by code_simp
  have "stored_codes ?db = {}" "stored_codes ?db' = {''A1''}" "seen_shipment_codes new_tracker = {}"
    using race_codes(1) by (auto simp: stored_codes_def example_db_def new_tracker_def)
  note codes = this
  have ids: "inj (\<lambda>n :: nat. n + 10)" "unused_ids (\<lambda>n. n + 10) 0 ?db'"
    using race_codes(3) by (auto simp: inj_def unused_ids_def example_db_def dest: arg_cong [of "map ship_id rival_rows" _ set])
  have lost: "clean_rows (verdicts {} {''A1''} ?ps) \<noteq> clean_rows (verdicts {} {} ?ps)"
    using race_verdicts(1,2) by auto
  have others: "ev_others (quiet\<lparr>ev_others := \<lambda>db. db\<lparr>db_shipments := db_shipments db @ rival_rows\<rparr>, ev_elapsed := 5\<rparr>) ?db = ?db'"
    by (simp add: example_db_def)
  have event: "ev_fault (quiet\<lparr>ev_others := f, ev_elapsed := k\<rparr>) = None" "ev_elapsed (quiet\<lparr>ev_others := f, ev_elapsed := k\<rparr>) = k"
    "ev_holds (quiet\<lparr>ev_others := f, ev_elapsed := k\<rparr>) = None" for f k
    by (simp_all add: quiet_def)
  have claim: "cl_import_id (claim_of 7 example_job) = 1" by (simp add: claim_of_def example_job_def)
  have five: "?db' = ?db\<lparr>db_shipments := db_shipments ?db @ rival_rows\<rparr>" by (simp add: example_db_def)
  obtain ss es res w' where res: "process_next_chunk sheet_adapters (claim_of 7 example_job) race_run = (Inr (Some res), w')"
      "res_success_count res = length ss" "res_failed_count res = length race_chunk - length ss"
    and db: "committed w' = with_rows (\<lambda>p s d. Some d) 105
      (put_job (counted 105 (length race_chunk) (length ss) (length race_chunk - length ss) ?J) race_jobs) ss es ?db'"
    and ss: "map (\<lambda>s. s\<lparr>ship_id := 0\<rparr>) ss = map (shipment_of 1) (clean_rows (verdicts {} {''A1''} ?ps))"
    and es: "map (\<lambda>r. r\<lparr>err_id := 0\<rparr>) es = map (\<lambda>p. error_of 1 p duplicate_in_database)
      (filter (\<lambda>p. prep_shipment_code p \<in> {Some ''A1''}) (clean_rows (verdicts {} {} ?ps)))"
    using duplicate_race_reported [of "claim_of 7 example_job" race_jobs ?J race_run race_chunk "[]" _ rival_rows,
        unfolded run, OF holds refl finite script, unfolded others codes event claim, OF refl five ids refl refl race_storable lost refl refl]
    unfolding race_verdicts(3) race_codes(1) by auto
  have "map ship_shipment_code ss = [''A2'']"
    using arg_cong [OF ss, of "map ship_shipment_code"] race_verdicts(4) by (simp add: o_def)
  moreover have "length ss = 1" using calculation by auto
  moreover have "ship_shipment_code (stored_row (\<lambda>p s d. Some d) t r) = ship_shipment_code r" for t r
    by (simp add: stored_row_def stored_shipment_def shipment.defs shipment_row.defs)
  moreover have "map (\<lambda>e. (err_row_number e, err_error e)) es = [(2, ''Shipment code already exists in the database.'')]"
    using arg_cong [OF es, of "map (\<lambda>e. (err_row_number e, err_error e))"] unfolding race_errors by (simp add: o_def)
  moreover have "length race_chunk = 2" by code_simp
  ultimately show ?thesis
    using res db race_codes(2)
    by (auto simp: o_def stored_error_def import_error.defs import_error_row.defs example_db_def)
qed

end
