(* ===== verification/Import_Failure.thy ===== *)
theory Import_Failure
  imports Import_Race
begin

text \<open>
  What a run of the worker does when nothing interferes but the workbook cannot be processed: the
  parser raises while it reads the file, or a row passes validation that the tables do not take.
  The import becomes FAILED; what the chunks before the failure stored stays.
\<close>

section \<open>The job of a failed import\<close>

definition failed_job :: "timestamp \<Rightarrow> string \<Rightarrow> import_job \<Rightarrow> import_job" where
  "failed_job now reason j = touched now (j\<lparr>job_status := ImportFAILED, job_failure_reason := Some reason,
     job_last_failure_reason := Some reason, job_finished_at := Some now, job_processing_token := None,
     job_locked_by_worker := None\<rparr>)"

lemma mark_failed_run:
  assumes "script w = []" "holds_claim claimed jobs J (committed w)"
  shows "\<exists>w'. mark_failed claimed reason w = (Inr (), w') \<and>
    committed w' = (committed w)\<lparr>db_jobs := put_job (failed_job (clock w) reason J) jobs\<rparr>"
proof -
  let ?i = "cl_import_id claimed" and ?t = "cl_processing_token claimed" and ?db = "committed w"
  define w0 where "w0 = w\<lparr>working := ?db, tx_time := clock w\<rparr>"
  define w1 where "w1 = w0\<lparr>working := ?db\<lparr>db_jobs := put_job (failed_job (clock w) reason J) jobs\<rparr>\<rparr>"
  have quiet: "script w0 = []" "script w1 = []" using assms(1) by (simp_all add: w0_def w1_def)
  have job: "has_job jobs ?i" "db_jobs (working w0) = put_job J jobs" "job_owned ?i ?t J" "job_constraints J = None" "job_id J = ?i"
    using assms(2) by (auto simp: holds_claim_def w0_def job_owned_def)
  have "fail_import ?i ?t reason w0 = (Inr True, w1)"
    unfolding fail_import_def
    by (subst update_current_run [where jobs = jobs and J = J])
      (use job quiet in \<open>auto simp: w1_def w0_def failed_job_def touched_def job_constraints_def
         ck_failure_reason_terminal_def varchar_ok_def split: if_splits\<close>)
  then have "with_tx (fail_import ?i ?t reason) w = (Inr True, w1\<lparr>committed := working w1, advisory := []\<rparr>)"
    using quiet(2) by (intro with_tx_quiet) (simp_all add: w0_def [symmetric])
  then show ?thesis by (simp add: mark_failed_def ret_def w1_def)
qed

text \<open>What the handler does with an exception that is neither a lost claim nor a lost connection.\<close>

definition failure_reason :: "exn \<Rightarrow> string" where
  "failure_reason e = (case e of
     WorkbookStructureError m \<Rightarrow> str_or m ''Workbook structure could not be processed.''
   | _ \<Rightarrow> ''Import processing failed.'')"

lemma run_handler_fails:
  assumes "e \<noteq> StaleImportWorkerError" "e \<noteq> SqlError OperationalError" "lv_claimed w = Some claimed"
  shows "run_handler e w = mark_failed claimed (failure_reason e) w"
proof (cases e)
  case (SqlError x)
  then show ?thesis using assms by (cases x) (simp_all add: run_handler_def bindE_def gets_def failure_reason_def)
qed (use assms in \<open>simp_all add: run_handler_def bindE_def gets_def failure_reason_def\<close>)

section \<open>A chunk that cannot be had or stored\<close>

lemma next_chunk_start:
  fixes w :: import_run
  defines "w0 \<equiv> lv_chunk_result_update (\<lambda>_. None) w\<lparr>working := committed w, tx_time := clock w\<rparr>"
  assumes "holds_claim claimed jobs J (committed w)" "script w = []"
  shows "require_current_ownership claimed w0 = (Inr (), w0)"
    and "bindE begin_tx (\<lambda>_. m) (lv_chunk_result_update (\<lambda>_. None) w) = m w0"
proof -
  show "require_current_ownership claimed w0 = (Inr (), w0)"
    using assms(2,3) by (intro owned_run [where jobs = jobs and J = J]) (auto simp: w0_def holds_claim_def)
  have "begin_tx (lv_chunk_result_update (\<lambda>_. None) w) = (Inr (), w0)"
    unfolding begin_tx_def w0_def by (cases w) simp
  then show "bindE begin_tx (\<lambda>_. m) (lv_chunk_result_update (\<lambda>_. None) w) = m w0" by simp
qed

text \<open>The parser raises instead of yielding a chunk.\<close>

lemma process_next_chunk_broken:
  assumes "holds_claim claimed jobs J (committed w)" "script w = []" "lv_rows w = ([], Some e)"
  shows "\<exists>w'. process_next_chunk ad claimed w = (Inl e, w') \<and> undisturbed w w' \<and> committed w' = committed w"
proof -
  define w0 where "w0 = lv_chunk_result_update (\<lambda>_. None) w\<lparr>working := committed w, tx_time := clock w\<rparr>"
  note start = next_chunk_start [OF assms(1,2), folded w0_def]
  have rows: "lv_rows w0 = ([], Some e)" using assms(3) by (simp add: w0_def)
  let ?w1 = "lv_rows_update (\<lambda>_. ([], None)) w0"
  have "next_chunk_tx ad claimed (lv_chunk_result_update (\<lambda>_. None) w) = (Inl e, rollback ?w1)"
    unfolding next_chunk_tx_def with_tx_def start(2)
    by (simp add: start(1)) (simp add: next_validated_chunk_def bindE_def gets_def rows modify_def throw_def)
  then have "process_next_chunk ad claimed w = chunk_conflict claimed e (rollback ?w1)"
    by (simp add: process_next_chunk_eq)
  also have "\<dots> = (Inl e, rollback ?w1)"
    by (simp add: chunk_conflict_def bindE_def gets_def throw_def rollback_def w0_def)
  finally show ?thesis
    using assms(2) by (simp add: undisturbed_def rollback_def w0_def)
qed

text \<open>A chunk the tables do not take: an accepted row that no shipment row can hold, or a reported row whose
  values are no JSON document.\<close>

definition unstorable :: "numeric \<Rightarrow> uuid \<Rightarrow> (prepared_row \<times> validation_issue list) list \<Rightarrow> bool" where
  "unstorable num i vs \<longleftrightarrow> (\<exists>p \<in> set (clean_rows vs). \<not> storable num (shipment_of i p)) \<or>
     (\<exists>p \<in> set (failed_rows vs). \<not> finite_value (PDict (row_values (prep_row p))))"

lemma insert_shipment_refuses: "insert_shipment num now s db = Inl x \<Longrightarrow> x \<in> {IntegrityError, OtherSQLAlchemyError}"
  by (auto simp: insert_shipment_def shipment_constraints_def split: option.splits if_splits)

lemma insert_all_refuses:
  assumes "\<And>r db x. ins r db = Inl x \<Longrightarrow> x \<in> X" "insert_all ins rs db = Inl x"
  shows "x \<in> X"
  using assms(2) by (induction rs arbitrary: db) (auto split: sum.splits dest: assms(1))

lemma insert_all_accepted:
  assumes "\<And>r db db'. ins r db = Inr db' \<Longrightarrow> P r" "insert_all ins rs db = Inr db'"
  shows "\<forall>r \<in> set rs. P r"
  using assms(2) by (induction rs arbitrary: db) (auto split: sum.splits dest: assms(1))

lemma insert_shipment_storable: "insert_shipment num now s db = Inr db' \<Longrightarrow> storable num s"
  by (auto simp: insert_shipment_def storable_def split: option.splits if_splits)

lemma produced_unstorable:
  assumes "produced u k n i vs xs es" "unstorable num i vs"
  shows "(\<exists>s \<in> set (map valid_shipment xs). \<not> storable num s) \<or> (\<exists>e \<in> set es. \<not> finite_value (err_raw_data e))"
proof -
  consider p where "p \<in> set (clean_rows vs)" "\<not> storable num (shipment_of i p)"
    | p where "p \<in> set (failed_rows vs)" "\<not> finite_value (PDict (row_values (prep_row p)))"
    using assms(2) unfolding unstorable_def by blast
  then show ?thesis
  proof cases
    case 1
    have "map (\<lambda>v. (valid_shipment v)\<lparr>ship_id := 0\<rparr>) xs = map (shipment_of i) (clean_rows vs)"
      using assms(1) by (simp only: produced_def)
    then have "shipment_of i p \<in> (\<lambda>v. (valid_shipment v)\<lparr>ship_id := 0\<rparr>) ` set xs"
      using 1(1) by (metis imageI list.set_map)
    then show ?thesis using 1(2) storable_id by fastforce
  next
    case 2
    then obtain is' where v: "(p, is') \<in> set vs" "is' \<noteq> []" by (auto simp: failed_rows_def)
    then have "error_of i p (hd is') \<in> set (row_errors i vs)"
      unfolding row_errors_def by (force intro: hd_in_set)
    moreover have "map (\<lambda>e. e\<lparr>err_id := 0\<rparr>) es = row_errors i vs" using assms(1) by (simp only: produced_def)
    ultimately have "error_of i p (hd is') \<in> (\<lambda>e. e\<lparr>err_id := 0\<rparr>) ` set es" by (metis list.set_map)
    then obtain e where e: "e \<in> set es" "error_of i p (hd is') = e\<lparr>err_id := 0\<rparr>" by auto
    have "err_raw_data (error_of i p (hd is')) = err_raw_data e" unfolding e(2) by simp
    moreover have "\<not> finite_value (err_raw_data (error_of i p (hd is')))" using 2(2) error_of_fields(3) by blast
    ultimately show ?thesis using e(1) by auto
  qed
qed

lemma persist_chunk_refused:
  assumes "script w = []" "produced u k n i vs xs es" "unstorable (pg_numeric w) i vs"
  shows "\<exists>x db. persist_chunk claimed (chunk_result r f xs es) w = (Inl (SqlError x), w\<lparr>working := db\<rparr>) \<and>
    x \<in> {IntegrityError, OtherSQLAlchemyError}"
proof (cases "insert_all (insert_shipment (pg_numeric w) (tx_time w)) (map valid_shipment xs) (working w)")
  case (Inl x)
  then have "map valid_shipment xs \<noteq> []" by auto
  then have "bulk_insert_shipments (map valid_shipment xs) w = (Inl (SqlError x), w)"
    using Inl assms(1) by (simp add: bulk_insert_shipments_def bindE_def gets_def statement_quiet_error)
  then have "persist_chunk claimed (chunk_result r f xs es) w = (Inl (SqlError x), w\<lparr>working := working w\<rparr>)"
    by (simp add: persist_chunk_def chunk_result_def bindE_raise)
  moreover have "x \<in> {IntegrityError, OtherSQLAlchemyError}"
    by (rule insert_all_refuses [OF _ Inl]) (rule insert_shipment_refuses)
  ultimately show ?thesis by blast
next
  case (Inr db)
  let ?w = "w\<lparr>working := db\<rparr>" and ?es = "map (\<lambda>r. r\<lparr>err_raw_data := jsonb_safe (err_raw_data r)\<rparr>) es"
  have ships: "bulk_insert_shipments (map valid_shipment xs) w = (Inr (length xs), ?w)"
    using bulk_shipments_run [OF assms(1) Inr] by simp
  have "\<forall>s \<in> set (map valid_shipment xs). storable (pg_numeric w) s"
    by (rule insert_all_accepted [OF _ Inr]) (rule insert_shipment_storable)
  then obtain e where e: "e \<in> set es" "\<not> finite_value (err_raw_data e)" using produced_unstorable [OF assms(2,3)] by blast
  have "insert_error now r d = Inr d' \<Longrightarrow> json_document (err_raw_data r)" for now r d d'
    by (auto simp: insert_error_def split: if_splits)
  moreover have "\<not> (\<forall>r \<in> set ?es. json_document (err_raw_data r))" using e by auto
  ultimately have refused: "insert_all (insert_error (tx_time w)) ?es db \<noteq> Inr d" for d
    using insert_all_accepted [of "insert_error (tx_time w)" "\<lambda>r. json_document (err_raw_data r)" ?es db d] by blast
  then obtain x where x: "insert_all (insert_error (tx_time w)) ?es db = Inl x"
    by (cases "insert_all (insert_error (tx_time w)) ?es db") auto
  have "insert_error now r d = Inl y \<Longrightarrow> y \<in> {IntegrityError, OtherSQLAlchemyError}" for now r d y
    by (auto simp: insert_error_def split: if_splits)
  then have "x \<in> {IntegrityError, OtherSQLAlchemyError}" by (rule insert_all_refuses [OF _ x])
  moreover have "es \<noteq> []" using e(1) by auto
  then have "bulk_insert_errors es ?w = (Inl (SqlError x), ?w)"
    using x assms(1) by (simp add: bulk_insert_errors_def bindE_def statement_quiet_error)
  then have "persist_chunk claimed (chunk_result r f xs es) w = (Inl (SqlError x), ?w)"
    using ships by (simp add: persist_chunk_def chunk_result_def bindE_raise)
  ultimately show ?thesis by blast
qed

text \<open>No code of the chunk is in the database, so there is no race to report: the error stands.\<close>

lemma race_without_rival:
  fixes w :: import_run
  assumes "holds_claim claimed jobs J (committed w)" "script w = []"
    and "set (map code_of xs) \<inter> stored_codes (committed w) = {}"
  shows "\<exists>w'. persist_chunk_after_duplicate_race claimed e (chunk_result r f xs es) w = (Inl e, w') \<and>
    undisturbed w w' \<and> committed w' = committed w"
proof -
  let ?res = "chunk_result r f xs es"
  define w0 where "w0 = lv_corrected_update (\<lambda>_. None) w\<lparr>working := committed w, tx_time := clock w\<rparr>"
  define w1 where "w1 = lv_corrected_update (\<lambda>_. Some ?res) w0"
  have own: "require_current_ownership claimed w0 = (Inr (), w0)"
    using assms by (intro owned_run [where jobs = jobs and J = J]) (auto simp: w0_def holds_claim_def)
  have "script w0 = []" using assms(2) by (simp add: w0_def)
  from find_existing_quiet [OF this, of "set (map code_of xs)"]
  have look: "find_existing_shipment_codes (set (map code_of xs)) w0 = (Inr {}, w0)"
    using assms(3) by (simp add: w0_def Int_commute)
  have re: "reclassify_database_duplicates (cl_import_id claimed) ?res w0 = (Inr ?res, w0)"
    unfolding reclassify_database_duplicates_def using look by (simp add: chunk_result_def ret_def)
  have start: "(lv_corrected_update (\<lambda>_. None) w)\<lparr>working := committed (lv_corrected_update (\<lambda>_. None) w),
      tx_time := clock (lv_corrected_update (\<lambda>_. None) w)\<rparr> = w0" unfolding w0_def by (cases w) simp
  have "race_turn claimed ?res w = (Inr None, w1\<lparr>committed := working w1, advisory := []\<rparr>)"
    unfolding race_turn_def bindE_run [of "modify (lv_corrected_update (\<lambda>_. None))", OF modify_run]
    by (rule with_tx_quiet)
      (use own re assms(2) in \<open>simp_all only: start, simp_all add: modify_run w1_def ret_def w0_def\<close>)
  then have "persist_chunk_after_duplicate_race claimed e ?res w = (Inl e, w1\<lparr>committed := working w1, advisory := []\<rparr>)"
    by (simp add: persist_chunk_after_duplicate_race.simps)
  then show ?thesis using assms(2) by (simp add: undisturbed_def w1_def w0_def)
qed

lemma list_all2_left: "list_all2 R xs ys \<Longrightarrow> x \<in> set xs \<Longrightarrow> \<exists>y \<in> set ys. R x y"
  by (induction rule: list_all2_induct) auto

lemma process_next_chunk_refused:
  fixes w :: import_run and claimed :: claimed_import
  defines "i \<equiv> cl_import_id claimed" and "seen \<equiv> seen_shipment_codes (lv_tracker w)"
  assumes holds: "holds_claim claimed jobs J (committed w)" and quiet: "script w = []" and rows: "lv_rows w = (c # cs, ended)"
    and vs: "vs = verdicts seen codes (map (prepare_row ad) c)"
    and known: "\<forall>x. x \<notin> seen \<longrightarrow> x \<in> codes \<longleftrightarrow> x \<in> stored_codes (committed w)"
    and bad: "unstorable (pg_numeric w) i vs"
  shows "\<exists>x w'. process_next_chunk ad claimed w = (Inl (SqlError x), w') \<and> x \<in> {IntegrityError, OtherSQLAlchemyError} \<and>
    undisturbed w w' \<and> committed w' = committed w"
proof -
  let ?ps = "map (prepare_row ad) c" and ?w = "lv_chunk_result_update (\<lambda>_. None) w"
  define w0 where "w0 = lv_chunk_result_update (\<lambda>_. None) w\<lparr>working := committed w, tx_time := clock w\<rparr>"
  note start = next_chunk_start [OF holds quiet, folded w0_def]
  have "script w0 = []" "lv_rows w0 = (c # cs, ended)" "vs = verdicts (seen_shipment_codes (lv_tracker w0)) codes ?ps"
    "\<forall>x. x \<notin> seen_shipment_codes (lv_tracker w0) \<longrightarrow> x \<in> codes \<longleftrightarrow> x \<in> stored_codes (working w0)"
    using quiet rows vs known by (simp_all add: w0_def seen_def)
  from next_validated_run [OF this, of i] obtain xs es n where
    prod: "produced (uuid_source w) (draws w) n i vs xs es"
    and chunk: "next_validated_chunk ad i w0 = (Inr (Some (chunk_result (length c) (length (failed_rows vs)) xs es)),
      w0\<lparr>draws := n, lv_rows := (cs, ended), lv_tracker := remember_codes (code_set ?ps) (lv_tracker w)\<rparr>)"
    by (auto simp: w0_def)
  let ?res = "chunk_result (length c) (length (failed_rows vs)) xs es"
  define w2 where "w2 = lv_chunk_result_update (\<lambda>_. Some ?res)
    (w0\<lparr>draws := n, lv_rows := (cs, ended), lv_tracker := remember_codes (code_set ?ps) (lv_tracker w)\<rparr>)"
  have w2: "script w2 = []" "pg_numeric w2 = pg_numeric w" using quiet by (simp_all add: w2_def w0_def)
  from persist_chunk_refused [OF w2(1) prod bad [folded w2(2)]] obtain x db where
    persist: "persist_chunk claimed ?res w2 = (Inl (SqlError x), w2\<lparr>working := db\<rparr>)"
    and x: "x \<in> {IntegrityError, OtherSQLAlchemyError}" by blast
  define w3 where "w3 = rollback (w2\<lparr>working := db\<rparr>)"
  have w3: "undisturbed w w3" "committed w3 = committed w" "lv_chunk_result w3 = Some ?res"
    using quiet by (simp_all add: w3_def w2_def w0_def undisturbed_def rollback_def)
  have "next_chunk_tx ad claimed ?w = (Inl (SqlError x), w3)"
    unfolding next_chunk_tx_def with_tx_def start(2)
    using start(1) chunk persist by (simp add: modify_run i_def [symmetric] w2_def [symmetric] bindE_raise w3_def)
  then have go: "process_next_chunk ad claimed w = chunk_conflict claimed (SqlError x) w3" by (simp add: process_next_chunk_eq)
  show ?thesis
  proof (cases "x = IntegrityError")
    case True
    have "list_all2 (comes_from i) xs (clean_rows vs)" by (rule produced_comes_from [OF prod vs])
    have "code_of v \<notin> stored_codes (committed w)" if v: "v \<in> set xs" for v
    proof -
      obtain p where p: "p \<in> set (clean_rows vs)" "comes_from i v p"
        using list_all2_left [OF \<open>list_all2 (comes_from i) xs (clean_rows vs)\<close> v] by blast
      then show ?thesis using clean_verdict [OF p(1) [unfolded vs]] known by (auto simp: comes_from_def)
    qed
    then have none: "set (map code_of xs) \<inter> stored_codes (committed w3) = {}" using w3(2) by auto
    have "holds_claim claimed jobs J (committed w3)" "script w3 = []" using holds w3 by (simp_all add: undisturbed_def)
    from race_without_rival [OF this none] obtain w4 where
      "persist_chunk_after_duplicate_race claimed (SqlError x) ?res w3 = (Inl (SqlError x), w4)"
      "undisturbed w3 w4" "committed w4 = committed w3" by blast
    then show ?thesis
      using x w3 by (intro exI [of _ x] exI [of _ w4])
        (simp add: go chunk_conflict_def True gets_run bindE_raise undisturbed_def)
  next
    case False
    then show ?thesis using x w3 by (intro exI [of _ x] exI [of _ w3]) (simp add: go chunk_conflict_def throw_def)
  qed
qed

section \<open>The run\<close>

text \<open>The exceptions with which asking for the next chunk ends, in a state nothing interferes with.\<close>

definition stops :: "import_worker \<Rightarrow> claimed_import \<Rightarrow> import_job list \<Rightarrow> string set \<Rightarrow> string set \<Rightarrow>
    parsed_workbook_row list generator \<Rightarrow> numeric \<Rightarrow> exn set \<Rightarrow> bool" where
  "stops wk claimed jobs seen codes rest num E \<longleftrightarrow> (\<forall>w J. holds_claim claimed jobs J (committed w) \<longrightarrow> script w = [] \<longrightarrow>
     lv_rows w = rest \<longrightarrow> pg_numeric w = num \<longrightarrow> seen_shipment_codes (lv_tracker w) = seen \<longrightarrow>
     (\<forall>x. x \<notin> seen \<longrightarrow> x \<in> codes \<longleftrightarrow> x \<in> stored_codes (committed w)) \<longrightarrow>
     (\<exists>e w'. process_next_chunk (wk_adapters wk) claimed w = (Inl e, w') \<and> e \<in> E \<and> undisturbed w w' \<and> committed w' = committed w))"

lemma stops_broken: "stops wk claimed jobs seen codes ([], Some e) num {e}"
  unfolding stops_def using process_next_chunk_broken by blast

lemma stops_refused:
  assumes "unstorable num (cl_import_id claimed) (verdicts seen codes (map (prepare_row (wk_adapters wk)) c))"
  shows "stops wk claimed jobs seen codes (c # cs, ended) num {SqlError IntegrityError, SqlError OtherSQLAlchemyError}"
  unfolding stops_def
proof (intro allI impI)
  fix w :: import_run and J assume w: "holds_claim claimed jobs J (committed w)" "script w = []" "lv_rows w = (c # cs, ended)" "pg_numeric w = num"
    "seen_shipment_codes (lv_tracker w) = seen" "\<forall>x. x \<notin> seen \<longrightarrow> x \<in> codes \<longleftrightarrow> x \<in> stored_codes (committed w)"
  have vs: "verdicts seen codes (map (prepare_row (wk_adapters wk)) c) =
      verdicts (seen_shipment_codes (lv_tracker w)) codes (map (prepare_row (wk_adapters wk)) c)" using w(5) by simp
  have known: "\<forall>x. x \<notin> seen_shipment_codes (lv_tracker w) \<longrightarrow> x \<in> codes \<longleftrightarrow> x \<in> stored_codes (committed w)"
    using w(5,6) by simp
  from process_next_chunk_refused [OF w(1-3) vs known assms [folded w(4)]]
  show "\<exists>e w'. process_next_chunk (wk_adapters wk) claimed w = (Inl e, w') \<and>
      e \<in> {SqlError IntegrityError, SqlError OtherSQLAlchemyError} \<and> undisturbed w w' \<and> committed w' = committed w"
    by blast
qed

lemma process_claimed_stops:
  fixes w :: import_run and claimed :: claimed_import and wk :: import_worker
  defines "db \<equiv> cleared (cl_import_id claimed) (committed w)" and "ad \<equiv> wk_adapters wk"
  assumes holds: "holds_claim claimed jobs J (committed w)" and quiet: "script w = []"
    and rows: "iter_chunks (wk_load wk) (cl_stored_file_path claimed) (wk_chunk_size wk) = (good @ rest, ended)"
    and vs: "vs = verdicts {} (stored_codes db) (map (prepare_row ad) (concat good))"
    and finite: "finite_rows (concat good)"
    and ids: "inj (uuid_source w)" "unused_ids (uuid_source w) (draws w) (committed w)"
    and fits: "\<forall>p \<in> set (clean_rows vs). storable (pg_numeric w) (shipment_of (cl_import_id claimed) p)"
    and stop: "stops wk claimed jobs (code_set (map (prepare_row ad) (concat good))) (stored_codes db) (rest, ended) (pg_numeric w) E"
  shows "\<exists>e xs es n w' J'. e \<in> E \<and> produced (uuid_source w) (draws w) n (cl_import_id claimed) vs xs es \<and>
    process_claimed wk claimed w = (Inl e, w') \<and> undisturbed w w' \<and>
    J' = progressed (clock w) good (length (clean_rows vs)) (length (failed_rows vs)) (restarted (clock w) J) \<and>
    committed w' = with_rows (pg_numeric w) (clock w) (put_job J' jobs) (map valid_shipment xs) es db \<and>
    holds_claim claimed jobs J' (committed w')"
proof -
  let ?now = "clock w" and ?num = "pg_numeric w"
  let ?J = "restarted ?now J" and ?db = "db\<lparr>db_jobs := put_job (restarted ?now J) jobs\<rparr>"
  from process_claimed_ready [OF holds quiet] obtain w2 where ready: "ready wk claimed jobs J w w2" by blast
  then have w2: "script w2 = []" "clock w2 = ?now" "uuid_source w2 = uuid_source w" "pg_numeric w2 = ?num"
    "draws w2 = draws w" "committed w2 = ?db" "lv_rows w2 = (good @ rest, ended)" "seen_shipment_codes (lv_tracker w2) = {}"
    by (simp_all add: ready_def undisturbed_def rows db_def)
  have holds2: "holds_claim claimed jobs ?J (committed w2)" using ready unfolding ready_def by blast
  have ok: "inj (uuid_source w2)" "unused_ids (uuid_source w2) (draws w2) (committed w2)"
    "\<forall>p \<in> set (clean_rows vs). storable (pg_numeric w2) (shipment_of (cl_import_id claimed) p)"
    using ids ready_codes(2) [OF ready refl] fits unfolding w2(3-5) by blast+
  from process_chunks_prefix [where a = 0 and b = 0 and f = 0, OF holds2 w2(1,7) finite vs [folded w2(8)]
      ready_codes(1) [OF ready db_def [THEN meta_eq_to_obj_eq]] ok]
  obtain xs es w3 where
    prod: "produced (uuid_source w) (draws w) (draws w3) (cl_import_id claimed) vs xs es"
    and go: "process_chunks ad claimed (0, 0, 0) w2 =
      process_chunks ad claimed (length (concat good), length (clean_rows vs), length (failed_rows vs)) w3"
    and w3: "undisturbed w2 w3" "lv_rows w3 = (rest, ended)"
      "seen_shipment_codes (lv_tracker w3) = code_set (map (prepare_row ad) (concat good))"
      "\<forall>x. x \<notin> seen_shipment_codes (lv_tracker w3) \<longrightarrow> x \<in> stored_codes db \<longleftrightarrow> x \<in> stored_codes (committed w3)"
    and db3: "committed w3 = with_rows ?num ?now (put_job (progressed ?now good (length (clean_rows vs)) (length (failed_rows vs)) ?J) jobs)
      (map valid_shipment xs) es ?db"
    and holds3: "holds_claim claimed jobs (progressed ?now good (length (clean_rows vs)) (length (failed_rows vs)) ?J) (committed w3)"
    unfolding w2(2-6,8) ad_def add_0 Un_empty_left by blast
  have same: "script w3 = []" "pg_numeric w3 = ?num" using w3(1) w2 by (simp_all add: undisturbed_def)
  from stop [unfolded stops_def, rule_format, OF holds3 same(1) w3(2) same(2) w3(3)] w3(4)
  obtain e w4 where raised: "process_next_chunk ad claimed w3 = (Inl e, w4)" "e \<in> E" "undisturbed w3 w4" "committed w4 = committed w3"
    unfolding w3(3) ad_def by blast
  have "process_chunks ad claimed (0, 0, 0) w2 = (Inl e, w4)"
    unfolding go by (subst process_chunks.simps) (simp add: raised(1))
  then have "process_claimed wk claimed w = (Inl e, w4)"
    using ready by (simp add: ready_def ad_def bindE_raise)
  moreover have "undisturbed w w4" using w2 w3(1) raised(3) by (simp add: undisturbed_def)
  moreover have "committed w4 = with_rows ?num ?now
      (put_job (progressed ?now good (length (clean_rows vs)) (length (failed_rows vs)) ?J) jobs) (map valid_shipment xs) es db"
    unfolding raised(4) db3 by (simp add: with_rows_def)
  ultimately show ?thesis using prod raised(2) holds3 raised(4) by metis
qed

text \<open>The row of an import that failed after \<open>n\<close> rows, \<open>s\<close> of them stored; \<open>j\<close> is the row before the run.\<close>

definition failed_after :: "import_job \<Rightarrow> string \<Rightarrow> nat \<Rightarrow> nat \<Rightarrow> import_job \<Rightarrow> bool" where
  "failed_after j reason n s J \<longleftrightarrow> job_id J = job_id j \<and> job_status J = ImportFAILED \<and> job_failure_reason J = Some reason \<and>
     job_processing_token J = None \<and> job_attempt_count J = job_attempt_count j + 1 \<and>
     job_total_rows J = n \<and> job_processed_rows J = n \<and> job_success_count J = s \<and> job_failed_count J = n - s"

lemma process_import_run_stops:
  fixes w :: import_run and i :: uuid
  defines "db \<equiv> cleared i (committed w)" and "t \<equiv> uuid_source w (draws w)" and "jobs \<equiv> db_jobs (committed w)"
  assumes start: "db_ok (committed w)" "jobs_stored (committed w)" "script w = []"
    "j \<in> set (db_jobs (committed w))" "claimable i j" "length (wk_worker_id wk) \<le> 255"
    and rows: "iter_chunks (wk_load wk) (job_stored_file_path j) (wk_chunk_size wk) = (good @ rest, ended)"
    and ids: "finite_rows (concat good)" "inj (uuid_source w)" "unused_ids (uuid_source w) (Suc (draws w)) (committed w)"
    and fits: "\<forall>k \<in> set (accepted_rows (wk_adapters wk) (stored_codes db) (concat good)). \<forall>p.
      accepted (wk_adapters wk) (stored_codes db) (concat good) k p \<longrightarrow> storable (pg_numeric w) (new_shipment 0 i p)"
    and stop: "stops wk (claim_of t j) jobs (code_set (map (prepare_row (wk_adapters wk)) (concat good))) (stored_codes db)
      (rest, ended) (pg_numeric w) E"
    and handled: "StaleImportWorkerError \<notin> E" "SqlError OperationalError \<notin> E"
  shows "\<exists>e w' J ss es. e \<in> E \<and> process_import_run wk i w = (Inr (), w') \<and>
    committed w' = with_rows (pg_numeric w) (clock w) (put_job J jobs) ss es db \<and>
    failed_after j (failure_reason e) (length (concat good)) (length ss) J \<and>
    list_all2 (\<lambda>k s. \<exists>p. accepted (wk_adapters wk) (stored_codes db) (concat good) k p \<and> s\<lparr>ship_id := 0\<rparr> = new_shipment 0 i p)
      (accepted_rows (wk_adapters wk) (stored_codes db) (concat good)) ss \<and>
    err_row_number ` set es = {row_number (concat good ! k) |k. k < length (concat good) \<and>
      (\<nexists>p. accepted (wk_adapters wk) (stored_codes db) (concat good) k p)}"
proof -
  let ?ad = "wk_adapters wk" and ?now = "clock w" and ?codes = "stored_codes db" and ?rows = "concat good"
  let ?vs = "verdicts {} ?codes (map (prepare_row ?ad) ?rows)" and ?J = "claimed_job t (wk_worker_id wk) ?now j"
  from process_import_run_claims [OF start, folded t_def jobs_def] obtain w2 where
    go: "process_import_run wk i w = handled (process_claimed wk (claim_of t j) w2)"
    and lv: "lv_claimed w2 = Some (claim_of t j)"
    and w2: "script w2 = []" "clock w2 = ?now" "uuid_source w2 = uuid_source w" "pg_numeric w2 = pg_numeric w"
      "draws w2 = Suc (draws w)" "committed w2 = (committed w)\<lparr>db_jobs := put_job ?J jobs\<rparr>"
    and holds: "holds_claim (claim_of t j) jobs ?J (committed w2)"
    and claim_id: "cl_import_id (claim_of t j) = i" "cl_stored_file_path (claim_of t j) = job_stored_file_path j"
    by blast
  have clear: "cleared i (committed w2) = db\<lparr>db_jobs := put_job ?J jobs\<rparr>" unfolding w2(6) by (simp add: cleared_def db_def)
  have codes: "stored_codes (cleared i (committed w2)) = ?codes" unfolding clear by (simp add: stored_codes_def)
  have fits': "\<forall>p \<in> set (clean_rows ?vs). storable (pg_numeric w2) (shipment_of i p)"
    unfolding w2(4) by (rule accepted_storable [OF fits])
  have fresh: "unused_ids (uuid_source w2) (draws w2) (committed w2)"
    unfolding w2 using ids(3) by (simp add: unused_ids_def)
  from process_claimed_stops [where vs = ?vs and rest = rest and good = good and ended = ended and E = E, OF holds w2(1),
      unfolded claim_id codes, OF rows refl ids(1) ids(2) [folded w2(3)] fresh fits' stop [folded w2(4)]]
  obtain e xs es n w3 J' where
    e: "e \<in> E" and prod: "produced (uuid_source w) (Suc (draws w)) n i ?vs xs es"
    and raised: "process_claimed wk (claim_of t j) w2 = (Inl e, w3)" and same: "undisturbed w2 w3"
    and J': "J' = progressed ?now good (length (clean_rows ?vs)) (length (failed_rows ?vs)) (restarted ?now ?J)"
    and db3: "committed w3 = with_rows (pg_numeric w) ?now (put_job J' jobs) (map valid_shipment xs) es (cleared i (committed w2))"
    and holds3: "holds_claim (claim_of t j) jobs J' (committed w3)"
    unfolding w2(2-5) by blast
  have w3: "script w3 = []" "clock w3 = ?now" using same w2 by (simp_all add: undisturbed_def)
  have lv3: "lv_claimed w3 = Some (claim_of t j)"
    using leaves_process_claimed [of wk "claim_of t j"] raised lv by (metis leaves_def snd_conv)
  have ne: "e \<noteq> StaleImportWorkerError" "e \<noteq> SqlError OperationalError" using e handled by auto
  from mark_failed_run [OF w3(1) holds3, of "failure_reason e"] obtain w4 where
    fail: "mark_failed (claim_of t j) (failure_reason e) w3 = (Inr (), w4)"
    and db4: "committed w4 = (committed w3)\<lparr>db_jobs := put_job (failed_job ?now (failure_reason e) J') jobs\<rparr>"
    unfolding w3(2) by blast
  have "process_import_run wk i w = (Inr (), w4)"
    unfolding go raised by (simp add: run_handler_fails [OF ne lv3] fail)
  moreover have "committed w4 = with_rows (pg_numeric w) ?now (put_job (failed_job ?now (failure_reason e) J') jobs)
      (map valid_shipment xs) es db"
    unfolding db4 db3 clear by (simp add: with_rows_def)
  moreover have "failed_after j (failure_reason e) (length ?rows) (length (map valid_shipment xs)) (failed_job ?now (failure_reason e) J')"
  proof -
    have "length (clean_rows ?vs) = length (map valid_shipment xs)"
      "length (failed_rows ?vs) = length ?rows - length (map valid_shipment xs)"
      using produced_length [OF prod] verdict_split [of ?vs] by simp_all
    moreover have "good = [] \<Longrightarrow> xs = []" using produced_length [OF prod] by simp
    ultimately show ?thesis
      unfolding J' by (auto simp add: failed_after_def failed_job_def progressed_def touched_def counted_def restarted_def
          claimed_job_def claim_values_def)
  qed
  ultimately show ?thesis using e produced_accepted [OF prod] by blast
qed

text \<open>A workbook whose header lacks its first column.\<close>

definition headless_worker :: import_worker where
  "headless_worker = \<lparr>wk_load = (\<lambda>_. Inr [\<lparr>ws_header = Inr (Some (map PStr (tl REQUIRED_WORKBOOK_HEADERS))),
       ws_data = sheet_rows, ws_data_error = None\<rparr>]),
     wk_adapters = sheet_adapters, wk_chunk_size = 2, wk_worker_id = ''w1''\<rparr>"

text \<open>
  C17. An unreadable workbook fails its import, and only that: when the parser raises (a wrong header, a
  broken file) after any number of chunks, the run returns, the job is FAILED with the message
  of the parser as its reason (or a general one), its attempt is counted and its token gone. The
  chunks read before stay stored with exactly the shipments and reported rows validation gives,
  and the counters say so; nothing else changes. When the library cannot open the workbook (no
  ZIP archive, an error of the file system, the stored file missing among them, a ValueError or an
  IndexError) no row is stored and the reason is that the structure could not be processed.
\<close>

theorem broken_workbook_fails_import:
  assumes "db_ok (committed w)" "jobs_stored (committed w)" "script w = []"
    and "j \<in> set (db_jobs (committed w))" "claimable i j" "length (wk_worker_id wk) \<le> 255"
    and "iter_chunks (wk_load wk) (job_stored_file_path j) (wk_chunk_size wk) = (chunks, Some e)"
    and "e \<noteq> StaleImportWorkerError" "e \<noteq> SqlError OperationalError"
    and "codes = stored_codes (cleared i (committed w))"
    and "finite_rows (concat chunks)" "inj (uuid_source w)" "unused_ids (uuid_source w) (Suc (draws w)) (committed w)"
    and "\<forall>k \<in> set (accepted_rows (wk_adapters wk) codes (concat chunks)). \<forall>p.
      accepted (wk_adapters wk) codes (concat chunks) k p \<longrightarrow> storable (pg_numeric w) (new_shipment 0 i p)"
  shows "\<exists>w' J ss es. process_import_run wk i w = (Inr (), w') \<and>
    committed w' = with_rows (pg_numeric w) (clock w) (put_job J (db_jobs (committed w))) ss es (cleared i (committed w)) \<and>
    failed_after j (failure_reason e) (length (concat chunks)) (length ss) J \<and>
    list_all2 (\<lambda>k s. \<exists>p. accepted (wk_adapters wk) codes (concat chunks) k p \<and> s\<lparr>ship_id := 0\<rparr> = new_shipment 0 i p)
      (accepted_rows (wk_adapters wk) codes (concat chunks)) ss \<and>
    err_row_number ` set es = {row_number (concat chunks ! k) |k. k < length (concat chunks) \<and>
      (\<nexists>p. accepted (wk_adapters wk) codes (concat chunks) k p)} \<and>
    (\<forall>x \<in> {BadZipFile, OSError, FileNotFoundError, ValueError, IndexError}.
       wk_load wk (job_stored_file_path j) = Inl x \<longrightarrow>
         chunks = [] \<and> job_failure_reason J = Some ''Workbook structure could not be processed.'')"
proof -
  have unopened: "chunks = [] \<and> failure_reason e = ''Workbook structure could not be processed.''"
    if "x \<in> {BadZipFile, OSError, FileNotFoundError, ValueError, IndexError}"
      "wk_load wk (job_stored_file_path j) = Inl x" for x
    using assms(7) that by (auto simp: iter_chunks_def structure_exn_def is_os_error_def is_value_error_def failure_reason_def str_or_def)
  have rows: "iter_chunks (wk_load wk) (job_stored_file_path j) (wk_chunk_size wk) = (chunks @ [], Some e)" using assms(7) by simp
  have only: "StaleImportWorkerError \<notin> {e}" "SqlError OperationalError \<notin> {e}" using assms(8,9) by auto
  from process_import_run_stops [OF assms(1-6) rows assms(11-13) assms(14) [unfolded assms(10)] stops_broken only]
  have "\<exists>w' J ss es. process_import_run wk i w = (Inr (), w') \<and>
    committed w' = with_rows (pg_numeric w) (clock w) (put_job J (db_jobs (committed w))) ss es (cleared i (committed w)) \<and>
    failed_after j (failure_reason e) (length (concat chunks)) (length ss) J \<and>
    list_all2 (\<lambda>k s. \<exists>p. accepted (wk_adapters wk) codes (concat chunks) k p \<and> s\<lparr>ship_id := 0\<rparr> = new_shipment 0 i p)
      (accepted_rows (wk_adapters wk) codes (concat chunks)) ss \<and>
    err_row_number ` set es = {row_number (concat chunks ! k) |k. k < length (concat chunks) \<and>
      (\<nexists>p. accepted (wk_adapters wk) codes (concat chunks) k p)}"
    unfolding assms(10) singleton_iff by (elim exE conjE) (intro exI conjI, simp_all only:)
  then obtain w' J ss es where run: "process_import_run wk i w = (Inr (), w')"
    "committed w' = with_rows (pg_numeric w) (clock w) (put_job J (db_jobs (committed w))) ss es (cleared i (committed w))"
    and after: "failed_after j (failure_reason e) (length (concat chunks)) (length ss) J"
    and stored: "list_all2 (\<lambda>k s. \<exists>p. accepted (wk_adapters wk) codes (concat chunks) k p \<and> s\<lparr>ship_id := 0\<rparr> = new_shipment 0 i p)
      (accepted_rows (wk_adapters wk) codes (concat chunks)) ss"
      "err_row_number ` set es = {row_number (concat chunks ! k) |k. k < length (concat chunks) \<and>
        (\<nexists>p. accepted (wk_adapters wk) codes (concat chunks) k p)}"
    by (elim exE conjE) (rule that; assumption)
  have "job_failure_reason J = Some (failure_reason e)" using after by (simp add: failed_after_def)
  then have "\<forall>x \<in> {BadZipFile, OSError, FileNotFoundError, ValueError, IndexError}. wk_load wk (job_stored_file_path j) = Inl x \<longrightarrow>
      chunks = [] \<and> job_failure_reason J = Some ''Workbook structure could not be processed.''"
    using unopened by (intro ballI impI) simp
  then show ?thesis
    by (intro exI [of _ w'] exI [of _ J] exI [of _ ss] exI [of _ es] conjI run after stored)
qed

text \<open>A worker whose volume has lost the file.\<close>

definition missing_worker :: import_worker where
  "missing_worker = headless_worker\<lparr>wk_load := \<lambda>_. Inl FileNotFoundError\<rparr>"

theorem broken_workbook_fails_import_witness:
  "(\<exists>w' J. process_import_run missing_worker 1 sheet_run = (Inr (), w') \<and> db_jobs (committed w') = [J] \<and>
     job_status J = ImportFAILED \<and> job_failure_reason J = Some ''Workbook structure could not be processed.'') \<and>
   (\<exists>w' J. process_import_run headless_worker 1 sheet_run = (Inr (), w') \<and> db_jobs (committed w') = [J] \<and>
     job_status J = ImportFAILED \<and> job_failure_reason J = Some ''Workbook is missing required headers: shipment_code'')"
proof -
  have run: "script sheet_run = []" "committed sheet_run = example_db" "clock sheet_run = 100"
    "uuid_source sheet_run = (\<lambda>n. n + 10)" "pg_numeric sheet_run = (\<lambda>p s d. Some d)" "draws sheet_run = 0"
    by (simp_all add: sheet_run_def example_run_def)
  have db: "db_jobs example_db = [example_job]" "db_shipments example_db = []" "db_errors example_db = []"
    by (simp_all add: example_db_def)
  have rows: "iter_chunks (wk_load headless_worker) (job_stored_file_path example_job) (wk_chunk_size headless_worker) =
      ([], Some (WorkbookStructureError ''Workbook is missing required headers: shipment_code''))" by code_simp
  have missing: "iter_chunks (wk_load missing_worker) (job_stored_file_path example_job) (wk_chunk_size missing_worker) =
      ([], Some (WorkbookStructureError ''Workbook structure could not be processed.''))" by code_simp
  have stored: "jobs_stored example_db" unfolding jobs_stored_def db by code_simp
  have claim: "claimable 1 example_job" "length (wk_worker_id headless_worker) \<le> 255" "length (wk_worker_id missing_worker) \<le> 255"
    by code_simp+
  have ids: "unused_ids (\<lambda>n. n + 10) (Suc 0) example_db" "inj (\<lambda>n :: nat. n + 10)"
    by (simp_all add: unused_ids_def db inj_def)
  obtain w1 J1 where "process_import_run missing_worker 1 sheet_run = (Inr (), w1)"
    and "committed w1 = with_rows (\<lambda>p s d. Some d) 100 (put_job J1 [example_job]) [] [] (cleared 1 example_db)"
    and "failed_after example_job (failure_reason (WorkbookStructureError ''Workbook structure could not be processed.'')) 0 0 J1"
    using broken_workbook_fails_import [of sheet_run example_job 1 missing_worker "[]", unfolded run db missing,
        OF example_db_ok stored refl _ claim(1,3) refl _ _ refl] ids
    by (auto simp: accepted_rows_def simp del: One_nat_def)
  then have "\<exists>w' J. process_import_run missing_worker 1 sheet_run = (Inr (), w') \<and> db_jobs (committed w') = [J] \<and>
     job_status J = ImportFAILED \<and> job_failure_reason J = Some ''Workbook structure could not be processed.''"
    by (intro exI [of _ w1] exI [of _ J1])
      (simp add: put_job_def failed_after_def example_job_def failure_reason_def str_or_def)
  moreover obtain w' J where "process_import_run headless_worker 1 sheet_run = (Inr (), w')"
    and "committed w' = with_rows (\<lambda>p s d. Some d) 100 (put_job J [example_job]) [] [] (cleared 1 example_db)"
    and "failed_after example_job (failure_reason (WorkbookStructureError ''Workbook is missing required headers: shipment_code'')) 0 0 J"
    using broken_workbook_fails_import [of sheet_run example_job 1 headless_worker "[]", unfolded run db rows,
        OF example_db_ok stored refl _ claim(1,2) refl _ _ refl] ids
    by (auto simp: accepted_rows_def simp del: One_nat_def)
  then have "\<exists>w' J. process_import_run headless_worker 1 sheet_run = (Inr (), w') \<and> db_jobs (committed w') = [J] \<and>
     job_status J = ImportFAILED \<and> job_failure_reason J = Some ''Workbook is missing required headers: shipment_code''"
    by (intro exI [of _ w'] exI [of _ J])
      (simp add: put_job_def failed_after_def example_job_def failure_reason_def str_or_def)
  ultimately show ?thesis ..
qed

section \<open>A row that fits no column\<close>

text \<open>
  PostgreSQL rounds a value half away from zero to the scale of its NUMERIC column. The weight
  0.0001 passes validation (greater than 0) but is stored as 0.000, which the CHECK refuses.
\<close>

definition round_numeric :: numeric where
  "round_numeric p s d =
     (if - int s \<le> dec_exp d then Some d
      else let k = nat (- int s - dec_exp d) in
        Some (Decimal (dec_neg d) ((dec_coeff d + 5 * 10 ^ (k - 1)) div 10 ^ k) (- int s)))"

definition light_worker :: import_worker where
  "light_worker = \<lparr>wk_load = (\<lambda>_. Inr [\<lparr>ws_header = Inr (Some (map PStr REQUIRED_WORKBOOK_HEADERS)),
       ws_data = [[PStr ''A1'', PStr ''Ann'', PStr ''Oslo'', PStr ''Rome'', PStr ''0.0001'', PInt 20, PStr ''PENDING'']],
       ws_data_error = None\<rparr>]),
     wk_adapters = sheet_adapters\<lparr>ad_decimal := (\<lambda>v. if v = PStr ''0.0001'' then Inr (Decimal False 1 (- 4))
       else Inr (Decimal False 20 0))\<rparr>,
     wk_chunk_size = 2, wk_worker_id = ''w1''\<rparr>"

definition light_run :: import_run where
  "light_run = sheet_run\<lparr>pg_numeric := round_numeric\<rparr>"

lemma light_row_clean:
  "map (\<lambda>r. prep_issues (prepare_row (wk_adapters light_worker) r))
     (concat (fst (iter_chunks (wk_load light_worker) ''/s/a.xlsx'' 2))) = [[]]"
  by code_simp

lemma unstorable_accepted:
  assumes "length rows \<le> k" "k < length (rows @ bad)"
    and "(\<exists>p. accepted ad codes (rows @ bad) k p \<and> \<not> storable num (new_shipment 0 i p)) \<or>
      (\<nexists>p. accepted ad codes (rows @ bad) k p) \<and> \<not> finite_value (PDict (row_values ((rows @ bad) ! k)))"
  shows "unstorable num i (verdicts (code_set (map (prepare_row ad) rows)) codes (map (prepare_row ad) bad))"
proof -
  let ?all = "verdicts {} codes (map (prepare_row ad) (rows @ bad))"
  let ?bad = "verdicts (code_set (map (prepare_row ad) rows)) codes (map (prepare_row ad) bad)"
  have split: "?all = verdicts {} codes (map (prepare_row ad) rows) @ ?bad" by (simp add: verdicts_append)
  have "?all ! k = ?bad ! (k - length rows)" using assms(1) unfolding split by (simp add: nth_append)
  then have v: "?all ! k \<in> set ?bad" using assms(1,2) by simp
  have row: "fst (?all ! k) = prepare_row ad ((rows @ bad) ! k)" using assms(2) by (simp add: verdicts_nth del: map_append)
  have clean: "snd (?all ! k) = [] \<longleftrightarrow> (\<exists>p. accepted ad codes (rows @ bad) k p)" by (rule verdict_accepted [OF assms(2)])
  show ?thesis
  proof (cases "\<exists>p. accepted ad codes (rows @ bad) k p")
    case True
    then obtain p where p: "accepted ad codes (rows @ bad) k p" "\<not> storable num (new_shipment 0 i p)" using assms(3) by blast
    have "prepare_row ad ((rows @ bad) ! k) \<in> set (clean_rows ?bad)"
      using v row clean True unfolding clean_rows_def by (force intro: rev_image_eqI)
    moreover have "\<not> storable num (shipment_of i (prepare_row ad ((rows @ bad) ! k)))"
      using p(2) accepted_parsed [OF p(1)] by (simp add: shipment_of_def)
    ultimately show ?thesis unfolding unstorable_def by blast
  next
    case False
    then have "\<not> finite_value (PDict (row_values ((rows @ bad) ! k)))" using assms(3) by blast
    then have "\<not> finite_value (PDict (row_values (prep_row (prepare_row ad ((rows @ bad) ! k)))))"
      by (simp only: prep_row_prepare not_False_eq_True)
    moreover have "prepare_row ad ((rows @ bad) ! k) \<in> set (failed_rows ?bad)"
      using v row clean False by (force simp: failed_rows_set)
    ultimately show ?thesis unfolding unstorable_def by blast
  qed
qed

text \<open>
  C7. One row that the tables do not take fails the whole import, although every row was judged: an
  accepted row whose stored values violate a constraint or overflow (a weight that rounds to
  zero, a city longer than its column), or a rejected row with a NaN or infinite cell, whose report
  is not JSON. The run returns, the job is FAILED; the chunks before the row's chunk stay stored, its
  own chunk leaves nothing, the chunks after it are never looked at.
\<close>

theorem refused_row_fails_import:
  assumes "db_ok (committed w)" "jobs_stored (committed w)" "script w = []"
    and "j \<in> set (db_jobs (committed w))" "claimable i j" "length (wk_worker_id wk) \<le> 255"
    and "iter_chunks (wk_load wk) (job_stored_file_path j) (wk_chunk_size wk) = (good @ bad # later, ended)"
    and "codes = stored_codes (cleared i (committed w))"
    and "finite_rows (concat good)" "inj (uuid_source w)" "unused_ids (uuid_source w) (Suc (draws w)) (committed w)"
    and "\<forall>k \<in> set (accepted_rows (wk_adapters wk) codes (concat good)). \<forall>p.
      accepted (wk_adapters wk) codes (concat good) k p \<longrightarrow> storable (pg_numeric w) (new_shipment 0 i p)"
    and "length (concat good) \<le> k" "k < length (concat good @ bad)"
    and "(\<exists>p. accepted (wk_adapters wk) codes (concat good @ bad) k p \<and> \<not> storable (pg_numeric w) (new_shipment 0 i p)) \<or>
      (\<nexists>p. accepted (wk_adapters wk) codes (concat good @ bad) k p) \<and>
        \<not> finite_value (PDict (row_values ((concat good @ bad) ! k)))"
  shows "\<exists>w' J ss es. process_import_run wk i w = (Inr (), w') \<and>
    committed w' = with_rows (pg_numeric w) (clock w) (put_job J (db_jobs (committed w))) ss es (cleared i (committed w)) \<and>
    failed_after j ''Import processing failed.'' (length (concat good)) (length ss) J \<and>
    list_all2 (\<lambda>k s. \<exists>p. accepted (wk_adapters wk) codes (concat good) k p \<and> s\<lparr>ship_id := 0\<rparr> = new_shipment 0 i p)
      (accepted_rows (wk_adapters wk) codes (concat good)) ss \<and>
    err_row_number ` set es = {row_number (concat good ! k) |k. k < length (concat good) \<and>
      (\<nexists>p. accepted (wk_adapters wk) codes (concat good) k p)}"
proof -
  have i: "cl_import_id (claim_of t j) = i" for t using assms(5) by (simp add: claim_of_def claimable_def)
  have bad: "unstorable (pg_numeric w) (cl_import_id (claim_of (uuid_source w (draws w)) j))
      (verdicts (code_set (map (prepare_row (wk_adapters wk)) (concat good))) codes (map (prepare_row (wk_adapters wk)) bad))"
    unfolding i by (rule unstorable_accepted [OF assms(13-15)])
  have only: "StaleImportWorkerError \<notin> {SqlError IntegrityError, SqlError OtherSQLAlchemyError}"
    "SqlError OperationalError \<notin> {SqlError IntegrityError, SqlError OtherSQLAlchemyError}" by auto
  have reason: "failure_reason e = ''Import processing failed.''" if "e \<in> {SqlError IntegrityError, SqlError OtherSQLAlchemyError}" for e
    using that by (auto simp: failure_reason_def)
  from process_import_run_stops [OF assms(1-7,9-11) assms(12) [unfolded assms(8)] stops_refused [OF bad [unfolded assms(8)]] only]
  show ?thesis unfolding assms(8) by (elim exE conjE) (intro exI conjI, simp_all only: reason)
qed

definition light_chunk :: "parsed_workbook_row list" where
  "light_chunk = concat (fst (iter_chunks (wk_load light_worker) ''/s/a.xlsx'' 2))"

definition light_shipment :: parsed_shipment where
  "light_shipment = the (prep_parsed_row (prepare_row (wk_adapters light_worker) (hd light_chunk)))"

lemma light_chunk:
  "iter_chunks (wk_load light_worker) ''/s/a.xlsx'' 2 = ([light_chunk], None)" "length light_chunk = 1"
  "prep_parsed_row (prepare_row (wk_adapters light_worker) (light_chunk ! 0)) = Some light_shipment"
  by code_simp+

lemma light_accepted: "accepted (wk_adapters light_worker) {} light_chunk 0 light_shipment"
proof -
  have "accepted_rows (wk_adapters light_worker) {} light_chunk = [0]" unfolding accepted_rows_verdicts by code_simp
  then have "0 \<in> set (accepted_rows (wk_adapters light_worker) {} light_chunk)" by simp
  then obtain p where p: "accepted (wk_adapters light_worker) {} light_chunk 0 p" unfolding accepted_rows_def by auto
  have "Some p = Some light_shipment" unfolding light_chunk(3) [symmetric] by (rule accepted_parsed [OF p, symmetric])
  then show ?thesis using p by simp
qed

lemma light_unstorable: "\<not> storable round_numeric (new_shipment 0 1 light_shipment)"
proof -
  have "(case stored_shipment round_numeric (new_shipment 0 1 light_shipment) of None \<Rightarrow> False | Some s \<Rightarrow> shipment_constraints s = None) = False"
    by code_simp
  then show ?thesis by (auto simp: storable_def split: option.splits)
qed

theorem refused_row_fails_import_witness:
  "\<exists>w' J. process_import_run light_worker 1 light_run = (Inr (), w') \<and> db_jobs (committed w') = [J] \<and>
     job_status J = ImportFAILED \<and> job_total_rows J = 0 \<and> db_shipments (committed w') = []"
proof -
  have run: "script light_run = []" "committed light_run = example_db" "clock light_run = 100"
    "uuid_source light_run = (\<lambda>n. n + 10)" "pg_numeric light_run = round_numeric" "draws light_run = 0"
    by (simp_all add: light_run_def sheet_run_def example_run_def)
  have db: "db_jobs example_db = [example_job]" "db_shipments example_db = []" "db_errors example_db = []"
    by (simp_all add: example_db_def)
  have codes: "stored_codes (cleared 1 example_db) = {}" by (simp add: stored_codes_def cleared_def db)
  have rows: "iter_chunks (wk_load light_worker) (job_stored_file_path example_job) (wk_chunk_size light_worker) = ([] @ light_chunk # [], None)"
    using light_chunk(1) by (simp add: example_job_def light_worker_def)
  have start: "jobs_stored example_db" unfolding jobs_stored_def db by code_simp
  have job: "claimable 1 example_job" "length (wk_worker_id light_worker) \<le> 255" by code_simp+
  have ids: "finite_rows (concat [])" "inj (\<lambda>n :: nat. n + 10)" "unused_ids (\<lambda>n. n + 10) (Suc 0) example_db"
    by (simp_all add: unused_ids_def db inj_def)
  have listed: "example_job \<in> set [example_job]" by simp
  from refused_row_fails_import [of light_run example_job 1 light_worker "[]" light_chunk "[]" None "{}" 0, unfolded run db codes,
      OF example_db_ok start refl listed job rows refl ids]
  obtain w' J ss es where "process_import_run light_worker 1 light_run = (Inr (), w')"
    and "committed w' = with_rows round_numeric 100 (put_job J [example_job]) ss es (cleared 1 example_db)"
    and "failed_after example_job ''Import processing failed.'' 0 (length ss) J"
    and "list_all2 (\<lambda>k s. \<exists>p. accepted (wk_adapters light_worker) {} [] k p \<and> s\<lparr>ship_id := 0\<rparr> = new_shipment 0 1 p) [] ss"
    using light_accepted light_unstorable light_chunk(2) by (auto simp: accepted_rows_def)
  then show ?thesis
    by (intro exI [of _ w'] exI [of _ J]) (simp add: put_job_def failed_after_def example_job_def cleared_def db)
qed

end
