(* ===== verification/Fencing.thy ===== *)
theory Fencing
  imports Outbox_Safety
begin

text \<open>
  Ownership tokens as fences: a worker whose import was taken over, or a publisher whose claim
  was recovered, can no longer write, whatever it tries and whenever it wakes up.
\<close>

lemma refused_update_jobs:
  assumes "\<forall>j \<in> set (db_jobs db). job_processing_token j \<noteq> Some t"
  shows "update_jobs (job_owned i t) f now db = Inr (0, db)"
proof -
  have none: "filter (job_owned i t) (db_jobs db) = []"
    using assms by (auto simp: filter_empty_conv job_owned_def)
  have "sql_update (job_owned i t) g (db_jobs db) = db_jobs db" for g
    by (rule job_fence.stale_update(1) [OF assms])
  then show ?thesis
    by (simp add: update_jobs_def Let_def none sql_count_def List.map_filter_def)
qed

lemma refused_update_outbox:
  assumes "\<forall>r \<in> set (db_outbox db). ob_claim_token r \<noteq> Some t"
  shows "update_outbox (outbox_owned i t) f now db = Inr (0, db)"
  using outbox_fence.stale_update [OF assms] by (simp add: update_outbox_def)

lemma refused_statement:
  assumes "f (ev_locked (next_event w)) (tx_time (advance w)) (working (advance w)) = Inr (0, working (advance w))"
  shows "snd (bindE (statement f) (\<lambda>rowcount. ret (rowcount = (1::nat))) w) = advance w \<and>
    fst (bindE (statement f) (\<lambda>rowcount. ret (rowcount = 1)) w) \<noteq> Inr True"
proof -
  have "(advance w)\<lparr>working := working (advance w)\<rparr> = advance w" by simp
  then show ?thesis
    using assms by (simp add: bindE_def statement_def ret_def Let_def split: option.split)
qed

text \<open>The six writes of a worker to its import.\<close>

definition worker_write :: "('z world_scheme, bool) action \<Rightarrow> uuid \<Rightarrow> uuid \<Rightarrow> bool" where
  "worker_write m i t \<longleftrightarrow> m = heartbeat i t \<or> m = reset_for_reprocessing i t \<or>
     (\<exists>n s f. m = record_chunk_counts i t n s f) \<or> (\<exists>n s f. m = complete_import i t n s f) \<or>
     (\<exists>reason. m = fail_import i t reason) \<or> (\<exists>reason. m = requeue_for_retry i t reason)"

lemma worker_write_update:
  "worker_write m i t \<Longrightarrow> \<exists>v. m = update_current_processing_import i t v"
  by (auto simp: worker_write_def heartbeat_def reset_for_reprocessing_def record_chunk_counts_def
      complete_import_def fail_import_def requeue_for_retry_def)

text \<open>
  C12. A worker that lost its import is fenced off: once no job carries its token (the watchdog
  requeued the import, another worker claimed it under its own token, it is finished), none of
  the six writes of the worker changes anything, and none reports success: heartbeat, chunk
  counts, reset, completion, failure and requeue.
\<close>

theorem stale_worker_refused:
  assumes "worker_write m i t"
    and "\<forall>j \<in> set (db_jobs (working (advance w))). job_processing_token j \<noteq> Some t"
  shows "snd (m w) = advance w \<and> fst (m w) \<noteq> Inr True"
proof -
  obtain v where "m = update_current_processing_import i t v" using worker_write_update [OF assms(1)] by blast
  then show ?thesis
    unfolding update_current_processing_import_def
    using refused_statement [of "\<lambda>_ now db. update_jobs (job_owned i t) (v now) now db" w]
      refused_update_jobs [OF assms(2)] by simp
qed

definition takeover_world :: world where
  "takeover_world = \<lparr>committed = example_db, working = example_db,
     script = [quiet\<lparr>ev_others := db_jobs_update (\<lambda>_. [claim_values 8 ''w2'' 9 example_job])\<rparr>],
     clock = 100, tx_time = 0, draws = 0, uuid_source = (\<lambda>n. n + 10), pg_numeric = (\<lambda>p s d. Some d), advisory = []\<rparr>"

text \<open>Another worker holds the import: the first one cannot complete it.\<close>

theorem stale_worker_refused_witness:
  "working (snd (complete_import 1 7 5 5 0 takeover_world)) =
     example_db\<lparr>db_jobs := [claim_values 8 ''w2'' 9 example_job]\<rparr>"
proof -
  have adv: "working (advance takeover_world) = example_db\<lparr>db_jobs := [claim_values 8 ''w2'' 9 example_job]\<rparr>"
    by (simp add: others_def takeover_world_def advance_def next_event_def quiet_def Let_def)
  have "snd (complete_import 1 7 5 5 0 takeover_world) = advance takeover_world \<and>
      fst (complete_import 1 7 5 5 0 takeover_world) \<noteq> Inr True"
  proof (rule stale_worker_refused)
    show "worker_write (complete_import 1 7 5 5 0) 1 7" unfolding worker_write_def by blast
  qed (simp add: adv claim_values_def)
  then show ?thesis by (simp add: adv)
qed

text \<open>
  C13. A publisher whose claim was recovered is fenced off: once no intent carries its token,
  recording a success or a failure changes nothing and reports that nothing was recorded, so
  the intent that was requeued stays with whoever claims it next.
\<close>

theorem stale_publisher_refused:
  assumes "\<forall>r \<in> set (db_outbox (working (advance w))). ob_claim_token r \<noteq> Some (oc_claim_token ev)"
  shows "snd (mark_published ev w) = advance w \<and> fst (mark_published ev w) \<noteq> Inr True \<and>
    snd (mark_publish_failure ev a msg st at cl w) = advance w \<and>
    fst (mark_publish_failure ev a msg st at cl w) \<noteq> Inr True"
  unfolding mark_published_def mark_publish_failure_def
  using refused_statement [of _ w] refused_update_outbox [OF assms] by simp_all

text \<open>The claim of an intent, then its recovery: the late success is not recorded.\<close>

theorem stale_publisher_refused_witness:
  "fst (mark_published \<lparr>oc_outbox_id = 21, oc_import_id = 1, oc_claim_token = 7, oc_attempt_count = 0\<rparr>
     round_world) \<noteq> Inr True"
  using stale_publisher_refused [of round_world "\<lparr>oc_outbox_id = 21, oc_import_id = 1, oc_claim_token = 7, oc_attempt_count = 0\<rparr>"]
  by (simp add: round_world_def publisher_world_def advance_def next_event_def quiet_def Let_def outbox_db_def
      example_intent_def new_dispatch_row_def)

end
