(* ===== verification/Pagination.thy ===== *)
theory Pagination
  imports Settings Quiet_Session
begin

text \<open>
  Pagination (app/common/pagination.py): the page parameters of a query string, the metadata of
  the response, and what LIMIT and OFFSET make of them.
\<close>

record page_request =
  pr_page :: int
  pr_page_size :: int

definition page_offset :: "page_request \<Rightarrow> int" where
  "page_offset r = (pr_page r - 1) * pr_page_size r"

record pagination_metadata =
  pm_page :: int
  pm_page_size :: int
  pm_total_items :: int
  pm_total_pages :: int

definition parse_positive_integer :: "string option \<Rightarrow> string \<Rightarrow> int \<Rightarrow> exn + int" where
  "parse_positive_integer v name dflt = (case v of
     None \<Rightarrow> Inr dflt
   | Some text \<Rightarrow>
       (case py_int text of
          None \<Rightarrow> Inl (InvalidPaginationError (name @ '' must be a positive integer.''))
        | Some parsed \<Rightarrow>
            if parsed \<le> 0 then Inl (InvalidPaginationError (name @ '' must be a positive integer.''))
            else Inr parsed))"

definition parse_page_request :: "string option \<Rightarrow> string option \<Rightarrow> int \<Rightarrow> int \<Rightarrow> exn + page_request" where
  "parse_page_request page page_size default_page_size max_page_size =
     (case parse_positive_integer page ''page'' 1 of
        Inl e \<Rightarrow> Inl e
      | Inr parsed_page \<Rightarrow>
          (case parse_positive_integer page_size ''page_size'' default_page_size of
             Inl e \<Rightarrow> Inl e
           | Inr parsed_page_size \<Rightarrow>
               if parsed_page_size > max_page_size
               then Inl (InvalidPaginationError (''page_size must not exceed '' @ int_str max_page_size @ ''.''))
               else Inr \<lparr>pr_page = parsed_page, pr_page_size = parsed_page_size\<rparr>))"

text \<open>\<^verbatim>\<open>//\<close> rounds down, as \<^verbatim>\<open>div\<close> does, and raises for 0.\<close>

definition build_pagination_metadata :: "page_request \<Rightarrow> int \<Rightarrow> exn + pagination_metadata" where
  "build_pagination_metadata request total_items =
     (if pr_page_size request = 0 then Inl ZeroDivisionError
      else Inr \<lparr>pm_page = pr_page request, pm_page_size = pr_page_size request, pm_total_items = total_items,
             pm_total_pages = (total_items + pr_page_size request - 1) div pr_page_size request\<rparr>)"

text \<open>
  ORDER BY a key, LIMIT, OFFSET. The server takes both counts as BIGINT and refuses a negative
  one; a statement with another count is an error of the database (one of more digits than the
  driver can write is taken for the same).
\<close>

definition row_count_ok :: "int \<Rightarrow> bool" where
  "row_count_ok n \<longleftrightarrow> 0 \<le> n \<and> n < 2 ^ 63"

definition order_page :: "('r \<Rightarrow> 'k::linorder) \<Rightarrow> int \<Rightarrow> int \<Rightarrow> 'r list \<Rightarrow> 'r list" where
  "order_page k page_limit page_start rows = take (nat page_limit) (drop (nat page_start) (sort_key k rows))"

definition select_page ::
  "('r \<Rightarrow> 'k::linorder) \<Rightarrow> int \<Rightarrow> int \<Rightarrow> (database \<Rightarrow> 'r list) \<Rightarrow> ('z world_scheme, 'r list) action" where
  "select_page k page_limit page_start rows = statement (\<lambda>_ _ db.
     if row_count_ok page_limit \<and> row_count_ok page_start
     then Inr (order_page k page_limit page_start (rows db), db) else Inl OtherSQLAlchemyError)"

lemma select_page_quiet:
  "script w = [] \<Longrightarrow> select_page k n m rows w =
     (if row_count_ok n \<and> row_count_ok m then Inr (order_page k n m (rows (working w)))
      else Inl (SqlError OtherSQLAlchemyError), w)"
  by (simp add: select_page_def statement_def quiet_def)

section \<open>What a request satisfies\<close>

lemma parse_positive_integer_Inr:
  "parse_positive_integer v name dflt = Inr n \<Longrightarrow> 0 < dflt \<Longrightarrow> 0 < n"
  by (auto simp: parse_positive_integer_def split: option.splits if_splits)

text \<open>
  C31. A page request that is accepted is within the limits of the settings: the page is positive, the
  size positive and at most the maximum, the offset not negative; absent parameters give the
  first page of the default size; and every refusal is an InvalidPaginationError, never another
  exception, whatever the text of the parameters.
\<close>

theorem parse_page_request_bounds:
  assumes "settings_accepted s"
  shows "case parse_page_request page page_size (set_default_page_size s) (set_max_page_size s) of
      Inr r \<Rightarrow> 1 \<le> pr_page r \<and> 1 \<le> pr_page_size r \<and> pr_page_size r \<le> set_max_page_size s \<and> 0 \<le> page_offset r \<and>
        (page = None \<longrightarrow> pr_page r = 1 \<and> page_offset r = 0) \<and> (page_size = None \<longrightarrow> pr_page_size r = set_default_page_size s)
    | Inl e \<Rightarrow> \<exists>msg. e = InvalidPaginationError msg"
proof -
  have dflt: "0 < set_default_page_size s" "set_default_page_size s \<le> set_max_page_size s"
    using assms by (simp_all add: settings_accepted_def validators_ok positive_fields_def)
  show ?thesis
  proof (cases "parse_page_request page page_size (set_default_page_size s) (set_max_page_size s)")
    case (Inl e)
    then show ?thesis
      by (auto simp: parse_page_request_def parse_positive_integer_def split: option.splits if_splits sum.splits)
  next
    case (Inr r)
    then obtain p n where r: "r = \<lparr>pr_page = p, pr_page_size = n\<rparr>" "n \<le> set_max_page_size s"
      and p: "parse_positive_integer page ''page'' 1 = Inr p"
      and n: "parse_positive_integer page_size ''page_size'' (set_default_page_size s) = Inr n"
      by (auto simp: parse_page_request_def split: sum.splits if_splits)
    have "0 < p" "0 < n" using parse_positive_integer_Inr [OF p] parse_positive_integer_Inr [OF n] dflt by simp_all
    then show ?thesis
      using r p n unfolding Inr by (auto simp: page_offset_def parse_positive_integer_def)
  qed
qed

lemma accepted_page_size:
  assumes "settings_accepted s" "parse_page_request p n (set_default_page_size s) (set_max_page_size s) = Inr r"
  shows "0 < pr_page_size r"
proof -
  have "0 < set_default_page_size s" using assms(1) by (simp add: settings_accepted_def validators_ok positive_fields_def)
  then show ?thesis
    using assms(2) parse_positive_integer_Inr by (auto simp: parse_page_request_def split: sum.splits if_splits)
qed

theorem parse_page_request_bounds_witness:
  "parse_page_request (Some '' 3 '') (Some ''50'') 20 100 = Inr \<lparr>pr_page = 3, pr_page_size = 50\<rparr> \<and>
   (case parse_page_request (Some ''x'') None (set_default_page_size default_settings) (set_max_page_size default_settings) of
      Inr r \<Rightarrow> False | Inl e \<Rightarrow> \<exists>msg. e = InvalidPaginationError msg)"
proof
  show "parse_page_request (Some '' 3 '') (Some ''50'') 20 100 = Inr \<lparr>pr_page = 3, pr_page_size = 50\<rparr>" by code_simp
  have "parse_page_request (Some ''x'') None (set_default_page_size default_settings) (set_max_page_size default_settings) =
      Inl (InvalidPaginationError ''page must be a positive integer.'')" by code_simp
  then show "case parse_page_request (Some ''x'') None (set_default_page_size default_settings) (set_max_page_size default_settings) of
      Inr r \<Rightarrow> False | Inl e \<Rightarrow> \<exists>msg. e = InvalidPaginationError msg"
    using parse_page_request_bounds [OF default_settings_accepted, of "Some ''x''" None] by simp
qed

section \<open>Pages\<close>

lemma concat_pages:
  assumes "0 < n"
  shows "concat (map (\<lambda>i. take n (drop (i * n) xs)) [0..<k]) = take (k * n) xs"
proof (induction k)
  case (Suc k)
  have "take (k * n) xs @ take n (drop (k * n) xs) = take (k * n + n) xs" by (simp add: take_add)
  with Suc show ?case by (simp add: add.commute)
qed simp

text \<open>The page \<open>p\<close> of a listing.\<close>

definition nth_page :: "('r \<Rightarrow> 'k::linorder) \<Rightarrow> int \<Rightarrow> 'r list \<Rightarrow> nat \<Rightarrow> 'r list" where
  "nth_page k page_size rows p =
     (let r = \<lparr>pr_page = int p, pr_page_size = page_size\<rparr> in order_page k (pr_page_size r) (page_offset r) rows)"

lemma nth_page_Suc: "0 < n \<Longrightarrow> nth_page k n rows (Suc i) = take (nat n) (drop (i * nat n) (sort_key k rows))"
  by (simp add: nth_page_def order_page_def page_offset_def nat_mult_distrib)

lemma all_pages:
  assumes "0 < page_size"
    and "build_pagination_metadata r (int (length rows)) = Inr m" "pages = nat (pm_total_pages m)" "pr_page_size r = page_size"
  shows "concat (map (nth_page k page_size rows) [1..<pages + 1]) = sort_key k rows \<and>
    (\<forall>p \<in> {1..<pages}. int (length (nth_page k page_size rows p)) = page_size) \<and>
    (\<forall>p \<in> {1..pages}. nth_page k page_size rows p \<noteq> []) \<and> nth_page k page_size rows (pages + 1) = []"
proof -
  obtain n where n: "page_size = int n" "0 < n" using assms(1) zero_less_imp_eq_int by blast
  let ?xs = "sort_key k rows"
  have page: "nth_page k page_size rows (Suc i) = take n (drop (i * n) ?xs)" for i
    using nth_page_Suc [OF assms(1), of k rows i] by (simp add: n(1))
  have pages: "pages = (length rows + n - 1) div n"
  proof -
    have "int (length rows) + int n - 1 = int (length rows + n - 1)" using n(2) by (simp add: of_nat_diff)
    moreover have "pm_total_pages m = (int (length rows) + int n - 1) div int n"
      using assms(2,4) n by (auto simp: build_pagination_metadata_def)
    ultimately have "pm_total_pages m = int ((length rows + n - 1) div n)" by (simp only: zdiv_int)
    then show ?thesis using assms(3) by simp
  qed
  have enough: "length rows \<le> pages * n"
  proof -
    have "length rows + n - 1 = pages * n + (length rows + n - 1) mod n" unfolding pages by simp
    moreover have "(length rows + n - 1) mod n < n" using n(2) by simp
    ultimately show ?thesis using n(2) by linarith
  qed
  have last: "(pages - 1) * n < length rows" if "0 < pages"
  proof -
    have "pages * n \<le> length rows + n - 1" unfolding pages by (simp add: div_times_less_eq_dividend)
    then show ?thesis using that n(2) by (cases pages) auto
  qed
  have part: "i * n < length rows" if "i < pages" for i
  proof -
    have "i * n \<le> (pages - 1) * n" using that by (intro mult_le_mono1) simp
    also have "\<dots> < length rows" using last that by simp
    finally show ?thesis .
  qed
  have "concat (map (nth_page k page_size rows) [1..<pages + 1]) =
      concat (map (\<lambda>i. take n (drop (i * n) ?xs)) [0..<pages])"
    by (simp add: map_Suc_upt [symmetric] comp_def page del: upt_Suc)
  then have "concat (map (nth_page k page_size rows) [1..<pages + 1]) = ?xs"
    using concat_pages [OF n(2), of ?xs pages] enough by simp
  moreover have "int (length (nth_page k page_size rows p)) = page_size" if p: "p \<in> {1..<pages}" for p
  proof -
    obtain i where i: "p = Suc i" using p by (cases p) auto
    have "i * n + n \<le> length rows" using part [of p] p i by simp
    then show ?thesis unfolding i page by (simp add: n(1))
  qed
  moreover have "nth_page k page_size rows p \<noteq> []" if p: "p \<in> {1..pages}" for p
  proof -
    obtain i where i: "p = Suc i" using p by (cases p) auto
    have "i * n < length rows" using part [of i] p i by simp
    then show ?thesis using n(2) by (simp add: i page)
  qed
  moreover have "nth_page k page_size rows (pages + 1) = []"
    using enough by (simp add: page)
  ultimately show ?thesis by blast
qed

text \<open>
  Walking the pages of a listing shows every row exactly once, in the order of the listing: the
  pages 1 to \<^verbatim>\<open>total_pages\<close> of the metadata, one after the other, are the sorted rows, every one
  of them but the last is full, none is empty, and the page after the last one is.
\<close>

theorem pages_partition:
  assumes "0 < page_size"
    and "build_pagination_metadata r (int (length rows)) = Inr m" "pages = nat (pm_total_pages m)" "pr_page_size r = page_size"
  shows "concat (map (nth_page k page_size rows) [1..<pages + 1]) = sort_key k rows \<and>
    (\<forall>p \<in> {1..<pages}. int (length (nth_page k page_size rows p)) = page_size) \<and>
    (\<forall>p \<in> {1..pages}. nth_page k page_size rows p \<noteq> []) \<and> nth_page k page_size rows (pages + 1) = []"
  by (rule all_pages [OF assms])

theorem pages_partition_witness:
  "concat (map (nth_page (\<lambda>x. x) 2 [5, 3, 4 :: nat]) [1..<3]) = [3, 4, 5]"
  using pages_partition [of 2 "\<lparr>pr_page = 1, pr_page_size = 2\<rparr>" "[5, 3, 4 :: nat]" "\<lparr>pm_page = 1, pm_page_size = 2, pm_total_items = 3, pm_total_pages = 2\<rparr>" 2 "\<lambda>x. x"]
  by (simp add: build_pagination_metadata_def eval_nat_numeral)

end
