(* ===== verification/Import_Queries.thy ===== *)
theory Import_Queries
  imports Create_Import Pagination
begin

text \<open>
  The read side of imports: the queries of ImportRepository and ImportErrorRepository
  (app/imports/repositories), the read models (app/imports/dto.py), GetImportStatusService and
  ListImportErrorsService (app/imports/services/get_import_status.py, list_import_errors.py).
  A response is the association list the service builds, key by key.
\<close>

section \<open>Repositories\<close>

record import_status_read_model =
  sm_import_id :: uuid
  sm_status :: string
  sm_total_rows :: nat
  sm_processed_rows :: nat
  sm_success_count :: nat
  sm_failed_count :: nat
  sm_created_at :: timestamp
  sm_started_at :: "timestamp option"
  sm_finished_at :: "timestamp option"
  sm_last_failure_reason :: "string option"
  sm_failure_reason :: "string option"

record import_error_read_model =
  em_row_number :: nat
  em_field :: string
  em_error :: string

record import_error_page =
  ep_items :: "import_error_read_model list"
  ep_total_items :: nat

definition get_status_by_id :: "uuid \<Rightarrow> ('z world_scheme, string option) action" where
  "get_status_by_id import_id = query (\<lambda>db.
     map_option (import_status_str \<circ> job_status) (List.find (\<lambda>j. job_id j = import_id) (db_jobs db)))"

definition import_exists :: "uuid \<Rightarrow> ('z world_scheme, bool) action" where
  "import_exists import_id = query (\<lambda>db. List.find (\<lambda>j. job_id j = import_id) (db_jobs db) \<noteq> None)"

definition get_id_by_idempotency_key :: "string \<Rightarrow> ('z world_scheme, uuid option) action" where
  "get_id_by_idempotency_key idempotency_key = query (\<lambda>db.
     map_option job_id (List.find (\<lambda>j. job_idempotency_key j = Some idempotency_key) (db_jobs db)))"

definition status_read_model :: "import_job \<Rightarrow> import_status_read_model" where
  "status_read_model j = \<lparr>sm_import_id = job_id j, sm_status = import_status_str (job_status j),
     sm_total_rows = job_total_rows j, sm_processed_rows = job_processed_rows j,
     sm_success_count = job_success_count j, sm_failed_count = job_failed_count j,
     sm_created_at = job_created_at j, sm_started_at = job_started_at j, sm_finished_at = job_finished_at j,
     sm_last_failure_reason = job_last_failure_reason j, sm_failure_reason = job_failure_reason j\<rparr>"

definition get_status_read_model :: "uuid \<Rightarrow> ('z world_scheme, import_status_read_model option) action" where
  "get_status_read_model import_id = statement (\<lambda>_ _ db.
     map_sum id (\<lambda>row. (map_option status_read_model row, db))
       (one_or_none (filter (\<lambda>j. job_id j = import_id) (db_jobs db))))"

definition error_read_model :: "import_error_row \<Rightarrow> import_error_read_model" where
  "error_read_model r = \<lparr>em_row_number = err_row_number r, em_field = err_field r, em_error = err_error r\<rparr>"

definition errors_of :: "uuid \<Rightarrow> database \<Rightarrow> import_error_row list" where
  "errors_of import_id db = filter (\<lambda>r. err_import_id r = import_id) (db_errors db)"

definition list_errors_page :: "uuid \<Rightarrow> int \<Rightarrow> int \<Rightarrow> ('z world_scheme, import_error_page) action" where
  "list_errors_page import_id page_limit page_start =
     bindE (query (\<lambda>db. length (errors_of import_id db))) (\<lambda>total_items.
     bindE (select_page (\<lambda>r. (err_row_number r, err_id r)) page_limit page_start (errors_of import_id)) (\<lambda>rows. ret \<lparr>ep_items = map error_read_model rows, ep_total_items = total_items\<rparr>))"

section \<open>Services\<close>

datatype payload_value =
    PayUuid uuid | PayText string | PayInt int | PayTime timestamp | PayNone

definition pay_time :: "timestamp option \<Rightarrow> payload_value" where
  "pay_time v = (case v of None \<Rightarrow> PayNone | Some t \<Rightarrow> PayTime t)"

definition pay_text :: "string option \<Rightarrow> payload_value" where
  "pay_text v = (case v of None \<Rightarrow> PayNone | Some t \<Rightarrow> PayText t)"

text \<open>\<^verbatim>\<open>asdict(record)\<close>\<close>

definition status_fields :: "import_status_read_model \<Rightarrow> (string \<times> payload_value) list" where
  "status_fields m =
     [(''import_id'', PayUuid (sm_import_id m)), (''status'', PayText (sm_status m)),
      (''total_rows'', PayInt (int (sm_total_rows m))), (''processed_rows'', PayInt (int (sm_processed_rows m))),
      (''success_count'', PayInt (int (sm_success_count m))), (''failed_count'', PayInt (int (sm_failed_count m))),
      (''created_at'', PayTime (sm_created_at m)), (''started_at'', pay_time (sm_started_at m)),
      (''finished_at'', pay_time (sm_finished_at m)),
      (''last_failure_reason'', pay_text (sm_last_failure_reason m)),
      (''failure_reason'', pay_text (sm_failure_reason m))]"

definition pop_key :: "string \<Rightarrow> (string \<times> 'v) list \<Rightarrow> (string \<times> 'v) list" where
  "pop_key k d = filter (\<lambda>(k', v). k' \<noteq> k) d"

definition status_payload :: "import_status_read_model \<Rightarrow> (string \<times> payload_value) list" where
  "status_payload m =
     (let payload = status_fields m;
          payload = (if sm_status m = ''COMPLETED'' \<or> sm_status m \<noteq> ''FAILED'' \<and> sm_last_failure_reason m = None
                     then pop_key ''last_failure_reason'' payload else payload)
      in if sm_status m \<noteq> ''FAILED'' then pop_key ''failure_reason'' payload else payload)"

definition get_status :: "uuid \<Rightarrow> ('z world_scheme, (string \<times> payload_value) list) action" where
  "get_status import_id =
     bindE (with_session (get_status_read_model import_id)) (\<lambda>row.
       case row of None \<Rightarrow> throw ImportNotFoundError | Some m \<Rightarrow> ret (status_payload m))"

record 'a listing =
  ls_items :: "'a list"
  ls_pagination :: pagination_metadata

definition list_import_errors ::
  "uuid \<Rightarrow> page_request \<Rightarrow> ('z world_scheme, import_error_read_model listing) action" where
  "list_import_errors import_id r =
     bindE (with_session (bindE (import_exists import_id) (\<lambda>found.
       if \<not> found then throw ImportNotFoundError
       else list_errors_page import_id (pr_page_size r) (page_offset r))))
     (\<lambda>p. case build_pagination_metadata r (int (ep_total_items p)) of
        Inl e \<Rightarrow> throw e
      | Inr pagination \<Rightarrow> ret \<lparr>ls_items = ep_items p, ls_pagination = pagination\<rparr>)"

section \<open>What they read\<close>

lemma job_rows:
  assumes ids: "distinct (map job_id (db_jobs db))"
  shows "one_or_none (filter (\<lambda>j. job_id j = i) (db_jobs db)) = Inr (List.find (\<lambda>j. job_id j = i) (db_jobs db))"
proof (cases "\<exists>j \<in> set (db_jobs db). job_id j = i")
  case True
  then obtain j where j: "j \<in> set (db_jobs db)" "job_id j = i" by blast
  show ?thesis using distinct_key_filter [OF ids j(1)] find_by_key [OF ids j(1)] j(2) by (simp add: one_or_none_def)
next
  case False
  then have "filter (\<lambda>j. job_id j = i) (db_jobs db) = []" "List.find (\<lambda>j. job_id j = i) (db_jobs db) = None"
    by (auto simp: filter_empty_conv find_None_iff)
  then show ?thesis by (simp add: one_or_none_def)
qed

lemma get_status_quiet:
  assumes "script w = []" "distinct (map job_id (db_jobs (committed w)))"
  shows "fst (get_status i w) = (case List.find (\<lambda>j. job_id j = i) (db_jobs (committed w)) of
    None \<Rightarrow> Inl ImportNotFoundError | Some j \<Rightarrow> Inr (status_payload (status_read_model j)))"
  using assms
  by (simp add: get_status_def bindE_def with_session_def begin_tx_def get_status_read_model_def statement_def quiet_def
      job_rows throw_def ret_def split: option.split)

text \<open>A key of the response has the value of the field, unless it was popped.\<close>

lemma status_payload_value:
  "map_of (status_payload m) k =
     (if k = ''failure_reason'' \<and> sm_status m \<noteq> ''FAILED'' \<or> k = ''last_failure_reason'' \<and>
        (sm_status m = ''COMPLETED'' \<or> sm_status m \<noteq> ''FAILED'' \<and> sm_last_failure_reason m = None)
      then None else map_of (status_fields m) k)"
proof -
  have pop: "map_of (pop_key k' d) l = (if l = k' then None else map_of d l)" for k' l and d :: "(string \<times> payload_value) list"
    by (induction d) (auto simp: pop_key_def)
  show ?thesis by (auto simp: status_payload_def Let_def pop)
qed

lemma key_of: "k \<in> fst ` set p \<longleftrightarrow> map_of p k \<noteq> None"
  by (simp add: map_of_eq_None_iff)

text \<open>
  C27. What a client sees of an import: an unknown id is ImportNotFoundError; otherwise the response
  carries the current status, each counter under its own name and the times as they are stored,
  and a reason of failure exactly when the import FAILED (the stored one, never null then); a
  COMPLETED import shows no reason at all, and one that is under way shows the reason of its
  last attempt exactly when there is one. The counters add up.
\<close>

theorem get_status_payload:
  assumes "script w = []" "db_ok (committed w)"
  shows "case List.find (\<lambda>j. job_id j = i) (db_jobs (committed w)) of
      None \<Rightarrow> fst (get_status i w) = Inl ImportNotFoundError
    | Some j \<Rightarrow> \<exists>p. fst (get_status i w) = Inr p \<and>
        map_of p ''import_id'' = Some (PayUuid i) \<and> map_of p ''status'' = Some (PayText (import_status_str (job_status j))) \<and>
        map_of p ''total_rows'' = Some (PayInt (int (job_total_rows j))) \<and>
        map_of p ''processed_rows'' = Some (PayInt (int (job_processed_rows j))) \<and>
        map_of p ''success_count'' = Some (PayInt (int (job_success_count j))) \<and>
        map_of p ''failed_count'' = Some (PayInt (int (job_failed_count j))) \<and>
        job_total_rows j = job_success_count j + job_failed_count j \<and>
        map_of p ''created_at'' = Some (PayTime (job_created_at j)) \<and>
        map_of p ''started_at'' = Some (case job_started_at j of None \<Rightarrow> PayNone | Some t \<Rightarrow> PayTime t) \<and>
        map_of p ''finished_at'' = Some (case job_finished_at j of None \<Rightarrow> PayNone | Some t \<Rightarrow> PayTime t) \<and>
        (''failure_reason'' \<in> fst ` set p \<longleftrightarrow> job_status j = ImportFAILED) \<and>
        (job_status j = ImportFAILED \<longrightarrow> (\<exists>reason. job_failure_reason j = Some reason \<and>
           map_of p ''failure_reason'' = Some (PayText reason))) \<and>
        (''last_failure_reason'' \<in> fst ` set p \<longleftrightarrow> job_status j = ImportFAILED \<or>
           job_status j \<noteq> ImportCOMPLETED \<and> job_last_failure_reason j \<noteq> None) \<and>
        (''last_failure_reason'' \<in> fst ` set p \<longrightarrow> map_of p ''last_failure_reason'' =
           Some (case job_last_failure_reason j of None \<Rightarrow> PayNone | Some t \<Rightarrow> PayText t))"
proof -
  have ids: "distinct (map job_id (db_jobs (committed w)))" using assms(2) by (simp add: db_ok_def jobs_ok_def)
  show ?thesis
  proof (cases "List.find (\<lambda>j. job_id j = i) (db_jobs (committed w))")
  case None
  then show ?thesis by (simp add: get_status_quiet [OF assms(1) ids])
next
  case (Some j)
  then have j: "j \<in> set (db_jobs (committed w))" "job_id j = i"
    by (metis (mono_tags, lifting) find_Some_iff nth_mem)+
  have ok: "job_ok j" using assms(2) j(1) by (simp add: db_ok_def jobs_ok_def)
  have reason: "\<exists>reason. job_failure_reason j = Some reason" if "job_status j = ImportFAILED"
    using ok that by (auto simp: job_ok_def ck_failure_reason_terminal_def)
  have status: "import_status_str (job_status j) = ''FAILED'' \<longleftrightarrow> job_status j = ImportFAILED"
    "import_status_str (job_status j) = ''COMPLETED'' \<longleftrightarrow> job_status j = ImportCOMPLETED"
    "import_status_str ImportFAILED = ''FAILED''"
    by (cases "job_status j"; simp add: import_status_str_def)+
  have sum: "job_total_rows j = job_success_count j + job_failed_count j" using ok by (simp add: job_ok_def)
  show ?thesis
    unfolding Some option.case
  proof (rule exI [of _ "status_payload (status_read_model j)"], intro conjI)
    show "fst (get_status i w) = Inr (status_payload (status_read_model j))"
      by (simp add: get_status_quiet [OF assms(1) ids] Some)
    show "job_total_rows j = job_success_count j + job_failed_count j" by (rule sum)
    show "job_status j = ImportFAILED \<longrightarrow> (\<exists>reason. job_failure_reason j = Some reason \<and>
        map_of (status_payload (status_read_model j)) ''failure_reason'' = Some (PayText reason))"
      using reason status(3) by (auto simp: status_payload_value status_fields_def status_read_model_def pay_text_def)
  qed (use j(2) reason status in \<open>simp_all only: key_of status_payload_value,
      simp_all add: status_fields_def status_read_model_def pay_time_def pay_text_def split: option.split\<close>)
  qed
qed

definition reader_world :: world where
  "reader_world = \<lparr>committed = \<lparr>
     db_jobs = [example_job\<lparr>job_status := ImportFAILED, job_attempt_count := 3, job_failure_reason := Some ''broken'',
       job_last_failure_reason := Some ''broken'', job_finished_at := Some 9\<rparr>],
     db_outbox = [], db_shipments = [],
     db_errors = map (\<lambda>(i, n). \<lparr>err_id = i, err_import_id = 1, err_row_number = n, err_field = ''price'',
       err_error = ''bad'', err_raw_data = PNone, err_created_at = 5\<rparr>) [(31, 4), (32, 2), (33, 7)]\<rparr>,
   working = empty_database, script = [], clock = 100, tx_time = 0, draws = 0, uuid_source = (\<lambda>n. n + 10),
   pg_numeric = (\<lambda>p s d. Some d), advisory = []\<rparr>"

lemma reader_world_ok: "db_ok (committed reader_world)"
  by (simp add: reader_world_def db_ok_def jobs_ok_def job_ok_def example_job_def refs_ok_def shipments_ok_def
      idempotency_keys_def ck_failure_reason_terminal_def)

theorem get_status_payload_witness:
  "\<exists>p. fst (get_status 1 reader_world) = Inr p \<and> map_of p ''failed_count'' = Some (PayInt 0) \<and>
     map_of p ''failure_reason'' = Some (PayText ''broken'')"
proof -
  have job: "List.find (\<lambda>j. job_id j = 1) (db_jobs (committed reader_world)) = Some (hd (db_jobs (committed reader_world)))"
    "job_status (hd (db_jobs (committed reader_world))) = ImportFAILED"
    "job_failure_reason (hd (db_jobs (committed reader_world))) = Some ''broken''"
    "job_failed_count (hd (db_jobs (committed reader_world))) = 0"
    by code_simp+
  have "script reader_world = []" by (simp add: reader_world_def)
  from get_status_payload [OF this reader_world_ok, of 1] job show ?thesis by auto
qed

lemma list_import_errors_quiet:
  assumes "script w = []"
  shows "fst (list_import_errors i r w) =
    (if i \<notin> set (map job_id (db_jobs (committed w))) then Inl ImportNotFoundError
     else if \<not> (row_count_ok (pr_page_size r) \<and> row_count_ok (page_offset r)) then Inl (SqlError OtherSQLAlchemyError)
     else map_sum id (\<lambda>m. \<lparr>ls_items = map error_read_model (order_page (\<lambda>r. (err_row_number r, err_id r)) (pr_page_size r) (page_offset r)
              (errors_of i (committed w))), ls_pagination = m\<rparr>)
            (build_pagination_metadata r (int (length (errors_of i (committed w))))))"
proof -
  have "List.find (\<lambda>j. job_id j = i) (db_jobs (committed w)) = None \<longleftrightarrow> i \<notin> set (map job_id (db_jobs (committed w)))"
    by (auto simp: find_None_iff)
  then show ?thesis
    using assms
    by (simp add: list_import_errors_def import_exists_def list_errors_page_def bindE_def with_session_def begin_tx_def
        query_quiet select_page_quiet throw_def ret_def map_sum_def split: sum.split)
qed

lemma map_concat_pages: "map f (concat (map g xs)) = concat (map (\<lambda>x. map f (g x)) xs)"
  by (induction xs) simp_all

text \<open>The errors of an import in the order of a listing, as a client sees them.\<close>

definition error_items :: "uuid \<Rightarrow> database \<Rightarrow> import_error_read_model list" where
  "error_items i db = map (\<lambda>r. \<lparr>em_row_number = err_row_number r, em_field = err_field r, em_error = err_error r\<rparr>)
     (sort_key (\<lambda>r. (err_row_number r, err_id r)) (filter (\<lambda>r. err_import_id r = i) (db_errors db)))"

lemma error_items_sorted: "sorted (map em_row_number (error_items i db))"
proof -
  let ?k = "\<lambda>r :: import_error_row. (err_row_number r, err_id r)"
  let ?rows = "filter (\<lambda>r. err_import_id r = i) (db_errors db)"
  have "sorted (map ?k (sort_key ?k ?rows))" by simp
  then have "sorted (map fst (map ?k (sort_key ?k ?rows)))"
    unfolding sorted_wrt_map by (rule sorted_wrt_mono_rel [rotated]) (auto simp: less_eq_prod_def)
  then show ?thesis by (simp add: comp_def error_items_def)
qed

text \<open>A response to the request for a page, if there is one.\<close>

definition error_page :: "uuid \<Rightarrow> int \<Rightarrow> 'z world_scheme \<Rightarrow> nat \<Rightarrow> import_error_read_model listing option" where
  "error_page i page_size w p =
     (case fst (list_import_errors i \<lparr>pr_page = int p, pr_page_size = page_size\<rparr> w) of Inr l \<Rightarrow> Some l | Inl e \<Rightarrow> None)"

lemma error_pages:
  assumes "script w = []" "0 < page_size" "page_size < 2 ^ 63" "int (length (errors_of i (committed w))) < 2 ^ 63"
    and known: "i \<in> set (map job_id (db_jobs (committed w)))"
    and count: "cnt = int (length (errors_of i (committed w)))" "pages = (cnt + page_size - 1) div page_size"
    and p: "p = 1 \<or> p \<in> {1..nat pages}"
  shows "error_page i page_size w p = Some \<lparr>ls_items = map error_read_model (nth_page (\<lambda>r. (err_row_number r, err_id r))
      page_size (errors_of i (committed w)) p),
    ls_pagination = \<lparr>pm_page = int p, pm_page_size = page_size, pm_total_items = cnt, pm_total_pages = pages\<rparr>\<rparr>"
proof -
  let ?r = "\<lparr>pr_page = int p, pr_page_size = page_size\<rparr>"
  have "0 \<le> (int p - 1) * page_size" using p assms(2) by (auto intro: mult_nonneg_nonneg)
  moreover have "(int p - 1) * page_size < 2 ^ 63"
  proof (cases "p = 1")
    case False
    then have "int p \<le> pages" using p by auto
    then have "int p * page_size \<le> pages * page_size" using assms(2) by (intro mult_right_mono) auto
    also have "\<dots> \<le> cnt + page_size - 1"
      unfolding count(2) using assms(2) by (metis less_imp_le mod_div_mult_eq le_add_same_cancel2 pos_mod_sign add.commute)
    finally show ?thesis using assms(4) count(1) by (simp add: left_diff_distrib)
  qed simp
  ultimately have "row_count_ok (pr_page_size ?r)" "row_count_ok (page_offset ?r)"
    using assms(2,3) by (simp_all add: row_count_ok_def page_offset_def)
  then show ?thesis
    using known assms(2)
    by (simp add: error_page_def list_import_errors_quiet [OF assms(1)] nth_page_def build_pagination_metadata_def count)
qed

text \<open>
  C28. Reading all row errors of an import page by page, while nothing changes, whatever the page
  size: for an unknown import every page is ImportNotFoundError. Otherwise the first response
  announces the number of errors stored for that import, and a number of pages; the items of
  the responses for the pages 1 to that number, one after the other, are exactly those errors,
  ordered by row number, each once; each of these responses repeats the totals, none is empty,
  and all but the last are full.
\<close>

theorem list_import_errors_complete:
  assumes "script w = []" "0 < page_size" "page_size < 2 ^ 63" "length (db_errors (committed w)) < 2 ^ 63"
  shows "if i \<notin> set (map job_id (db_jobs (committed w)))
    then \<forall>r. fst (list_import_errors i r w) = Inl ImportNotFoundError
    else \<exists>first. error_page i page_size w 1 = Some first \<and>
      pm_total_items (ls_pagination first) = int (length (filter (\<lambda>r. err_import_id r = i) (db_errors (committed w)))) \<and>
      (let pages = nat (pm_total_pages (ls_pagination first)); page = (\<lambda>p. the (error_page i page_size w p)) in
       concat (map (\<lambda>p. ls_items (page p)) [1..<pages + 1]) = error_items i (committed w) \<and>
       sorted (map em_row_number (error_items i (committed w))) \<and>
       (\<forall>p \<in> {1..pages}. error_page i page_size w p \<noteq> None \<and> ls_items (page p) \<noteq> [] \<and>
          (p < pages \<longrightarrow> int (length (ls_items (page p))) = page_size) \<and>
          ls_pagination (page p) = (ls_pagination first)\<lparr>pm_page := int p\<rparr>))"
proof (cases "i \<in> set (map job_id (db_jobs (committed w)))")
  case False
  then show ?thesis by (simp add: list_import_errors_quiet [OF assms(1)])
next
  case known: True
  let ?rows = "errors_of i (committed w)" and ?k = "\<lambda>r :: import_error_row. (err_row_number r, err_id r)"
  define pages where "pages = (int (length ?rows) + page_size - 1) div page_size"
  define m where "m = (\<lambda>p :: nat. \<lparr>pm_page = int p, pm_page_size = page_size, pm_total_items = int (length ?rows), pm_total_pages = pages\<rparr>)"
  have "length ?rows < 2 ^ 63" unfolding errors_of_def using assms(4) by (rule le_less_trans [OF length_filter_le])
  then have "int (length ?rows) < int (2 ^ 63)" by (rule of_nat_less_iff [THEN iffD2])
  then have few: "int (length ?rows) < 2 ^ 63" by simp
  note page = error_pages [OF assms(1-3) few known refl pages_def, folded m_def]
  have meta: "build_pagination_metadata \<lparr>pr_page = 1, pr_page_size = page_size\<rparr> (int (length ?rows)) = Inr (m 1)"
    using assms(2) by (simp add: build_pagination_metadata_def m_def pages_def)
  note all = all_pages [OF assms(2) meta, of "nat pages" ?k, simplified m_def pagination_metadata.simps page_request.simps, OF refl refl]
  have items: "error_items i (committed w) = map error_read_model (sort_key ?k ?rows)"
    by (simp add: error_items_def errors_of_def error_read_model_def [abs_def])
  have same: "map (\<lambda>p. ls_items (the (error_page i page_size w p))) [1..<nat pages + 1] =
      map (\<lambda>p. map error_read_model (nth_page ?k page_size ?rows p)) [1..<nat pages + 1]"
    by (rule map_cong [OF refl]) (use page in auto)
  have walk: "concat (map (\<lambda>p. ls_items (the (error_page i page_size w p))) [1..<nat pages + 1]) = error_items i (committed w)"
    unfolding same items map_concat_pages [symmetric] by (rule arg_cong [OF all [THEN conjunct1]])
  have each: "error_page i page_size w p \<noteq> None \<and> ls_items (the (error_page i page_size w p)) \<noteq> [] \<and>
      (p < nat pages \<longrightarrow> int (length (ls_items (the (error_page i page_size w p)))) = page_size) \<and>
      ls_pagination (the (error_page i page_size w p)) = (m 1)\<lparr>pm_page := int p\<rparr>" if "p \<in> {1..nat pages}" for p
    using page [OF disjI2 [OF that]] all that by (auto simp: m_def)
  obtain first where first: "error_page i page_size w 1 = Some first" "ls_pagination first = m 1"
    using page [OF disjI1 [OF refl]] by (simp add: m_def)
  have fields: "pm_total_items (m 1) = int (length (filter (\<lambda>r. err_import_id r = i) (db_errors (committed w))))"
    "pm_total_pages (m 1) = pages"
    by (simp_all add: m_def errors_of_def)
  show ?thesis
    unfolding if_not_P [OF known [THEN not_not [THEN iffD2]]] Let_def
    by (intro exI [of _ first] conjI ballI; (unfold first(2) fields)?)
      (rule first(1) refl walk error_items_sorted | drule each, blast)+
qed

theorem list_import_errors_complete_witness:
  "\<exists>first. error_page 1 2 reader_world 1 = Some first \<and> pm_total_items (ls_pagination first) = 3 \<and>
     map em_row_number (concat (map (\<lambda>p. ls_items (the (error_page 1 2 reader_world p)))
       [1..<nat (pm_total_pages (ls_pagination first)) + 1])) = [2, 4, 7]"
proof -
  have rows: "map em_row_number (error_items 1 (committed reader_world)) = [2, 4, 7]"
    "length (filter (\<lambda>r. err_import_id r = 1) (db_errors (committed reader_world))) = 3"
    "1 \<in> set (map job_id (db_jobs (committed reader_world)))" "length (db_errors (committed reader_world)) = 3"
    by code_simp+
  have "script reader_world = []" by (simp add: reader_world_def)
  from list_import_errors_complete [OF this, of 2 1] rows show ?thesis by (auto simp: Let_def simp del: upt_Suc)
qed

end
