(* ===== verification/Pipeline.thy ===== *)
theory Pipeline
  imports Import_System Import_Queries
begin

text \<open>
  The way of an import through the processes: from its upload, or from the worker that died over
  it, through the intent, the publisher and the broker to the worker that completes it.
\<close>

section \<open>The publisher\<close>

lemma publish_round_ok:
  fixes p :: publisher_run
  assumes "script p = []" "service_ok s (committed p)" "jobs_stored (committed p)" "pb_settings pb = s" "delays_suffice s (clock p)"
    and "due = due_events (\<lambda>_. False) (set_outbox_batch_size s) (clock p) (db_outbox (committed p))"
  shows "service_ok s (publish_round pb (clock p) due (committed p))"
    and "jobs_stored (publish_round pb (clock p) due (committed p))"
proof -
  let ?p = "p\<lparr>working := committed p\<rparr>" and ?m = "set_outbox_max_attempts s"
  have "db_ok (committed p)" using assms(2) by (simp add: service_ok_def)
  then obtain p1 where p1: "publish_due_events pb ?p = (Inr (length due), p1)"
    "committed p1 = publish_round pb (clock p) due (committed p)"
    using publish_due_events_quiet [of ?p pb due] assms by auto
  have "keeps (delivers ?m (insert Undelivered UNIV) (committed p)) (\<lambda>_. True) (publish_due_events pb)"
    using assms(4) by (intro keeps_publish_due_events) simp
  then have "delivers ?m UNIV (committed ?p) (committed (snd (publish_due_events pb ?p)))"
    using assms(1,2) by (intro session_keeps) simp_all
  then show "service_ok s (publish_round pb (clock p) due (committed p))"
    using p1 by (simp add: service_ok_def deliverable.intents_ok_def tracks_def)
  show "jobs_stored (publish_round pb (clock p) due (committed p))"
    using assms(3) by (auto simp: jobs_stored_def publish_round_def Let_def undelivered_job_constraints)
qed

text \<open>The number of intents that are due: when they fit one batch, a round sends them all.\<close>

definition backlog :: "timestamp \<Rightarrow> database \<Rightarrow> nat" where
  "backlog now db = sql_count (\<lambda>r. ob_status r = OutboxPENDING \<and> ob_available_at r \<le> now) (db_outbox db)"

lemma due_in_batch:
  assumes "backlog now db \<le> nat b" "r \<in> set (db_outbox db)" "ob_status r = OutboxPENDING" "ob_available_at r \<le> now"
  shows "r \<in> set (due_events (\<lambda>_. False) b now (db_outbox db))"
  using assms by (simp add: backlog_def sql_count_def due_events_def order_limit_def)

lemma publish_dispatches:
  assumes "script p = []" "service_ok s (committed p)" "jobs_stored (committed p)" "pb_settings pb = s" "delays_suffice s (clock p)"
    and "r \<in> set (db_outbox (committed p))" "ob_status r = OutboxPENDING" "ob_available_at r \<le> clock p"
    and "backlog (clock p) (committed p) \<le> nat (set_outbox_batch_size s)"
    and "j \<in> set (db_jobs (committed p))" "job_id j = ob_import_id r" "pb_dispatch pb (job_id j) (clock p) = None"
  shows "\<exists>n p1 sent. publish_due_events pb p = (Inr n, p1) \<and> pb_sent p1 = pb_sent p @ sent \<and> job_id j \<in> set sent \<and>
    j \<in> set (db_jobs (committed p1)) \<and> service_ok s (committed p1) \<and> jobs_stored (committed p1) \<and>
    db_shipments (committed p1) = db_shipments (committed p) \<and> db_errors (committed p1) = db_errors (committed p)"
proof -
  define due where "due = due_events (\<lambda>_. False) (set_outbox_batch_size s) (clock p) (db_outbox (committed p))"
  have "db_ok (committed p)" using assms(2) by (simp add: service_ok_def)
  from publish_due_events_quiet [OF assms(1) this assms(3) _ due_def [folded assms(4)]] assms(4,5) obtain p1 where
    p1: "publish_due_events pb p = (Inr (length due), p1)" "committed p1 = publish_round pb (clock p) due (committed p)"
      "pb_sent p1 = pb_sent p @ map ob_import_id (filter (\<lambda>r. pb_dispatch pb (ob_import_id r) (clock p) = None) due)"
    by blast
  have "r \<in> set due" unfolding due_def by (rule due_in_batch [OF assms(9,6-8)])
  then have "job_id j \<in> set (map ob_import_id (filter (\<lambda>r. pb_dispatch pb (ob_import_id r) (clock p) = None) due))"
    using assms(11,12) by auto
  moreover have "j \<in> set (db_jobs (committed p1))"
    using assms(10,12) unfolding p1(2) by (force simp: publish_round_def Let_def given_up_def)
  moreover have "service_ok s (committed p1)" "jobs_stored (committed p1)"
    unfolding p1(2) using publish_round_ok [OF assms(1-5) due_def] by blast+
  moreover have "db_shipments (committed p1) = db_shipments (committed p)" "db_errors (committed p1) = db_errors (committed p)"
    unfolding p1(2) by (simp_all add: publish_round_def Let_def)
  ultimately show ?thesis using p1(1,3) by blast
qed

section \<open>The worker\<close>

text \<open>
  What the run of a worker on the rows of a workbook does to the rows of the database: a shipment for each
  accepted row, in order, and reports of exactly the rejected ones.
\<close>

definition imports_rows ::
  "adapters \<Rightarrow> uuid \<Rightarrow> parsed_workbook_row list \<Rightarrow> numeric \<Rightarrow> timestamp \<Rightarrow> database \<Rightarrow> database \<Rightarrow> bool" where
  "imports_rows ad i rows num now db db' \<longleftrightarrow> (\<exists>ss es.
     db_shipments db' = db_shipments db @ map (stored_row num now) ss \<and>
     list_all2 (\<lambda>k s. \<exists>p. accepted ad (stored_codes db) rows k p \<and> s\<lparr>ship_id := 0\<rparr> = new_shipment 0 i p)
       (accepted_rows ad (stored_codes db) rows) ss \<and>
     db_errors db' = db_errors db @ map (stored_error now) es \<and>
     err_row_number ` set es = {row_number (rows ! k) |k. k < length rows \<and> (\<nexists>p. accepted ad (stored_codes db) rows k p)})"

text \<open>A completed job: \<open>j\<close> is the row before, \<open>s\<close> of the \<open>n\<close> rows were stored.\<close>

definition completed_after :: "import_job \<Rightarrow> nat \<Rightarrow> nat \<Rightarrow> import_job \<Rightarrow> bool" where
  "completed_after j n s J \<longleftrightarrow> job_id J = job_id j \<and> job_status J = ImportCOMPLETED \<and> job_processing_token J = None \<and>
     job_attempt_count J = job_attempt_count j + 1 \<and> job_total_rows J = n \<and> job_processed_rows J = n \<and>
     job_success_count J = s \<and> job_failed_count J = n - s"

text \<open>
  A workbook that can be imported: the parser reads it to its end, its cells are finite numbers where
  they are numbers, and what validation accepts fits the columns.
\<close>

definition importable :: "import_worker \<Rightarrow> string \<Rightarrow> uuid \<Rightarrow> numeric \<Rightarrow> database \<Rightarrow> parsed_workbook_row list \<Rightarrow> bool" where
  "importable wk path i num db rows \<longleftrightarrow> (\<exists>chunks. iter_chunks (wk_load wk) path (wk_chunk_size wk) = (chunks, None) \<and>
     concat chunks = rows) \<and> finite_rows rows \<and>
     (\<forall>k \<in> set (accepted_rows (wk_adapters wk) (stored_codes db) rows). \<forall>p.
        accepted (wk_adapters wk) (stored_codes db) rows k p \<longrightarrow> storable num (new_shipment 0 i p))"

text \<open>What a client that asks for the status is told.\<close>

definition reports_completed :: "uuid \<Rightarrow> nat \<Rightarrow> nat \<Rightarrow> 'z world_scheme \<Rightarrow> bool" where
  "reports_completed i n s q \<longleftrightarrow> (\<exists>p. fst (get_status i q) = Inr p \<and>
     map_of p ''status'' = Some (PayText ''COMPLETED'') \<and> map_of p ''total_rows'' = Some (PayInt (int n)) \<and>
     map_of p ''success_count'' = Some (PayInt (int s)) \<and> map_of p ''failed_count'' = Some (PayInt (int (n - s))) \<and>
     ''failure_reason'' \<notin> fst ` set p)"

lemma completed_reports:
  assumes "distinct (map job_id (db_jobs (committed w)))" "J \<in> set (db_jobs (committed w))" "completed_after j n s J"
  shows "reports_completed (job_id j) n s (w\<lparr>script := []\<rparr>)"
proof -
  have "List.find (\<lambda>k. job_id k = job_id J) (db_jobs (committed w)) = Some J" by (rule find_by_key [OF assms(1,2)])
  then have "fst (get_status (job_id j) (w\<lparr>script := []\<rparr>)) = Inr (status_payload (status_read_model J))"
    using assms(1,3) by (subst get_status_quiet) (simp_all add: completed_after_def)
  then show ?thesis
    using assms(3) unfolding reports_completed_def
    by (intro exI [of _ "status_payload (status_read_model J)"])
      (auto simp: completed_after_def status_payload_def status_fields_def status_read_model_def pop_key_def
        import_status_str_def Let_def)
qed

lemma worker_completes:
  assumes "db_ok (committed v)" "jobs_stored (committed v)" "script v = []"
    and "j \<in> set (db_jobs (committed v))" "claimable i j" "length (wk_worker_id wk) \<le> 255"
    and "importable wk (job_stored_file_path j) i (pg_numeric v) (cleared i (committed v)) rows"
    and "inj (uuid_source v)" "unused_ids (uuid_source v) (Suc (draws v)) (committed v)"
  shows "\<exists>v1 J. process_import_run wk i v = (Inr (), v1) \<and> J \<in> set (db_jobs (committed v1)) \<and>
    completed_after j (length rows) (length (accepted_rows (wk_adapters wk) (stored_codes (cleared i (committed v))) rows)) J \<and>
    imports_rows (wk_adapters wk) i rows (pg_numeric v) (clock v) (cleared i (committed v)) (committed v1) \<and>
    reports_completed i (length rows) (length (accepted_rows (wk_adapters wk) (stored_codes (cleared i (committed v))) rows))
      (v1\<lparr>script := []\<rparr>)"
proof -
  let ?db = "cleared i (committed v)" and ?ad = "wk_adapters wk"
  let ?C = "\<lambda>n s. completed (clock v) n s (n - s) (j\<lparr>job_attempt_count := job_attempt_count j + 1, job_started_at := Some (clock v)\<rparr>)"
  from assms(7) obtain chunks where chunks: "iter_chunks (wk_load wk) (job_stored_file_path j) (wk_chunk_size wk) = (chunks, None)"
      "concat chunks = rows"
    and fit: "finite_rows (concat chunks)" "\<forall>k \<in> set (accepted_rows ?ad (stored_codes ?db) (concat chunks)). \<forall>p.
        accepted ?ad (stored_codes ?db) (concat chunks) k p \<longrightarrow> storable (pg_numeric v) (new_shipment 0 i p)"
    unfolding importable_def by blast
  from process_import_run_quiet [OF assms(1-6) chunks(1) fit(1) assms(8,9) fit(2), unfolded chunks(2)]
  obtain v1 ss es where run: "process_import_run wk i v = (Inr (), v1)"
    and db: "committed v1 = with_rows (pg_numeric v) (clock v) (put_job (?C (length rows) (length ss)) (db_jobs (committed v))) ss es ?db"
    and ss: "list_all2 (\<lambda>k s. \<exists>p. accepted ?ad (stored_codes ?db) rows k p \<and> s\<lparr>ship_id := 0\<rparr> = new_shipment 0 i p)
      (accepted_rows ?ad (stored_codes ?db) rows) ss"
    and es: "err_row_number ` set es = {row_number (rows ! k) |k. k < length rows \<and> (\<nexists>p. accepted ?ad (stored_codes ?db) rows k p)}"
    by blast
  have "?C (length rows) (length ss) \<in> set (db_jobs (committed v1))"
    using assms(4) unfolding db by (force simp: with_rows_def put_job_def completed_def)
  moreover have "completed_after j (length rows) (length ss) (?C (length rows) (length ss))"
    by (simp add: completed_after_def completed_def)
  moreover have "imports_rows ?ad i rows (pg_numeric v) (clock v) ?db (committed v1)"
    using ss es unfolding imports_rows_def by (intro exI [of _ ss] exI [of _ es]) (simp add: db with_rows_def)
  moreover have "distinct (map job_id (db_jobs (committed v1)))"
    using assms(1,5) by (simp add: db with_rows_def put_job_def completed_def db_ok_def jobs_ok_def claimable_def comp_def
        if_distrib [of job_id] cong: if_cong)
  then have "reports_completed (job_id j) (length rows) (length ss) (v1\<lparr>script := []\<rparr>)"
    using calculation by (intro completed_reports) auto
  moreover have "job_id j = i" using assms(5) by (simp add: claimable_def)
  ultimately show ?thesis using run list_all2_lengthD [OF ss] by auto
qed

section \<open>From the intent to the completed import\<close>

text \<open>A PENDING job with a due intent: the publisher sends it and the worker that gets it completes the job.\<close>

lemma dispatched_completes:
  assumes publisher: "script p = []" "service_ok s (committed p)" "jobs_stored (committed p)" "pb_settings pb = s" "delays_suffice s (clock p)"
    and intent: "r \<in> set (db_outbox (committed p))" "ob_status r = OutboxPENDING" "ob_available_at r \<le> clock p"
    and batch: "backlog (clock p) (committed p) \<le> nat (set_outbox_batch_size s)"
    and job: "j \<in> set (db_jobs (committed p))" "job_id j = ob_import_id r" "claimable i j" "pb_dispatch pb i (clock p) = None"
    and run: "publish_due_events pb p = (res, p1)" "committed v = committed p1"
    and rest: "db_shipments db = db_shipments (cleared i (committed p))" "db_errors db = db_errors (cleared i (committed p))"
    and worker: "script v = []" "length (wk_worker_id wk) \<le> 255"
      "importable wk (job_stored_file_path j) i (pg_numeric v) db rows"
      "inj (uuid_source v)" "unused_ids (uuid_source v) (Suc (draws v)) (committed p)"
  shows "i \<in> set (drop (length (pb_sent p)) (pb_sent p1)) \<and>
    (\<exists>v1 J. process_import_run wk i v = (Inr (), v1) \<and> J \<in> set (db_jobs (committed v1)) \<and>
      completed_after j (length rows) (length (accepted_rows (wk_adapters wk) (stored_codes db) rows)) J \<and>
      imports_rows (wk_adapters wk) i rows (pg_numeric v) (clock v) db (committed v1) \<and>
      reports_completed i (length rows) (length (accepted_rows (wk_adapters wk) (stored_codes db) rows)) (v1\<lparr>script := []\<rparr>))"
proof -
  have i: "job_id j = i" using job(3) by (simp add: claimable_def)
  from publish_dispatches [OF publisher intent batch job(1,2) job(4) [folded i]] run(1) obtain sent where
    sent: "pb_sent p1 = pb_sent p @ sent" "job_id j \<in> set sent"
    and p1: "j \<in> set (db_jobs (committed p1))" "service_ok s (committed p1)" "jobs_stored (committed p1)"
      "db_shipments (committed p1) = db_shipments (committed p)" "db_errors (committed p1) = db_errors (committed p)"
    by auto
  have same: "stored_codes (cleared i (committed v)) = stored_codes db"
    "imports_rows ad i rows num now (cleared i (committed v)) db' = imports_rows ad i rows num now db db'" for ad num now db'
    using rest p1(4,5) by (simp_all add: run(2) imports_rows_def stored_codes_def cleared_def)
  have ok: "db_ok (committed v)" "jobs_stored (committed v)" "j \<in> set (db_jobs (committed v))"
    using p1 by (simp_all add: run(2) service_ok_def)
  have "importable wk (job_stored_file_path j) i (pg_numeric v) (cleared i (committed v)) rows"
    using worker(3) by (simp add: importable_def same(1))
  moreover have "unused_ids (uuid_source v) (Suc (draws v)) (committed v)"
    using worker(5) p1(4,5) by (simp add: run(2) unused_ids_def)
  ultimately have "\<exists>v1 J. process_import_run wk i v = (Inr (), v1) \<and> J \<in> set (db_jobs (committed v1)) \<and>
      completed_after j (length rows) (length (accepted_rows (wk_adapters wk) (stored_codes db) rows)) J \<and>
      imports_rows (wk_adapters wk) i rows (pg_numeric v) (clock v) db (committed v1) \<and>
      reports_completed i (length rows) (length (accepted_rows (wk_adapters wk) (stored_codes db) rows)) (v1\<lparr>script := []\<rparr>)"
    using worker_completes [where rows = rows, OF ok(1,2) worker(1) ok(3) job(3) worker(2) _ worker(4), unfolded same] by blast
  then show ?thesis using sent i by auto
qed

section \<open>Examples\<close>

text \<open>The sheet of three rows, uploaded to an empty database; then the same sheet, abandoned by its worker.\<close>

lemma storable_owner: "storable num (s\<lparr>ship_import_id := i\<rparr>) = storable num s"
proof -
  have "shipment_constraints (s\<lparr>ship_import_id := i\<rparr>) = shipment_constraints s" for s :: shipment
    by (simp add: shipment_constraints_def)
  then show ?thesis by (cases "num 12 3 (ship_weight_kg s)"; cases "num 18 2 (ship_price s)")
    (simp_all add: storable_def stored_shipment_def shipment_constraints_def)
qed

lemma sheet_importable:
  assumes "stored_codes db = {}"
  shows "importable sheet_worker path i (\<lambda>p s d. Some d) db (concat sheet_chunks)"
proof -
  have "iter_chunks (wk_load sheet_worker) path (wk_chunk_size sheet_worker) = (sheet_chunks, None)"
    using sheet_chunks(1) by (simp add: iter_chunks_def sheet_worker_def)
  moreover have "finite_rows (concat sheet_chunks)" unfolding finite_rows_def by code_simp
  moreover have "storable (\<lambda>p s d. Some d) (new_shipment 0 i sheet_shipment)"
    using sheet_storable storable_owner [of _ i "new_shipment 0 1 sheet_shipment"] by (simp add: new_shipment_def)
  ultimately show ?thesis
    using sheet_accepted_shipment assms by (auto simp: importable_def sheet_accepted sheet_worker_def)
qed

definition morning_world :: world where
  "morning_world = first_world\<lparr>script := []\<rparr>"

definition sender_run :: "timestamp \<Rightarrow> database \<Rightarrow> publisher_run" where
  "sender_run now db = \<lparr>committed = db, working = db, script = [], clock = now, tx_time = 0, draws = 0,
     uuid_source = (\<lambda>n. n + 40), pg_numeric = (\<lambda>p s d. Some d), advisory = [], pb_sent = []\<rparr>"

definition reader_run :: "database \<Rightarrow> import_run" where
  "reader_run db = sheet_run\<lparr>committed := db\<rparr>"

lemma run_fields [simp]:
  "script (sender_run now db) = []" "committed (sender_run now db) = db" "clock (sender_run now db) = now"
  "script (reader_run db) = []" "committed (reader_run db) = db" "uuid_source (reader_run db) = (\<lambda>n. n + 10)"
  "pg_numeric (reader_run db) = (\<lambda>p s d. Some d)" "draws (reader_run db) = 0"
  by (simp_all add: sender_run_def reader_run_def sheet_run_def example_run_def)

lemma example_publisher_fields [simp]:
  "pb_settings example_publisher = default_settings" "i \<noteq> 2 \<Longrightarrow> pb_dispatch example_publisher i now = None"
  by (simp_all add: example_publisher_def)

lemma default_delays: "0 \<le> now \<Longrightarrow> now \<le> seconds 1000 \<Longrightarrow> delays_suffice default_settings now"
  by (simp add: delays_suffice_def default_settings_def datetime_ok_def seconds_def)

section \<open>Uploads\<close>

lemma absent_key: "set (map f xs) \<subseteq> K \<Longrightarrow> k \<notin> K \<Longrightarrow> \<forall>x \<in> set xs. f x \<noteq> k"
  by auto

lemma created_import:
  fixes w :: world
  assumes "settings_accepted s" "service_ok s (committed w)" "script w = []"
    and "uuid_source w (draws w) \<notin> set (map job_id (db_jobs (committed w)))"
    and "uuid_source w (Suc (draws w)) \<notin> set (map ob_id (db_outbox (committed w)))"
    and run: "create_import s ofn path sz ct key fp w = (Inr out, w1)" and new: "co_created out"
  shows "service_ok s (committed w1) \<and> (\<exists>j x. job_id j = cr_import_id (co_result out) \<and>
    job_id j \<notin> set (map job_id (db_jobs (committed w))) \<and> claimable (job_id j) j \<and> job_attempt_count j = 0 \<and>
    job_stored_file_path j = path \<and> job_constraints j = None \<and>
    committed w1 = (committed w)\<lparr>db_jobs := db_jobs (committed w) @ [j],
      db_outbox := db_outbox (committed w) @ [new_dispatch_row x (job_id j) (clock w) (clock w)]\<rparr>)"
proof -
  let ?w = "w\<lparr>working := committed w\<rparr>" and ?create = "create_import s ofn path sz ct key fp"
  let ?job = "new_import_job s ofn path sz ct key fp"
  let ?j = "?job\<lparr>job_id := uuid_source w (draws w), job_created_at := clock w, job_updated_at := clock w\<rparr>"
  let ?out = "create_outcome ?job key fp (uuid_source w (draws w)) (uuid_source w (Suc (draws w))) (clock w) (committed w)"
  have ok: "db_ok (committed w)" using assms(2) by (simp add: service_ok_def)
  have out: "?out = (Inr out, committed w1)" using create_import_quiet [OF assms(3) ok assms(4,5), of s ofn path sz ct key fp] run by simp
  have "committed (snd (?create ?w)) = committed w1"
    using create_import_quiet [of ?w s ofn path sz ct key fp] assms(3-5) ok out by simp
  then have "service_step s (committed w) (committed w1)"
    using creation_run [of ?w "committed w" s ofn path sz ct key fp] assms(3) by simp
  from service_step_keeps [OF this assms(1,2)] have "service_ok s (committed w1)"
    by (simp add: service_ok_def deliverable.intents_ok_def tracks_def)
  moreover have "0 < set_import_max_attempts s"
    using assms(1) by (simp add: settings_accepted_def validators_ok positive_fields_def)
  moreover have "job_constraints (?job\<lparr>job_id := k, job_created_at := t, job_updated_at := t\<rparr>) = job_constraints ?job" for k t
    by (simp add: job_constraints_def ck_failure_reason_terminal_def)
  moreover have "keyed_job key (committed w) = None" "newest_job fp (committed w) = None" "job_constraints ?job = None"
    using out new by (auto simp: create_outcome_def result_of_def Let_def split: option.splits if_splits)
  then have "out = result_of ?j True" "committed w1 = (committed w)\<lparr>db_jobs := db_jobs (committed w) @ [?j],
      db_outbox := db_outbox (committed w) @ [new_dispatch_row (uuid_source w (Suc (draws w))) (job_id ?j) (clock w) (clock w)]\<rparr>"
    using out by (auto simp: create_outcome_def Let_def)
  moreover have "job_id ?j \<notin> set (map job_id (db_jobs (committed w)))" using assms(4) by simp
  moreover have "job_id ?j = cr_import_id (co_result (result_of ?j True))" by (simp add: result_of_def)
  moreover have "job_attempt_count ?j = 0" "job_stored_file_path ?j = path" "job_status ?j = ImportPENDING"
    "job_max_attempts ?j = set_import_max_attempts s" by (simp_all add: new_import_job_def)
  ultimately show ?thesis using \<open>job_constraints ?job = None\<close> unfolding claimable_def
    by (intro conjI exI [of _ ?j] exI [of _ "uuid_source w (Suc (draws w))"]) (simp_all only: simp_thms)
qed

text \<open>
  C3. An upload becomes a completed import when nothing interferes: once a new import was
  created, a publisher's round sends it to the broker (its batch has room and the broker accepts),
  and the run of a worker on that message completes the job at the first attempt. Then the database
  has, besides what was there before the upload, exactly a shipment for each accepted row of
  the workbook and reports of exactly the others, and the counters and the status a client reads
  say so.
\<close>

theorem upload_completes:
  assumes "settings_accepted s" "delays_suffice s (clock p)" "service_ok s (committed w)" "jobs_stored (committed w)" "script (w :: world) = []"
    and "uuid_source w (draws w) \<notin> set (map job_id (db_jobs (committed w)))"
    and "uuid_source w (Suc (draws w)) \<notin> set (map ob_id (db_outbox (committed w)))"
    and "create_import s ofn path sz ct key fp w = (Inr out, w1)" "co_created out" "i = cr_import_id (co_result out)"
    and "script p = []" "committed p = committed w1" "clock w \<le> clock p" "pb_settings pb = s"
    and "backlog (clock p) (committed p) \<le> nat (set_outbox_batch_size s)" "pb_dispatch pb i (clock p) = None"
    and "publish_due_events pb p = (res, p1)"
    and "script v = []" "committed v = committed p1" "length (wk_worker_id wk) \<le> 255"
    and "importable wk path i (pg_numeric v) (committed w) rows"
    and "inj (uuid_source v)" "unused_ids (uuid_source v) (Suc (draws v)) (committed w)"
  shows "i \<in> set (drop (length (pb_sent p)) (pb_sent p1)) \<and>
    (\<exists>v1 J. process_import_run wk i v = (Inr (), v1) \<and> J \<in> set (db_jobs (committed v1)) \<and> job_id J = i \<and>
      job_status J = ImportCOMPLETED \<and> job_attempt_count J = 1 \<and> job_total_rows J = length rows \<and>
      job_success_count J = length (accepted_rows (wk_adapters wk) (stored_codes (committed w)) rows) \<and>
      job_failed_count J = length rows - job_success_count J \<and>
      imports_rows (wk_adapters wk) i rows (pg_numeric v) (clock v) (committed w) (committed v1) \<and>
      reports_completed i (length rows) (job_success_count J) (v1\<lparr>script := []\<rparr>))"
proof -
  from created_import [OF assms(1,3,5-9)] obtain j x where ok: "service_ok s (committed w1)"
    and j: "job_id j = i" "job_id j \<notin> set (map job_id (db_jobs (committed w)))" "claimable (job_id j) j" "job_attempt_count j = 0"
      "job_stored_file_path j = path" "job_constraints j = None"
    and db: "committed w1 = (committed w)\<lparr>db_jobs := db_jobs (committed w) @ [j],
      db_outbox := db_outbox (committed w) @ [new_dispatch_row x (job_id j) (clock w) (clock w)]\<rparr>"
    unfolding assms(10) by blast
  let ?r = "new_dispatch_row x i (clock w) (clock w)"
  have "refs_ok (committed w)" using assms(3) by (simp add: service_ok_def db_ok_def)
  then have "set (map ship_import_id (db_shipments (committed w))) \<subseteq> set (map job_id (db_jobs (committed w)))"
    "set (map err_import_id (db_errors (committed w))) \<subseteq> set (map job_id (db_jobs (committed w)))"
    by (simp_all add: refs_ok_def Let_def)
  then have absent: "\<forall>x \<in> set (db_shipments (committed w)). ship_import_id x \<noteq> i"
    "\<forall>x \<in> set (db_errors (committed w)). err_import_id x \<noteq> i"
    using j(1,2) absent_key by metis+
  have none: "db_shipments (committed w) = db_shipments (cleared i (committed p))"
    "db_errors (committed w) = db_errors (cleared i (committed p))"
    using absent by (simp_all add: assms(12) db cleared_def)
  have intent: "?r \<in> set (db_outbox (committed p))" "ob_status ?r = OutboxPENDING" "ob_available_at ?r \<le> clock p" "job_id j = ob_import_id ?r"
    using assms(13) j(1) by (simp_all add: assms(12) db new_dispatch_row_def)
  have job: "j \<in> set (db_jobs (committed p))" "claimable i j" "jobs_stored (committed p)" "service_ok s (committed p)"
    using assms(4) j(3,6) ok j(1) by (auto simp: assms(12) db jobs_stored_def)
  have ids: "unused_ids (uuid_source v) (Suc (draws v)) (committed p)"
    using assms(23) by (simp add: unused_ids_def assms(12) db)
  from dispatched_completes [OF assms(11) job(4,3) assms(14,2) intent(1-3) assms(15) job(1) intent(4) job(2) assms(16,17,19) none
      assms(18,20) assms(21) [folded j(5)] assms(22) ids] j(1,4)
  show ?thesis unfolding completed_after_def by fastforce
qed

definition morning_upload :: "(exn + import_create_outcome) \<times> world" where
  "morning_upload = create_import default_settings ''a.xlsx'' ''/s/a.xlsx'' 9 None None ''f'' morning_world"

lemma morning_upload:
  "fst morning_upload = Inr \<lparr>co_result = \<lparr>cr_import_id = 10, cr_status = ''PENDING'', cr_created_at = 100\<rparr>, co_created = True\<rparr>"
  "backlog 100 (committed (snd morning_upload)) = 1"
  by code_simp+

theorem upload_completes_witness:
  "\<exists>v1 J. process_import_run sheet_worker 10 (reader_run (committed (snd (publish_due_events example_publisher
      (sender_run 100 (committed (snd morning_upload))))))) = (Inr (), v1) \<and>
     J \<in> set (db_jobs (committed v1)) \<and> job_status J = ImportCOMPLETED \<and> job_success_count J = 1 \<and> job_failed_count J = 2"
proof -
  let ?p = "sender_run 100 (committed (snd morning_upload))"
  let ?v = "reader_run (committed (snd (publish_due_events example_publisher ?p)))"
  have w: "committed morning_world = empty_database" "script morning_world = []" "clock morning_world = 100"
    by (simp_all add: morning_world_def first_world_def)
  have db: "jobs_stored empty_database" "db_shipments empty_database = []" "db_errors empty_database = []"
    "db_jobs empty_database = []" "db_outbox empty_database = []"
    by (simp_all add: jobs_stored_def empty_database_def)
  have none: "stored_codes empty_database = {}" by (simp add: stored_codes_def db)
  have run: "create_import default_settings ''a.xlsx'' ''/s/a.xlsx'' 9 None None ''f'' morning_world =
      (Inr \<lparr>co_result = \<lparr>cr_import_id = 10, cr_status = ''PENDING'', cr_created_at = 100\<rparr>, co_created = True\<rparr>, snd morning_upload)"
    using morning_upload(1) by (metis morning_upload_def prod.collapse)
  have batch: "backlog 100 (committed ?p) \<le> nat (set_outbox_batch_size default_settings)"
    using morning_upload(2) by (simp add: default_settings_def)
  have delays: "delays_suffice default_settings (clock ?p)" by (simp add: default_delays seconds_def)
  have "length (concat sheet_chunks) = 3" using arg_cong [OF sheet_chunks(2), of length] by simp
  moreover have "wk_adapters sheet_worker = sheet_adapters" "length (wk_worker_id sheet_worker) \<le> 255" by (simp_all add: sheet_worker_def)
  moreover have "unused_ids (\<lambda>n. n + 10) (Suc 0) empty_database" "inj (\<lambda>n :: nat. n + 10)"
    by (simp_all add: unused_ids_def db inj_def)
  ultimately show ?thesis
    using upload_completes [of default_settings ?p morning_world, unfolded w db, OF default_settings_accepted delays
        empty_service_ok db(1) refl _ _ run _ refl, of example_publisher "fst (publish_due_events example_publisher ?p)"
        "snd (publish_due_events example_publisher ?p)" ?v sheet_worker "concat sheet_chunks"] batch sheet_importable [OF none]
    by (auto simp: none sheet_accepted)
qed

section \<open>Abandoned imports\<close>

lemma stale_in_batch:
  assumes "sql_count (\<lambda>j. job_status j = ImportPROCESSING \<and>
      (case job_last_heartbeat_at j of Some t \<Rightarrow> t < before | None \<Rightarrow> False)) jobs \<le> nat n"
    and "j \<in> set jobs" "job_status j = ImportPROCESSING" "job_last_heartbeat_at j = Some beat" "beat < before"
  shows "j \<in> set (stale_imports (\<lambda>_. False) n before jobs)"
  using assms by (simp add: sql_count_def stale_imports_def order_limit_def)

lemma pending_intent_of:
  assumes "j \<in> set stale" "job_attempt_count j < job_max_attempts j"
  shows "\<exists>x. new_dispatch_row x (job_id j) now tx \<in> set (pending_intents new_id now tx stale)"
proof -
  let ?js = "filter (\<lambda>j. \<not> job_attempt_count j \<ge> job_max_attempts j) stale"
  have "j \<in> set ?js" using assms by simp
  then obtain k where "k < length ?js" "?js ! k = j" by (metis in_set_conv_nth)
  then have "(k, j) \<in> set (enumerate 0 ?js)" by (auto simp: in_set_enumerate_eq)
  then show ?thesis unfolding pending_intents_def by force
qed

lemma recovery_round_ok:
  assumes "settings_accepted s" "service_ok s (committed w)" "jobs_stored (committed w)" "script (w :: world) = []"
    and "fresh_ids (\<lambda>k. uuid_source w (draws w + k)) (committed w)"
    and "stale = stale_imports (\<lambda>_. False) n (clock w - seconds (set_processing_stale_timeout_seconds s)) (db_jobs (committed w))"
    and "recover_stale_imports s n w = (res, w1)" "datetime_ok (clock w - seconds (set_processing_stale_timeout_seconds s))"
  shows "committed w1 = recovery_round (\<lambda>k. uuid_source w (draws w + k)) (clock w) stale (committed w)"
    and "service_ok s (committed w1)" "jobs_stored (committed w1)"
proof -
  let ?w = "w\<lparr>working := committed w\<rparr>"
  have ok: "db_ok (committed w)" using assms(2) by (simp add: service_ok_def)
  show db: "committed w1 = recovery_round (\<lambda>k. uuid_source w (draws w + k)) (clock w) stale (committed w)"
    using recover_stale_imports_quiet [OF assms(4) ok assms(3,5,6,8)] assms(7) by auto
  have "committed (snd (recover_stale_imports s n ?w)) = committed w1"
    using recover_stale_imports_quiet [of ?w stale n s] assms(3-6,8) ok unfolding db by auto
  then have "service_step s (committed w) (committed w1)"
    using recovery_run [of ?w "committed w" s n] assms(4) by simp
  from service_step_keeps [OF this assms(1,2)] show "service_ok s (committed w1)"
    by (simp add: service_ok_def deliverable.intents_ok_def tracks_def)
  show "jobs_stored (committed w1)"
    using assms(3) recovered_constraints unfolding db by (auto simp: jobs_stored_def recovery_round_def)
qed

text \<open>
  C6. A worker's death loses nothing when nothing interferes afterwards: when the heartbeat of a job in
  progress is older than the timeout and the job has attempts left, a recovery whose batch
  has room requeues it, a publisher's round sends it again, and the run of a worker completes it, with
  its attempt counted. What the dead worker had stored for the import is replaced by exactly
  the rows of the whole workbook; the rows of other imports stay; a client is told so.
\<close>

theorem abandoned_import_completes:
  assumes "settings_accepted s" "delays_suffice s (clock p)" "service_ok s (committed w)" "jobs_stored (committed w)"
    and "script (w :: world) = []" "fresh_ids (\<lambda>k. uuid_source w (draws w + k)) (committed w)"
    and "before = clock w - seconds (set_processing_stale_timeout_seconds s)"
    and "j \<in> set (db_jobs (committed w))" "job_status j = ImportPROCESSING" "job_last_heartbeat_at j = Some beat" "beat < before"
    and "job_attempt_count j < job_max_attempts j" "i = job_id j"
    and "sql_count (\<lambda>j. job_status j = ImportPROCESSING \<and>
      (case job_last_heartbeat_at j of Some t \<Rightarrow> t < before | None \<Rightarrow> False)) (db_jobs (committed w)) \<le> nat n"
    and "recover_stale_imports s n w = (got, w1)"
    and "script p = []" "committed p = committed w1" "clock w \<le> clock p" "pb_settings pb = s"
    and "backlog (clock p) (committed p) \<le> nat (set_outbox_batch_size s)" "pb_dispatch pb i (clock p) = None"
    and "publish_due_events pb p = (res, p1)"
    and "script v = []" "committed v = committed p1" "length (wk_worker_id wk) \<le> 255"
    and "importable wk (job_stored_file_path j) i (pg_numeric v) (cleared i (committed w)) rows"
    and "inj (uuid_source v)" "unused_ids (uuid_source v) (Suc (draws v)) (committed w)" "datetime_ok before"
  shows "i \<in> set (drop (length (pb_sent p)) (pb_sent p1)) \<and>
    (\<exists>v1 J. process_import_run wk i v = (Inr (), v1) \<and> J \<in> set (db_jobs (committed v1)) \<and> job_id J = i \<and>
      job_status J = ImportCOMPLETED \<and> job_attempt_count J = job_attempt_count j + 1 \<and> job_total_rows J = length rows \<and>
      job_success_count J = length (accepted_rows (wk_adapters wk) (stored_codes (cleared i (committed w))) rows) \<and>
      job_failed_count J = length rows - job_success_count J \<and>
      imports_rows (wk_adapters wk) i rows (pg_numeric v) (clock v) (cleared i (committed w)) (committed v1) \<and>
      reports_completed i (length rows) (job_success_count J) (v1\<lparr>script := []\<rparr>))"
proof -
  let ?now = "clock w" and ?J = "(recovered (clock w) j)\<lparr>job_updated_at := clock w\<rparr>"
  define stale where "stale = stale_imports (\<lambda>_. False) n before (db_jobs (committed w))"
  from recovery_round_ok [OF assms(1,3,4,5,6) stale_def [unfolded assms(7)] assms(15) assms(29) [unfolded assms(7)]]
  have db: "committed w1 = recovery_round (\<lambda>k. uuid_source w (draws w + k)) ?now stale (committed w)"
    and ok: "service_ok s (committed p)" "jobs_stored (committed p)"
    unfolding assms(17) by blast+
  have j: "j \<in> set stale" unfolding stale_def by (rule stale_in_batch [OF assms(14,8-11)])
  then have job: "?J \<in> set (db_jobs (committed p))" unfolding assms(17) db using assms(8) by (force simp: recovery_round_def)
  have again: "claimable i ?J" "job_stored_file_path ?J = job_stored_file_path j" "job_attempt_count ?J = job_attempt_count j"
    "job_id ?J = i"
    using assms(12,13) by (simp_all add: recovered_def requeue_stale_def claimable_def)
  from pending_intent_of [OF j assms(12)] obtain x where
    "new_dispatch_row x (job_id j) ?now ?now \<in> set (pending_intents (\<lambda>k. uuid_source w (draws w + k)) ?now ?now stale)" by blast
  then have intent: "new_dispatch_row x i ?now ?now \<in> set (db_outbox (committed p))"
    "ob_status (new_dispatch_row x i ?now ?now) = OutboxPENDING"
    "ob_available_at (new_dispatch_row x i ?now ?now) \<le> clock p" "job_id ?J = ob_import_id (new_dispatch_row x i ?now ?now)"
    using assms(18) again(4) by (simp_all add: assms(13,17) db recovery_round_def) (simp_all add: new_dispatch_row_def)
  have rest: "db_shipments (cleared i (committed w)) = db_shipments (cleared i (committed p))"
    "db_errors (cleared i (committed w)) = db_errors (cleared i (committed p))"
    by (simp_all add: assms(17) db recovery_round_def cleared_def)
  have ids: "unused_ids (uuid_source v) (Suc (draws v)) (committed p)"
    using assms(28) by (simp add: unused_ids_def assms(17) db recovery_round_def)
  from dispatched_completes [OF assms(16) ok assms(19,2) intent(1-3) assms(20) job intent(4) again(1) assms(21,22,24) rest
      assms(23,25) assms(26) [folded again(2)] assms(27) ids]
  show ?thesis unfolding completed_after_def again(3,4) by fastforce
qed

definition morning_recovery :: "(exn + nat) \<times> world" where
  "morning_recovery = recover_stale_imports default_settings 5 watchdog_world"

lemma morning_recovery:
  "backlog (seconds 500) (committed (snd morning_recovery)) = 1"
  "sql_count (\<lambda>j. job_status j = ImportPROCESSING \<and>
      (case job_last_heartbeat_at j of Some t \<Rightarrow> t < seconds 500 - seconds (set_processing_stale_timeout_seconds default_settings)
       | None \<Rightarrow> False)) (db_jobs abandoned_db) = 2"
  by code_simp+

theorem abandoned_import_completes_witness:
  "\<exists>v1 J. process_import_run sheet_worker 1 (reader_run (committed (snd (publish_due_events example_publisher
      (sender_run (seconds 500) (committed (snd morning_recovery))))))) = (Inr (), v1) \<and>
     J \<in> set (db_jobs (committed v1)) \<and> job_status J = ImportCOMPLETED \<and> job_attempt_count J = 2 \<and> job_success_count J = 1"
proof -
  let ?p = "sender_run (seconds 500) (committed (snd morning_recovery))" and ?j = "running_job 1 1 (seconds 100)"
  let ?v = "reader_run (committed (snd (publish_due_events example_publisher ?p)))"
  have w: "committed watchdog_world = abandoned_db" "script watchdog_world = []" "clock watchdog_world = seconds 500"
    "draws watchdog_world = 0" "uuid_source watchdog_world = (\<lambda>n. n + 10)"
    by (simp_all add: watchdog_world_def)
  have db: "db_shipments abandoned_db = []" "db_errors abandoned_db = []" "db_outbox abandoned_db = []" "?j \<in> set (db_jobs abandoned_db)"
    by (simp_all add: abandoned_db_def)
  have ok: "service_ok default_settings abandoned_db" by (simp add: service_ok_def abandoned_db_ok db)
  have stored: "jobs_stored abandoned_db" by code_simp
  have new: "fresh_ids (\<lambda>k. (\<lambda>n. n + 10) (0 + k)) abandoned_db" by (simp add: fresh_ids_def db inj_def)
  have none: "stored_codes (cleared 1 abandoned_db) = {}" by (simp add: stored_codes_def cleared_def db)
  have j: "job_status ?j = ImportPROCESSING" "job_last_heartbeat_at ?j = Some (seconds 100)"
    "seconds 100 < seconds 500 - seconds (set_processing_stale_timeout_seconds default_settings)"
    "job_attempt_count ?j < job_max_attempts ?j" "1 = job_id ?j"
    by (simp_all add: running_job_def example_job_def default_settings_def seconds_def)
  have batch: "backlog (clock ?p) (committed ?p) \<le> nat (set_outbox_batch_size default_settings)"
    using morning_recovery(1) by (simp add: default_settings_def)
  have room: "sql_count (\<lambda>j. job_status j = ImportPROCESSING \<and>
      (case job_last_heartbeat_at j of Some t \<Rightarrow> t < seconds 500 - seconds (set_processing_stale_timeout_seconds default_settings)
       | None \<Rightarrow> False)) (db_jobs abandoned_db) \<le> nat 5" using morning_recovery(2) by simp
  have run: "recover_stale_imports default_settings 5 watchdog_world = (fst morning_recovery, snd morning_recovery)"
    by (simp add: morning_recovery_def)
  have wk: "wk_adapters sheet_worker = sheet_adapters" "length (wk_worker_id sheet_worker) \<le> 255" by (simp_all add: sheet_worker_def)
  have ids: "unused_ids (\<lambda>n. n + 10) (Suc 0) abandoned_db" "inj (\<lambda>n :: nat. n + 10)"
    by (simp_all add: unused_ids_def db inj_def)
  have p: "script ?p = []" "committed ?p = committed (snd morning_recovery)" "seconds 500 \<le> clock ?p"
    "pb_dispatch example_publisher 1 (clock ?p) = None"
    by simp_all
  have v: "script ?v = []" "committed ?v = committed (snd (publish_due_events example_publisher ?p))"
    "importable sheet_worker (job_stored_file_path ?j) 1 (pg_numeric ?v) (cleared 1 abandoned_db) (concat sheet_chunks)"
    "inj (uuid_source ?v)" "unused_ids (uuid_source ?v) (Suc (draws ?v)) abandoned_db"
    using sheet_importable [OF none] ids by simp_all
  have one: "length (accepted_rows sheet_adapters (stored_codes (cleared 1 abandoned_db)) (concat sheet_chunks)) = 1"
    unfolding none sheet_accepted by simp
  have delays: "delays_suffice default_settings (clock ?p)" by (simp add: default_delays seconds_def)
  have cutoff: "datetime_ok (seconds 500 - seconds (set_processing_stale_timeout_seconds default_settings))" by code_simp
  have "job_attempt_count ?j = 1" by (simp add: running_job_def)
  then show ?thesis
    using abandoned_import_completes [of default_settings ?p watchdog_world, unfolded w, OF default_settings_accepted delays
        ok stored refl new refl db(4) j room run p(1,2,3) example_publisher_fields(1) batch p(4) prod.collapse [symmetric]
        v(1,2) wk(2) v(3-5) cutoff]
    by (auto simp: wk(1) one simp del: One_nat_def)
qed

end
