(* ===== verification/Py_Times.thy ===== *)
theory Py_Times
  imports Py_Dates
begin

text \<open>
  Timestamps and uuids as text: what \<^verbatim>\<open>datetime.isoformat\<close> prints for a TIMESTAMP WITH TIME ZONE the
  driver returns in the time zone of its connection, \<^verbatim>\<open>str.replace\<close>, and \<^verbatim>\<open>str(uuid)\<close>.
\<close>

text \<open>The date of a day number (1 is 0001-01-01), by the cycles of 400, 100, 4 and 1 years.\<close>

definition date_of_ordinal :: "nat \<Rightarrow> pydate" where
  "date_of_ordinal ordinal =
     (let n = ordinal - 1;
          n400 = n div 146097; n = n mod 146097;
          n100 = n div 36524; n = n mod 36524;
          n4 = n div 1461; n = n mod 1461;
          n1 = n div 365; n = n mod 365;
          y = n400 * 400 + 1 + n100 * 100 + n4 * 4 + n1
      in if n1 = 4 \<or> n100 = 4 then PyDate (y - 1) 12 31
         else case month_scan 11 y 1 n of (m, d) \<Rightarrow> PyDate y m d)"

definition datetime_of_timestamp :: "int \<Rightarrow> timestamp \<Rightarrow> pydatetime" where
  "datetime_of_timestamp utcoffset t =
     (let local_time = t + seconds (60 * utcoffset);
          days = local_time div seconds 86400; rest = nat (local_time mod seconds 86400)
      in \<lparr>dt_date = date_of_ordinal (nat (days + 719163)), dt_hour = rest div 3600000000,
          dt_minute = rest div 60000000 mod 60, dt_second = rest div 1000000 mod 60, dt_micro = rest mod 1000000,
          dt_utcoffset = Some utcoffset\<rparr>)"

text \<open>\<^verbatim>\<open>text.replace(old, new)\<close> for a nonempty \<open>old\<close>, from left to right.\<close>

function str_replace :: "string \<Rightarrow> string \<Rightarrow> string \<Rightarrow> string" where
  "str_replace old new s =
     (if s = [] \<or> old = [] then s
      else if take (length old) s = old then new @ str_replace old new (drop (length old) s)
      else hd s # str_replace old new (tl s))"
  by pat_completeness auto
termination
  by (relation "measure (\<lambda>(old, new, s). length s)") auto

declare str_replace.simps [simp del]

definition hex_char :: "nat \<Rightarrow> char" where
  "hex_char d = (if d < 10 then char_of (48 + d) else char_of (87 + d))"

text \<open>\<^verbatim>\<open>uuid.hex\<close>: 32 hexadecimal digits; \<^verbatim>\<open>str(uuid)\<close> has hyphens between five groups of them.\<close>

definition uuid_hex :: "uuid \<Rightarrow> string" where
  "uuid_hex u = map (\<lambda>i. hex_char (u div 16 ^ i mod 16)) (rev [0..<32])"

definition uuid_str :: "uuid \<Rightarrow> string" where
  "uuid_str u = (let h = uuid_hex u in
     take 8 h @ ''-'' @ take 4 (drop 8 h) @ ''-'' @ take 4 (drop 12 h) @ ''-'' @ take 4 (drop 16 h) @ ''-'' @ drop 20 h)"

section \<open>Days\<close>

text \<open>The year of a day number: \<open>y = 400 a + 100 b + 4 c + d + 1\<close>.\<close>

lemma days_before_year_cycles:
  assumes "d \<le> 3" "c \<le> 24" "b \<le> 3"
  shows "days_before_year (a * 400 + b * 100 + c * 4 + d + 1) = a * 146097 + b * 36524 + c * 1461 + d * 365"
proof -
  let ?k = "a * 400 + b * 100 + c * 4 + d"
  have "?k div 4 = a * 100 + b * 25 + c" "?k div 100 = a * 4 + b" "?k div 400 = a"
    using assms by simp_all
  then show ?thesis by (simp add: days_before_year_def Let_def)
qed

lemma mod_eq_0_small: "0 < e \<Longrightarrow> e \<le> n \<Longrightarrow> (e + n * k) mod n = 0 \<longleftrightarrow> e = n" for e n k :: nat
  by (metis dvd_imp_le le_antisym mod_eq_0_iff_dvd mod_mult_self2 mod_self)

lemma leap_cycles:
  assumes "d \<le> 3" "c \<le> 24" "b \<le> 3"
  shows "is_leap (a * 400 + b * 100 + c * 4 + d + 1) \<longleftrightarrow> d = 3 \<and> (c = 24 \<longrightarrow> b = 3)"
proof -
  let ?y = "a * 400 + b * 100 + c * 4 + d + 1"
  have "?y mod 4 = 0 \<longleftrightarrow> d + 1 = 4"
    using mod_eq_0_small [of "d + 1" 4 "a * 100 + b * 25 + c"] assms by (simp add: algebra_simps)
  moreover have "?y mod 100 = 0 \<longleftrightarrow> c * 4 + d + 1 = 100"
    using mod_eq_0_small [of "c * 4 + d + 1" 100 "a * 4 + b"] assms by (simp add: algebra_simps)
  moreover have "?y mod 400 = 0 \<longleftrightarrow> b * 100 + c * 4 + d + 1 = 400"
    using mod_eq_0_small [of "b * 100 + c * 4 + d + 1" 400 a] assms by (simp add: algebra_simps)
  ultimately show ?thesis unfolding is_leap_def using assms by auto
qed

lemma month_scan_finds:
  assumes "m \<le> M" "1 \<le> m" "1 \<le> D" "D \<le> days_in_month y M" "M - m \<le> fuel"
  shows "month_scan fuel y m (days_before_month y M - days_before_month y m + D - 1) = (M, D)"
  using assms
proof (induction fuel arbitrary: m)
  case 0
  then show ?case by simp
next
  case (Suc fuel)
  have mono: "days_before_month y (m + 1) \<le> days_before_month y M" if "m < M"
    using that by (induction rule: less_Suc_induct) (use days_before_month_Suc Suc.prems in \<open>auto simp: days_before_month_def\<close>)
  show ?case
  proof (cases "m = M")
    case True
    moreover have "D - 1 < days_in_month y M" using Suc.prems by linarith
    ultimately show ?thesis using Suc.prems by simp
  next
    case False
    then have "month_scan fuel y (m + 1) (days_before_month y M - days_before_month y (m + 1) + D - 1) = (M, D)"
      using Suc.prems by (intro Suc.IH) auto
    then show ?thesis
      using mono False Suc.prems days_before_month_Suc [of m y] by (auto simp: diff_diff_left)
  qed
qed

lemma year_cycles:
  obtains a b c d where "(y :: nat) = a * 400 + b * 100 + c * 4 + d" "d \<le> 3" "c \<le> 24" "b \<le> 3"
proof
  show "y = y div 400 * 400 + y mod 400 div 100 * 100 + y mod 100 div 4 * 4 + y mod 4"
  proof -
    have "y mod 400 mod 100 = y mod 100" "y mod 100 mod 4 = y mod 4" by (simp_all add: mod_mod_cancel)
    then show ?thesis by (metis add.assoc div_mult_mod_eq)
  qed
  show "y mod 4 \<le> 3" "y mod 100 div 4 \<le> 24" "y mod 400 div 100 \<le> 3"
    by linarith+
qed

lemma year_day_bounds:
  assumes "1 \<le> m" "m \<le> 12" "1 \<le> D" "D \<le> days_in_month y m"
  shows "days_before_month y m + D \<le> (if is_leap y then 366 else 365) \<and>
    (days_before_month y m + D = 366 \<longrightarrow> m = 12 \<and> D = 31)"
proof -
  have "m \<in> {1, 2, 3, 4, 5, 6, 7, 8, 9, 10, 11, 12}"
    using assms(1,2) unfolding insert_iff empty_iff by presburger
  then show ?thesis using assms(3,4)
    by (elim insertE) (simp_all add: days_before_month_def days_in_month_def upt_rec split: if_splits)
qed

lemma cycle: "(e :: nat) < n \<Longrightarrow> (b * n + e) div n = b \<and> (b * n + e) mod n = e"
  by simp

lemma date_of_ordinal_cycles:
  assumes "d \<le> 3" "c \<le> 24" "b \<le> 3" "t \<le> 365" "t = 365 \<longrightarrow> d = 3 \<and> (c = 24 \<longrightarrow> b = 3)"
    and "y = a * 400 + b * 100 + c * 4 + d + 1"
  shows "date_of_ordinal (a * 146097 + b * 36524 + c * 1461 + d * 365 + t + 1) =
    (if t = 365 then PyDate y 12 31 else case month_scan 11 y 1 t of (m, k) \<Rightarrow> PyDate y m k)"
proof -
  let ?r = "b * 36524 + c * 1461 + d * 365 + t" and ?s = "c * 1461 + d * 365 + t" and ?u = "d * 365 + t"
  have r: "(a * 146097 + ?r) div 146097 = a" "(a * 146097 + ?r) mod 146097 = ?r"
    using assms by auto
  have n: "a * 146097 + b * 36524 + c * 1461 + d * 365 + t + 1 - 1 = a * 146097 + ?r" by simp
  show ?thesis
  proof (cases "t = 365 \<and> c = 24")
    case True
    then have s: "?r div 36524 = 4" "?r mod 36524 = 0" using assms by simp_all
    show ?thesis
      unfolding date_of_ordinal_def Let_def n r s using True assms by simp
  next
    case False
    then have "?s < 36524" "?u < 1461" using assms by auto
    then have s: "?r div 36524 = b" "?r mod 36524 = ?s" and u: "?s div 1461 = c" "?s mod 1461 = ?u"
      using cycle [of ?s 36524 b] cycle [of ?u 1461 c] by (simp_all add: add.assoc)
    show ?thesis
    proof (cases "t = 365")
      case True
      then have "d = 3" using assms by simp
      then have v: "?u div 365 = 4" "?u mod 365 = 0" using True by simp_all
      show ?thesis
        unfolding date_of_ordinal_def Let_def n r s u v using True \<open>d = 3\<close> assms by simp
    next
      case t: False
      then have v: "?u div 365 = d" "?u mod 365 = t" using cycle [of t 365 d] assms by simp_all
      then show ?thesis
        unfolding date_of_ordinal_def Let_def n r s u v using t assms by simp
    qed
  qed
qed

theorem date_of_ordinal_inverse:
  assumes "valid_date x"
  shows "date_of_ordinal (date_ordinal x) = x"
proof -
  let ?y = "date_year x" and ?m = "date_month x" and ?D = "date_day x"
  obtain a b c d where y: "?y - 1 = a * 400 + b * 100 + c * 4 + d" and le: "d \<le> 3" "c \<le> 24" "b \<le> 3"
    by (rule year_cycles)
  have year: "?y = a * 400 + b * 100 + c * 4 + d + 1" 
  proof -
    have "1 \<le> ?y" using assms by (simp add: valid_date_def)
    then show ?thesis using y by linarith
  qed
  let ?t = "days_before_month ?y ?m + ?D - 1"
  have md: "1 \<le> ?m" "?m \<le> 12" "1 \<le> ?D" "?D \<le> days_in_month ?y ?m" using assms by (simp_all add: valid_date_def)
  note bounds = year_day_bounds [OF md]
  have t: "?t \<le> 365" "?t = 365 \<longrightarrow> d = 3 \<and> (c = 24 \<longrightarrow> b = 3)"
    using bounds md(3) leap_cycles [OF le, of a] year by (auto split: if_splits)
  have ord: "date_ordinal x = a * 146097 + b * 36524 + c * 1461 + d * 365 + ?t + 1"
    using days_before_year_cycles [OF le, of a] year md(3) by (simp add: date_ordinal_def)
  have x: "x = PyDate ?y ?m ?D" by (cases x) simp
  show ?thesis
  proof (cases "?t = 365")
    case True
    then have "?m = 12 \<and> ?D = 31" using bounds md(3) by linarith
    then show ?thesis using date_of_ordinal_cycles [OF le t year] True ord year x by metis
  next
    case False
    have "days_before_month ?y 1 = 0" by (simp add: days_before_month_def)
    then have "month_scan 11 ?y 1 ?t = (?m, ?D)"
      using month_scan_finds [of 1 ?m ?D ?y 11] md by simp
    then show ?thesis using date_of_ordinal_cycles [OF le t year] False ord year x by simp
  qed
qed

section \<open>Timestamps\<close>

lemma int_cycle: "0 \<le> e \<Longrightarrow> e < n \<Longrightarrow> (k * n + e) div n = k \<and> (k * n + e) mod n = (e :: int)"
  by simp

lemma datetime_of_day:
  assumes "valid_date d" "rest < 86400000000"
  shows "datetime_of_timestamp 0 (day_start d + int rest) =
    \<lparr>dt_date = d, dt_hour = rest div 3600000000, dt_minute = rest div 60000000 mod 60,
     dt_second = rest div 1000000 mod 60, dt_micro = rest mod 1000000, dt_utcoffset = Some 0\<rparr>"
proof -
  let ?t = "(int (date_ordinal d) - 719163) * 86400000000 + int rest"
  have t: "day_start d + int rest + seconds (60 * 0) = ?t" "seconds 86400 = 86400000000"
    by (simp_all add: day_start_def seconds_def)
  have "?t div 86400000000 = int (date_ordinal d) - 719163" "?t mod 86400000000 = int rest"
    using int_cycle [of "int rest" 86400000000 "int (date_ordinal d) - 719163"] assms(2) by linarith+
  then show ?thesis
    unfolding datetime_of_timestamp_def Let_def t by (simp add: date_of_ordinal_inverse [OF assms(1)])
qed

lemma datetime_of_utc:
  assumes "valid_date d" "h < 24" "m < 60" "s < 60" "us < 1000000"
  shows "datetime_of_timestamp 0 (day_start d + int (((h * 60 + m) * 60 + s) * 1000000 + us)) =
    \<lparr>dt_date = d, dt_hour = h, dt_minute = m, dt_second = s, dt_micro = us, dt_utcoffset = Some 0\<rparr>"
proof -
  let ?rest = "((h * 60 + m) * 60 + s) * 1000000 + us"
  have small: "?rest < 86400000000" using assms by simp
  have sec: "?rest div 1000000 = (h * 60 + m) * 60 + s" "?rest mod 1000000 = us"
    using cycle [of us 1000000 "(h * 60 + m) * 60 + s"] assms(5) by blast+
  have minute: "((h * 60 + m) * 60 + s) div 60 = h * 60 + m" "((h * 60 + m) * 60 + s) mod 60 = s"
    using cycle [of s 60 "h * 60 + m"] assms(4) by blast+
  have hour: "(h * 60 + m) div 60 = h" "(h * 60 + m) mod 60 = m" using cycle [of m 60 h] assms(3) by blast+
  have "?rest div 60000000 = ?rest div 1000000 div 60" "?rest div 3600000000 = ?rest div 1000000 div 60 div 60"
    by (simp_all add: div_mult2_eq [symmetric])
  then show ?thesis unfolding datetime_of_day [OF assms(1) small] by (simp only: sec minute hour)
qed

text \<open>What \<^verbatim>\<open>created_at.isoformat().replace("+00:00", "Z")\<close> gives.\<close>

definition created_at_text :: "int \<Rightarrow> timestamp \<Rightarrow> string" where
  "created_at_text utcoffset t =
     str_replace ''+00:00'' ''Z'' (datetime_isoformat (datetime_of_timestamp utcoffset t))"

lemma str_replace_tail: "CHR ''+'' \<notin> set s \<Longrightarrow> str_replace ''+00:00'' ''Z'' (s @ ''+00:00'') = s @ ''Z''"
proof (induction s)
  case Nil
  then show ?case by (simp add: str_replace.simps)
next
  case (Cons c s)
  then have "c \<noteq> CHR ''+''" by auto
  then show ?case using Cons by (simp add: str_replace.simps [of _ _ "c # s @ ''+00:00''"])
qed

lemma digit_char_plus: "k < 10 \<Longrightarrow> digit_char k \<noteq> CHR ''+''"
proof
  assume "k < 10" "digit_char k = CHR ''+''"
  then have "digit_value (CHR ''+'') = Some k" by (metis digit_value_digit_char)
  then show False by (simp add: digit_value_def)
qed

lemma nat_str_no_plus: "CHR ''+'' \<notin> set (nat_str n)"
proof -
  have "CHR ''+'' \<noteq> digit_char k" if "k \<in> set (nat_digits n)" for k
    using digit_char_plus nat_digits_small that by metis
  then show ?thesis by (auto simp: nat_str_def)
qed

lemma zero_pad_no_plus: "CHR ''+'' \<notin> set (zero_pad k n)"
  using nat_str_no_plus by (simp add: zero_pad_def)

lemma created_at_text_utc:
  assumes "valid_date d" "h < 24" "m < 60" "s < 60" "us < 1000000"
  shows "created_at_text 0 (day_start d + int (((h * 60 + m) * 60 + s) * 1000000 + us)) =
    date_isoformat d @ ''T'' @ zero_pad 2 h @ '':'' @ zero_pad 2 m @ '':'' @ zero_pad 2 s @
    (if us = 0 then '''' else ''.'' @ zero_pad 6 us) @ ''Z''"
proof -
  let ?t = "date_isoformat d @ ''T'' @ zero_pad 2 h @ '':'' @ zero_pad 2 m @ '':'' @ zero_pad 2 s @
    (if us = 0 then '''' else ''.'' @ zero_pad 6 us)"
  have "zero_pad 2 0 = ''00''" by code_simp
  then have "datetime_isoformat (datetime_of_timestamp 0 (day_start d + int (((h * 60 + m) * 60 + s) * 1000000 + us))) = ?t @ ''+00:00''"
    unfolding datetime_of_utc [OF assms] by (simp add: datetime_isoformat_def)
  moreover have "CHR ''+'' \<notin> set ?t"
    using zero_pad_no_plus by (simp add: date_isoformat_def)
  ultimately show ?thesis unfolding created_at_text_def by (simp add: str_replace_tail del: append_assoc)
qed

end
