(* ===== verification/Worker_Tasks.thy ===== *)
theory Worker_Tasks
  imports Import_Outcome Py_Times Settings Recovery
begin

text \<open>
  The Celery tasks of the worker (app/workers/tasks.py): one delivery of \<^verbatim>\<open>imports.process_import\<close>
  and the deliveries that follow, because it asks for a retry or because its worker is lost.
  Celery is not part of the repository: what \<^verbatim>\<open>self.retry\<close> raises is a parameter, with its
  documented rule as a hypothesis, and what becomes of a delivery is data of a schedule.
\<close>

section \<open>The argument of the task\<close>

text \<open>
  \<^verbatim>\<open>UUID(text)\<close> for hexadecimal digits with hyphens, the form \<^verbatim>\<open>str(uuid)\<close> has in a message.
\<close>

definition hex_value :: "char \<Rightarrow> nat option" where
  "hex_value c =
     (let n = of_char c in
      if 48 \<le> n \<and> n \<le> 57 then Some (n - 48)
      else if 97 \<le> n \<and> n \<le> 102 then Some (n - 87)
      else if 65 \<le> n \<and> n \<le> 70 then Some (n - 55)
      else None)"

definition uuid_of_str :: "string \<Rightarrow> uuid option" where
  "uuid_of_str text =
     (let hex = filter (\<lambda>c. c \<noteq> CHR ''-'') text in
      if length hex \<noteq> 32 then None
      else map_option (foldl (\<lambda>u d. 16 * u + d) 0) (those (map hex_value hex)))"

lemma hex_char_value: "d < 16 \<Longrightarrow> hex_value (hex_char d) = Some d"
  by (auto simp: hex_value_def hex_char_def Let_def)

lemma hex_char_hyphen: "d < 16 \<Longrightarrow> hex_char d \<noteq> CHR ''-''"
  by (auto simp: hex_char_def dest!: arg_cong [where f = "of_char :: char \<Rightarrow> nat"])

lemma horner_digits:
  "foldl (\<lambda>u d. 16 * u + d) a (map (\<lambda>i. u div 16 ^ i mod 16) (rev [0..<n])) = a * 16 ^ n + u mod 16 ^ n" for u :: nat
proof (induction n arbitrary: a)
  case (Suc n)
  have "u mod 16 ^ Suc n = 16 ^ n * (u div 16 ^ n mod 16) + u mod 16 ^ n"
    using mod_mult2_eq [of u "16 ^ n" 16] by (simp add: mult.commute)
  then show ?case using Suc by (simp add: algebra_simps)
qed simp

lemma filter_uuid_str: "filter (\<lambda>c. c \<noteq> CHR ''-'') (uuid_str u) = uuid_hex u"
proof -
  let ?h = "uuid_hex u"
  have "hex_char (v mod 16) \<noteq> CHR ''-''" for v by (rule hex_char_hyphen) simp
  then have "\<forall>c \<in> set ?h. c \<noteq> CHR ''-''" by (auto simp: uuid_hex_def)
  then have none: "filter (\<lambda>c. c \<noteq> CHR ''-'') (take n (drop m ?h)) = take n (drop m ?h)"
    "filter (\<lambda>c. c \<noteq> CHR ''-'') (drop m ?h) = drop m ?h" "filter (\<lambda>c. c \<noteq> CHR ''-'') (take n ?h) = take n ?h" for m n
    by (auto intro!: filter_True dest: in_set_dropD in_set_takeD)
  have "drop 16 ?h = take 4 (drop 16 ?h) @ drop 20 ?h" "drop 12 ?h = take 4 (drop 12 ?h) @ drop 16 ?h"
    "drop 8 ?h = take 4 (drop 8 ?h) @ drop 12 ?h" "?h = take 8 ?h @ drop 8 ?h"
    using append_take_drop_id [of 4 "drop 16 ?h"] append_take_drop_id [of 4 "drop 12 ?h"]
      append_take_drop_id [of 4 "drop 8 ?h"] append_take_drop_id [of 8 ?h] by simp_all
  then show ?thesis by (simp add: uuid_str_def Let_def none)
qed

lemma uuid_of_str_str: "u < 2 ^ 128 \<Longrightarrow> uuid_of_str (uuid_str u) = Some u"
proof -
  assume u: "u < 2 ^ 128"
  let ?ds = "map (\<lambda>i. u div 16 ^ i mod 16) (rev [0..<32])"
  have "those (map hex_value (map hex_char ds)) = Some ds" if "\<forall>d \<in> set ds. d < 16" for ds
    using that by (induction ds) (simp_all add: hex_char_value)
  from this [of ?ds] have "those (map hex_value (uuid_hex u)) = Some ?ds"
    by (simp add: uuid_hex_def o_def)
  moreover have "length (uuid_hex u) = 32" by (simp add: uuid_hex_def)
  moreover have "foldl (\<lambda>u d. 16 * u + d) 0 ?ds = u mod 16 ^ 32" using horner_digits [of 0 u 32] by simp
  moreover have "(16 :: nat) ^ 32 = 2 ^ 128" by simp
  ultimately show ?thesis using u by (simp add: uuid_of_str_def filter_uuid_str Let_def del: upt_Suc)
qed

section \<open>process_import_task\<close>

datatype task_outcome = Task_Succeeded | Task_Retry nat | Task_Failed exn

text \<open>What \<^verbatim>\<open>self.retry(exc, countdown, max_retries)\<close> raises in the given retry of the task.\<close>

type_synonym retry_call = "nat \<Rightarrow> exn \<Rightarrow> nat \<Rightarrow> int \<Rightarrow> task_outcome"

definition task_worker :: "settings \<Rightarrow> workbook_loader \<Rightarrow> adapters \<Rightarrow> string option \<Rightarrow> import_worker" where
  "task_worker s load ad hostname = \<lparr>wk_load = load, wk_adapters = ad,
     wk_chunk_size = set_processing_row_chunk_size s,
     wk_worker_id = (case hostname of None \<Rightarrow> ''celery-worker'' | Some h \<Rightarrow> str_or h ''celery-worker'')\<rparr>"

record task_process =
  tp_settings :: settings
  tp_load :: workbook_loader
  tp_adapters :: adapters
  tp_hostname :: "string option"
  tp_retry :: retry_call

definition process_import_task :: "task_process \<Rightarrow> nat \<Rightarrow> string \<Rightarrow> import_run \<Rightarrow> task_outcome \<times> import_run" where
  "process_import_task tp retries import_id w =
     (case uuid_of_str import_id of
        None \<Rightarrow> (Task_Failed ValueError, w)
      | Some i \<Rightarrow>
          (case process_import_run (task_worker (tp_settings tp) (tp_load tp) (tp_adapters tp) (tp_hostname tp)) i w of
             (Inr _, w') \<Rightarrow> (Task_Succeeded, w')
           | (Inl exc, w') \<Rightarrow>
               (case exc of
                  RetryableImportProcessingError _ \<Rightarrow>
                    (tp_retry tp retries exc (2 ^ retries) (set_import_max_attempts (tp_settings tp) - 1), w')
                | _ \<Rightarrow> (Task_Failed exc, w'))))"

text \<open>The rule of Celery: the original exception once \<^verbatim>\<open>max_retries\<close> is used up, otherwise a new delivery.\<close>

definition celery_retries :: "retry_call \<Rightarrow> bool" where
  "celery_retries retry \<longleftrightarrow> (\<forall>retries exc countdown max_retries.
     retry retries exc countdown max_retries =
       (if int retries < max_retries then Task_Retry countdown else Task_Failed exc))"

section \<open>Deliveries\<close>

text \<open>
  A message of the task: how often it was retried and the delay it waited for. A delivery is
  acknowledged when it has ended (\<^verbatim>\<open>acks_late\<close>), unless its worker is lost before: while it runs (and
  leaves some database behind), or after it ended, with a retry already published. The message
  then comes again as it was if late acknowledgement is on and either the settings reject lost
  work or the broker has lost the connection to the whole worker.
\<close>

record task_message =
  tm_retries :: nat
  tm_countdown :: nat

datatype delivery_fate =
    Acknowledged
  | Lost_Running bool "import_run \<Rightarrow> import_run"
  | Lost_Unacknowledged bool

definition redelivered :: "settings \<Rightarrow> bool \<Rightarrow> task_message \<Rightarrow> task_message list" where
  "redelivered s disconnected m =
     (if set_celery_task_acks_late s \<and> (set_celery_task_reject_on_worker_lost s \<or> disconnected) then [m] else [])"

definition retried :: "task_outcome \<Rightarrow> task_message \<Rightarrow> task_message list" where
  "retried outcome m = (case outcome of
     Task_Retry countdown \<Rightarrow> [\<lparr>tm_retries = Suc (tm_retries m), tm_countdown = countdown\<rparr>] | _ \<Rightarrow> [])"

text \<open>One delivery: the messages there are instead of the delivered one.\<close>

definition deliver ::
  "task_process \<Rightarrow> string \<Rightarrow> delivery_fate \<Rightarrow> task_message \<Rightarrow> import_run \<Rightarrow> task_message list \<times> import_run" where
  "deliver tp import_id fate m w = (case fate of
     Lost_Running disconnected left \<Rightarrow> (redelivered (tp_settings tp) disconnected m, left w)
   | Acknowledged \<Rightarrow>
       (case process_import_task tp (tm_retries m) import_id w of (outcome, w') \<Rightarrow> (retried outcome m, w'))
   | Lost_Unacknowledged disconnected \<Rightarrow>
       (case process_import_task tp (tm_retries m) import_id w of (outcome, w') \<Rightarrow>
          (retried outcome m @ redelivered (tp_settings tp) disconnected m, w')))"

text \<open>
  The deliveries of a task under a schedule, which says for each which of the waiting messages it
  is (retries have delays, so any) and what becomes of it: the messages delivered, and those that
  are left at its end. Between two deliveries the events of the script go on.
\<close>

fun deliveries ::
  "task_process \<Rightarrow> string \<Rightarrow> (nat \<times> delivery_fate) list \<Rightarrow> task_message list \<Rightarrow> import_run \<Rightarrow>
     (task_message list \<times> task_message list) \<times> import_run" where
  "deliveries tp import_id [] queue w = (([], queue), w)"
| "deliveries tp import_id ((k, fate) # schedule) queue w =
     (if queue = [] then (([], []), w)
      else let k = k mod length queue; m = queue ! k in
        (case deliver tp import_id fate m w of (ms, w') \<Rightarrow>
           (case deliveries tp import_id schedule (take k queue @ drop (Suc k) queue @ ms) w' of
              ((ms', rest), w'') \<Rightarrow> ((m # ms', rest), w''))))"

definition worker_lost :: "delivery_fate \<Rightarrow> bool" where
  "worker_lost fate \<longleftrightarrow> fate \<noteq> Acknowledged"

lemma process_import_task_retry:
  assumes "celery_retries (tp_retry tp)" "process_import_task tp retries import_id w = (Task_Retry c, w')"
  shows "int retries < set_import_max_attempts (tp_settings tp) - 1 \<and> c = 2 ^ retries"
  using assms by (auto simp: process_import_task_def celery_retries_def split: option.splits prod.splits sum.splits exn.splits if_splits)

text \<open>What the deliveries of a message and of its retries can come to, without losses.\<close>

definition allowance :: "int \<Rightarrow> task_message list \<Rightarrow> nat" where
  "allowance max_attempts queue = (\<Sum>m \<leftarrow> queue. nat (max_attempts - int (tm_retries m)))"

text \<open>The retries a message counts are below the attempts, and its delay is that of the last of them.\<close>

definition regular :: "int \<Rightarrow> task_message \<Rightarrow> bool" where
  "regular max_attempts m \<longleftrightarrow> int (tm_retries m) < max_attempts \<and>
     tm_countdown m = (if tm_retries m = 0 then 0 else 2 ^ (tm_retries m - 1))"

lemma allowance_simps [simp]:
  "allowance M [] = 0" "allowance M (m # ms) = nat (M - int (tm_retries m)) + allowance M ms"
  "allowance M (xs @ ys) = allowance M xs + allowance M ys"
  by (simp_all add: allowance_def)

lemma retried_allowance:
  assumes "celery_retries (tp_retry tp)" "process_import_task tp (tm_retries m) import_id w = (outcome, w')"
    and "regular (set_import_max_attempts (tp_settings tp)) m"
  shows "allowance (set_import_max_attempts (tp_settings tp)) (retried outcome m) <
      nat (set_import_max_attempts (tp_settings tp) - int (tm_retries m)) \<and>
    (\<forall>m' \<in> set (retried outcome m). regular (set_import_max_attempts (tp_settings tp)) m' \<and> tm_retries m' = Suc (tm_retries m))"
  using assms(3) process_import_task_retry [OF assms(1), of "tm_retries m" import_id w] assms(2)
  by (cases outcome) (auto simp: retried_def regular_def)

lemma deliver_allowance:
  assumes "celery_retries (tp_retry tp)" "regular (set_import_max_attempts (tp_settings tp)) m"
    and "deliver tp import_id fate m w = (ms, w')"
  shows "Suc (allowance (set_import_max_attempts (tp_settings tp)) ms) \<le>
      nat (set_import_max_attempts (tp_settings tp) - int (tm_retries m)) +
      (if worker_lost fate then nat (set_import_max_attempts (tp_settings tp)) else 0) \<and>
    (\<forall>m' \<in> set ms. regular (set_import_max_attempts (tp_settings tp)) m')"
proof -
  obtain outcome w1 where run: "process_import_task tp (tm_retries m) import_id w = (outcome, w1)" by fastforce
  note retry = retried_allowance [OF assms(1) run assms(2)]
  have again: "allowance M (redelivered s d m) \<le> nat (M - int (tm_retries m)) \<and> set (redelivered s d m) \<subseteq> {m}" for M s d
    by (auto simp: redelivered_def)
  let ?M = "set_import_max_attempts (tp_settings tp)"
  have pos: "0 < ?M" using assms(2) by (simp add: regular_def)
  then have left: "nat (?M - int (tm_retries m)) \<le> nat ?M" by simp
  show ?thesis
  proof (cases fate)
    case Acknowledged
    then have "ms = retried outcome m" using assms(3) run by (simp add: deliver_def)
    then show ?thesis using retry Acknowledged by (simp add: worker_lost_def)
  next
    case (Lost_Running d f)
    then have "ms = redelivered (tp_settings tp) d m" using assms(3) by (simp add: deliver_def)
    then show ?thesis using again [of ?M "tp_settings tp" d] Lost_Running assms(2) pos by (auto simp: worker_lost_def)
  next
    case (Lost_Unacknowledged d)
    then have "ms = retried outcome m @ redelivered (tp_settings tp) d m" using assms(3) run by (simp add: deliver_def)
    then show ?thesis
      using again [of ?M "tp_settings tp" d] retry left Lost_Unacknowledged assms(2) by (auto simp: worker_lost_def)
  qed
qed

lemma allowance_remove:
  "k < length queue \<Longrightarrow> allowance M queue = nat (M - int (tm_retries (queue ! k))) + allowance M (take k queue @ drop (Suc k) queue)"
  by (metis add.left_commute allowance_simps(2,3) id_take_nth_drop)

lemma deliveries_allowance:
  assumes "celery_retries (tp_retry tp)" "\<forall>m \<in> set queue. regular (set_import_max_attempts (tp_settings tp)) m"
    and "deliveries tp import_id schedule queue w = ((ms, rest), w')"
  shows "length ms + allowance (set_import_max_attempts (tp_settings tp)) rest \<le>
      allowance (set_import_max_attempts (tp_settings tp)) queue +
      nat (set_import_max_attempts (tp_settings tp)) * length (filter (worker_lost \<circ> snd) schedule) \<and>
    (\<forall>m \<in> set ms \<union> set rest. regular (set_import_max_attempts (tp_settings tp)) m) \<and>
    (rest \<noteq> [] \<longrightarrow> length ms = length schedule)"
  using assms(2,3)
proof (induction schedule arbitrary: queue w ms)
  case (Cons d schedule)
  obtain k fate where d: "d = (k, fate)" by fastforce
  show ?case
  proof (cases "queue = []")
    case False
    let ?M = "set_import_max_attempts (tp_settings tp)" and ?k = "k mod length queue"
    let ?others = "take ?k queue @ drop (Suc ?k) queue"
    have k: "?k < length queue" using False by simp
    obtain news w1 where step: "deliver tp import_id fate (queue ! ?k) w = (news, w1)" by fastforce
    obtain ms' rest' w2 where later: "deliveries tp import_id schedule (take ?k queue @ drop (Suc ?k) queue @ news) w1 = ((ms', rest'), w2)"
      by (metis prod.collapse)
    have run: "ms = queue ! ?k # ms'" "rest = rest'" "w' = w2"
      using Cons.prems(2) False by (auto simp: d Let_def step later)
    have regular: "regular ?M (queue ! ?k)" using Cons.prems(1) k by simp
    note new = deliver_allowance [OF assms(1) regular step]
    have "\<forall>m \<in> set (take ?k queue @ drop (Suc ?k) queue @ news). regular ?M m"
      using Cons.prems(1) new by (auto dest: in_set_takeD in_set_dropD)
    from Cons.IH [OF this later [folded run(2,3)]]
    have IH: "length ms' + allowance ?M rest \<le> allowance ?M ?others + allowance ?M news +
        nat ?M * length (filter (worker_lost \<circ> snd) schedule)"
      "\<forall>m \<in> set ms' \<union> set rest. regular ?M m" "rest \<noteq> [] \<longrightarrow> length ms' = length schedule"
      unfolding allowance_simps(3) add.assoc by blast+
    have count: "length (filter (worker_lost \<circ> snd) (d # schedule)) =
        (if worker_lost fate then 1 else 0) + length (filter (worker_lost \<circ> snd) schedule)"
      by (simp add: d)
    have total: "length ms + allowance ?M rest \<le> allowance ?M queue +
        nat ?M * length (filter (worker_lost \<circ> snd) (d # schedule))"
      using new [THEN conjunct1] IH(1) unfolding allowance_remove [OF k, of ?M] count run(1)
      by (cases "worker_lost fate") (simp_all add: algebra_simps del: allowance_simps(3))
    show ?thesis
    proof (intro conjI total)
      show "\<forall>m \<in> set ms \<union> set rest. regular ?M m" using IH(2) regular by (simp add: run(1))
      show "rest \<noteq> [] \<longrightarrow> length ms = length (d # schedule)" using IH(3) by (simp add: run(1))
    qed
  qed (use Cons.prems d in auto)
qed simp

text \<open>Without losses there is one message at a time, and each delivery counts one retry more.\<close>

lemma deliveries_chain:
  assumes "celery_retries (tp_retry tp)" "regular (set_import_max_attempts (tp_settings tp)) m"
    and "\<forall>d \<in> set schedule. \<not> worker_lost (snd d)" "deliveries tp import_id schedule [m] w = ((ms, rest), w')"
  shows "map tm_retries ms = [tm_retries m..<tm_retries m + length ms]"
  using assms(2-4)
proof (induction schedule arbitrary: m w ms)
  case (Cons d schedule)
  obtain k where d: "d = (k, Acknowledged)" using Cons.prems(2) by (cases d) (simp add: worker_lost_def)
  obtain outcome w1 where run: "process_import_task tp (tm_retries m) import_id w = (outcome, w1)" by fastforce
  note retry = retried_allowance [OF assms(1) run Cons.prems(1)]
  obtain ms' rest' w2 where later: "deliveries tp import_id schedule (retried outcome m) w1 = ((ms', rest'), w2)"
    by (metis prod.collapse)
  then have ms: "ms = m # ms'" using Cons.prems(3) by (auto simp: d deliver_def run)
  show ?case
  proof (cases "retried outcome m")
    case Nil
    then have "ms' = []" using later by (cases schedule) auto
    then show ?thesis by (simp add: ms)
  next
    case (Cons m' tail)
    then have tail: "retried outcome m = [m']" by (auto simp: retried_def split: task_outcome.splits)
    have m': "regular (set_import_max_attempts (tp_settings tp)) m'" "tm_retries m' = Suc (tm_retries m)"
      using retry unfolding tail by simp_all
    have none: "\<forall>d \<in> set schedule. \<not> worker_lost (snd d)" using Cons.prems(2) by simp
    have "deliveries tp import_id schedule [m'] w1 = ((ms', rest'), w2)" using later unfolding tail .
    moreover have "rest' = rest" "w2 = w'" using Cons.prems(3) later by (auto simp: d deliver_def run)
    ultimately have "map tm_retries ms' = [tm_retries m'..<tm_retries m' + length ms']"
      by (intro Cons.IH [OF m'(1) none, of w1]) simp
    then show ?thesis by (simp add: ms m'(2) upt_conv_Cons del: upt_Suc)
  qed
qed simp

text \<open>
  C34. The deliveries of an import task, under any schedule of losses. When workers are lost \<open>n\<close> times,
  there are at most \<^verbatim>\<open>import_max_attempts * (n + 1)\<close> deliveries, whatever the runs meet: a lost
  delivery comes again without counting as a retry, and may leave a retry behind as well. After that
  many no message is left. Every delivery is for fewer retries than there are attempts, after a
  delay of 1, 2, 4, ... seconds; without losses their retries are 0, 1, 2, ..., so that there are at
  most \<^verbatim>\<open>import_max_attempts\<close>. No bound holds for all schedules: the settings redeliver lost work.
\<close>

theorem import_task_deliveries_end:
  assumes "celery_retries (tp_retry tp)" "settings_accepted (tp_settings tp)"
    and "M = nat (set_import_max_attempts (tp_settings tp))" "n = length (filter (worker_lost \<circ> snd) schedule)"
    and "deliveries tp import_id schedule [\<lparr>tm_retries = 0, tm_countdown = 0\<rparr>] w = ((ms, rest), w')"
  shows "length ms \<le> M * (n + 1) \<and> (M * (n + 1) \<le> length schedule \<longrightarrow> rest = []) \<and>
    (\<forall>m \<in> set ms. tm_retries m < M \<and> tm_countdown m = (if tm_retries m = 0 then 0 else 2 ^ (tm_retries m - 1))) \<and>
    (n = 0 \<longrightarrow> map tm_retries ms = [0..<length ms])"
proof -
  let ?M = "set_import_max_attempts (tp_settings tp)" and ?m = "\<lparr>tm_retries = 0, tm_countdown = 0\<rparr>"
  have pos: "0 < ?M" using assms(2) by (simp add: settings_accepted_def validators_ok positive_fields_def)
  then have m: "\<forall>m \<in> set [?m]. regular ?M m" by (simp add: regular_def)
  note all = deliveries_allowance [OF assms(1) m assms(5), folded assms(3,4)]
  have some: "0 < allowance ?M rest" if "rest \<noteq> []"
    using that all by (cases rest) (auto simp: regular_def)
  have bound: "length ms + allowance ?M rest \<le> M * (n + 1)" using all by (simp add: assms(3))
  have "rest = []" if "M * (n + 1) \<le> length schedule"
    using that bound some all by fastforce
  moreover have "map tm_retries ms = [0..<length ms]" if "n = 0"
  proof -
    have "\<forall>d \<in> set schedule. \<not> worker_lost (snd d)" using that assms(4) by (auto simp: filter_empty_conv)
    from deliveries_chain [OF assms(1) _ this assms(5)] m show ?thesis by simp
  qed
  moreover have "\<forall>m \<in> set ms. tm_retries m < M \<and> tm_countdown m = (if tm_retries m = 0 then 0 else 2 ^ (tm_retries m - 1))"
    using all by (auto simp: regular_def assms(3) zless_nat_eq_int_zless)
  ultimately show ?thesis using bound by simp
qed

text \<open>Losses without end: every delivery is lost and the message comes again, as often as one likes.\<close>

lemma lost_deliveries_unbounded:
  assumes "set_celery_task_acks_late (tp_settings tp)" "set_celery_task_reject_on_worker_lost (tp_settings tp)"
  shows "deliveries tp import_id (replicate k (0, Lost_Running False id)) [m] w = ((replicate k m, [m]), w)"
  by (induction k) (simp_all add: deliver_def redelivered_def assms)

definition documented_retry :: retry_call where
  "documented_retry retries exc countdown max_retries =
     (if int retries < max_retries then Task_Retry countdown else Task_Failed exc)"

definition sheet_task :: task_process where
  "sheet_task = \<lparr>tp_settings = default_settings, tp_load = wk_load sheet_worker, tp_adapters = sheet_adapters,
     tp_hostname = None, tp_retry = documented_retry\<rparr>"

theorem import_task_deliveries_end_witness:
  "\<exists>ms rest w'. deliveries sheet_task (uuid_str 1) [(0, Lost_Running False id), (0, Lost_Unacknowledged False)]
      [\<lparr>tm_retries = 0, tm_countdown = 0\<rparr>] example_run = ((ms, rest), w') \<and> length ms \<le> 9 \<and> (\<forall>m \<in> set ms. tm_retries m < 3)"
proof -
  obtain ms rest w' where run: "deliveries sheet_task (uuid_str 1) [(0, Lost_Running False id), (0, Lost_Unacknowledged False)]
      [\<lparr>tm_retries = 0, tm_countdown = 0\<rparr>] example_run = ((ms, rest), w')"
    by (metis prod.collapse)
  have "celery_retries (tp_retry sheet_task)" "settings_accepted (tp_settings sheet_task)"
    "3 = nat (set_import_max_attempts (tp_settings sheet_task))"
    by (simp_all add: sheet_task_def celery_retries_def documented_retry_def default_settings_accepted) (simp add: default_settings_def)
  from import_task_deliveries_end [OF this _ run, of 2] run show ?thesis by (auto simp: worker_lost_def)
qed

section \<open>A claim whose COMMIT fails\<close>

definition commit_fails :: "event list" where
  "commit_fails = [quiet, quiet, quiet\<lparr>ev_fault := Some OperationalError\<rparr>]"

lemma update_none:
  assumes "filter p (db_jobs db) = []"
  shows "update_jobs p f now db = Inr (0, db)"
proof -
  have "sql_update p g (db_jobs db) = db_jobs db" for g
    using assms unfolding sql_update_def filter_empty_conv by (intro map_idI) simp
  then show ?thesis using assms by (simp add: update_jobs_def Let_def List.map_filter_def sql_count_def)
qed

lemma claim_commit_fails:
  fixes w :: import_run
  assumes "script w = commit_fails" "distinct (map job_id (db_jobs (committed w)))" "j \<in> set (db_jobs (committed w))"
    and "claimable i j" "job_constraints j = None" "length (wk_worker_id wk) \<le> 255"
  shows "\<exists>w'. claim_step wk i t w = (Inl (SqlError OperationalError), w') \<and> script w' = [] \<and>
    lv_claimed w' = Some (claim_of t j) \<and> committed w' = committed w"
proof -
  let ?db = "committed w" and ?now = "clock w" and ?wid = "wk_worker_id wk"
  define w0 where "w0 = w\<lparr>working := ?db, tx_time := ?now\<rparr>"
  define w1 where "w1 = w0\<lparr>working := ?db\<lparr>db_jobs := put_job (claimed_job t ?wid ?now j) (db_jobs ?db)\<rparr>,
      script := [quiet\<lparr>ev_fault := Some OperationalError\<rparr>], lv_claimed := Some (claim_of t j)\<rparr>"
  have claim: "claim_pending_import i t ?wid w0 = (Inr (Some (claim_of t j)),
      w0\<lparr>working := ?db\<lparr>db_jobs := put_job (claimed_job t ?wid ?now j) (db_jobs ?db)\<rparr>,
        script := [quiet\<lparr>ev_fault := Some OperationalError\<rparr>]\<rparr>)"
    using claim_pending_run [of w0 j i ?wid t] assms by (simp add: w0_def next_event_def commit_fails_def)
  have "commit w1 = (Inl (SqlError OperationalError), w1\<lparr>working := ?db, script := [], advisory := []\<rparr>)"
    by (cases w) (simp add: commit_def rollback_def next_event_def w1_def w0_def advance_def quiet_def)
  moreover have "bindE begin_tx (\<lambda>_. bindE (claim_pending_import i t ?wid) (\<lambda>claimed. modify (lv_claimed_update (\<lambda>_. claimed)))) w =
      (Inr (), w1)"
    using claim by (simp add: bindE_def begin_tx_def w0_def [symmetric] modify_def w1_def)
  ultimately show ?thesis
    by (simp add: claim_step_def with_tx_def bindE_def) (simp add: w1_def w0_def)
qed

text \<open>
  C33. An import can be left behind: when the COMMIT of the claim fails with an OperationalError
  that undid it, and attempts are left, the task succeeds, so Celery acknowledges it and there
  is no retry, although the job is PENDING as before and nothing about the database has changed.
  The requeueing of the handler looks for a PROCESSING row of this worker and finds none.
\<close>

theorem failed_claim_commit_strands:
  assumes "db_ok (committed w)" "jobs_stored (committed w)" "script w = commit_fails"
    and "j \<in> set (db_jobs (committed w))" "claimable i j" "job_attempt_count j + 1 < job_max_attempts j"
    and "case tp_hostname tp of None \<Rightarrow> True | Some h \<Rightarrow> length h \<le> 255" "i < 2 ^ 128"
  shows "\<exists>w'. process_import_task tp retries (uuid_str i) w = (Task_Succeeded, w') \<and> committed w' = committed w"
proof -
  let ?wk = "task_worker (tp_settings tp) (tp_load tp) (tp_adapters tp) (tp_hostname tp)" and ?t = "uuid_source w (draws w)"
  define w1 where "w1 = (new_locals w)\<lparr>draws := Suc (draws w)\<rparr>"
  have w1: "script w1 = commit_fails" "committed w1 = committed w" using assms(3) by (simp_all add: w1_def new_locals_def)
  have ids: "distinct (map job_id (db_jobs (committed w)))" and stored: "job_constraints j = None"
    using assms(1,2,4) by (simp_all add: db_ok_def jobs_ok_def jobs_stored_def)
  have worker: "length (wk_worker_id ?wk) \<le> 255"
    using assms(7) by (auto simp: task_worker_def str_or_def split: option.splits)
  have "\<exists>w'. claim_step ?wk i ?t w1 = (Inl (SqlError OperationalError), w') \<and> script w' = [] \<and>
      lv_claimed w' = Some (claim_of ?t j) \<and> committed w' = committed w1"
    by (rule claim_commit_fails) (use w1 ids stored worker assms(4,5) in simp_all)
  then obtain w2 where claim: "claim_step ?wk i ?t w1 = (Inl (SqlError OperationalError), w2)" "script w2 = []"
    "lv_claimed w2 = Some (claim_of ?t j)" "committed w2 = committed w" unfolding w1 by blast
  have "\<not> job_owned (job_id j) ?t k" if "k \<in> set (db_jobs (committed w))" for k
    using distinct_key_eq [OF ids that assms(4)] assms(5) by (auto simp: job_owned_def claimable_def)
  then have none: "filter (job_owned (job_id j) ?t) (db_jobs (committed w)) = []" by (simp add: filter_empty_conv)
  define w3 where "w3 = w2\<lparr>working := committed w2, tx_time := clock w2\<rparr>"
  have "update_jobs (job_owned (job_id j) ?t) f now (committed w) = Inr (0, committed w)" for f now
    by (rule update_none [OF none])
  then have "requeue_for_retry (job_id j) ?t reason w3 = (Inr False, w3\<lparr>working := committed w\<rparr>)" for reason
    using claim(2,4) by (simp add: requeue_for_retry_def update_current_processing_import_def bindE_def statement_quiet w3_def ret_def)
  moreover have "w3\<lparr>working := committed w\<rparr> = w3" using claim(4) by (cases w2) (simp add: w3_def)
  ultimately have requeue: "requeue_for_retry (job_id j) ?t reason w3 = (Inr False, w3)" for reason by simp
  define w4 where "w4 = w3\<lparr>committed := working w3, advisory := []\<rparr>"
  have "with_tx (requeue_for_retry (job_id j) ?t reason) w2 = (Inr False, w4)" for reason
    unfolding w4_def
  proof (rule with_tx_quiet)
    show "requeue_for_retry (job_id j) ?t reason (w2\<lparr>working := committed w2, tx_time := clock w2\<rparr>) = (Inr False, w3)"
      using requeue unfolding w3_def .
  qed (simp add: w3_def claim(2))
  then have "handle_operational_failure (claim_of ?t j) w2 = (Inr (), w4)"
    using assms(6) by (simp add: handle_operational_failure_def claim_of_def bindE_def ret_def)
  then have "run_handler (SqlError OperationalError) w2 = (Inr (), w4)"
    using claim(3) by (simp add: run_handler_def gets_run)
  moreover have "uuid4 (new_locals w) = (Inr ?t, w1)" by (simp add: uuid4_def w1_def new_locals_def)
  ultimately have "process_import_run ?wk i w = (Inr (), w4)"
    using claim(1) by (simp add: process_import_run_def modify_run try_except_def bindE_raise)
  then show ?thesis
    using uuid_of_str_str [OF assms(8)] claim(4) by (simp add: process_import_task_def w4_def w3_def)
qed

definition unclaimed_run :: import_run where
  "unclaimed_run = sheet_run\<lparr>script := commit_fails\<rparr>"

theorem failed_claim_commit_strands_witness:
  "\<exists>w'. process_import_task sheet_task 0 (uuid_str 1) unclaimed_run = (Task_Succeeded, w') \<and> committed w' = example_db"
proof -
  have "committed unclaimed_run = example_db" "script unclaimed_run = commit_fails"
    by (simp_all add: unclaimed_run_def sheet_run_def example_run_def)
  moreover have "jobs_stored example_db" unfolding jobs_stored_def by code_simp
  moreover have "claimable 1 example_job" "job_attempt_count example_job + 1 < job_max_attempts example_job" by code_simp+
  moreover have "example_job \<in> set (db_jobs example_db)" by (simp add: example_db_def)
  ultimately show ?thesis
    using failed_claim_commit_strands [of unclaimed_run example_job 1 sheet_task 0] example_db_ok
    by (simp add: sheet_task_def)
qed

end
