(* ===== verification/Storage.thy ===== *)
theory Storage
  imports Create_Import Py_Times "HOL-Library.Word"
begin

text \<open>
  The storage of uploads: LocalFileStorage (app/storage/local_file_storage.py) on a file system
  that can fail. The state of a request extends the session's with the files, the bytes of the
  upload that are still to be read, and the faults of the coming input/output operations: an
  operation that fails raises its exception and has no effect.
\<close>

type_synonym byte = "8 word"

record request_state = world +
  rs_files :: "(string \<times> byte list) list"
  rs_upload :: "byte list"
  rs_faults :: "exn option list"

definition io :: "(request_state \<Rightarrow> (exn + 'a) \<times> request_state) \<Rightarrow> (request_state, 'a) action" where
  "io f w = (case rs_faults w of
     Some e # es \<Rightarrow> (Inl e, w\<lparr>rs_faults := es\<rparr>)
   | es \<Rightarrow> f (w\<lparr>rs_faults := tl es\<rparr>))"

text \<open>Files by path: the association list of the directory, one entry per path.\<close>

definition put_file :: "string \<Rightarrow> byte list \<Rightarrow> (string \<times> byte list) list \<Rightarrow> (string \<times> byte list) list" where
  "put_file path content files = (path, content) # filter (\<lambda>(p, c). p \<noteq> path) files"

definition drop_file :: "string \<Rightarrow> (string \<times> byte list) list \<Rightarrow> (string \<times> byte list) list" where
  "drop_file path files = filter (\<lambda>(p, c). p \<noteq> path) files"

section \<open>Paths\<close>

text \<open>\<^verbatim>\<open>Path(p).name\<close>: the last component that is neither empty nor a single dot.\<close>

definition path_name :: "string \<Rightarrow> string" where
  "path_name p =
     (case rev (filter (\<lambda>part. part \<noteq> [] \<and> part \<noteq> ''.'') (py_split (CHR ''/'') p)) of
        [] \<Rightarrow> [] | part # _ \<Rightarrow> part)"

text \<open>\<^verbatim>\<open>Path(name).suffix\<close>: from the last dot, unless it is the first or the last character.\<close>

definition path_suffix :: "string \<Rightarrow> string" where
  "path_suffix name =
     (let stem = dropWhile (\<lambda>c. c \<noteq> CHR ''.'') (rev name);
          ext = takeWhile (\<lambda>c. c \<noteq> CHR ''.'') (rev name)
      in if length stem > 1 \<and> ext \<noteq> [] then CHR ''.'' # rev ext else [])"

section \<open>The storage\<close>

record local_file_storage =
  fs_upload_dir :: string
  fs_chunk_size_bytes :: int
  fs_max_size_bytes :: int
  fs_sha256 :: "byte list \<Rightarrow> string"

record stored_file =
  sf_original_file_name :: string
  sf_stored_file_path :: string
  sf_file_size_bytes :: int
  sf_sha256_hex :: string

definition make_dirs :: "string \<Rightarrow> (request_state, unit) action" where
  "make_dirs path = io (\<lambda>w. (Inr (), w))"

definition open_for_write :: "string \<Rightarrow> (request_state, unit) action" where
  "open_for_write path = io (\<lambda>w. (Inr (), w\<lparr>rs_files := put_file path [] (rs_files w)\<rparr>))"

definition append_file :: "string \<Rightarrow> byte list \<Rightarrow> (request_state, unit) action" where
  "append_file path chunk = io (\<lambda>w. case map_of (rs_files w) path of
     None \<Rightarrow> (Inl FileNotFoundError, w)
   | Some content \<Rightarrow> (Inr (), w\<lparr>rs_files := put_file path (content @ chunk) (rs_files w)\<rparr>))"

definition replace_file :: "string \<Rightarrow> string \<Rightarrow> (request_state, unit) action" where
  "replace_file source dest = io (\<lambda>w. case map_of (rs_files w) source of
     None \<Rightarrow> (Inl FileNotFoundError, w)
   | Some content \<Rightarrow> (Inr (), w\<lparr>rs_files := put_file dest content (drop_file source (rs_files w))\<rparr>))"

definition remove_file :: "string \<Rightarrow> (request_state, unit) action" where
  "remove_file path = io (\<lambda>w. case map_of (rs_files w) path of
     None \<Rightarrow> (Inl FileNotFoundError, w)
   | Some content \<Rightarrow> (Inr (), w\<lparr>rs_files := drop_file path (rs_files w)\<rparr>))"

text \<open>\<^verbatim>\<open>reader(n)\<close>: at most \<open>n\<close> bytes, all that is left for a negative \<open>n\<close>.\<close>

definition read_upload :: "int \<Rightarrow> (request_state, byte list) action" where
  "read_upload n = io (\<lambda>w.
     let k = (if n < 0 then length (rs_upload w) else nat n)
     in (Inr (take k (rs_upload w)), w\<lparr>rs_upload := drop k (rs_upload w)\<rparr>))"

definition delete_if_exists :: "string \<Rightarrow> (request_state, unit) action" where
  "delete_if_exists path = try_except (remove_file path)
     (\<lambda>e. if e = FileNotFoundError then ret () else throw e)"

definition too_large :: exn where
  "too_large = UploadTooLargeError ''Uploaded file exceeds the maximum allowed size.''"

lemma io_upload:
  "(\<And>w. rs_upload (snd (f w)) = rs_upload w) \<Longrightarrow> rs_upload (snd (io f w)) = rs_upload w"
  by (simp add: io_def split: list.split option.split)

lemma append_file_upload: "rs_upload (snd (append_file path chunk w)) = rs_upload w"
  unfolding append_file_def by (rule io_upload) (simp split: option.split)

lemma read_upload_decreases:
  "read_upload n w = (Inr chunk, w') \<Longrightarrow> chunk \<noteq> [] \<Longrightarrow> length (rs_upload w') < length (rs_upload w)"
  by (auto simp: read_upload_def io_def Let_def split: list.splits option.splits if_splits)

text \<open>The loop: what was read is digested and written; the result is the size and the bytes digested.\<close>

function save_chunks ::
  "local_file_storage \<Rightarrow> string \<Rightarrow> int \<Rightarrow> byte list \<Rightarrow> request_state \<Rightarrow> (exn + int \<times> byte list) \<times> request_state"
  where
  "save_chunks st path total_size digested w =
     (case read_upload (fs_chunk_size_bytes st) w of
        (Inl e, w1) \<Rightarrow> (Inl e, w1)
      | (Inr chunk, w1) \<Rightarrow>
          if chunk = [] then (Inr (total_size, digested), w1)
          else if total_size + int (length chunk) > fs_max_size_bytes st then (Inl too_large, w1)
          else (case append_file path chunk w1 of
                  (Inl e, w2) \<Rightarrow> (Inl e, w2)
                | (Inr _, w2) \<Rightarrow>
                    save_chunks st path (total_size + int (length chunk)) (digested @ chunk) w2))"
  by pat_completeness auto
termination
proof (relation "measure (\<lambda>(st, path, total_size, digested, w). length (rs_upload w))", goal_cases)
  case (2 st path total_size digested w r w1 chunk r2 w2)
  then have "rs_upload w2 = rs_upload w1" using append_file_upload by (metis snd_conv)
  with 2 show ?case using read_upload_decreases [of "fs_chunk_size_bytes st" w chunk w1] by simp
qed simp

declare save_chunks.simps [simp del]

definition write_upload :: "local_file_storage \<Rightarrow> string \<Rightarrow> string \<Rightarrow> (request_state, int \<times> byte list) action" where
  "write_upload st temp_path final_path =
     bindE (open_for_write temp_path) (\<lambda>_. bindE (save_chunks st temp_path 0 []) (\<lambda>saved.
       bindE (replace_file temp_path final_path) (\<lambda>_. ret saved)))"

definition save_upload :: "local_file_storage \<Rightarrow> string \<Rightarrow> (request_state, stored_file) action" where
  "save_upload st original_file_name =
     bindE (make_dirs (fs_upload_dir st)) (\<lambda>_.
     let original_file_name = path_name original_file_name;
         suffix = py_lower (path_suffix original_file_name)
     in bindE uuid4 (\<lambda>token.
        let temp_path = fs_upload_dir st @ ''/'' @ uuid_hex token @ ''.tmp'';
            final_path = fs_upload_dir st @ ''/'' @ uuid_hex token @ suffix
        in bindE (try_except (write_upload st temp_path final_path)
             (\<lambda>e. bindE (delete_if_exists temp_path) (\<lambda>_.
                  bindE (delete_if_exists final_path) (\<lambda>_. throw e))))
           (\<lambda>saved. case saved of (total_size, digested) \<Rightarrow>
              ret \<lparr>sf_original_file_name = original_file_name, sf_stored_file_path = final_path,
                sf_file_size_bytes = total_size, sf_sha256_hex = fs_sha256 st digested\<rparr>)))"

section \<open>What is stored\<close>

lemma put_put [simp]: "put_file p c (put_file p c' fs) = put_file p c fs"
  by (simp add: put_file_def)

lemma drop_put [simp]: "drop_file p (put_file p c fs) = drop_file p fs"
  by (simp add: put_file_def drop_file_def)

lemma map_of_put [simp]: "map_of (put_file p c fs) p = Some c"
  by (simp add: put_file_def)

lemma map_of_drop: "map_of (drop_file p fs) q = (if q = p then None else map_of fs q)"
  by (induction fs) (auto simp: drop_file_def)

lemma map_of_put_other: "q \<noteq> p \<Longrightarrow> map_of (put_file p c fs) q = map_of fs q"
  by (simp add: put_file_def map_of_drop [unfolded drop_file_def])

lemma append_file_run:
  "append_file p chunk w = (Inr u, w') \<Longrightarrow> rs_files w = put_file p c fs \<Longrightarrow> rs_files w' = put_file p (c @ chunk) fs"
  by (auto simp: append_file_def io_def split: list.splits option.splits)

lemma read_upload_run:
  "read_upload n w = (Inr chunk, w') \<Longrightarrow> chunk @ rs_upload w' = rs_upload w \<and> rs_files w' = rs_files w"
  by (auto simp: read_upload_def io_def Let_def split: list.splits option.splits)

lemma read_upload_Nil:
  "read_upload n w = (Inr [], w') \<Longrightarrow> 0 < n \<Longrightarrow> rs_upload w = []"
  by (auto simp: read_upload_def io_def Let_def split: list.splits option.splits if_splits)

lemma io_files:
  "io f w = (Inl e, w') \<Longrightarrow> (\<And>w e w'. f w = (Inl e, w') \<Longrightarrow> rs_files w' = rs_files w) \<Longrightarrow> rs_files w' = rs_files w"
  by (auto simp: io_def split: list.splits option.splits)

lemma failed_io_files:
  "read_upload n w = (Inl e, w') \<Longrightarrow> rs_files w' = rs_files w"
  "append_file p chunk w = (Inl e, w') \<Longrightarrow> rs_files w' = rs_files w"
  unfolding read_upload_def append_file_def
  by (erule io_files; auto simp: Let_def split: option.splits)+

lemma save_chunks_stored:
  assumes "save_chunks st path total_size digested w = (Inr (size', content), w')" "0 < fs_chunk_size_bytes st"
    and "rs_files w = put_file path digested fs" "total_size = int (length digested)" "total_size \<le> fs_max_size_bytes st"
  shows "content = digested @ rs_upload w \<and> size' = int (length content) \<and> size' \<le> fs_max_size_bytes st \<and>
    rs_files w' = put_file path content fs"
  using assms
proof (induction st path total_size digested w arbitrary: rule: save_chunks.induct)
  case (1 st path total_size digested w)
  obtain r1 w1 where read: "read_upload (fs_chunk_size_bytes st) w = (r1, w1)" by fastforce
  note run = 1(2) [unfolded save_chunks.simps [of st path total_size] read prod.case]
  obtain chunk where r1: "r1 = Inr chunk" using run by (cases r1) auto
  have w1: "chunk @ rs_upload w1 = rs_upload w" "rs_files w1 = rs_files w"
    using read_upload_run read r1 by simp_all
  show ?case
  proof (cases "chunk = []")
    case True
    then have "rs_upload w = []" using read_upload_Nil read r1 1(3) by blast
    with run True r1 w1 1(4-6) show ?thesis by auto
  next
    case False
    then have small: "\<not> total_size + int (length chunk) > fs_max_size_bytes st" using run r1 by (auto split: if_splits)
    obtain r2 w2 where app: "append_file path chunk w1 = (r2, w2)" by fastforce
    then obtain u where r2: "r2 = Inr u" using run False r1 small by (cases r2) auto
    have rest: "save_chunks st path (total_size + int (length chunk)) (digested @ chunk) w2 = (Inr (size', content), w')"
      using run False r1 small app r2 by simp
    have files: "rs_files w2 = put_file path (digested @ chunk) fs"
      using append_file_run app r2 w1(2) 1(4) by metis
    have up: "rs_upload w2 = rs_upload w1" using append_file_upload [of path chunk w1] app by simp
    have "content = (digested @ chunk) @ rs_upload w2 \<and> size' = int (length content) \<and> size' \<le> fs_max_size_bytes st \<and>
        rs_files w' = put_file path content fs"
      by (rule 1(1) [OF read [symmetric] r1 False small app [symmetric] r2 rest 1(3) files])
        (use 1(5) small in auto)
    moreover have "(digested @ chunk) @ rs_upload w2 = digested @ rs_upload w"
      using up w1(1) by (metis append_assoc)
    ultimately show ?thesis by metis
  qed
qed

text \<open>No operation fails any more, and: at most one does, with \<open>e\<close>.\<close>

definition calm :: "request_state \<Rightarrow> bool" where
  "calm w \<longleftrightarrow> set (rs_faults w) \<subseteq> {None}"

fun single_fault :: "exn \<Rightarrow> exn option list \<Rightarrow> bool" where
  "single_fault e [] = True"
| "single_fault e (None # fs) = single_fault e fs"
| "single_fault e (Some e' # fs) = (e' = e \<and> set fs \<subseteq> {None})"

lemma single_fault_calm: "set fs \<subseteq> {None} \<Longrightarrow> single_fault e fs"
  by (induction fs) auto

lemma io_cases:
  assumes "io f w = (r, w')" "single_fault e (rs_faults w)"
  obtains (fault) "r = Inl e" "\<not> calm w" "calm w'" "rs_files w' = rs_files w" "rs_upload w' = rs_upload w"
  | (ran) w0 where "f w0 = (r, w')" "w0 = w\<lparr>rs_faults := tl (rs_faults w)\<rparr>" "single_fault e (rs_faults w0)"
      "calm w \<Longrightarrow> calm w0"
proof (cases "rs_faults w")
  case Nil
  show thesis
    by (rule ran [of "w\<lparr>rs_faults := tl (rs_faults w)\<rparr>"]) (use Nil assms in \<open>simp_all add: io_def calm_def\<close>)
next
  case (Cons x fs)
  show thesis
  proof (cases x)
    case None
    show thesis
      by (rule ran [of "w\<lparr>rs_faults := tl (rs_faults w)\<rparr>"])
        (use Cons None assms in \<open>simp_all add: io_def calm_def\<close>)
  next
    case (Some e')
    have "r = Inl e'" "w' = w\<lparr>rs_faults := fs\<rparr>" using assms(1) Cons Some by (simp_all add: io_def)
    then show thesis
      by (intro fault) (use Cons Some assms(2) in \<open>simp_all add: calm_def\<close>)
  qed
qed

text \<open>How an operation ends when at most one does: with that exception, or well.\<close>

definition ends_well :: "exn \<Rightarrow> request_state \<Rightarrow> exn + 'a \<Rightarrow> request_state \<Rightarrow> bool" where
  "ends_well e w r w' \<longleftrightarrow> (case r of
     Inl e' \<Rightarrow> e' = e \<and> \<not> calm w \<and> calm w'
   | Inr _ \<Rightarrow> single_fault e (rs_faults w') \<and> (calm w \<longrightarrow> calm w'))"

lemma ends_well_io:
  assumes "io f w = (r, w')" "single_fault e (rs_faults w)"
    and "\<And>w0. f w0 = (r, w') \<Longrightarrow> rs_files w0 = rs_files w \<Longrightarrow> rs_faults w' = rs_faults w0 \<and> (\<exists>x. r = Inr x)"
  shows "ends_well e w r w'"
proof (cases rule: io_cases [OF assms(1,2)])
  case 1
  then show ?thesis by (simp add: ends_well_def)
next
  case (2 w0)
  then show ?thesis using assms(3) [of w0] by (auto simp: ends_well_def calm_def)
qed

lemma ends_well_read: "read_upload n w = (r, w') \<Longrightarrow> single_fault e (rs_faults w) \<Longrightarrow> ends_well e w r w'"
  unfolding read_upload_def by (erule (1) ends_well_io) (auto simp: Let_def)

lemma ends_well_append:
  "append_file p chunk w = (r, w') \<Longrightarrow> single_fault e (rs_faults w) \<Longrightarrow> rs_files w = put_file p c fs \<Longrightarrow> ends_well e w r w'"
  unfolding append_file_def by (erule (1) ends_well_io) auto

lemma ends_well_open: "open_for_write p w = (r, w') \<Longrightarrow> single_fault e (rs_faults w) \<Longrightarrow> ends_well e w r w'"
  unfolding open_for_write_def by (erule (1) ends_well_io) auto

lemma ends_well_make: "make_dirs p w = (r, w') \<Longrightarrow> single_fault e (rs_faults w) \<Longrightarrow> ends_well e w r w'"
  unfolding make_dirs_def by (erule (1) ends_well_io) auto

lemma ends_well_replace:
  "replace_file p q w = (r, w') \<Longrightarrow> single_fault e (rs_faults w) \<Longrightarrow> rs_files w = put_file p c fs \<Longrightarrow> ends_well e w r w'"
  unfolding replace_file_def by (erule (1) ends_well_io) auto

lemma save_chunks_ends:
  assumes "save_chunks st path total_size digested w = (r, w')" "0 < fs_chunk_size_bytes st"
    and "single_fault e (rs_faults w)" "rs_files w = put_file path digested fs"
  shows "ends_well e w r w' \<or>
    r = Inl too_large \<and> fs_max_size_bytes st < total_size + int (length (rs_upload w)) \<and> (calm w \<longrightarrow> calm w')"
  using assms
proof (induction st path total_size digested w rule: save_chunks.induct)
  case (1 st path total_size digested w)
  obtain r1 w1 where read: "read_upload (fs_chunk_size_bytes st) w = (r1, w1)" by fastforce
  note run = 1(2) [unfolded save_chunks.simps [of st path total_size] read prod.case]
  have e1: "ends_well e w r1 w1" using ends_well_read [OF read 1(4)] .
  show ?case
  proof (cases r1)
    case (Inl e1)
    then show ?thesis using run e1 by (auto simp: ends_well_def)
  next
    case (Inr chunk)
    have w1: "chunk @ rs_upload w1 = rs_upload w" "rs_files w1 = rs_files w"
      using read_upload_run read Inr by simp_all
    then have len: "length (rs_upload w) = length chunk + length (rs_upload w1)" by (metis length_append)
    have s1: "single_fault e (rs_faults w1)" "calm w \<longrightarrow> calm w1" using e1 Inr by (simp_all add: ends_well_def)
    consider "chunk = []" | "chunk \<noteq> []" "total_size + int (length chunk) > fs_max_size_bytes st"
      | "chunk \<noteq> []" "\<not> total_size + int (length chunk) > fs_max_size_bytes st" by blast
    then show ?thesis
    proof cases
      case 1
      then show ?thesis using run Inr s1 by (auto simp: ends_well_def)
    next
      case 2
      then show ?thesis using run Inr s1 len by auto
    next
      case 3
      obtain r2 w2 where app: "append_file path chunk w1 = (r2, w2)" by fastforce
      have e2: "ends_well e w1 r2 w2" using ends_well_append [OF app s1(1)] w1(2) 1(5) by metis
      show ?thesis
      proof (cases r2)
        case (Inl e2)
        then show ?thesis using run Inr 3 app e2 s1 by (auto simp: ends_well_def)
      next
        case r2: (Inr u)
        have files: "rs_files w2 = put_file path (digested @ chunk) fs"
          using append_file_run app r2 w1(2) 1(5) by metis
        have up: "rs_upload w2 = rs_upload w1" using append_file_upload [of path chunk w1] app by simp
        have s2: "single_fault e (rs_faults w2)" "calm w1 \<longrightarrow> calm w2" using e2 r2 by (simp_all add: ends_well_def)
        have "save_chunks st path (total_size + int (length chunk)) (digested @ chunk) w2 = (r, w')"
          using run 3 Inr app r2 by simp
        from 1(1) [OF read [symmetric] Inr 3 app [symmetric] r2 this 1(3) s2(1) files]
        show ?thesis using s1 s2 len up by (auto simp: ends_well_def split: sum.splits)
      qed
    qed
  qed
qed

lemma save_chunks_failed:
  assumes "save_chunks st path total_size digested w = (Inl e, w')" "rs_files w = put_file path digested fs"
  shows "\<exists>c. rs_files w' = put_file path c fs"
  using assms
proof (induction st path total_size digested w rule: save_chunks.induct)
  case (1 st path total_size digested w)
  obtain r1 w1 where read: "read_upload (fs_chunk_size_bytes st) w = (r1, w1)" by fastforce
  note run = 1(2) [unfolded save_chunks.simps [of st path total_size] read prod.case]
  show ?case
  proof (cases r1)
    case (Inl e1)
    then show ?thesis using run read failed_io_files(1) 1(3) by auto
  next
    case (Inr chunk)
    have w1: "rs_files w1 = rs_files w" using read_upload_run read Inr by simp
    show ?thesis
    proof (cases "chunk = [] \<or> total_size + int (length chunk) > fs_max_size_bytes st")
      case True
      then show ?thesis using run Inr w1 1(3) by (auto split: if_splits)
    next
      case False
      obtain r2 w2 where app: "append_file path chunk w1 = (r2, w2)" by fastforce
      show ?thesis
      proof (cases r2)
        case (Inl e2)
        then show ?thesis using run Inr False app w1 1(3) failed_io_files(2) by auto
      next
        case r2: (Inr u)
        have "rs_files w2 = put_file path (digested @ chunk) fs"
          using append_file_run app r2 w1 1(3) by metis
        moreover have "save_chunks st path (total_size + int (length chunk)) (digested @ chunk) w2 = (Inl e, w')"
          using run False Inr app r2 by simp
        ultimately show ?thesis using 1(1) [OF read [symmetric] Inr _ _ app [symmetric] r2] False by auto
      qed
    qed
  qed
qed

section \<open>An upload as a whole\<close>

definition temp_path :: "local_file_storage \<Rightarrow> request_state \<Rightarrow> string" where
  "temp_path st w = fs_upload_dir st @ ''/'' @ uuid_hex (uuid_source w (draws w)) @ ''.tmp''"

definition final_path :: "local_file_storage \<Rightarrow> string \<Rightarrow> request_state \<Rightarrow> string" where
  "final_path st name w = fs_upload_dir st @ ''/'' @ uuid_hex (uuid_source w (draws w)) @
     py_lower (path_suffix (path_name name))"

text \<open>The result for the bytes of the upload.\<close>

definition stored_upload :: "local_file_storage \<Rightarrow> string \<Rightarrow> request_state \<Rightarrow> stored_file" where
  "stored_upload st name w = \<lparr>sf_original_file_name = path_name name, sf_stored_file_path = final_path st name w,
     sf_file_size_bytes = int (length (rs_upload w)), sf_sha256_hex = fs_sha256 st (rs_upload w)\<rparr>"

lemma open_for_write_run:
  "open_for_write p w = (Inr u, w') \<Longrightarrow> rs_files w' = put_file p [] (rs_files w) \<and> rs_upload w' = rs_upload w"
  "open_for_write p w = (Inl e, w') \<Longrightarrow> rs_files w' = rs_files w"
  by (auto simp: open_for_write_def io_def split: list.splits option.splits)

lemma replace_file_run:
  "replace_file p q w = (Inr u, w') \<Longrightarrow> rs_files w = put_file p c fs \<Longrightarrow> rs_files w' = put_file q c (drop_file p fs)"
  "replace_file p q w = (Inl e, w') \<Longrightarrow> rs_files w' = rs_files w"
  by (auto simp: replace_file_def io_def split: list.splits option.splits)

text \<open>The files outside \<open>temp\<close> and \<open>final\<close> are those of before.\<close>

definition same_outside :: "string set \<Rightarrow> request_state \<Rightarrow> request_state \<Rightarrow> bool" where
  "same_outside ps w w' \<longleftrightarrow> (\<forall>p. p \<notin> ps \<longrightarrow> map_of (rs_files w') p = map_of (rs_files w) p)"

lemma write_upload_outside:
  assumes "write_upload st temp final w = (r, w')" "0 < fs_chunk_size_bytes st" "0 \<le> fs_max_size_bytes st"
  shows "same_outside {temp, final} w w'"
proof -
  obtain r1 w1 where op: "open_for_write temp w = (r1, w1)" by fastforce
  show ?thesis
  proof (cases r1)
    case (Inl e)
    then show ?thesis using assms(1) op open_for_write_run(2) by (auto simp: write_upload_def bindE_def same_outside_def)
  next
    case (Inr u)
    then have w1: "rs_files w1 = put_file temp [] (rs_files w)" using open_for_write_run(1) op by blast
    obtain r2 w2 where sv: "save_chunks st temp 0 [] w1 = (r2, w2)" by fastforce
    show ?thesis
    proof (cases r2)
      case (Inl e)
      then have "\<exists>c. rs_files w2 = put_file temp c (rs_files w)" using save_chunks_failed sv w1 by metis
      then show ?thesis
        using assms(1) op sv Inr Inl by (auto simp: write_upload_def bindE_def same_outside_def map_of_put_other)
    next
      case r2: (Inr saved)
      obtain size' content where saved: "saved = (size', content)" by fastforce
      have w2: "rs_files w2 = put_file temp content (rs_files w)"
        using save_chunks_stored [OF sv [unfolded r2 saved] assms(2) w1] assms(3) by simp
      obtain r3 w3 where rp: "replace_file temp final w2 = (r3, w3)" by fastforce
      have "w' = w3" using assms(1) op sv rp Inr r2 by (auto simp: write_upload_def bindE_def ret_def split: sum.splits)
      then show ?thesis
        using replace_file_run(1) [OF _ w2] replace_file_run(2) rp w2
        by (cases r3) (fastforce simp: same_outside_def map_of_put_other map_of_drop)+
    qed
  qed
qed

lemma write_upload_ends:
  assumes "write_upload st temp final w = (r, w')" "0 < fs_chunk_size_bytes st" "0 \<le> fs_max_size_bytes st"
    and "single_fault e (rs_faults w)"
  shows "(case r of
      Inl e' \<Rightarrow> ends_well e w r w' \<or> e' = too_large \<and> fs_max_size_bytes st < int (length (rs_upload w)) \<and> (calm w \<longrightarrow> calm w')
    | Inr saved \<Rightarrow> int (length (rs_upload w)) \<le> fs_max_size_bytes st \<and>
        saved = (int (length (rs_upload w)), rs_upload w) \<and> single_fault e (rs_faults w') \<and> (calm w \<longrightarrow> calm w') \<and>
        rs_files w' = put_file final (rs_upload w) (drop_file temp (rs_files w)))"
proof -
  obtain r1 w1 where op: "open_for_write temp w = (r1, w1)" by fastforce
  have e1: "ends_well e w r1 w1" by (rule ends_well_open [OF op assms(4)])
  show ?thesis
  proof (cases r1)
    case (Inl e)
    then show ?thesis using assms(1) op e1 by (auto simp: write_upload_def bindE_def ends_well_def)
  next
    case (Inr u)
    then have w1: "rs_files w1 = put_file temp [] (rs_files w)" "rs_upload w1 = rs_upload w"
      and s1: "single_fault e (rs_faults w1)" "calm w \<longrightarrow> calm w1"
      using open_for_write_run(1) op e1 by (auto simp: ends_well_def)
    obtain r2 w2 where sv: "save_chunks st temp 0 [] w1 = (r2, w2)" by fastforce
    note e2 = save_chunks_ends [OF sv assms(2) s1(1) w1(1)]
    show ?thesis
    proof (cases r2)
      case (Inl e')
      then show ?thesis
        using assms(1) op sv Inr e2 s1 w1 by (auto simp: write_upload_def bindE_def ends_well_def)
    next
      case r2: (Inr saved)
      obtain size' content where saved: "saved = (size', content)" by fastforce
      have w2: "content = rs_upload w" "size' = int (length content)" "size' \<le> fs_max_size_bytes st"
        "rs_files w2 = put_file temp content (rs_files w)"
        using save_chunks_stored [OF sv [unfolded r2 saved] assms(2) w1(1)] assms(3) w1(2) by auto
      have s2: "single_fault e (rs_faults w2)" "calm w1 \<longrightarrow> calm w2" using e2 r2 by (auto simp: ends_well_def)
      obtain r3 w3 where rp: "replace_file temp final w2 = (r3, w3)" by fastforce
      have e3: "ends_well e w2 r3 w3" by (rule ends_well_replace [OF rp s2(1) w2(4)])
      have r: "r = (case r3 of Inl e' \<Rightarrow> Inl e' | Inr _ \<Rightarrow> Inr saved)" "w' = w3"
        using assms(1) op sv rp Inr r2 by (auto simp: write_upload_def bindE_def ret_def split: sum.splits)
      show ?thesis
      proof (cases r3)
        case (Inl e')
        then show ?thesis using r e3 s1 s2 by (auto simp: ends_well_def)
      next
        case r3: (Inr u3)
        have "rs_files w3 = put_file final content (drop_file temp (rs_files w))"
          using replace_file_run(1) [OF rp [unfolded r3] w2(4)] .
        then show ?thesis using r r3 e3 s1 s2 w2 saved by (auto simp: ends_well_def)
      qed
    qed
  qed
qed

lemma drop_missing: "map_of fs p = None \<Longrightarrow> drop_file p fs = fs"
  by (induction fs) (auto simp: drop_file_def split: if_splits)

lemma delete_if_exists_calm:
  assumes "calm w"
  obtains w' where "delete_if_exists p w = (Inr (), w')" "rs_files w' = drop_file p (rs_files w)" "calm w'"
  using assms drop_missing [of "rs_files w" p] that
  by (cases "rs_faults w"; cases "map_of (rs_files w) p")
    (auto simp: delete_if_exists_def try_except_def remove_file_def io_def ret_def calm_def)

lemma delete_outside: "same_outside {p} w (snd (delete_if_exists p w))"
  by (auto simp: delete_if_exists_def try_except_def remove_file_def io_def ret_def throw_def same_outside_def map_of_drop
      split: list.split option.split)

text \<open>The two deletions of the handler.\<close>

definition clean_up :: "string \<Rightarrow> string \<Rightarrow> exn \<Rightarrow> (request_state, 'a) action" where
  "clean_up temp final e = bindE (delete_if_exists temp) (\<lambda>_. bindE (delete_if_exists final) (\<lambda>_. throw e))"

lemma clean_up_calm:
  assumes "calm w"
  obtains w' where "clean_up temp final e w = (Inl e, w')" "calm w'"
    "\<forall>p. map_of (rs_files w') p = (if p \<in> {temp, final} then None else map_of (rs_files w) p)"
proof -
  obtain w1 where w1: "delete_if_exists temp w = (Inr (), w1)" "rs_files w1 = drop_file temp (rs_files w)" "calm w1"
    using delete_if_exists_calm [OF assms] .
  obtain w2 where w2: "delete_if_exists final w1 = (Inr (), w2)" "rs_files w2 = drop_file final (rs_files w1)" "calm w2"
    using delete_if_exists_calm [OF w1(3)] .
  show thesis
    by (rule that [of w2]) (use w1 w2 in \<open>auto simp: clean_up_def bindE_def throw_def map_of_drop\<close>)
qed

lemma same_outside_trans: "same_outside ps w w' \<Longrightarrow> same_outside ps w' w'' \<Longrightarrow> same_outside ps w w''"
  by (simp add: same_outside_def)

lemma same_outside_mono: "same_outside ps w w' \<Longrightarrow> ps \<subseteq> qs \<Longrightarrow> same_outside qs w w'"
  by (auto simp: same_outside_def)

lemma clean_up_outside: "same_outside {temp, final} w (snd ((clean_up temp final e :: (request_state, 'a) action) w))"
proof -
  obtain r1 w1 where d1: "delete_if_exists temp w = (r1, w1)" by fastforce
  have o1: "same_outside {temp, final} w w1"
    using same_outside_mono [OF delete_outside [of temp w]] d1 by fastforce
  have o2: "same_outside {temp, final} w1 (snd (delete_if_exists final w1))"
    using same_outside_mono [OF delete_outside [of final w1]] by fastforce
  have "snd ((clean_up temp final e :: (request_state, 'a) action) w) = (case r1 of Inl _ \<Rightarrow> w1 | Inr _ \<Rightarrow> snd (delete_if_exists final w1))"
    using d1 by (simp add: clean_up_def bindE_def throw_def split: sum.split prod.split)
  then show ?thesis
    using o1 same_outside_trans [OF o1 o2] by (simp split: sum.split)
qed

lemma make_dirs_run:
  "make_dirs d w = (r, w') \<Longrightarrow> rs_files w' = rs_files w \<and> rs_upload w' = rs_upload w \<and> draws w' = draws w \<and>
     uuid_source w' = uuid_source w"
  by (auto simp: make_dirs_def io_def split: list.splits option.splits)

lemma save_upload_run:
  assumes "make_dirs (fs_upload_dir st) w = (Inr u, w1)"
  shows "save_upload st name w =
    (case write_upload st (temp_path st w) (final_path st name w) (w1\<lparr>draws := Suc (draws w1)\<rparr>) of
       (Inl e, w2) \<Rightarrow> clean_up (temp_path st w) (final_path st name w) e w2
     | (Inr saved, w2) \<Rightarrow> (Inr \<lparr>sf_original_file_name = path_name name, sf_stored_file_path = final_path st name w,
         sf_file_size_bytes = fst saved, sf_sha256_hex = fs_sha256 st (snd saved)\<rparr>, w2))"
  using assms make_dirs_run [OF assms]
  by (auto simp: save_upload_def clean_up_def bindE_def throw_def try_except_def ret_def uuid4_def Let_def temp_path_def
      final_path_def split: sum.split prod.split)

lemma save_upload_no_dir:
  "make_dirs (fs_upload_dir st) w = (Inl e, w1) \<Longrightarrow> save_upload st name w = (Inl e, w1)"
  by (simp add: save_upload_def bindE_def)

lemma py_split_parts: "part \<in> set (py_split c s) \<Longrightarrow> c \<notin> set part"
  by (induction c s arbitrary: part rule: py_split.induct) (auto split: if_splits list.splits)

lemma path_name_no_slash: "CHR ''/'' \<notin> set (path_name p)"
proof -
  let ?parts = "filter (\<lambda>part. part \<noteq> [] \<and> part \<noteq> ''.'') (py_split (CHR ''/'') p)"
  have "CHR ''/'' \<notin> set (case rev ps of [] \<Rightarrow> [] | part # _ \<Rightarrow> part)"
    if "\<forall>part \<in> set ps. CHR ''/'' \<notin> set part" for ps
    using that by (cases ps rule: rev_cases) auto
  moreover have "\<forall>part \<in> set ?parts. CHR ''/'' \<notin> set part" using py_split_parts by auto
  ultimately show ?thesis unfolding path_name_def by blast
qed

lemma path_suffix_chars: "CHR ''/'' \<notin> set name \<Longrightarrow> CHR ''/'' \<notin> set (path_suffix name)"
  using set_takeWhileD [of "CHR ''/''" "\<lambda>c. c \<noteq> CHR ''.''" "rev name"] by (auto simp: path_suffix_def Let_def)

lemma lower_punctuation:
  assumes "(of_char k :: nat) < 65"
  shows "lower_char c = k \<longleftrightarrow> c = k"
proof -
  let ?n = "of_char c :: nat"
  have "lower_char c = c" if "lower_char c = k"
  proof (rule ccontr)
    assume "lower_char c \<noteq> c"
    then have n: "65 \<le> ?n \<and> ?n \<le> 90 \<or> 192 \<le> ?n \<and> ?n \<le> 222" "lower_char c = char_of (?n + 32)"
      by (auto simp: lower_char_def Let_def split: if_splits)
    have "(of_char (char_of (?n + 32) :: char) :: nat) = of_char k" using n(2) that by simp
    then have "(?n + 32) mod 256 < 65" using assms by simp
    then show False using n(1) by (elim disjE) simp_all
  qed
  moreover have "lower_char k = k" using assms by (simp add: lower_char_def)
  ultimately show ?thesis by auto
qed

lemma lower_slash: "lower_char c = CHR ''/'' \<longleftrightarrow> c = CHR ''/''"
  by (rule lower_punctuation) simp

lemma lower_no_slash: "CHR ''/'' \<notin> set s \<Longrightarrow> CHR ''/'' \<notin> set (py_lower s)"
proof (induction s)
  case (Cons c s)
  then show ?case using lower_slash [of c] unfolding py_lower_def list.map list.set by (metis insert_iff)
qed (simp add: py_lower_def)

lemma length_uuid_hex [simp]: "length (uuid_hex u) = 32"
  by (simp add: uuid_hex_def)

lemma hex_no_slash: "CHR ''/'' \<notin> set (uuid_hex u)"
proof -
  have "hex_char d \<noteq> CHR ''/''" if "d < 16" for d
  proof
    assume "hex_char d = CHR ''/''"
    then have "(of_char (hex_char d) :: nat) = 47" by simp
    then show False using that by (auto simp: hex_char_def split: if_splits)
  qed
  then have "hex_char (u div 16 ^ i mod 16) \<noteq> CHR ''/''" for i by simp
  then show ?thesis unfolding uuid_hex_def by (metis (no_types, lifting) ex_map_conv)
qed

text \<open>The paths of a request are entries of the upload directory, named by the request's token.\<close>

definition own_entry :: "local_file_storage \<Rightarrow> uuid \<Rightarrow> string \<Rightarrow> bool" where
  "own_entry st token p \<longleftrightarrow> (\<exists>t. p = fs_upload_dir st @ ''/'' @ t \<and> CHR ''/'' \<notin> set t \<and> take 32 t = uuid_hex token)"

lemma own_entries:
  "own_entry st (uuid_source w (draws w)) (temp_path st w)"
  "own_entry st (uuid_source w (draws w)) (final_path st name w)"
proof -
  have "CHR ''/'' \<notin> set (py_lower (path_suffix (path_name name)))"
    by (rule lower_no_slash [OF path_suffix_chars [OF path_name_no_slash]])
  then show "own_entry st (uuid_source w (draws w)) (final_path st name w)"
    using hex_no_slash unfolding own_entry_def final_path_def
    by (intro exI [of _ "uuid_hex (uuid_source w (draws w)) @ py_lower (path_suffix (path_name name))"]) simp
  show "own_entry st (uuid_source w (draws w)) (temp_path st w)"
    using hex_no_slash unfolding own_entry_def temp_path_def
    by (intro exI [of _ "uuid_hex (uuid_source w (draws w)) @ ''.tmp''"]) simp
qed

text \<open>Outcomes of an upload, as the files show them.\<close>

definition upload_kept :: "local_file_storage \<Rightarrow> string \<Rightarrow> request_state \<Rightarrow> request_state \<Rightarrow> bool" where
  "upload_kept st name w w' \<longleftrightarrow> (\<forall>p. map_of (rs_files w') p =
     (if p = final_path st name w then Some (rs_upload w)
      else if p = temp_path st w then None else map_of (rs_files w) p))"

definition nothing_left :: "local_file_storage \<Rightarrow> string \<Rightarrow> request_state \<Rightarrow> request_state \<Rightarrow> bool" where
  "nothing_left st name w w' \<longleftrightarrow> (\<forall>p. map_of (rs_files w') p =
     (if p \<in> {temp_path st w, final_path st name w} then None else map_of (rs_files w) p))"

lemma save_upload_outside:
  assumes "0 < fs_chunk_size_bytes st" "0 \<le> fs_max_size_bytes st"
  shows "same_outside {temp_path st w, final_path st name w} w (snd (save_upload st name w))"
proof -
  obtain r1 w1 where mk: "make_dirs (fs_upload_dir st) w = (r1, w1)" by fastforce
  show ?thesis
  proof (cases r1)
    case (Inl e)
    then show ?thesis using mk make_dirs_run [OF mk] save_upload_no_dir [of st w e w1 name] by (simp add: same_outside_def)
  next
    case (Inr u)
    let ?t = "temp_path st w" and ?f = "final_path st name w"
    obtain r2 w2 where wr: "write_upload st ?t ?f (w1\<lparr>draws := Suc (draws w1)\<rparr>) = (r2, w2)" by fastforce
    have o: "same_outside {?t, ?f} w w2"
      using write_upload_outside [OF wr assms] make_dirs_run [OF mk] by (simp add: same_outside_def)
    note run = save_upload_run [OF mk [unfolded Inr], of name, unfolded wr prod.case]
    show ?thesis
      using run o same_outside_trans [OF o clean_up_outside] by (cases r2) auto
  qed
qed

lemma save_upload_cases:
  assumes "0 < fs_chunk_size_bytes st" "0 \<le> fs_max_size_bytes st" "single_fault e (rs_faults w)"
    and "save_upload st name w = (r, w')" "calm w \<or> int (length (rs_upload w)) \<le> fs_max_size_bytes st"
    and "map_of (rs_files w) (temp_path st w) = None" "map_of (rs_files w) (final_path st name w) = None"
  shows "r = Inr (stored_upload st name w) \<and> upload_kept st name w w' \<and> int (length (rs_upload w)) \<le> fs_max_size_bytes st \<and>
      (calm w \<longrightarrow> calm w') \<or>
    r = Inl e \<and> \<not> calm w \<and> nothing_left st name w w' \<or>
    r = Inl too_large \<and> nothing_left st name w w' \<and> fs_max_size_bytes st < int (length (rs_upload w)) \<and> calm w'"
proof -
  obtain r1 w1 where mk: "make_dirs (fs_upload_dir st) w = (r1, w1)" by fastforce
  have e1: "ends_well e w r1 w1" by (rule ends_well_make [OF mk assms(3)])
  note same = make_dirs_run [OF mk]
  show ?thesis
  proof (cases r1)
    case (Inl e')
    then show ?thesis
      using save_upload_no_dir [of st w e' w1 name] mk assms(4,6,7) e1 same by (auto simp: ends_well_def nothing_left_def)
  next
    case (Inr u)
    let ?t = "temp_path st w" and ?f = "final_path st name w" and ?w1 = "w1\<lparr>draws := Suc (draws w1)\<rparr>"
    have s1: "single_fault e (rs_faults ?w1)" "calm w \<longrightarrow> calm ?w1" "calm ?w1 \<longleftrightarrow> calm w1"
      using e1 Inr by (simp_all add: ends_well_def calm_def)
    obtain r2 w2 where wr: "write_upload st ?t ?f ?w1 = (r2, w2)" by fastforce
    note e2 = write_upload_ends [OF wr assms(1,2) s1(1)]
    note run = save_upload_run [OF mk [unfolded Inr], of name, unfolded wr prod.case assms(4)]
    show ?thesis
    proof (cases r2)
      case (Inl e')
      have o: "same_outside {?t, ?f} w w2"
        using write_upload_outside [OF wr assms(1,2)] same by (simp add: same_outside_def)
      have end2: "e' = e \<and> \<not> calm w \<and> calm w2 \<or> e' = too_large \<and> fs_max_size_bytes st < int (length (rs_upload w)) \<and> calm w2"
        using e2 Inl s1 same assms(5) by (auto simp: ends_well_def)
      then have "calm w2" by blast
      then obtain w3 where w3: "clean_up ?t ?f e' w2 = (Inl e' :: exn + stored_file, w3)" "calm w3"
        "\<forall>p. map_of (rs_files w3) p = (if p \<in> {?t, ?f} then None else map_of (rs_files w2) p)"
        by (rule clean_up_calm)
      have "nothing_left st name w w3" using w3(3) o by (simp add: nothing_left_def same_outside_def)
      then show ?thesis using run Inl w3 end2 by auto
    next
      case r2: (Inr saved)
      then show ?thesis
        using run e2 s1 same by (auto simp: stored_upload_def upload_kept_def map_of_put_other map_of_drop)
    qed
  qed
qed

text \<open>
  C24. An upload that no operation fails for: if it is within the size limit, all of its bytes are
  under the new path, in chunks of any size, and the result tells their number and their digest
  (what duplicates are found by); otherwise it is an UploadTooLargeError, and nothing of it is
  left. The temporary file is gone, and every other file is as before.
\<close>

theorem save_upload_outcome:
  assumes "0 < fs_chunk_size_bytes st" "0 \<le> fs_max_size_bytes st" "set (rs_faults w) \<subseteq> {None}"
    and "map_of (rs_files w) (temp_path st w) = None" "map_of (rs_files w) (final_path st name w) = None"
  shows "if int (length (rs_upload w)) \<le> fs_max_size_bytes st
    then fst (save_upload st name w) = Inr (stored_upload st name w) \<and> upload_kept st name w (snd (save_upload st name w))
    else fst (save_upload st name w) = Inl too_large \<and> nothing_left st name w (snd (save_upload st name w))"
proof -
  have calm: "calm w" using assms(3) by (simp add: calm_def)
  obtain r w' where run: "save_upload st name w = (r, w')" by fastforce
  show ?thesis
    using save_upload_cases [OF assms(1,2) single_fault_calm [OF assms(3)] run disjI1 [OF calm] assms(4,5), of OSError]
      calm run by auto
qed

definition example_storage :: local_file_storage where
  "example_storage = \<lparr>fs_upload_dir = ''up'', fs_chunk_size_bytes = 2, fs_max_size_bytes = 4,
     fs_sha256 = (\<lambda>bs. nat_str (length bs))\<rparr>"

definition upload_request :: "byte list \<Rightarrow> exn option list \<Rightarrow> request_state" where
  "upload_request bs faults = \<lparr>committed = example_db, working = example_db, script = [], clock = 100, tx_time = 0,
     draws = 0, uuid_source = (\<lambda>n. n + 10), pg_numeric = (\<lambda>p s d. Some d), advisory = [],
     rs_files = [(''up/keep'', [9])], rs_upload = bs, rs_faults = faults\<rparr>"

lemma example_token: "uuid_hex 10 = ''0000000000000000000000000000000a''"
proof -
  have "hex_char 0 = CHR ''0''" "hex_char 10 = CHR ''a''" by code_simp+
  then show ?thesis by (simp add: uuid_hex_def upt_rec [of _ 32])
qed

lemma example_paths:
  "temp_path example_storage (upload_request bs fs) = ''up/0000000000000000000000000000000a.tmp''"
  "final_path example_storage ''d/b.XLSX'' (upload_request bs fs) = ''up/0000000000000000000000000000000a.xlsx''"
proof -
  have "py_lower (path_suffix (path_name ''d/b.XLSX'')) = ''.xlsx''" by code_simp
  then show "final_path example_storage ''d/b.XLSX'' (upload_request bs fs) = ''up/0000000000000000000000000000000a.xlsx''"
    by (simp add: final_path_def example_storage_def upload_request_def example_token)
  show "temp_path example_storage (upload_request bs fs) = ''up/0000000000000000000000000000000a.tmp''"
    by (simp add: temp_path_def example_storage_def upload_request_def example_token)
qed

lemma example_free:
  "0 < fs_chunk_size_bytes example_storage" "0 \<le> fs_max_size_bytes example_storage"
  "map_of (rs_files (upload_request bs fs)) (temp_path example_storage (upload_request bs fs)) = None"
  "map_of (rs_files (upload_request bs fs)) (final_path example_storage ''d/b.XLSX'' (upload_request bs fs)) = None"
  unfolding example_paths by (simp_all add: example_storage_def upload_request_def)

theorem save_upload_outcome_witness:
  "map_of (rs_files (snd (save_upload example_storage ''d/b.XLSX'' (upload_request [80, 75, 3] [None, None]))))
      ''up/0000000000000000000000000000000a.xlsx'' = Some [80, 75, 3] \<and>
   fst (save_upload example_storage ''d/b.XLSX'' (upload_request [80, 75, 3, 4, 5] [])) = Inl too_large"
proof -
  let ?w = "upload_request [80, 75, 3] [None, None]" and ?v = "upload_request [80, 75, 3, 4, 5] []"
  have "if int (length (rs_upload ?w)) \<le> fs_max_size_bytes example_storage
    then fst (save_upload example_storage ''d/b.XLSX'' ?w) = Inr (stored_upload example_storage ''d/b.XLSX'' ?w) \<and>
      upload_kept example_storage ''d/b.XLSX'' ?w (snd (save_upload example_storage ''d/b.XLSX'' ?w))
    else fst (save_upload example_storage ''d/b.XLSX'' ?w) = Inl too_large \<and>
      nothing_left example_storage ''d/b.XLSX'' ?w (snd (save_upload example_storage ''d/b.XLSX'' ?w))"
    by (rule save_upload_outcome [OF example_free(1,2) _ example_free(3,4)]) (simp add: upload_request_def)
  moreover have "if int (length (rs_upload ?v)) \<le> fs_max_size_bytes example_storage
    then fst (save_upload example_storage ''d/b.XLSX'' ?v) = Inr (stored_upload example_storage ''d/b.XLSX'' ?v) \<and>
      upload_kept example_storage ''d/b.XLSX'' ?v (snd (save_upload example_storage ''d/b.XLSX'' ?v))
    else fst (save_upload example_storage ''d/b.XLSX'' ?v) = Inl too_large \<and>
      nothing_left example_storage ''d/b.XLSX'' ?v (snd (save_upload example_storage ''d/b.XLSX'' ?v))"
    by (rule save_upload_outcome [OF example_free(1,2) _ example_free(3,4)]) (simp add: upload_request_def)
  moreover have "rs_upload ?w = [80, 75, 3]" "rs_upload ?v = [80, 75, 3, 4, 5]" "fs_max_size_bytes example_storage = 4"
    by (simp_all add: upload_request_def example_storage_def)
  ultimately show ?thesis by (simp add: upload_kept_def example_paths)
qed

text \<open>
  C25. An upload one of whose operations fails, whichever one it is (the directory, opening, a read,
  a write, the replacement of the temporary file): either the upload succeeded all the same, or
  the request ends with the exception of that operation and nothing of the upload is left behind.
\<close>

theorem save_upload_one_fault:
  assumes "0 < fs_chunk_size_bytes st" "int (length (rs_upload w)) \<le> fs_max_size_bytes st"
    and "rs_faults w = replicate n None @ Some e # replicate k None"
    and "map_of (rs_files w) (temp_path st w) = None" "map_of (rs_files w) (final_path st name w) = None"
  shows "fst (save_upload st name w) = Inr (stored_upload st name w) \<and> upload_kept st name w (snd (save_upload st name w)) \<or>
    fst (save_upload st name w) = Inl e \<and>
      (\<forall>p. map_of (rs_files (snd (save_upload st name w))) p = map_of (rs_files w) p)"
proof -
  have "single_fault e (replicate n None @ Some e # replicate k None)" by (induction n) auto
  then have single: "single_fault e (rs_faults w)" by (simp add: assms(3))
  obtain r w' where run: "save_upload st name w = (r, w')" by fastforce
  have "0 \<le> fs_max_size_bytes st" using assms(2) by linarith
  from save_upload_cases [OF assms(1) this single run disjI2 [OF assms(2)] assms(4,5)]
  have "r = Inr (stored_upload st name w) \<and> upload_kept st name w w' \<or> r = Inl e \<and> nothing_left st name w w'"
    using assms(2) by linarith
  moreover have "map_of (rs_files w') p = map_of (rs_files w) p" if "nothing_left st name w w'" for p
    using that assms(4,5) by (simp add: nothing_left_def)
  ultimately show ?thesis using run by auto
qed

theorem save_upload_one_fault_witness:
  "map_of (rs_files (snd (save_upload example_storage ''d/b.XLSX''
      (upload_request [80, 75, 3] (replicate 3 None @ Some OSError # replicate 2 None))))) ''up/keep'' = Some [9]"
proof -
  let ?w = "upload_request [80, 75, 3] (replicate 3 None @ Some OSError # replicate 2 None)"
  have "fst (save_upload example_storage ''d/b.XLSX'' ?w) = Inr (stored_upload example_storage ''d/b.XLSX'' ?w) \<and>
      upload_kept example_storage ''d/b.XLSX'' ?w (snd (save_upload example_storage ''d/b.XLSX'' ?w)) \<or>
    fst (save_upload example_storage ''d/b.XLSX'' ?w) = Inl OSError \<and>
      (\<forall>p. map_of (rs_files (snd (save_upload example_storage ''d/b.XLSX'' ?w))) p = map_of (rs_files ?w) p)"
    by (rule save_upload_one_fault [OF example_free(1) _ _ example_free(3,4)])
      (simp_all add: upload_request_def example_storage_def)
  then show ?thesis by (auto simp: upload_kept_def example_paths) (simp_all add: upload_request_def)
qed

text \<open>
  C26. An upload writes nowhere else, whatever the client calls the file (also \<^verbatim>\<open>../../etc/passwd\<close>) and
  whatever fails: a path whose content changes is an entry of the upload directory itself, with
  no further separator, and its name begins with the hexadecimal digits of the fresh token.
\<close>

theorem save_upload_confined:
  assumes "0 < fs_chunk_size_bytes st" "0 \<le> fs_max_size_bytes st"
    and "map_of (rs_files (snd (save_upload st name w))) p \<noteq> map_of (rs_files w) p"
  shows "own_entry st (uuid_source w (draws w)) p"
proof -
  have "p \<in> {temp_path st w, final_path st name w}"
    using save_upload_outside [OF assms(1,2), of w name] assms(3) by (auto simp: same_outside_def)
  then show ?thesis using own_entries by auto
qed

theorem save_upload_confined_witness:
  "own_entry example_storage 10 (final_path example_storage ''d/b.XLSX'' (upload_request [1] []))"
proof -
  let ?w = "upload_request [1] []"
  obtain r w' where run: "save_upload example_storage ''d/b.XLSX'' ?w = (r, w')" by fastforce
  have "calm ?w" "single_fault OSError (rs_faults ?w)" by (simp_all add: calm_def upload_request_def)
  with save_upload_cases [OF example_free(1,2) _ run _ example_free(3,4)]
  have "upload_kept example_storage ''d/b.XLSX'' ?w w' \<or> fs_max_size_bytes example_storage < int (length (rs_upload ?w))"
    by blast
  then have "map_of (rs_files w') (final_path example_storage ''d/b.XLSX'' ?w) = Some [1]"
    by (simp add: upload_kept_def) (simp add: upload_request_def example_storage_def)
  then have "own_entry example_storage (uuid_source ?w (draws ?w)) (final_path example_storage ''d/b.XLSX'' ?w)"
    by (intro save_upload_confined [OF example_free(1,2), where name = "''d/b.XLSX''"]) (simp add: run example_free(4))
  then show ?thesis by (simp add: upload_request_def)
qed

end
