(* ===== verification/Imports_Api.thy ===== *)
theory Imports_Api
  imports Storage Import_Queries Create_Import_Spec
begin

text \<open>
  The HTTP endpoints of imports: app/api/v1/imports.py, over the storage and the services. FastAPI
  passes the parameters; what a handler raises becomes a response in app/api/errors.py.
\<close>

section \<open>Validation of the request\<close>

definition bad_request :: "string \<Rightarrow> string \<Rightarrow> exn" where
  "bad_request code message =
     ApiError \<lparr>ae_code = code, ae_message = message, ae_status = 400, ae_details = None\<rparr>"

definition validate_original_file_name :: "string option \<Rightarrow> exn + string" where
  "validate_original_file_name original_file_name = (case original_file_name of
     None \<Rightarrow> Inl (bad_request ''INVALID_FILE_FORMAT'' ''Uploaded file must be a .xlsx file.'')
   | Some name \<Rightarrow>
       let safe_file_name = path_name name in
       if safe_file_name = [] \<or> py_lower (path_suffix (path_name safe_file_name)) \<noteq> ''.xlsx''
       then Inl (bad_request ''INVALID_FILE_FORMAT'' ''Uploaded file must be a .xlsx file.'')
       else Inr safe_file_name)"

definition invalid_idempotency_key :: exn where
  "invalid_idempotency_key = bad_request ''INVALID_IDEMPOTENCY_KEY''
     ''Idempotency-Key must be a non-empty textual value without surrounding whitespace.''"

definition validate_idempotency_key :: "string option \<Rightarrow> exn + string option" where
  "validate_idempotency_key idempotency_key = (case idempotency_key of
     None \<Rightarrow> Inr None
   | Some key \<Rightarrow>
       if key = [] \<or> key \<noteq> py_strip key then Inl invalid_idempotency_key
       else if length key > 255 \<or> list_ex (\<lambda>c. (of_char c :: nat) < 32 \<or> (of_char c :: nat) = 127) key
       then Inl invalid_idempotency_key
       else Inr (Some key))"

section \<open>The upload\<close>

definition XLSX_SIGNATURE :: "byte list" where
  "XLSX_SIGNATURE = [0x50, 0x4B, 3, 4]"

definition has_xlsx_zip_signature :: "string \<Rightarrow> (request_state, bool) action" where
  "has_xlsx_zip_signature path = io (\<lambda>w. case map_of (rs_files w) path of
     None \<Rightarrow> (Inl FileNotFoundError, w)
   | Some content \<Rightarrow> (Inr (take 4 content = XLSX_SIGNATURE), w))"

text \<open>What FastAPI passes for the file: the name and the type of the part; the bytes are read from it.\<close>

record upload_file =
  up_filename :: "string option"
  up_content_type :: "string option"

text \<open>
  What the endpoint is given: the settings, the digest, and the UTC offset (in minutes) of the time
  zone in which the driver returns a timestamp.
\<close>

record api_env =
  env_settings :: settings
  env_upload_dir :: string
  env_sha256 :: "byte list \<Rightarrow> string"
  env_utcoffset :: "timestamp \<Rightarrow> int"

definition env_storage :: "api_env \<Rightarrow> local_file_storage" where
  "env_storage env = \<lparr>fs_upload_dir = env_upload_dir env,
     fs_chunk_size_bytes = set_upload_read_chunk_size_bytes (env_settings env),
     fs_max_size_bytes = set_max_upload_size_bytes (env_settings env), fs_sha256 = env_sha256 env\<rparr>"

section \<open>POST /imports\<close>

text \<open>The response to each exception of the services; any other goes on.\<close>

definition duplicate_details :: "api_env \<Rightarrow> import_snapshot \<Rightarrow> (string \<times> string) list" where
  "duplicate_details env existing =
     [(''import_id'', uuid_str (snap_import_id existing)), (''status'', snap_status existing),
      (''created_at'', created_at_text (env_utcoffset env (snap_created_at existing)) (snap_created_at existing))]"

definition create_import_error :: "api_env \<Rightarrow> exn \<Rightarrow> exn" where
  "create_import_error env e = (case e of
     UploadTooLargeError _ \<Rightarrow> ApiError \<lparr>ae_code = ''FILE_TOO_LARGE'',
       ae_message = ''Uploaded file exceeds the maximum allowed size.'', ae_status = 413, ae_details = None\<rparr>
   | IdempotencyConflictError _ \<Rightarrow> ApiError \<lparr>ae_code = ''IDEMPOTENCY_CONFLICT'',
       ae_message = ''Idempotency-Key already exists for a different upload.'', ae_status = 409, ae_details = None\<rparr>
   | DuplicateImportError existing \<Rightarrow> ApiError \<lparr>ae_code = ''DUPLICATE_IMPORT'',
       ae_message = ''An identical file was already submitted.'', ae_status = 409,
       ae_details = Some (duplicate_details env existing)\<rparr>
   | DatabaseWriteError _ \<Rightarrow> ApiError \<lparr>ae_code = ''DATABASE_ERROR'',
       ae_message = ''Failed to persist the import.'', ae_status = 500, ae_details = None\<rparr>
   | _ \<Rightarrow> e)"

text \<open>The \<^verbatim>\<open>except\<close> clauses: the stored file is deleted if there is one already.\<close>

definition create_import_failed ::
  "api_env \<Rightarrow> stored_file option \<Rightarrow> exn \<Rightarrow> (request_state, 'a) action" where
  "create_import_failed env stored e =
     bindE (case stored of None \<Rightarrow> ret () | Some f \<Rightarrow> delete_if_exists (sf_stored_file_path f))
       (\<lambda>_. throw (create_import_error env e))"

definition persist_upload ::
  "api_env \<Rightarrow> upload_file \<Rightarrow> string option \<Rightarrow> stored_file \<Rightarrow> (request_state, import_create_outcome) action" where
  "persist_upload env upload idempotency_key stored =
     bindE (has_xlsx_zip_signature (sf_stored_file_path stored)) (\<lambda>valid.
       if \<not> valid
       then bindE (delete_if_exists (sf_stored_file_path stored)) (\<lambda>_.
         throw (bad_request ''INVALID_FILE_FORMAT'' ''Uploaded file must have a valid .xlsx ZIP signature.''))
       else create_import (env_settings env) (sf_original_file_name stored) (sf_stored_file_path stored)
         (sf_file_size_bytes stored) (up_content_type upload) idempotency_key (sf_sha256_hex stored))"

definition created_payload :: "import_created_result \<Rightarrow> (string \<times> payload_value) list" where
  "created_payload r = [(''import_id'', PayUuid (cr_import_id r)), (''status'', PayText (cr_status r)),
     (''created_at'', PayTime (cr_created_at r))]"

text \<open>The endpoint from the point where the parameters are valid.\<close>

definition store_and_create ::
  "api_env \<Rightarrow> upload_file \<Rightarrow> string \<Rightarrow> string option \<Rightarrow> (request_state, (string \<times> payload_value) list) action" where
  "store_and_create env upload safe_file_name idempotency_key =
     bindE (try_except (save_upload (env_storage env) safe_file_name) (create_import_failed env None)) (\<lambda>stored.
     bindE (try_except (persist_upload env upload idempotency_key stored) (create_import_failed env (Some stored)))
       (\<lambda>outcome.
     bindE (if \<not> co_created outcome then delete_if_exists (sf_stored_file_path stored) else ret ()) (\<lambda>_.
       ret (created_payload (co_result outcome)))))"

definition create_import_endpoint ::
  "api_env \<Rightarrow> upload_file option \<Rightarrow> string option \<Rightarrow> (request_state, (string \<times> payload_value) list) action" where
  "create_import_endpoint env file idempotency_key = (case file of
     None \<Rightarrow> throw (bad_request ''INVALID_FILE_FORMAT'' ''Uploaded file must be provided as multipart form data.'')
   | Some upload \<Rightarrow>
       (case validate_original_file_name (up_filename upload) of
          Inl e \<Rightarrow> throw e
        | Inr safe_file_name \<Rightarrow>
            (case validate_idempotency_key idempotency_key of
               Inl e \<Rightarrow> throw e
             | Inr normalized_idempotency_key \<Rightarrow>
                 store_and_create env upload safe_file_name normalized_idempotency_key)))"

section \<open>GET /imports\<close>

definition api_page_request :: "settings \<Rightarrow> string option \<Rightarrow> string option \<Rightarrow> exn + page_request" where
  "api_page_request s page page_size =
     (case parse_page_request page page_size (set_default_page_size s) (set_max_page_size s) of
        Inl (InvalidPaginationError message) \<Rightarrow> Inl (bad_request ''INVALID_PAGINATION'' message)
      | r \<Rightarrow> r)"

definition import_not_found_error :: exn where
  "import_not_found_error = ApiError \<lparr>ae_code = ''IMPORT_NOT_FOUND'', ae_message = ''Import job was not found.'',
     ae_status = 404, ae_details = None\<rparr>"

definition on_import_not_found :: "exn \<Rightarrow> ('z world_scheme, 'a) action" where
  "on_import_not_found e = throw (if e = ImportNotFoundError then import_not_found_error else e)"

definition list_import_errors_endpoint ::
  "settings \<Rightarrow> uuid \<Rightarrow> string option \<Rightarrow> string option \<Rightarrow>
     ('z world_scheme, import_error_read_model listing) action" where
  "list_import_errors_endpoint s import_id page page_size =
     (case api_page_request s page page_size of
        Inl e \<Rightarrow> throw e
      | Inr r \<Rightarrow> try_except (list_import_errors import_id r) on_import_not_found)"

definition get_import_status_endpoint :: "uuid \<Rightarrow> ('z world_scheme, (string \<times> payload_value) list) action" where
  "get_import_status_endpoint import_id = try_except (get_status import_id) on_import_not_found"

end
