(* ===== verification/Imports_Api_Spec.thy ===== *)
theory Imports_Api_Spec
  imports Imports_Api
begin

text \<open>
  What the endpoints of imports guarantee: an upload leaves a stored file exactly when it leaves a
  job for it, which requests are refused with which response, and what clients can be shown.
\<close>

section \<open>What the operations of the storage leave alone\<close>

definition apart :: "(request_state, 'a) action \<Rightarrow> bool" where
  "apart m \<longleftrightarrow> (\<forall>w. world.truncate (snd (m w)) = world.truncate w)"

named_theorems apart_intro

lemma truncate_files [simp]:
  "world.truncate (w\<lparr>rs_files := x\<rparr>) = world.truncate w"
  "world.truncate (w\<lparr>rs_upload := y\<rparr>) = world.truncate w"
  "world.truncate (w\<lparr>rs_faults := z\<rparr>) = world.truncate w"
  for w :: request_state
  by (simp_all add: world.truncate_def)

lemma truncate_fields:
  fixes w w' :: "'z world_scheme"
  assumes "world.truncate w' = world.truncate w"
  shows "committed w' = committed w" "working w' = working w" "script w' = script w" "clock w' = clock w"
    "draws w' = draws w" "uuid_source w' = uuid_source w"
  using assms by (simp_all add: world.truncate_def)

lemma apart_io [apart_intro]: "apart f \<Longrightarrow> apart (io f)"
  by (auto simp: apart_def io_def split: list.split option.split)

lemma apart_bindE [apart_intro]: "apart m \<Longrightarrow> (\<And>x. apart (f x)) \<Longrightarrow> apart (bindE m f)"
  unfolding apart_def bindE_def by (auto split: sum.split prod.split) (metis snd_conv)+

lemma apart_try_except [apart_intro]: "apart m \<Longrightarrow> (\<And>e. apart (h e)) \<Longrightarrow> apart (try_except m h)"
  unfolding apart_def try_except_def by (auto split: sum.split prod.split) (metis snd_conv)+

lemma apart_ret [apart_intro]: "apart (ret x)" "apart (throw e)"
  by (simp_all add: apart_def ret_def throw_def)

lemma apart_if [apart_intro]: "apart m \<Longrightarrow> apart m' \<Longrightarrow> apart (if b then m else m')"
  by simp

lemma apart_operations [apart_intro]:
  "apart (make_dirs p)" "apart (open_for_write p)" "apart (append_file p c)" "apart (replace_file p q)"
  "apart (remove_file p)" "apart (read_upload n)" "apart (has_xlsx_zip_signature p)"
  unfolding make_dirs_def open_for_write_def append_file_def replace_file_def remove_file_def read_upload_def
    has_xlsx_zip_signature_def
  by (intro apart_io; auto simp: apart_def Let_def split: option.split)+

lemma apart_delete [apart_intro]: "apart (delete_if_exists p)"
  unfolding delete_if_exists_def by (intro apart_intro)

lemma apart_save_chunks [apart_intro]: "apart (save_chunks st path n d)"
proof -
  have "world.truncate (snd (save_chunks st path n d w)) = world.truncate w" for w
  proof (induction st path n d w rule: save_chunks.induct)
    case (1 st path n d w)
    have r: "world.truncate (snd (read_upload (fs_chunk_size_bytes st) w)) = world.truncate w"
      using apart_operations(6) by (simp add: apart_def)
    have a: "world.truncate (snd (append_file path c w1)) = world.truncate w1" for c w1
      using apart_operations(3) by (simp add: apart_def)
    obtain r1 w1 where read: "read_upload (fs_chunk_size_bytes st) w = (r1, w1)" by fastforce
    show ?case
    proof (cases r1)
      case (Inl e)
      then show ?thesis using read r by (simp add: save_chunks.simps [of st path n])
    next
      case (Inr chunk)
      obtain r2 w2 where app: "append_file path chunk w1 = (r2, w2)" by fastforce
      have "world.truncate w1 = world.truncate w" "world.truncate w2 = world.truncate w1"
        using read r a [of chunk w1] app by simp_all
      then show ?thesis
        using 1 [OF read [symmetric] Inr _ _ app [symmetric]] read app Inr
        by (simp add: save_chunks.simps [of st path n d w] split: sum.split)
    qed
  qed
  then show ?thesis by (simp add: apart_def)
qed

lemma apart_write_upload [apart_intro]: "apart (write_upload st t f)"
  unfolding write_upload_def by (intro apart_intro)

lemma apart_clean_up [apart_intro]: "apart (clean_up t f e)"
  unfolding clean_up_def by (intro apart_intro)

lemma apartD: "apart m \<Longrightarrow> m w = (r, w') \<Longrightarrow> world.truncate w' = world.truncate w"
  by (metis apart_def snd_conv)

text \<open>An upload draws its token, and that is all the session notices.\<close>

lemma save_upload_session:
  assumes "save_upload st name w = (r, w')"
  shows "committed w' = committed w \<and> script w' = script w \<and> clock w' = clock w \<and> uuid_source w' = uuid_source w \<and>
    (r = Inr f \<longrightarrow> draws w' = Suc (draws w))"
proof -
  obtain r1 w1 where mk: "make_dirs (fs_upload_dir st) w = (r1, w1)" by fastforce
  note s1 = truncate_fields [OF apartD [OF apart_operations(1) mk]]
  show ?thesis
  proof (cases r1)
    case (Inl e)
    then show ?thesis using save_upload_no_dir [of st w e w1 name] mk assms s1 by auto
  next
    case (Inr u)
    let ?t = "temp_path st w" and ?f = "final_path st name w" and ?w1 = "w1\<lparr>draws := Suc (draws w1)\<rparr>"
    obtain r2 w2 where wr: "write_upload st ?t ?f ?w1 = (r2, w2)" by fastforce
    note s2 = truncate_fields [OF apartD [OF apart_write_upload wr]]
    note run = save_upload_run [OF mk [unfolded Inr], of name, unfolded wr prod.case assms]
    show ?thesis
    proof (cases r2)
      case (Inl e)
      then have "clean_up ?t ?f e w2 = (r, w')" using run by simp
      note s3 = truncate_fields [OF apartD [OF apart_clean_up this]]
      have "r \<noteq> Inr f" using \<open>clean_up ?t ?f e w2 = (r, w')\<close>
        by (auto simp: clean_up_def bindE_def throw_def split: sum.splits prod.splits)
      then show ?thesis using s1 s2 s3 by simp
    next
      case r2: (Inr saved)
      then show ?thesis using run s1 s2 by simp
    qed
  qed
qed

section \<open>What the service leaves alone\<close>

lemma tame_with_session [tame_intro]: "tame m \<Longrightarrow> tame (with_session m)"
proof -
  assume m: "tame m"
  have "tame (bindE begin_tx (\<lambda>_. m))" by (intro tame_intro m)
  then show ?thesis by (simp add: tame_def with_session_def prod.case_eq_if)
qed

lemma tame_try_except [tame_intro]: "tame m \<Longrightarrow> (\<And>e. tame (h e)) \<Longrightarrow> tame (try_except m h)"
  unfolding tame_def try_except_def by (auto split: sum.split prod.split) (metis le_trans snd_conv)+

lemma tame_rollback [tame_intro]: "tame (modify rollback)"
  by (simp add: tame_def modify_def)

lemma tame_create_import: "tame (create_import s ofn path sz ct key fp)"
  unfolding create_import_def Let_def acquire_fingerprint_lock_def get_snapshot_by_idempotency_key_def
    existing_outcome_def create_new_import_def get_snapshot_by_fingerprint_def persist_import_def insert_records_def
    create_import_job_def create_dispatch_intent_def insert_failed_def refresh_job_def
  by (intro tame_intro)

lemma more_storage:
  fixes w w' :: request_state
  assumes "world.more w' = world.more w"
  shows "rs_files w' = rs_files w" "rs_upload w' = rs_upload w" "rs_faults w' = rs_faults w"
  using assms by (cases w; cases w'; simp)+

lemma create_import_storage:
  fixes w :: request_state
  assumes "create_import s ofn path sz ct key fp w = (r, w')"
  shows "rs_files w' = rs_files w" "rs_faults w' = rs_faults w"
  using more_storage [of w' w] tameD [OF tame_create_import assms] by simp_all

section \<open>The upload of a workbook\<close>

definition client_error :: "exn \<Rightarrow> bool" where
  "client_error e \<longleftrightarrow> (\<exists>a. e = ApiError a \<and> ae_status a \<in> {400, 409, 413, 500})"

definition files_same :: "request_state \<Rightarrow> request_state \<Rightarrow> bool" where
  "files_same w w' \<longleftrightarrow> (\<forall>p. map_of (rs_files w') p = map_of (rs_files w) p)"

text \<open>Refused, or answered with an import that was there: nothing has changed.\<close>

definition left_alone :: "request_state \<Rightarrow> exn + (string \<times> payload_value) list \<Rightarrow> request_state \<Rightarrow> bool" where
  "left_alone w r w' \<longleftrightarrow> committed w' = committed w \<and> files_same w w' \<and> (\<forall>e. r = Inl e \<longrightarrow> client_error e)"

text \<open>Accepted: one new job, its intent, and its file with the bytes that were sent.\<close>

definition accepted :: "api_env \<Rightarrow> request_state \<Rightarrow> exn + (string \<times> payload_value) list \<Rightarrow> request_state \<Rightarrow> bool" where
  "accepted env w r w' \<longleftrightarrow> (\<exists>j x.
     r = Inr [(''import_id'', PayUuid (job_id j)), (''status'', PayText ''PENDING''), (''created_at'', PayTime (clock w))] \<and>
     job_status j = ImportPENDING \<and> job_idempotency_fingerprint j = env_sha256 env (rs_upload w) \<and>
     job_file_size_bytes j = int (length (rs_upload w)) \<and> take 4 (rs_upload w) = XLSX_SIGNATURE \<and>
     committed w' = (committed w)\<lparr>db_jobs := db_jobs (committed w) @ [j],
       db_outbox := db_outbox (committed w) @ [new_dispatch_row x (job_id j) (clock w) (clock w)]\<rparr> \<and>
     (\<forall>p. map_of (rs_files w') p =
        (if p = job_stored_file_path j then Some (rs_upload w) else map_of (rs_files w) p)))"

lemma signature_calm:
  assumes "calm w" "map_of (rs_files w) path = Some content"
  obtains w' where "has_xlsx_zip_signature path w = (Inr (take 4 content = XLSX_SIGNATURE), w')"
    "calm w'" "rs_files w' = rs_files w"
  using assms that
  by (cases "rs_faults w") (auto simp: has_xlsx_zip_signature_def io_def calm_def)

lemma failed_calm:
  assumes "calm w"
  obtains w' where "create_import_failed env (Some f) e w = (Inl (create_import_error env e), w')"
    "rs_files w' = drop_file (sf_stored_file_path f) (rs_files w)" "calm w'" "committed w' = committed w"
proof -
  obtain w1 where w1: "delete_if_exists (sf_stored_file_path f) w = (Inr (), w1)"
    "rs_files w1 = drop_file (sf_stored_file_path f) (rs_files w)" "calm w1"
    by (rule delete_if_exists_calm [OF assms])
  show thesis
    by (rule that [of w1])
      (use w1 truncate_fields(1) [OF apartD [OF apart_delete w1(1)]] in
        \<open>simp_all add: create_import_failed_def bindE_def throw_def\<close>)
qed

lemma create_outcome_cases:
  assumes "create_outcome job key fp i x now db = (r, db')" "job_status job = ImportPENDING"
    "job_idempotency_fingerprint job = fp"
  shows "(\<exists>e. r = Inl e \<and> db' = db \<and> client_error (create_import_error env e)) \<or>
    (\<exists>o'. r = Inr o' \<and> \<not> co_created o' \<and> db' = db) \<or>
    (let j = job\<lparr>job_id := i, job_created_at := now, job_updated_at := now\<rparr> in r = Inr (result_of j True) \<and>
      db' = db\<lparr>db_jobs := db_jobs db @ [j], db_outbox := db_outbox db @ [new_dispatch_row x i now now]\<rparr>)"
  using assms
  by (auto simp: create_outcome_def client_error_def create_import_error_def write_failed_def result_of_def Let_def
      split: option.splits if_splits)

text \<open>The new uuids of a request are new: the job and the intent get the second and the third draw.\<close>

definition fresh_keys :: "request_state \<Rightarrow> bool" where
  "fresh_keys w \<longleftrightarrow> uuid_source w (Suc (draws w)) \<notin> set (map job_id (db_jobs (committed w))) \<and>
     uuid_source w (Suc (Suc (draws w))) \<notin> set (map ob_id (db_outbox (committed w)))"

definition fresh_paths :: "local_file_storage \<Rightarrow> string \<Rightarrow> request_state \<Rightarrow> bool" where
  "fresh_paths st name w \<longleftrightarrow>
     map_of (rs_files w) (temp_path st w) = None \<and> map_of (rs_files w) (final_path st name w) = None"

lemma dropped_same:
  assumes "upload_kept st name w w1" "fresh_paths st name w"
    and "\<forall>p. map_of (rs_files w') p = (if p = final_path st name w then None else map_of (rs_files w1) p)"
  shows "files_same w w'"
  using assms by (auto simp: files_same_def upload_kept_def fresh_paths_def)

text \<open>After the upload was stored: the state is the one before it, with the file and one uuid drawn.\<close>

definition uploaded :: "api_env \<Rightarrow> string \<Rightarrow> request_state \<Rightarrow> stored_file \<Rightarrow> request_state \<Rightarrow> bool" where
  "uploaded env name w stored w1 \<longleftrightarrow> stored = stored_upload (env_storage env) name w \<and>
     upload_kept (env_storage env) name w w1 \<and> calm w1 \<and> fresh_paths (env_storage env) name w \<and>
     committed w1 = committed w \<and> script w1 = [] \<and> clock w1 = clock w \<and> uuid_source w1 = uuid_source w \<and>
     draws w1 = Suc (draws w)"

definition files_but :: "string \<Rightarrow> request_state \<Rightarrow> request_state \<Rightarrow> bool" where
  "files_but path w w' \<longleftrightarrow> (\<forall>p. p \<noteq> path \<longrightarrow> map_of (rs_files w') p = map_of (rs_files w) p)"

definition answer :: "api_env \<Rightarrow> upload_file \<Rightarrow> string option \<Rightarrow> stored_file \<Rightarrow>
    (request_state, (string \<times> payload_value) list) action" where
  "answer env upload key stored =
     bindE (try_except (persist_upload env upload key stored) (create_import_failed env (Some stored))) (\<lambda>outcome.
     bindE (if \<not> co_created outcome then delete_if_exists (sf_stored_file_path stored) else ret ()) (\<lambda>_.
       ret (created_payload (co_result outcome))))"

lemma uploaded_path: "uploaded env name w stored w1 \<Longrightarrow> sf_stored_file_path stored = final_path (env_storage env) name w"
  by (simp add: uploaded_def stored_upload_def)

lemma uploaded_dropped:
  assumes "uploaded env name w stored w1" "files_but (sf_stored_file_path stored) w1 u"
    and "rs_files v = drop_file (sf_stored_file_path stored) (rs_files u)"
  shows "files_same w v"
  using assms uploaded_path [OF assms(1)]
  by (intro dropped_same [of "env_storage env" name w w1]) (auto simp: uploaded_def files_but_def map_of_drop)

lemma answer_refused:
  assumes up: "uploaded env name w stored w1" and run: "persist_upload env upload key stored w1 = (Inl e, w3)"
    and w3: "calm w3" "committed w3 = committed w" "files_but (sf_stored_file_path stored) w1 w3"
    and e: "client_error (create_import_error env e)"
  shows "case_prod (left_alone w) (answer env upload key stored w1)"
proof -
  obtain w4 where w4: "(create_import_failed env (Some stored) e :: (request_state, import_create_outcome) action) w3 =
      (Inl (create_import_error env e), w4)"
    "rs_files w4 = drop_file (sf_stored_file_path stored) (rs_files w3)" "committed w4 = committed w3"
    using failed_calm [OF w3(1), of env stored e] by metis
  have "answer env upload key stored w1 = (Inl (create_import_error env e), w4)"
    using run w4(1) by (simp add: answer_def bindE_def try_except_def)
  then show ?thesis using uploaded_dropped [OF up w3(3) w4(2)] w4(3) w3(2) e by (simp add: left_alone_def)
qed

lemma answer_known:
  assumes up: "uploaded env name w stored w1" and run: "persist_upload env upload key stored w1 = (Inr out, w3)"
    and w3: "calm w3" "committed w3 = committed w" "files_but (sf_stored_file_path stored) w1 w3"
    and known: "\<not> co_created out"
  shows "case_prod (left_alone w) (answer env upload key stored w1)"
proof -
  obtain w4 where w4: "delete_if_exists (sf_stored_file_path stored) w3 = (Inr (), w4)"
    "rs_files w4 = drop_file (sf_stored_file_path stored) (rs_files w3)"
    using delete_if_exists_calm [OF w3(1)] by metis
  have "answer env upload key stored w1 = (Inr (created_payload (co_result out)), w4)"
    using run known w4(1) by (simp add: answer_def bindE_def try_except_def ret_def)
  moreover have "committed w4 = committed w3" by (rule truncate_fields(1) [OF apartD [OF apart_delete w4(1)]])
  ultimately show ?thesis using uploaded_dropped [OF up w3(3) w4(2)] w3(2) by (simp add: left_alone_def)
qed

lemma answer_created:
  assumes up: "uploaded env name w stored w1" and run: "persist_upload env upload key stored w1 = (Inr (result_of j True), w3)"
    and j: "job_stored_file_path j = sf_stored_file_path stored" "job_status j = ImportPENDING" "job_created_at j = clock w"
      "job_idempotency_fingerprint j = env_sha256 env (rs_upload w)" "job_file_size_bytes j = int (length (rs_upload w))"
    and xlsx: "take 4 (rs_upload w) = XLSX_SIGNATURE" and same: "rs_files w3 = rs_files w1"
    and db: "committed w3 = (committed w)\<lparr>db_jobs := db_jobs (committed w) @ [j],
      db_outbox := db_outbox (committed w) @ [new_dispatch_row x (job_id j) (clock w) (clock w)]\<rparr>"
  shows "case_prod (accepted env w) (answer env upload key stored w1)"
proof -
  have run: "answer env upload key stored w1 = (Inr (created_payload (co_result (result_of j True))), w3)"
    using run by (simp add: answer_def bindE_def try_except_def ret_def result_of_def)
  have "map_of (rs_files w3) p = (if p = sf_stored_file_path stored then Some (rs_upload w) else map_of (rs_files w) p)" for p
    using up uploaded_path [OF up] unfolding same by (auto simp: uploaded_def upload_kept_def fresh_paths_def)
  then show ?thesis
    unfolding run accepted_def prod.case
    by (intro exI [of _ j] exI [of _ x])
      (simp add: j xlsx db result_of_def created_payload_def import_status_str_def)
qed

lemma answer_outcome:
  assumes up: "uploaded env name w stored w1" and w: "db_ok (committed w)" "fresh_keys w"
  shows "case_prod (left_alone w) (answer env upload key stored w1) \<or> case_prod (accepted env w) (answer env upload key stored w1)"
proof -
  let ?st = "env_storage env" and ?path = "sf_stored_file_path stored" and ?fp = "env_sha256 env (rs_upload w)"
  have stored: "stored = stored_upload ?st name w" "calm w1" using up by (simp_all add: uploaded_def)
  have content: "map_of (rs_files w1) ?path = Some (rs_upload w)"
    using up uploaded_path [OF up] by (simp add: uploaded_def upload_kept_def)
  obtain w2 where sig: "has_xlsx_zip_signature ?path w1 = (Inr (take 4 (rs_upload w) = XLSX_SIGNATURE), w2)"
    "calm w2" "rs_files w2 = rs_files w1"
    by (rule signature_calm [OF stored(2) content])
  have w2: "draws w2 = Suc (draws w)" "uuid_source w2 = uuid_source w" "script w2 = []"
    "committed w2 = committed w" "clock w2 = clock w"
    using truncate_fields [OF apartD [OF apart_operations(7) sig(1)]] up by (simp_all add: uploaded_def)
  show ?thesis
  proof (cases "take 4 (rs_upload w) = XLSX_SIGNATURE")
    case False
    let ?e = "bad_request ''INVALID_FILE_FORMAT'' ''Uploaded file must have a valid .xlsx ZIP signature.''"
    obtain w3 where w3: "delete_if_exists ?path w2 = (Inr (), w3)" "rs_files w3 = drop_file ?path (rs_files w2)" "calm w3"
      by (rule delete_if_exists_calm [OF sig(2)])
    have "persist_upload env upload key stored w1 = (Inl ?e, w3)"
      using sig(1) False w3(1) by (simp add: persist_upload_def bindE_def throw_def)
    moreover have "committed w3 = committed w"
      using truncate_fields(1) [OF apartD [OF apart_delete w3(1)]] w2(4) by simp
    moreover have "files_but ?path w1 w3" by (simp add: files_but_def w3(2) sig(3) map_of_drop)
    moreover have "client_error (create_import_error env ?e)"
      by (simp add: client_error_def create_import_error_def bad_request_def)
    ultimately have "case_prod (left_alone w) (answer env upload key stored w1)" by (rule answer_refused [OF up _ w3(3)])
    then show ?thesis ..
  next
    case True
    let ?job = "new_import_job (env_settings env) (path_name name) ?path (int (length (rs_upload w)))
      (up_content_type upload) key ?fp"
    let ?i = "uuid_source w (Suc (draws w))" and ?x = "uuid_source w (Suc (Suc (draws w)))"
    obtain r3 w3 where create: "create_import (env_settings env) (path_name name) ?path (int (length (rs_upload w)))
      (up_content_type upload) key ?fp w2 = (r3, w3)" by fastforce
    have w3: "calm w3" "rs_files w3 = rs_files w1" "files_but ?path w1 w3"
      using create_import_storage [OF create] sig(2,3) by (simp_all add: calm_def files_but_def)
    have out: "create_outcome ?job key ?fp ?i ?x (clock w) (committed w) = (r3, committed w3)"
      using create_import_quiet [of w2 "env_settings env" "path_name name" ?path "int (length (rs_upload w))"
          "up_content_type upload" key ?fp] w w2 create by (simp add: fresh_keys_def)
    have run: "persist_upload env upload key stored w1 = (r3, w3)"
      using sig(1) True create by (simp add: persist_upload_def bindE_def stored(1) stored_upload_def env_storage_def)
    have "job_status ?job = ImportPENDING" "job_idempotency_fingerprint ?job = ?fp" by (simp_all add: new_import_job_def)
    from create_outcome_cases [OF out this, of env]
    show ?thesis
    proof (elim disjE exE conjE)
      fix e assume "r3 = Inl e" "committed w3 = committed w" "client_error (create_import_error env e)"
      then have "case_prod (left_alone w) (answer env upload key stored w1)"
        using run by (intro answer_refused [OF up _ w3(1) _ w3(3)]) simp_all
      then show ?thesis ..
    next
      fix known assume "r3 = Inr known" "\<not> co_created known" "committed w3 = committed w"
      then have "case_prod (left_alone w) (answer env upload key stored w1)"
        using run by (intro answer_known [OF up _ w3(1) _ w3(3)]) simp_all
      then show ?thesis ..
    next
      let ?j = "?job\<lparr>job_id := ?i, job_created_at := clock w, job_updated_at := clock w\<rparr>"
      assume "let j = ?j in r3 = Inr (result_of j True) \<and> committed w3 = (committed w)\<lparr>db_jobs := db_jobs (committed w) @ [j],
        db_outbox := db_outbox (committed w) @ [new_dispatch_row ?x ?i (clock w) (clock w)]\<rparr>"
      then have new: "r3 = Inr (result_of ?j True)" "committed w3 = (committed w)\<lparr>db_jobs := db_jobs (committed w) @ [?j],
        db_outbox := db_outbox (committed w) @ [new_dispatch_row ?x (job_id ?j) (clock w) (clock w)]\<rparr>"
        by (simp_all add: Let_def)
      have "job_stored_file_path ?j = ?path" "job_status ?j = ImportPENDING" "job_created_at ?j = clock w"
        "job_idempotency_fingerprint ?j = ?fp" "job_file_size_bytes ?j = int (length (rs_upload w))"
        by (simp_all add: new_import_job_def)
      then have "case_prod (accepted env w) (answer env upload key stored w1)"
        using run [unfolded new(1)] True w3(2) new(2) by (intro answer_created [OF up])
      then show ?thesis ..
    qed
  qed
qed

lemma store_and_create_outcome:
  assumes w: "set (rs_faults w) \<subseteq> {None}" "script w = []" "db_ok (committed w)" "fresh_keys w"
    and env: "0 < set_upload_read_chunk_size_bytes (env_settings env)" "0 < set_max_upload_size_bytes (env_settings env)"
    and paths: "fresh_paths (env_storage env) name w"
    and run: "store_and_create env upload name key w = (r, w')"
  shows "left_alone w r w' \<or> accepted env w r w'"
proof -
  let ?st = "env_storage env"
  have st: "0 < fs_chunk_size_bytes ?st" "0 \<le> fs_max_size_bytes ?st" using env by (simp_all add: env_storage_def)
  have calm: "calm w" using w(1) by (simp add: calm_def)
  obtain r1 w1 where save: "save_upload ?st name w = (r1, w1)" by fastforce
  note saved = save_upload_cases [OF st single_fault_calm [OF w(1)] save disjI1 [OF calm]
      paths [unfolded fresh_paths_def, THEN conjunct1] paths [unfolded fresh_paths_def, THEN conjunct2], of OSError]
  note session = save_upload_session [OF save]
  show ?thesis
  proof (cases r1)
    case (Inl e)
    then have e: "e = too_large" "nothing_left ?st name w w1" using saved calm by auto
    have "r = Inl (create_import_error env e)" "w' = w1"
      using run save Inl by (auto simp: store_and_create_def bindE_def try_except_def create_import_failed_def ret_def throw_def)
    moreover have "client_error (create_import_error env too_large)"
      by (simp add: client_error_def create_import_error_def too_large_def)
    ultimately have "left_alone w r w'"
      using e session paths by (auto simp: left_alone_def files_same_def nothing_left_def fresh_paths_def)
    then show ?thesis ..
  next
    case (Inr stored)
    then have "uploaded env name w stored w1"
      using saved calm paths session w(2) by (auto simp: uploaded_def)
    from answer_outcome [OF this w(3,4), of upload key]
    show ?thesis using run save Inr by (simp add: store_and_create_def answer_def bindE_def [of "try_except _ _"] try_except_def)
  qed
qed

text \<open>
  C18. An upload leaves a stored file exactly when it leaves a job for it. When nothing interferes, the
  endpoint either refuses the request with a documented error (400, 409, 413 or 500), or answers
  it with an import the key was used for before, and then neither the database nor any file has
  changed; or it answers with a new PENDING job, and then that job, its intent and its file, with
  the bytes that were sent (which begin with the signature of a ZIP archive), are what is new.
\<close>

theorem create_import_endpoint_atomic:
  assumes "set (rs_faults w) \<subseteq> {None}" "script w = []" "db_ok (committed w)" "fresh_keys w"
    and "settings_accepted (env_settings env)"
    and "\<forall>name. fresh_paths (env_storage env) name w"
  shows "left_alone w (fst (create_import_endpoint env part key w)) (snd (create_import_endpoint env part key w)) \<or>
    accepted env w (fst (create_import_endpoint env part key w)) (snd (create_import_endpoint env part key w))"
proof -
  have env: "0 < set_upload_read_chunk_size_bytes (env_settings env)" "0 < set_max_upload_size_bytes (env_settings env)"
    using assms(5) by (simp_all add: settings_accepted_def validators_ok positive_fields_def)
  have refused: "left_alone w (Inl (bad_request c m)) w" for c m
    by (simp add: left_alone_def files_same_def client_error_def bad_request_def)
  have go: "left_alone w (fst x) (snd x) \<or> accepted env w (fst x) (snd x)"
    if "x = store_and_create env upload name k w" for x upload name k
    using store_and_create_outcome [OF assms(1-4) env assms(6) [rule_format], of upload name k "fst x" "snd x"] that by simp
  show ?thesis
  proof (cases part)
    case None
    then show ?thesis using refused by (simp add: create_import_endpoint_def throw_def)
  next
    case (Some upload)
    show ?thesis
    proof (cases "validate_original_file_name (up_filename upload)")
      case (Inl e)
      then have "\<exists>c m. e = bad_request c m"
        by (auto simp: validate_original_file_name_def Let_def split: option.splits if_splits)
      then show ?thesis using Some Inl refused by (auto simp: create_import_endpoint_def throw_def)
    next
      case name: (Inr name)
      show ?thesis
      proof (cases "validate_idempotency_key key")
        case (Inl e)
        then have "\<exists>c m. e = bad_request c m"
          by (auto simp: validate_idempotency_key_def invalid_idempotency_key_def split: option.splits if_splits)
        then show ?thesis using Some name Inl refused by (auto simp: create_import_endpoint_def throw_def)
      next
        case (Inr k)
        then show ?thesis using Some name go by (simp add: create_import_endpoint_def)
      qed
    qed
  qed
qed

definition example_env :: api_env where
  "example_env = \<lparr>env_settings = default_settings, env_upload_dir = ''up'',
     env_sha256 = (\<lambda>bs. nat_str (length bs)), env_utcoffset = (\<lambda>_. 0)\<rparr>"

definition xlsx_part :: upload_file where
  "xlsx_part = \<lparr>up_filename = Some ''d/b.XLSX'', up_content_type = None\<rparr>"

lemma example_request:
  "set (rs_faults (upload_request bs [])) \<subseteq> {None}" "script (upload_request bs []) = []"
  "db_ok (committed (upload_request bs []))" "fresh_keys (upload_request bs [])"
  "settings_accepted (env_settings example_env)" "\<forall>name. fresh_paths (env_storage example_env) name (upload_request bs [])"
proof -
  show "set (rs_faults (upload_request bs [])) \<subseteq> {None}" "script (upload_request bs []) = []"
    "db_ok (committed (upload_request bs []))"
    by (simp_all add: upload_request_def example_db_ok)
  show "fresh_keys (upload_request bs [])"
    by (simp add: fresh_keys_def upload_request_def example_db_def example_job_def)
  show "settings_accepted (env_settings example_env)"
    by (simp add: example_env_def default_settings_accepted)
  show "\<forall>name. fresh_paths (env_storage example_env) name (upload_request bs [])"
    by (simp add: fresh_paths_def temp_path_def final_path_def env_storage_def example_env_def upload_request_def example_token)
qed

theorem create_import_endpoint_atomic_witness:
  "let w = upload_request [80, 75, 3, 4, 9] [];
       (r, w') = create_import_endpoint example_env (Some xlsx_part) (Some ''k'') w
   in left_alone w r w' \<or> accepted example_env w r w'"
  using create_import_endpoint_atomic [OF example_request, of "[80, 75, 3, 4, 9]" "Some xlsx_part" "Some ''k''"]
  by (simp add: Let_def prod.case_eq_if)

section \<open>What is accepted\<close>

lemma path_name_idem [simp]: "path_name (path_name p) = path_name p"
proof (cases "path_name p = []")
  case True
  then show ?thesis by (simp add: path_name_def [of "[]"])
next
  case False
  have one: "path_name n = n" if "CHR ''/'' \<notin> set n" "n \<noteq> []" "n \<noteq> ''.''" for n
    using that by (simp add: path_name_def py_split_no_sep)
  have "path_name p \<noteq> ''.''"
  proof -
    let ?ps = "filter (\<lambda>part. part \<noteq> [] \<and> part \<noteq> ''.'') (py_split (CHR ''/'') p)"
    have "(case rev ps of [] \<Rightarrow> [] | part # _ \<Rightarrow> part) \<noteq> ''.''" if "\<forall>part \<in> set ps. part \<noteq> ''.''" for ps :: "string list"
      using that by (cases ps rule: rev_cases) auto
    from this [of ?ps] show ?thesis unfolding path_name_def by auto
  qed
  then show ?thesis using one path_name_no_slash False by blast
qed

lemma xlsx_suffix:
  "py_lower (path_suffix n) = ''.xlsx'' \<longleftrightarrow> (\<exists>stem ext. n = stem @ ext \<and> stem \<noteq> [] \<and> py_lower ext = ''.xlsx'')"
proof
  let ?d = "dropWhile (\<lambda>c. c \<noteq> CHR ''.'') (rev n)" and ?t = "takeWhile (\<lambda>c. c \<noteq> CHR ''.'') (rev n)"
  assume suffix: "py_lower (path_suffix n) = ''.xlsx''"
  have eq: "path_suffix n = (if length ?d > 1 \<and> ?t \<noteq> [] then CHR ''.'' # rev ?t else [])"
    by (simp only: path_suffix_def Let_def)
  have c: "length ?d > 1 \<and> ?t \<noteq> []"
  proof (rule ccontr)
    assume "\<not> (length ?d > 1 \<and> ?t \<noteq> [])"
    then have "path_suffix n = []" unfolding eq by (rule if_not_P)
    then show False using suffix by (simp add: py_lower_def)
  qed
  have d: "path_suffix n = CHR ''.'' # rev ?t" using eq unfolding if_P [OF c] .
  have "\<exists>x xs. l = x # xs \<and> xs \<noteq> []" if "length l > 1" for l :: string
    using that by (cases l) auto
  then obtain x xs where cons: "?d = x # xs" "xs \<noteq> []" using c by blast
  have "?d \<noteq> []" unfolding cons(1) by simp
  then have "\<not> (hd ?d \<noteq> CHR ''.'')" by (rule hd_dropWhile)
  then have "x = CHR ''.''" unfolding cons(1) by simp
  moreover have "rev n = ?t @ ?d" by (simp only: takeWhile_dropWhile_id)
  ultimately have "rev n = ?t @ CHR ''.'' # xs" unfolding cons(1) by (simp only:)
  then have "rev (rev n) = rev (?t @ CHR ''.'' # xs)" by (simp only:)
  then have "n = rev xs @ CHR ''.'' # rev ?t" by simp
  then show "\<exists>stem ext. n = stem @ ext \<and> stem \<noteq> [] \<and> py_lower ext = ''.xlsx''"
    using d suffix cons(2) by (metis rev_is_Nil_conv)
next
  assume "\<exists>stem ext. n = stem @ ext \<and> stem \<noteq> [] \<and> py_lower ext = ''.xlsx''"
  then obtain stem ext where n: "n = stem @ ext" "stem \<noteq> []" "py_lower ext = ''.xlsx''" by blast
  have len: "length ext = 5" using arg_cong [OF n(3), of length] by (simp add: py_lower_def)
  then obtain a b c d e where ext: "ext = [a, b, c, d, e]" by (auto simp: length_Suc_conv numeral_eq_Suc)
  have dot: "lower_char x = CHR ''.'' \<longleftrightarrow> x = CHR ''.''" for x
    by (rule lower_punctuation) simp
  have low: "lower_char a = CHR ''.''" "lower_char b = CHR ''x''" "lower_char c = CHR ''l''" "lower_char d = CHR ''s''"
    "lower_char e = CHR ''x''"
    using n(3) unfolding ext py_lower_def by simp_all
  have "a = CHR ''.''" using dot [of a] low(1) by blast
  moreover have "b \<noteq> CHR ''.''" using dot [of b] low(2) by fastforce
  moreover have "c \<noteq> CHR ''.''" using dot [of c] low(3) by fastforce
  moreover have "d \<noteq> CHR ''.''" using dot [of d] low(4) by fastforce
  moreover have "e \<noteq> CHR ''.''" using dot [of e] low(5) by fastforce
  ultimately have "path_suffix n = ext" using n(2) by (simp add: path_suffix_def n(1) ext)
  then show "py_lower (path_suffix n) = ''.xlsx''" using n(3) by simp
qed

end
