(* ===== verification/Shipment_Query.thy ===== *)
theory Shipment_Query
  imports Import_Queries
begin

text \<open>
  The listing of shipments: ListShipmentsService (app/shipments/services/list_shipments.py) and
  ShipmentQueryRepository (app/shipments/repositories/shipment_query_repository.py). The
  server's ILIKE is modelled on the model's alphabet, with the case folding of that alphabet.
\<close>

section \<open>Filters\<close>

record shipment_query_filters =
  sf_status :: "string option"
  sf_origin_city :: "string option"
  sf_destination_city :: "string option"
  sf_customer_name :: "string option"
  sf_created_from :: "pydate option"
  sf_created_to :: "pydate option"

definition SHIPMENT_STATUSES :: "string set" where
  "SHIPMENT_STATUSES = {''PENDING'', ''IN_TRANSIT'', ''DELIVERED'', ''CANCELED''}"

definition normalize_status :: "string option \<Rightarrow> exn + string option" where
  "normalize_status v = (case v of
     None \<Rightarrow> Inr None
   | Some text \<Rightarrow>
       let normalized = py_strip text in
       if normalized \<notin> SHIPMENT_STATUSES
       then Inl (InvalidShipmentFilterError ''status must be one of: CANCELED, DELIVERED, IN_TRANSIT, PENDING.'')
       else Inr (Some normalized))"

definition normalize_text_filter :: "string option \<Rightarrow> exn + string option" where
  "normalize_text_filter v = (case v of
     None \<Rightarrow> Inr None
   | Some text \<Rightarrow>
       let normalized = py_strip text in
       if normalized = [] then Inl (InvalidShipmentFilterError ''text filters must not be blank.'')
       else Inr (Some normalized))"

definition parse_date_filter :: "string option \<Rightarrow> string \<Rightarrow> exn + pydate option" where
  "parse_date_filter v name = (case v of
     None \<Rightarrow> Inr None
   | Some text \<Rightarrow>
       (case date_fromisoformat text of
          None \<Rightarrow> Inl (InvalidShipmentFilterError (name @ '' must use YYYY-MM-DD.''))
        | Some d \<Rightarrow> Inr (Some d)))"

record shipment_query_params =
  sq_status :: "string option"
  sq_origin_city :: "string option"
  sq_destination_city :: "string option"
  sq_customer_name :: "string option"
  sq_created_from :: "string option"
  sq_created_to :: "string option"

definition bind_sum :: "exn + 'a \<Rightarrow> ('a \<Rightarrow> exn + 'b) \<Rightarrow> exn + 'b" where
  "bind_sum x f = (case x of Inl e \<Rightarrow> Inl e | Inr y \<Rightarrow> f y)"

definition build_filters :: "shipment_query_params \<Rightarrow> exn + shipment_query_filters" where
  "build_filters q =
     bind_sum (normalize_status (sq_status q)) (\<lambda>normalized_status.
     bind_sum (parse_date_filter (sq_created_from q) ''created_from'') (\<lambda>parsed_created_from.
     bind_sum (parse_date_filter (sq_created_to q) ''created_to'') (\<lambda>parsed_created_to.
       if (case (parsed_created_from, parsed_created_to) of (Some a, Some b) \<Rightarrow> b < a | _ \<Rightarrow> False)
       then Inl (InvalidShipmentFilterError ''created_from must be on or before created_to.'')
       else
         bind_sum (normalize_text_filter (sq_origin_city q)) (\<lambda>origin_city.
         bind_sum (normalize_text_filter (sq_destination_city q)) (\<lambda>destination_city.
         bind_sum (normalize_text_filter (sq_customer_name q)) (\<lambda>customer_name.
           Inr \<lparr>sf_status = normalized_status, sf_origin_city = origin_city,
                sf_destination_city = destination_city, sf_customer_name = customer_name,
                sf_created_from = parsed_created_from, sf_created_to = parsed_created_to\<rparr>))))))"

section \<open>The repository\<close>

text \<open>The server's \<^verbatim>\<open>ILIKE\<close> with the escape character that is passed, a backslash.\<close>

definition esc :: char where
  "esc = CHR 0x5C"

fun ilike :: "string \<Rightarrow> string \<Rightarrow> bool" where
  "ilike [] s = (s = [])"
| "ilike (p # ps) s =
     (if p = CHR ''%'' then list_ex (\<lambda>k. ilike ps (drop k s)) [0..<Suc (length s)]
      else case s of
        [] \<Rightarrow> False
      | c # cs \<Rightarrow>
          if p = esc
          then (case ps of [] \<Rightarrow> False | q # qs \<Rightarrow> lower_char q = lower_char c \<and> ilike qs cs)
          else (p = CHR ''_'' \<or> lower_char p = lower_char c) \<and> ilike ps cs)"

text \<open>\<^verbatim>\<open>text.replace(old, new)\<close> for a single character.\<close>

definition py_replace :: "char \<Rightarrow> string \<Rightarrow> string \<Rightarrow> string" where
  "py_replace c new text = concat (map (\<lambda>x. if x = c then new else [x]) text)"

definition contains_pattern :: "string \<Rightarrow> string" where
  "contains_pattern v =
     (let escaped = py_replace (CHR ''_'') [esc, CHR ''_'']
            (py_replace (CHR ''%'') [esc, CHR ''%''] (py_replace esc [esc, esc] v))
      in ''%'' @ escaped @ ''%'')"

definition contains_filter :: "(shipment_row \<Rightarrow> string) \<Rightarrow> string \<Rightarrow> shipment_row \<Rightarrow> bool" where
  "contains_filter column v r = ilike (contains_pattern v) (column r)"

definition filters_to_criteria :: "shipment_query_filters \<Rightarrow> exn + (shipment_row \<Rightarrow> bool) list" where
  "filters_to_criteria f =
     (let on = (\<lambda>v c. case v of None \<Rightarrow> [] | Some x \<Rightarrow> [c x]);
          criteria =
            on (sf_status f) (\<lambda>x r. ship_status r = x) @
            on (sf_origin_city f) (contains_filter ship_origin_city) @
            on (sf_destination_city f) (contains_filter ship_destination_city) @
            on (sf_customer_name f) (contains_filter ship_customer_name) @
            (case sf_created_from f of None \<Rightarrow> [] | Some d \<Rightarrow> [\<lambda>r. day_start d \<le> ship_created_at r])
      in case sf_created_to f of
           None \<Rightarrow> Inr criteria
         | Some d \<Rightarrow>
             (case next_day d of
                None \<Rightarrow> Inl OverflowError
              | Some d' \<Rightarrow> Inr (criteria @ [\<lambda>r. ship_created_at r < day_start d'])))"

record shipment_list_item =
  si_shipment_id :: uuid
  si_import_id :: uuid
  si_shipment_code :: string
  si_customer_name :: string
  si_origin_city :: string
  si_destination_city :: string
  si_weight_kg :: string
  si_price :: string
  si_status :: string
  si_delivery_date :: "pydate option"
  si_created_at :: timestamp

definition to_list_item :: "shipment_row \<Rightarrow> shipment_list_item" where
  "to_list_item r = \<lparr>si_shipment_id = ship_id r, si_import_id = ship_import_id r,
     si_shipment_code = ship_shipment_code r, si_customer_name = ship_customer_name r,
     si_origin_city = ship_origin_city r, si_destination_city = ship_destination_city r,
     si_weight_kg = decimal_fixed (ship_weight_kg r), si_price = decimal_fixed (ship_price r),
     si_status = ship_status r, si_delivery_date = ship_delivery_date r, si_created_at = ship_created_at r\<rparr>"

record shipment_page =
  sp_items :: "shipment_list_item list"
  sp_total_items :: nat

text \<open>ORDER BY created_at DESC, id DESC: the key is negated.\<close>

definition newest_first :: "shipment_row \<Rightarrow> int \<times> int" where
  "newest_first r = (- ship_created_at r, - int (ship_id r))"

text \<open>The driver refuses a text parameter with a NUL byte (a DataError).\<close>

definition bindable :: "shipment_query_filters \<Rightarrow> bool" where
  "bindable f \<longleftrightarrow> list_all (\<lambda>v. case v of None \<Rightarrow> True | Some text \<Rightarrow> CHR 0x00 \<notin> set text)
     [sf_status f, sf_origin_city f, sf_destination_city f, sf_customer_name f]"

definition count_shipments ::
  "shipment_query_filters \<Rightarrow> (database \<Rightarrow> shipment_row list) \<Rightarrow> ('z world_scheme, nat) action" where
  "count_shipments f rows = statement (\<lambda>_ _ db.
     if bindable f then Inr (length (rows db), db) else Inl OtherSQLAlchemyError)"

definition list_shipment_page ::
  "shipment_query_filters \<Rightarrow> int \<Rightarrow> int \<Rightarrow> ('z world_scheme, shipment_page) action" where
  "list_shipment_page f page_limit page_start =
     (case filters_to_criteria f of
        Inl e \<Rightarrow> throw e
      | Inr criteria \<Rightarrow>
          let chosen = (\<lambda>db. filter (\<lambda>r. list_all (\<lambda>c. c r) criteria) (db_shipments db)) in
          bindE (count_shipments f chosen) (\<lambda>total_items.
          bindE (select_page newest_first page_limit page_start chosen) (\<lambda>shipments.
            ret \<lparr>sp_items = map to_list_item shipments, sp_total_items = total_items\<rparr>)))"

definition list_shipments ::
  "page_request \<Rightarrow> shipment_query_params \<Rightarrow> ('z world_scheme, shipment_list_item listing) action" where
  "list_shipments r q =
     (case build_filters q of
        Inl e \<Rightarrow> throw e
      | Inr filters \<Rightarrow>
          bindE (with_session (list_shipment_page filters (pr_page_size r) (page_offset r))) (\<lambda>p.
            case build_pagination_metadata r (int (sp_total_items p)) of
              Inl e \<Rightarrow> throw e
            | Inr pagination \<Rightarrow> ret \<lparr>ls_items = sp_items p, ls_pagination = pagination\<rparr>))"

section \<open>What a filter selects\<close>

definition infix_of :: "string \<Rightarrow> string \<Rightarrow> bool" where
  "infix_of v s \<longleftrightarrow> (\<exists>a b. py_lower s = a @ py_lower v @ b)"

definition escaped :: "string \<Rightarrow> string" where
  "escaped v = concat (map (\<lambda>x. if x \<in> {esc, CHR ''%'', CHR ''_''} then [esc, x] else [x]) v)"

lemma contains_pattern_escaped: "contains_pattern v = CHR ''%'' # escaped v @ ''%''"
proof -
  have "py_replace (CHR ''_'') [esc, CHR ''_''] (py_replace (CHR ''%'') [esc, CHR ''%''] (py_replace esc [esc, esc] v)) = escaped v"
    by (induction v) (auto simp: py_replace_def escaped_def esc_def)
  then show ?thesis by (simp add: contains_pattern_def)
qed

lemma ilike_percent: "ilike (CHR ''%'' # ps) s \<longleftrightarrow> (\<exists>k \<le> length s. ilike ps (drop k s))"
  by (simp add: list_ex_iff Bex_def less_Suc_eq_le del: upt_Suc)

lemma ilike_all: "ilike ''%'' s"
  by (simp add: ilike_percent del: ilike.simps(2)) auto

lemma ilike_escaped:
  "ilike (escaped v @ ''%'') s \<longleftrightarrow> (\<exists>b. py_lower s = py_lower v @ b)"
proof (induction v arbitrary: s)
  case Nil
  show ?case using ilike_all by (simp add: escaped_def py_lower_def del: ilike.simps)
next
  case (Cons x v)
  have esc: "esc \<noteq> CHR ''%''" by (simp add: esc_def)
  have "escaped (x # v) = (if x \<in> {esc, CHR ''%'', CHR ''_''} then [esc, x] else [x]) @ escaped v"
    by (simp add: escaped_def)
  then have "ilike (escaped (x # v) @ ''%'') s \<longleftrightarrow>
      (case s of [] \<Rightarrow> False | c # cs \<Rightarrow> lower_char x = lower_char c \<and> ilike (escaped v @ ''%'') cs)"
    using esc by (auto split: list.split)
  also have "\<dots> \<longleftrightarrow> (\<exists>b. py_lower s = py_lower (x # v) @ b)"
    using Cons.IH by (cases s) (auto simp: py_lower_def)
  finally show ?case .
qed

lemma contains_filter_infix: "contains_filter column v r \<longleftrightarrow> infix_of v (column r)"
proof -
  let ?s = "column r"
  have "contains_filter column v r \<longleftrightarrow> (\<exists>k \<le> length ?s. ilike (escaped v @ ''%'') (drop k ?s))"
    by (simp only: contains_filter_def contains_pattern_escaped ilike_percent append_Cons)
  also have "\<dots> \<longleftrightarrow> (\<exists>k \<le> length ?s. \<exists>b. drop k (py_lower ?s) = py_lower v @ b)"
    by (simp add: ilike_escaped py_lower_def drop_map)
  also have "\<dots> \<longleftrightarrow> infix_of v ?s"
  proof
    assume "\<exists>k \<le> length ?s. \<exists>b. drop k (py_lower ?s) = py_lower v @ b"
    then show "infix_of v ?s" unfolding infix_of_def by (metis append_take_drop_id)
  next
    assume "infix_of v ?s"
    then obtain a b where ab: "py_lower ?s = a @ py_lower v @ b" by (auto simp: infix_of_def)
    then have "length a \<le> length ?s" by (metis length_append le_add1 length_map py_lower_def)
    then show "\<exists>k \<le> length ?s. \<exists>b. drop k (py_lower ?s) = py_lower v @ b" using ab by auto
  qed
  finally show ?thesis .
qed

text \<open>The meaning of the filters, without SQL: the last day counts in full.\<close>

definition shipment_matches :: "shipment_query_filters \<Rightarrow> shipment_row \<Rightarrow> bool" where
  "shipment_matches f r \<longleftrightarrow>
     (case sf_status f of None \<Rightarrow> True | Some x \<Rightarrow> ship_status r = x) \<and>
     (case sf_origin_city f of None \<Rightarrow> True | Some v \<Rightarrow> infix_of v (ship_origin_city r)) \<and>
     (case sf_destination_city f of None \<Rightarrow> True | Some v \<Rightarrow> infix_of v (ship_destination_city r)) \<and>
     (case sf_customer_name f of None \<Rightarrow> True | Some v \<Rightarrow> infix_of v (ship_customer_name r)) \<and>
     (case sf_created_from f of None \<Rightarrow> True | Some d \<Rightarrow> day_start d \<le> ship_created_at r) \<and>
     (case sf_created_to f of None \<Rightarrow> True | Some d \<Rightarrow> ship_created_at r < day_start d + seconds 86400)"

definition last_date :: pydate where
  "last_date = PyDate 9999 12 31"

lemma next_day_None: "valid_date d \<Longrightarrow> next_day d = None \<longleftrightarrow> d = last_date"
  by (cases d) (auto simp: next_day_def valid_date_def last_date_def days_in_month_def split: if_splits)

lemma criteria_matches:
  "filters_to_criteria f = Inr cs \<Longrightarrow> (\<And>d. sf_created_to f = Some d \<Longrightarrow> valid_date d) \<Longrightarrow>
     list_all (\<lambda>c. c r) cs \<longleftrightarrow> shipment_matches f r"
proof -
  assume cs: "filters_to_criteria f = Inr cs" and valid: "\<And>d. sf_created_to f = Some d \<Longrightarrow> valid_date d"
  have on: "list_all (\<lambda>c. c r) (case v of None \<Rightarrow> [] | Some x \<Rightarrow> [g x]) \<longleftrightarrow> (case v of None \<Rightarrow> True | Some x \<Rightarrow> g x r)"
    for v :: "'b option" and g by (cases v) simp_all
  have "contains_filter column = (\<lambda>v r. infix_of v (column r))" for column
    by (intro ext contains_filter_infix)
  note defs = filters_to_criteria_def shipment_matches_def Let_def on this
  show ?thesis
  proof (cases "sf_created_to f")
    case None
    then show ?thesis using cs by (simp only: defs option.case sum.inject list_all_append) (auto simp: on)
  next
    case (Some d)
    then obtain d' where d': "next_day d = Some d'" using cs by (cases "next_day d") (simp_all add: filters_to_criteria_def Let_def)
    have "day_start d' = day_start d + seconds 86400" by (rule day_start_next_day [OF valid [OF Some] d'])
    then show ?thesis using cs Some d' by (auto simp: defs)
  qed
qed

lemma build_filters_valid:
  "build_filters q = Inr f \<Longrightarrow> sf_created_to f = Some d \<Longrightarrow> valid_date d"
  by (auto simp: build_filters_def bind_sum_def parse_date_filter_def dest: date_fromisoformat_valid
      split: sum.splits option.splits if_splits)

lemma criteria_overflow:
  assumes "\<And>d. sf_created_to f = Some d \<Longrightarrow> valid_date d"
  shows "filters_to_criteria f = Inl e \<longleftrightarrow> e = OverflowError \<and> sf_created_to f = Some last_date"
proof (cases "sf_created_to f")
  case None
  then show ?thesis by (simp add: filters_to_criteria_def Let_def)
next
  case (Some d)
  then show ?thesis
    using next_day_None [OF assms [OF Some]]
    by (auto simp: filters_to_criteria_def Let_def split: option.split)
qed

lemma count_shipments_quiet:
  "script w = [] \<Longrightarrow> count_shipments f rows w =
     (if bindable f then Inr (length (rows (working w))) else Inl (SqlError OtherSQLAlchemyError), w)"
  by (simp add: count_shipments_def statement_def quiet_def)

lemma list_shipments_quiet:
  assumes "script w = []" "build_filters q = Inr f" "filters_to_criteria f = Inr cs"
  shows "fst (list_shipments r q w) =
    (if \<not> (bindable f \<and> row_count_ok (pr_page_size r) \<and> row_count_ok (page_offset r))
     then Inl (SqlError OtherSQLAlchemyError)
     else map_sum id (\<lambda>m. \<lparr>ls_items = map to_list_item (order_page newest_first (pr_page_size r) (page_offset r)
              (filter (\<lambda>s. list_all (\<lambda>c. c s) cs) (db_shipments (committed w)))), ls_pagination = m\<rparr>)
            (build_pagination_metadata r (int (length (filter (\<lambda>s. list_all (\<lambda>c. c s) cs) (db_shipments (committed w)))))))"
  using assms
  by (simp add: list_shipments_def list_shipment_page_def count_shipments_quiet bindE_def with_session_def begin_tx_def
      select_page_quiet ret_def throw_def map_sum_def Let_def split: sum.split)

section \<open>Properties\<close>

text \<open>
  C29. A listing shows the shipments that meet every filter, and no other: the same status, the text
  anywhere in the city or name without regard to case and with no character of it taken as a
  wildcard, created on one of the days from \<^verbatim>\<open>created_from\<close> to \<^verbatim>\<open>created_to\<close>, both included; the
  newest first, the page that is asked for, with the number of all matches and of their pages in
  the metadata. The request is one the server takes (a page size and an offset that are BIGINTs,
  no NUL byte in a filter).
\<close>

theorem list_shipments_selects:
  assumes "script w = []" "build_filters q = Inr f" "sf_created_to f \<noteq> Some last_date"
    and "bindable f" "row_count_ok (pr_page_size r)" "row_count_ok (page_offset r)" "pr_page_size r \<noteq> 0"
    and "found = int (length (filter (shipment_matches f) (db_shipments (committed w))))"
  shows "fst (list_shipments r q w) = Inr \<lparr>
    ls_items = map to_list_item (order_page newest_first (pr_page_size r) (page_offset r)
      (filter (shipment_matches f) (db_shipments (committed w)))),
    ls_pagination = \<lparr>pm_page = pr_page r, pm_page_size = pr_page_size r, pm_total_items = found,
      pm_total_pages = (found + pr_page_size r - 1) div pr_page_size r\<rparr>\<rparr>"
proof -
  have valid: "sf_created_to f = Some d \<Longrightarrow> valid_date d" for d using build_filters_valid [OF assms(2)] .
  obtain cs where cs: "filters_to_criteria f = Inr cs"
    using criteria_overflow [OF valid] assms(3) by (cases "filters_to_criteria f") auto
  have "(\<lambda>s. list_all (\<lambda>c. c s) cs) = shipment_matches f"
    using criteria_matches [OF cs valid] by (intro ext)
  then show ?thesis
    using list_shipments_quiet [OF assms(1,2) cs, of r] assms(4-8) by (simp add: build_pagination_metadata_def)
qed

definition example_shipment :: "uuid \<Rightarrow> string \<Rightarrow> timestamp \<Rightarrow> shipment_row" where
  "example_shipment i customer created = \<lparr>ship_id = i, ship_import_id = 1, ship_shipment_code = ''S'' @ nat_str i,
     ship_customer_name = customer, ship_origin_city = ''Oslo'', ship_destination_city = ''Rome'',
     ship_weight_kg = Decimal False 1500 (-3), ship_price = Decimal False 995 (-2), ship_status = ''PENDING'',
     ship_delivery_date = None, ship_created_at = created, ship_updated_at = created\<rparr>"

definition shipments_world :: world where
  "shipments_world = reader_world\<lparr>committed := example_db\<lparr>db_shipments :=
     [example_shipment 41 ''5%A'' (day_start (PyDate 1 2 27)),
      example_shipment 42 ''5a'' (day_start (PyDate 1 2 28)),
      example_shipment 43 ''x%a'' (day_start (PyDate 1 3 1) - 1)]\<rparr>\<rparr>"

definition example_query :: shipment_query_params where
  "example_query = \<lparr>sq_status = Some '' PENDING '', sq_origin_city = None, sq_destination_city = None,
     sq_customer_name = Some ''%a'', sq_created_from = None, sq_created_to = Some ''0001-02-28''\<rparr>"


definition example_filters :: shipment_query_filters where
  "example_filters = \<lparr>sf_status = Some ''PENDING'', sf_origin_city = None, sf_destination_city = None,
     sf_customer_name = Some ''%a'', sf_created_from = None, sf_created_to = Some (PyDate 1 2 28)\<rparr>"

lemma shipment_matches_exec:
  "shipment_matches f r \<longleftrightarrow>
     (case sf_status f of None \<Rightarrow> True | Some x \<Rightarrow> ship_status r = x) \<and>
     (case sf_origin_city f of None \<Rightarrow> True | Some v \<Rightarrow> contains_filter ship_origin_city v r) \<and>
     (case sf_destination_city f of None \<Rightarrow> True | Some v \<Rightarrow> contains_filter ship_destination_city v r) \<and>
     (case sf_customer_name f of None \<Rightarrow> True | Some v \<Rightarrow> contains_filter ship_customer_name v r) \<and>
     (case sf_created_from f of None \<Rightarrow> True | Some d \<Rightarrow> day_start d \<le> ship_created_at r) \<and>
     (case sf_created_to f of None \<Rightarrow> True | Some d \<Rightarrow> ship_created_at r < day_start d + seconds 86400)"
  by (simp only: shipment_matches_def contains_filter_infix)

theorem list_shipments_selects_witness:
  "\<exists>l. fst (list_shipments \<lparr>pr_page = 1, pr_page_size = 20\<rparr> example_query shipments_world) = Inr l \<and>
     map si_shipment_id (ls_items l) = [43, 41] \<and> pm_total_items (ls_pagination l) = 2"
proof -
  have rows: "filter (\<lambda>r. contains_filter ship_customer_name ''%a'' r \<and>
      ship_status r = ''PENDING'' \<and> ship_created_at r < day_start (PyDate 1 2 28) + seconds 86400)
      (db_shipments (committed shipments_world)) =
      [example_shipment 41 ''5%A'' (day_start (PyDate 1 2 27)),
       example_shipment 43 ''x%a'' (day_start (PyDate 1 3 1) - 1)]"
    by code_simp
  have "filter (shipment_matches example_filters) (db_shipments (committed shipments_world)) =
      [example_shipment 41 ''5%A'' (day_start (PyDate 1 2 27)),
       example_shipment 43 ''x%a'' (day_start (PyDate 1 3 1) - 1)]"
    unfolding rows [symmetric] by (rule filter_cong) (auto simp: shipment_matches_exec example_filters_def)
  moreover have "fst (list_shipments \<lparr>pr_page = 1, pr_page_size = 20\<rparr> example_query shipments_world) = Inr \<lparr>
    ls_items = map to_list_item (order_page newest_first (pr_page_size \<lparr>pr_page = 1, pr_page_size = 20\<rparr>)
        (page_offset \<lparr>pr_page = 1, pr_page_size = 20\<rparr>)
        (filter (shipment_matches example_filters) (db_shipments (committed shipments_world)))),
    ls_pagination = \<lparr>pm_page = pr_page \<lparr>pr_page = 1, pr_page_size = 20\<rparr>, pm_page_size = pr_page_size \<lparr>pr_page = 1, pr_page_size = 20\<rparr>,
      pm_total_items = int (length (filter (shipment_matches example_filters) (db_shipments (committed shipments_world)))),
      pm_total_pages = (int (length (filter (shipment_matches example_filters) (db_shipments (committed shipments_world)))) +
        pr_page_size \<lparr>pr_page = 1, pr_page_size = 20\<rparr> - 1) div pr_page_size \<lparr>pr_page = 1, pr_page_size = 20\<rparr>\<rparr>\<rparr>"
  proof (rule list_shipments_selects)
    show "bindable example_filters" "row_count_ok (pr_page_size \<lparr>pr_page = 1, pr_page_size = 20\<rparr>)"
      "row_count_ok (page_offset \<lparr>pr_page = 1, pr_page_size = 20\<rparr>)" "pr_page_size \<lparr>pr_page = 1, pr_page_size = 20\<rparr> \<noteq> 0"
      by code_simp+
    show "script shipments_world = []" by (simp add: shipments_world_def reader_world_def)
    show "build_filters example_query = Inr example_filters" by code_simp
    show "sf_created_to example_filters \<noteq> Some last_date" by (simp add: example_filters_def last_date_def)
  qed (rule refl)
  moreover have "map si_shipment_id (map to_list_item (order_page newest_first 20 (page_offset \<lparr>pr_page = 1, pr_page_size = 20\<rparr>)
      [example_shipment 41 ''5%A'' (day_start (PyDate 1 2 27)),
       example_shipment 43 ''x%a'' (day_start (PyDate 1 3 1) - 1)])) = [43, 41]"
    by code_simp
  ultimately show ?thesis by simp
qed

text \<open>
  C30. What a listing can raise, whatever the page request, while nothing interferes: a filter that does
  not meet the contract is an InvalidShipmentFilterError. With valid filters, \<^verbatim>\<open>created_to\<close> the last
  date there is, 9999-12-31, is an OverflowError; then a filter with a NUL byte, or a page size or an
  offset that is negative or beyond BIGINT, is an error of the database; then the page size 0 is a
  ZeroDivisionError, and nothing else raises. A request that \<^verbatim>\<open>parse_page_request\<close> accepts under
  valid settings never divides by zero, but can ask for a page whose offset is no BIGINT.
\<close>

theorem list_shipments_errors:
  assumes "script w = []"
  shows "(case build_filters q of
      Inl e \<Rightarrow> (\<exists>msg. e = InvalidShipmentFilterError msg) \<and> fst (list_shipments r q w) = Inl e
    | Inr f \<Rightarrow> \<forall>e. fst (list_shipments r q w) = Inl e \<longleftrightarrow>
        (if sf_created_to f = Some last_date then e = OverflowError
         else if \<not> bindable f \<or> pr_page_size r \<notin> {0..<2 ^ 63} \<or> (pr_page r - 1) * pr_page_size r \<notin> {0..<2 ^ 63}
         then e = SqlError OtherSQLAlchemyError
         else pr_page_size r = 0 \<and> e = ZeroDivisionError)) \<and>
    (settings_accepted s \<and> parse_page_request p n (set_default_page_size s) (set_max_page_size s) = Inr r \<longrightarrow>
       fst (list_shipments r q w) \<noteq> Inl ZeroDivisionError)"
proof (cases "build_filters q")
  case (Inl e)
  then show ?thesis
    by (auto simp: list_shipments_def throw_def build_filters_def bind_sum_def normalize_status_def parse_date_filter_def
        normalize_text_filter_def Let_def split: sum.splits option.splits if_splits)
next
  case (Inr f)
  have valid: "sf_created_to f = Some d \<Longrightarrow> valid_date d" for d using build_filters_valid [OF Inr] .
  have overflow: "filters_to_criteria f = Inl e \<longleftrightarrow> e = OverflowError \<and> sf_created_to f = Some last_date" for e
    by (rule criteria_overflow) (rule valid)
  have positive: "pr_page_size r \<noteq> 0"
    if "settings_accepted s" "parse_page_request p n (set_default_page_size s) (set_max_page_size s) = Inr r"
    using accepted_page_size [OF that] by simp
  show ?thesis
  proof (cases "filters_to_criteria f")
    case (Inl e)
    then have "fst (list_shipments r q w) = Inl e"
      using Inr by (simp add: list_shipments_def list_shipment_page_def bindE_def with_session_def begin_tx_def throw_def)
    then show ?thesis
      using Inr Inl overflow [of e] by auto
  next
    case cs: (Inr cs)
    have "sf_created_to f \<noteq> Some last_date" using cs overflow [of OverflowError] by auto
    then show ?thesis
      using Inr positive list_shipments_quiet [OF assms Inr cs, of r]
      by (auto simp: build_pagination_metadata_def row_count_ok_def page_offset_def)
  qed
qed

theorem list_shipments_errors_witness:
  "fst (list_shipments \<lparr>pr_page = 1, pr_page_size = 20\<rparr> (example_query\<lparr>sq_created_to := Some ''9999-12-31''\<rparr>) shipments_world)
     = Inl OverflowError \<and>
   fst (list_shipments \<lparr>pr_page = 10 ^ 19, pr_page_size = 20\<rparr> example_query shipments_world)
     = Inl (SqlError OtherSQLAlchemyError) \<and>
   fst (list_shipments \<lparr>pr_page = 1, pr_page_size = 0\<rparr> example_query shipments_world) = Inl ZeroDivisionError"
proof -
  have f: "build_filters (example_query\<lparr>sq_created_to := Some ''9999-12-31''\<rparr>) =
      Inr (example_filters\<lparr>sf_created_to := Some last_date\<rparr>)" "build_filters example_query = Inr example_filters"
    "sf_created_to example_filters \<noteq> Some last_date" "bindable example_filters"
    by code_simp+
  have w: "script shipments_world = []" by (simp add: shipments_world_def reader_world_def)
  note errors = list_shipments_errors [OF w, THEN conjunct1]
  show ?thesis
    using errors [of "\<lparr>pr_page = 1, pr_page_size = 20\<rparr>" "example_query\<lparr>sq_created_to := Some ''9999-12-31''\<rparr>"]
      errors [of "\<lparr>pr_page = 10 ^ 19, pr_page_size = 20\<rparr>" example_query] errors [of "\<lparr>pr_page = 1, pr_page_size = 0\<rparr>" example_query]
    unfolding f sum.case by (simp add: f)
qed

text \<open>
  The weight and the price of a listed shipment are plain decimal numerals of exactly the stored
  values, with their sign, whatever the scale or exponent of the stored decimal.
\<close>

theorem list_item_amounts_exact:
  "(\<exists>v. plain_value (si_weight_kg (to_list_item r)) = Some v \<and> decimal_eq v (ship_weight_kg r) \<and>
      dec_neg v = dec_neg (ship_weight_kg r)) \<and>
   (\<exists>v. plain_value (si_price (to_list_item r)) = Some v \<and> decimal_eq v (ship_price r) \<and>
      dec_neg v = dec_neg (ship_price r))"
  by (simp add: to_list_item_def plain_value_decimal_fixed)

end
