(* ===== verification/Api_Errors.thy ===== *)
theory Api_Errors
  imports Imports_Api_Spec Shipment_Query
begin

text \<open>
  The rest of the HTTP interface: the endpoint of shipments (app/api/v1/shipments.py), the health
  check (app/api/v1/health.py), and the responses the exception handlers of app/api/errors.py make
  of what an endpoint raises.
\<close>

section \<open>GET /shipments\<close>

definition list_shipments_endpoint ::
  "settings \<Rightarrow> string option \<Rightarrow> string option \<Rightarrow> shipment_query_params \<Rightarrow>
     ('z world_scheme, shipment_list_item listing) action" where
  "list_shipments_endpoint s page page_size q =
     (case parse_page_request page page_size (set_default_page_size s) (set_max_page_size s) of
        Inl (InvalidPaginationError message) \<Rightarrow> throw (bad_request ''INVALID_PAGINATION'' message)
      | Inl e \<Rightarrow> throw e
      | Inr r \<Rightarrow>
          try_except (list_shipments r q) (\<lambda>e. case e of
            InvalidShipmentFilterError message \<Rightarrow> throw (bad_request ''INVALID_FILTER'' message)
          | _ \<Rightarrow> throw e))"

definition healthcheck :: "(string \<times> string) list" where
  "healthcheck = [(''status'', ''ok'')]"

section \<open>The exception handlers\<close>

text \<open>
  The body of an error response and its status. Beside the exceptions of the program there are
  those of the framework: a request that does not match the signature of the endpoint, with the
  errors found, and an HTTP exception with its detail.
\<close>

record error_response =
  er_status :: int
  er_code :: string
  er_message :: string
  er_details :: "(string \<times> string) list option"

datatype api_exception =
  Raised exn | Request_Validation_Error "(string \<times> string) list" | Starlette_HTTP_Exception int string

text \<open>\<open>phrase\<close> is \<^verbatim>\<open>HTTPStatus(code).phrase\<close>.\<close>

definition handle_api_error :: "api_error \<Rightarrow> error_response" where
  "handle_api_error exc = \<lparr>er_status = ae_status exc, er_code = ae_code exc, er_message = ae_message exc,
     er_details = ae_details exc\<rparr>"

definition handle_request_validation_error :: "(string \<times> string) list \<Rightarrow> error_response" where
  "handle_request_validation_error errors = \<lparr>er_status = 422, er_code = ''INVALID_REQUEST'',
     er_message = ''Request validation failed.'', er_details = Some errors\<rparr>"

definition handle_http_exception :: "(int \<Rightarrow> string) \<Rightarrow> int \<Rightarrow> string \<Rightarrow> error_response" where
  "handle_http_exception phrase status detail = \<lparr>er_status = status, er_code = ''HTTP_ERROR'',
     er_message = (if detail \<noteq> [] then detail else phrase status), er_details = None\<rparr>"

definition handle_unexpected_error :: error_response where
  "handle_unexpected_error = \<lparr>er_status = 500, er_code = ''INTERNAL_ERROR'',
     er_message = ''An internal server error occurred.'', er_details = None\<rparr>"

definition respond_to :: "(int \<Rightarrow> string) \<Rightarrow> api_exception \<Rightarrow> error_response" where
  "respond_to phrase exc = (case exc of
     Raised (ApiError e) \<Rightarrow> handle_api_error e
   | Raised _ \<Rightarrow> handle_unexpected_error
   | Request_Validation_Error errors \<Rightarrow> handle_request_validation_error errors
   | Starlette_HTTP_Exception status detail \<Rightarrow> handle_http_exception phrase status detail)"

lemma respond_to_bad_request:
  "respond_to phrase (Raised (bad_request code message)) =
     \<lparr>er_status = 400, er_code = code, er_message = message, er_details = None\<rparr>"
  by (simp add: respond_to_def bad_request_def handle_api_error_def)

text \<open>An exception that is not meant for the client says nothing about the server.\<close>

lemma unexpected_hidden:
  "(\<And>a. e \<noteq> ApiError a) \<Longrightarrow> respond_to phrase (Raised e) = handle_unexpected_error"
  by (cases e) (auto simp: respond_to_def)

section \<open>Rejected uploads\<close>

text \<open>A file is offered under a name that ends in .xlsx, in any case, and has something before it.\<close>

definition upload_named :: "upload_file option \<Rightarrow> string \<Rightarrow> bool" where
  "upload_named file name \<longleftrightarrow> (\<exists>upload full. file = Some upload \<and> up_filename upload = Some full \<and>
     name = path_name full \<and> (\<exists>stem ext. name = stem @ ext \<and> stem \<noteq> [] \<and> py_lower ext = ''.xlsx''))"

text \<open>A key is usable: at most 255 characters, none of them a control character, no white space around it.\<close>

definition key_usable :: "string option \<Rightarrow> bool" where
  "key_usable key \<longleftrightarrow> (\<forall>k. key = Some k \<longrightarrow> k \<noteq> [] \<and> length k \<le> 255 \<and> py_strip k = k \<and>
     (\<forall>c \<in> set k. 32 \<le> (of_char c :: nat) \<and> (of_char c :: nat) \<noteq> 127))"

lemma validate_file_name_iff:
  "validate_original_file_name name = Inr n \<longleftrightarrow>
     (\<exists>full. name = Some full \<and> n = path_name full \<and> (\<exists>stem ext. n = stem @ ext \<and> stem \<noteq> [] \<and> py_lower ext = ''.xlsx''))"
  unfolding xlsx_suffix [symmetric]
  by (auto simp: validate_original_file_name_def Let_def path_suffix_def py_lower_def [of "[]"] split: option.splits if_splits)

lemma validate_key_iff:
  "validate_idempotency_key key = (if key_usable key then Inr key else Inl invalid_idempotency_key)"
proof (cases key)
  case (Some k)
  have "list_ex (\<lambda>c. (of_char c :: nat) < 32 \<or> (of_char c :: nat) = 127) k \<longleftrightarrow>
      \<not> (\<forall>c \<in> set k. 32 \<le> (of_char c :: nat) \<and> (of_char c :: nat) \<noteq> 127)"
    unfolding list_ex_iff by (meson not_less)
  then show ?thesis unfolding Some validate_idempotency_key_def key_usable_def by auto
qed (simp add: validate_idempotency_key_def key_usable_def)

text \<open>
  C36. Which uploads are turned away at the door: a request without a file, or whose file does not
  have a name that ends in \<^verbatim>\<open>.xlsx\<close> (any case) after something else, is answered 400
  INVALID_FILE_FORMAT; one whose idempotency key is empty, has white space around it, control
  characters or more than 255 characters is answered 400 INVALID_IDEMPOTENCY_KEY; in both cases
  the storage and the database are untouched. Any other request is stored and imported under the
  last component of the name.
\<close>

theorem create_import_endpoint_admits:
  "if \<exists>name. upload_named file name
   then if key_usable key
        then \<exists>upload name. file = Some upload \<and> upload_named file name \<and>
          create_import_endpoint env file key w = store_and_create env upload name key w
        else \<exists>e. create_import_endpoint env file key w = (Inl e, w) \<and>
          er_status (respond_to phrase (Raised e)) = 400 \<and>
          er_code (respond_to phrase (Raised e)) = ''INVALID_IDEMPOTENCY_KEY''
   else \<exists>e. create_import_endpoint env file key w = (Inl e, w) \<and>
     er_status (respond_to phrase (Raised e)) = 400 \<and>
     er_code (respond_to phrase (Raised e)) = ''INVALID_FILE_FORMAT''"
proof (cases "file")
  case None
  then show ?thesis
    by (simp add: upload_named_def create_import_endpoint_def throw_def respond_to_bad_request)
next
  case (Some upload)
  have named: "upload_named file name \<longleftrightarrow> validate_original_file_name (up_filename upload) = Inr name" for name
    unfolding validate_file_name_iff upload_named_def Some by auto
  show ?thesis
  proof (cases "validate_original_file_name (up_filename upload)")
    case (Inl e)
    then have "\<nexists>name. upload_named file name" using named by simp
    moreover have "\<exists>m. e = bad_request ''INVALID_FILE_FORMAT'' m"
      using Inl by (auto simp: validate_original_file_name_def Let_def split: option.splits if_splits)
    ultimately show ?thesis
      using Inl by (auto simp: Some create_import_endpoint_def throw_def respond_to_bad_request)
  next
    case (Inr name)
    then have "upload_named file name" using named by simp
    then show ?thesis
      using Inr by (auto simp: Some create_import_endpoint_def validate_key_iff throw_def
          invalid_idempotency_key_def respond_to_bad_request)
  qed
qed

end
