(* ===== verification/Sql_Schema.thy ===== *)
theory Sql_Schema
  imports Db_Models
begin

text \<open>
  The DDL the migrations issue and the declarative models describe: tables with their columns,
  CHECK and UNIQUE constraints and foreign keys, indexes, the catalog they live in, and what a
  table admits of a row. CHECK expressions are evaluated as SQL does, in three-valued logic: a
  check refuses a row only when it is false, not when it is unknown.
\<close>

section \<open>Tables\<close>

datatype sql_type = Varchar nat | Text | Integer | Uuid | Timestamptz | Date | Numeric nat nat | Jsonb

datatype check =
  Is_In string "string list" | Is_Eq string string | Is_Neq string string | Is_Null string | Is_Not_Null string |
  Gt_Zero string | Ge_Zero string | And_Check check check | Or_Check check check

record column =
  col_name :: string
  col_type :: sql_type
  col_nullable :: bool
  col_server_default :: "string option"
  col_primary_key :: bool
  col_foreign_key :: "(string \<times> string \<times> string) option"  \<comment> \<open>table, column, ON DELETE\<close>

record table =
  tab_name :: string
  tab_columns :: "column list"
  tab_checks :: "(string \<times> check) list"
  tab_uniques :: "(string \<times> string list) list"

record index =
  ix_name :: string
  ix_table :: string
  ix_columns :: "string list"

text \<open>A plain column, and the variations of it the declarations use.\<close>

definition plain_column :: "string \<Rightarrow> sql_type \<Rightarrow> bool \<Rightarrow> column" where
  "plain_column name t nullable = \<lparr>col_name = name, col_type = t, col_nullable = nullable,
     col_server_default = None, col_primary_key = False, col_foreign_key = None\<rparr>"

definition defaulting_to :: "string \<Rightarrow> column \<Rightarrow> column" where
  "defaulting_to d c = c\<lparr>col_server_default := Some d\<rparr>"

definition id_column :: column where
  "id_column = (plain_column ''id'' Uuid False)\<lparr>col_primary_key := True\<rparr>"

definition import_id_column :: column where
  "import_id_column = (plain_column ''import_id'' Uuid False)
     \<lparr>col_foreign_key := Some (''import_jobs'', ''id'', ''CASCADE'')\<rparr>"

section \<open>The catalog\<close>

record catalog =
  cat_tables :: "table list"
  cat_indexes :: "index list"

definition empty_catalog :: catalog where
  "empty_catalog = \<lparr>cat_tables = [], cat_indexes = []\<rparr>"

datatype ddl = Create_Table table | Create_Index string string "string list" | Drop_Index string string | Drop_Table string

datatype ddl_error = Duplicate_Relation string | Undefined_Relation string | Undefined_Column string | Dependent_Objects string

text \<open>Tables and indexes share the name space of relations.\<close>

definition relation_names :: "catalog \<Rightarrow> string list" where
  "relation_names c = map tab_name (cat_tables c) @ map ix_name (cat_indexes c)"

definition references :: "table \<Rightarrow> (string \<times> string) list" where
  "references t = List.map_filter (\<lambda>c. map_option (\<lambda>(tab, col, _). (tab, col)) (col_foreign_key c)) (tab_columns t)"

definition column_names :: "catalog \<Rightarrow> string \<Rightarrow> string set" where
  "column_names c name = {col_name k |k t. t \<in> set (cat_tables c) \<and> tab_name t = name \<and> k \<in> set (tab_columns t)}"

lemma column_names_code [code]:
  "column_names c name =
     set (concat (map (map col_name \<circ> tab_columns) (filter (\<lambda>t. tab_name t = name) (cat_tables c))))"
  by (auto simp: column_names_def)

fun exec_ddl :: "ddl \<Rightarrow> catalog \<Rightarrow> ddl_error + catalog" where
  "exec_ddl (Create_Table t) c =
     (if tab_name t \<in> set (relation_names c) then Inl (Duplicate_Relation (tab_name t))
      else case List.find (\<lambda>(tab, col). col \<notin> column_names c tab) (references t) of
             Some (tab, col) \<Rightarrow> Inl (Undefined_Relation tab)
           | None \<Rightarrow> Inr (c\<lparr>cat_tables := cat_tables c @ [t]\<rparr>))"
| "exec_ddl (Create_Index name tab cols) c =
     (if name \<in> set (relation_names c) then Inl (Duplicate_Relation name)
      else if tab \<notin> set (map tab_name (cat_tables c)) then Inl (Undefined_Relation tab)
      else case List.find (\<lambda>col. col \<notin> column_names c tab) cols of
             Some col \<Rightarrow> Inl (Undefined_Column col)
           | None \<Rightarrow> Inr (c\<lparr>cat_indexes := cat_indexes c @ [\<lparr>ix_name = name, ix_table = tab, ix_columns = cols\<rparr>]\<rparr>))"
| "exec_ddl (Drop_Index name tab) c =
     (if name \<notin> set (map ix_name (cat_indexes c)) then Inl (Undefined_Relation name)
      else Inr (c\<lparr>cat_indexes := filter (\<lambda>i. ix_name i \<noteq> name) (cat_indexes c)\<rparr>))"
| "exec_ddl (Drop_Table name) c =
     (if name \<notin> set (map tab_name (cat_tables c)) then Inl (Undefined_Relation name)
      else if list_ex (\<lambda>t. tab_name t \<noteq> name \<and> name \<in> set (map fst (references t))) (cat_tables c)
      then Inl (Dependent_Objects name)
      else Inr \<lparr>cat_tables = filter (\<lambda>t. tab_name t \<noteq> name) (cat_tables c),
             cat_indexes = filter (\<lambda>i. ix_table i \<noteq> name) (cat_indexes c)\<rparr>)"

fun run_ddl :: "ddl list \<Rightarrow> catalog \<Rightarrow> ddl_error + catalog" where
  "run_ddl [] c = Inr c"
| "run_ddl (op # ops) c = (case exec_ddl op c of Inl e \<Rightarrow> Inl e | Inr c' \<Rightarrow> run_ddl ops c')"

lemma run_ddl_append:
  "run_ddl (xs @ ys) c = (case run_ddl xs c of Inl e \<Rightarrow> Inl e | Inr c' \<Rightarrow> run_ddl ys c')"
  by (induction xs arbitrary: c) (auto split: sum.split)

subsection \<open>Undoing\<close>

text \<open>What drops a new object. A consistent catalog has what its tables and indexes refer to.\<close>

fun undo_ddl :: "ddl \<Rightarrow> ddl" where
  "undo_ddl (Create_Table t) = Drop_Table (tab_name t)"
| "undo_ddl (Create_Index name tab cols) = Drop_Index name tab"
| "undo_ddl op = op"

definition creates :: "ddl \<Rightarrow> bool" where
  "creates op \<longleftrightarrow> (case op of Create_Table _ \<Rightarrow> True | Create_Index _ _ _ \<Rightarrow> True | _ \<Rightarrow> False)"

definition catalog_ok :: "catalog \<Rightarrow> bool" where
  "catalog_ok c \<longleftrightarrow>
     (\<forall>t \<in> set (cat_tables c). set (map fst (references t)) \<subseteq> set (map tab_name (cat_tables c))) \<and>
     set (map ix_table (cat_indexes c)) \<subseteq> set (map tab_name (cat_tables c))"

lemma column_names_table: "col \<in> column_names c tab \<Longrightarrow> tab \<in> set (map tab_name (cat_tables c))"
  by (auto simp: column_names_def)

lemma create_table_run:
  assumes "exec_ddl (Create_Table t) c = Inr c'"
  shows "c' = c\<lparr>cat_tables := cat_tables c @ [t]\<rparr>" "tab_name t \<notin> set (map tab_name (cat_tables c))"
    "set (map fst (references t)) \<subseteq> set (map tab_name (cat_tables c))"
proof -
  have none: "List.find (\<lambda>(tab, col). col \<notin> column_names c tab) (references t) = None"
    and new: "tab_name t \<notin> set (relation_names c)" and c': "c' = c\<lparr>cat_tables := cat_tables c @ [t]\<rparr>"
    using assms by (auto split: if_splits option.splits prod.splits)
  from none have "\<forall>(tab, col) \<in> set (references t). col \<in> column_names c tab"
    by (auto simp: find_None_iff)
  then show "set (map fst (references t)) \<subseteq> set (map tab_name (cat_tables c))"
    using column_names_table by fastforce
qed (use assms in \<open>auto simp: relation_names_def split: if_splits option.splits prod.splits\<close>)

lemma create_index_run:
  assumes "exec_ddl (Create_Index name tab cols) c = Inr c'"
  shows "c' = c\<lparr>cat_indexes := cat_indexes c @ [\<lparr>ix_name = name, ix_table = tab, ix_columns = cols\<rparr>]\<rparr>"
    "name \<notin> set (map ix_name (cat_indexes c))" "tab \<in> set (map tab_name (cat_tables c))"
  using assms by (auto simp: relation_names_def split: if_splits option.splits)

lemma exec_ddl_ok: "creates op \<Longrightarrow> catalog_ok c \<Longrightarrow> exec_ddl op c = Inr c' \<Longrightarrow> catalog_ok c'"
proof (cases op)
  case (Create_Table t)
  assume ok: "catalog_ok c" and run: "exec_ddl op c = Inr c'"
  note run = create_table_run [OF run [unfolded Create_Table]]
  show ?thesis using ok run(3) unfolding run(1) catalog_ok_def by simp blast
next
  case (Create_Index name tab cols)
  assume ok: "catalog_ok c" and run: "exec_ddl op c = Inr c'"
  note run = create_index_run [OF run [unfolded Create_Index]]
  show ?thesis using ok run(3) unfolding run(1) catalog_ok_def by simp
qed (auto simp: creates_def)

lemma filter_all: "(\<And>x. x \<in> set xs \<Longrightarrow> p x) \<Longrightarrow> filter p xs = xs"
  by (simp add: filter_id_conv)

lemma undo_run:
  assumes "creates op" "catalog_ok c" "exec_ddl op c = Inr c'"
  shows "exec_ddl (undo_ddl op) c' = Inr c"
proof (cases op)
  case (Create_Table t)
  note run = create_table_run [OF assms(3) [unfolded Create_Table]]
  have name: "tab_name s \<noteq> tab_name t" if "s \<in> set (cat_tables c)" for s
    using run(2) that by (metis image_eqI set_map)
  have "tab_name t \<notin> set (map fst (references s))" if "s \<in> set (cat_tables c)" for s
    using run(2) assms(2) that unfolding catalog_ok_def by blast
  then have free: "\<not> list_ex (\<lambda>s. tab_name s \<noteq> tab_name t \<and> tab_name t \<in> set (map fst (references s))) (cat_tables c)"
    unfolding list_ex_iff by blast
  have "ix_table i \<noteq> tab_name t" if "i \<in> set (cat_indexes c)" for i
  proof -
    have "ix_table i \<in> set (map tab_name (cat_tables c))" using assms(2) that by (auto simp: catalog_ok_def)
    then show ?thesis using run(2) by metis
  qed
  then have "filter (\<lambda>i. ix_table i \<noteq> tab_name t) (cat_indexes c) = cat_indexes c"
    "filter (\<lambda>s. tab_name s \<noteq> tab_name t) (cat_tables c) = cat_tables c"
    using name by (simp_all add: filter_all)
  then show ?thesis unfolding Create_Table run(1) using free by simp
next
  case (Create_Index name tab cols)
  note run = create_index_run [OF assms(3) [unfolded Create_Index]]
  have "ix_name i \<noteq> name" if "i \<in> set (cat_indexes c)" for i
    using run(2) that by (metis image_eqI set_map)
  then show ?thesis using run(1) by (simp add: Create_Index filter_all)
qed (use assms(1) in \<open>simp_all add: creates_def\<close>)

lemma undo_all:
  "list_all creates ops \<Longrightarrow> catalog_ok c \<Longrightarrow> run_ddl ops c = Inr c' \<Longrightarrow>
     run_ddl (rev (map undo_ddl ops)) c' = Inr c"
proof (induction ops arbitrary: c)
  case (Cons op ops)
  from Cons.prems(3) obtain c1 where c1: "exec_ddl op c = Inr c1" "run_ddl ops c1 = Inr c'"
    by (auto split: sum.splits)
  have ok: "creates op" "list_all creates ops" using Cons.prems(1) by simp_all
  have "run_ddl (rev (map undo_ddl ops)) c' = Inr c1"
    by (rule Cons.IH [OF ok(2) exec_ddl_ok [OF ok(1) Cons.prems(2) c1(1)] c1(2)])
  then show ?case using undo_run [OF ok(1) Cons.prems(2) c1(1)] by (simp add: run_ddl_append)
qed simp

section \<open>What a table admits\<close>

datatype sql_value =
  Null | Txt string | Whole int | Dec decimal | Key uuid | At timestamp | Day pydate | Doc pyval

text \<open>INTEGER has 32 bits; NUMERIC(p, s) has at most \<open>p\<close> digits, \<open>s\<close> of them after the point.\<close>

definition int4 :: "int \<Rightarrow> bool" where
  "int4 i \<longleftrightarrow> - (2 ^ 31) \<le> i \<and> i < 2 ^ 31"

definition numeric_fits :: "nat \<Rightarrow> nat \<Rightarrow> decimal \<Rightarrow> bool" where
  "numeric_fits p s d \<longleftrightarrow>
     - int s \<le> dec_exp d \<and> dec_coeff d * 10 ^ nat (dec_exp d + int s) < 10 ^ p"

fun type_admits :: "sql_type \<Rightarrow> sql_value \<Rightarrow> bool" where
  "type_admits t Null = True"
| "type_admits (Varchar n) (Txt s) = (length s \<le> n)"
| "type_admits Text (Txt s) = True"
| "type_admits Integer (Whole i) = int4 i"
| "type_admits (Numeric p s) (Dec d) = numeric_fits p s d"
| "type_admits Uuid (Key u) = True"
| "type_admits Timestamptz (At x) = True"
| "type_admits Date (Day d) = True"
| "type_admits Jsonb (Doc v) = json_document v"
| "type_admits t v = False"

type_synonym sql_row = "(string \<times> sql_value) list"

definition value_of :: "sql_row \<Rightarrow> string \<Rightarrow> sql_value" where
  "value_of row name = (case map_of row name of None \<Rightarrow> Null | Some v \<Rightarrow> v)"

definition column_admits :: "sql_row \<Rightarrow> column \<Rightarrow> bool" where
  "column_admits row c \<longleftrightarrow>
     type_admits (col_type c) (value_of row (col_name c)) \<and>
     (value_of row (col_name c) = Null \<longrightarrow> col_nullable c \<and> \<not> col_primary_key c)"

text \<open>\<^const>\<open>None\<close> is the truth value unknown.\<close>

fun and3 :: "bool option \<Rightarrow> bool option \<Rightarrow> bool option" where
  "and3 (Some False) b = Some False"
| "and3 a (Some False) = Some False"
| "and3 (Some True) (Some True) = Some True"
| "and3 a b = None"

definition not3 :: "bool option \<Rightarrow> bool option" where
  "not3 = map_option Not"

definition or3 :: "bool option \<Rightarrow> bool option \<Rightarrow> bool option" where
  "or3 a b = not3 (and3 (not3 a) (not3 b))"

definition text_compare :: "(string \<Rightarrow> bool) \<Rightarrow> sql_value \<Rightarrow> bool option" where
  "text_compare p v = (case v of Txt s \<Rightarrow> Some (p s) | _ \<Rightarrow> None)"

definition number_compare :: "(decimal \<Rightarrow> bool) \<Rightarrow> sql_value \<Rightarrow> bool option" where
  "number_compare p v = (case v of Dec d \<Rightarrow> Some (p d) | _ \<Rightarrow> None)"

fun eval_check :: "sql_row \<Rightarrow> check \<Rightarrow> bool option" where
  "eval_check row (Is_In c xs) = text_compare (\<lambda>s. s \<in> set xs) (value_of row c)"
| "eval_check row (Is_Eq c x) = text_compare (\<lambda>s. s = x) (value_of row c)"
| "eval_check row (Is_Neq c x) = text_compare (\<lambda>s. s \<noteq> x) (value_of row c)"
| "eval_check row (Is_Null c) = Some (value_of row c = Null)"
| "eval_check row (Is_Not_Null c) = Some (value_of row c \<noteq> Null)"
| "eval_check row (Gt_Zero c) = number_compare (\<lambda>d. \<not> decimal_le_0 d) (value_of row c)"
| "eval_check row (Ge_Zero c) = number_compare (\<lambda>d. \<not> decimal_lt_0 d) (value_of row c)"
| "eval_check row (And_Check a b) = and3 (eval_check row a) (eval_check row b)"
| "eval_check row (Or_Check a b) = or3 (eval_check row a) (eval_check row b)"

definition table_admits :: "table \<Rightarrow> sql_row \<Rightarrow> bool" where
  "table_admits t row \<longleftrightarrow>
     list_all (column_admits row) (tab_columns t) \<and>
     list_all (\<lambda>(_, c). eval_check row c \<noteq> Some False) (tab_checks t)"

lemma or3_simps [simp]:
  "or3 (Some a) (Some b) = Some (a \<or> b)" "and3 (Some a) (Some b) = Some (a \<and> b)"
  by (cases a; cases b; simp add: or3_def not3_def)+

end
