(* ===== verification/Migrations.thy ===== *)
theory Migrations
  imports Sql_Schema
begin

text \<open>
  The migrations (migrations/versions) as the DDL they issue, and the metadata the models
  declare (app/db/models, collected by \<^verbatim>\<open>Base.metadata\<close>, the target of migrations/env.py): the
  catalog the chain of migrations builds is the one the models describe, downgrading undoes it,
  and its constraints are those the database model checks.
\<close>

definition quoted :: "string \<Rightarrow> string" where
  "quoted s = CHR 0x27 # s @ [CHR 0x27]"

section \<open>0002: the tables\<close>

definition create_import_jobs :: table where
  "create_import_jobs = \<lparr>tab_name = ''import_jobs'',
    tab_columns = [
      id_column,
      defaulting_to (quoted ''PENDING'') (plain_column ''status'' (Varchar 32) False),
      plain_column ''original_file_name'' (Varchar 255) False,
      plain_column ''stored_file_path'' (Varchar 1024) False,
      plain_column ''file_size_bytes'' Integer False,
      plain_column ''content_type'' (Varchar 255) True,
      plain_column ''idempotency_key'' (Varchar 255) True,
      plain_column ''idempotency_fingerprint'' (Varchar 64) False,
      defaulting_to ''0'' (plain_column ''total_rows'' Integer False),
      defaulting_to ''0'' (plain_column ''processed_rows'' Integer False),
      defaulting_to ''0'' (plain_column ''success_count'' Integer False),
      defaulting_to ''0'' (plain_column ''failed_count'' Integer False),
      defaulting_to ''0'' (plain_column ''attempt_count'' Integer False),
      plain_column ''max_attempts'' Integer False,
      plain_column ''processing_token'' Uuid True,
      plain_column ''locked_by_worker'' (Varchar 255) True,
      plain_column ''started_at'' Timestamptz True,
      plain_column ''last_heartbeat_at'' Timestamptz True,
      plain_column ''finished_at'' Timestamptz True,
      plain_column ''last_failure_reason'' Text True,
      plain_column ''failure_reason'' Text True,
      plain_column ''last_requeued_at'' Timestamptz True,
      defaulting_to ''now()'' (plain_column ''created_at'' Timestamptz False),
      defaulting_to ''now()'' (plain_column ''updated_at'' Timestamptz False)],
    tab_checks = [
      (''ck_import_jobs_status'', Is_In ''status'' [''PENDING'', ''PROCESSING'', ''COMPLETED'', ''FAILED'']),
      (''ck_import_jobs_failure_reason_terminal'',
        Or_Check (And_Check (Is_Eq ''status'' ''FAILED'') (Is_Not_Null ''failure_reason''))
          (And_Check (Is_Neq ''status'' ''FAILED'') (Is_Null ''failure_reason'')))],
    tab_uniques = [(''uq_import_jobs_idempotency_key'', [''idempotency_key''])]\<rparr>"

definition create_import_dispatch_outbox :: table where
  "create_import_dispatch_outbox = \<lparr>tab_name = ''import_dispatch_outbox'',
    tab_columns = [
      id_column,
      import_id_column,
      defaulting_to (quoted ''PENDING'') (plain_column ''status'' (Varchar 32) False),
      defaulting_to ''0'' (plain_column ''attempt_count'' Integer False),
      defaulting_to ''now()'' (plain_column ''available_at'' Timestamptz False),
      plain_column ''claimed_at'' Timestamptz True,
      plain_column ''claim_token'' Uuid True,
      plain_column ''published_at'' Timestamptz True,
      plain_column ''last_error'' Text True,
      defaulting_to ''now()'' (plain_column ''created_at'' Timestamptz False),
      defaulting_to ''now()'' (plain_column ''updated_at'' Timestamptz False)],
    tab_checks = [(''ck_import_dispatch_outbox_status'',
      Is_In ''status'' [''PENDING'', ''PROCESSING'', ''PUBLISHED'', ''FAILED''])],
    tab_uniques = []\<rparr>"

definition create_shipments :: table where
  "create_shipments = \<lparr>tab_name = ''shipments'',
    tab_columns = [
      id_column,
      import_id_column,
      plain_column ''shipment_code'' (Varchar 128) False,
      plain_column ''customer_name'' (Varchar 150) False,
      plain_column ''origin_city'' (Varchar 255) False,
      plain_column ''destination_city'' (Varchar 255) False,
      plain_column ''weight_kg'' (Numeric 12 3) False,
      plain_column ''price'' (Numeric 18 2) False,
      defaulting_to (quoted ''PENDING'') (plain_column ''status'' (Varchar 32) False),
      plain_column ''delivery_date'' Date True,
      defaulting_to ''now()'' (plain_column ''created_at'' Timestamptz False),
      defaulting_to ''now()'' (plain_column ''updated_at'' Timestamptz False)],
    tab_checks = [
      (''ck_shipments_status'', Is_In ''status'' [''PENDING'', ''IN_TRANSIT'', ''DELIVERED'', ''CANCELED'']),
      (''ck_shipments_weight_kg_positive'', Gt_Zero ''weight_kg''),
      (''ck_shipments_price_non_negative'', Ge_Zero ''price'')],
    tab_uniques = [(''uq_shipments_shipment_code'', [''shipment_code''])]\<rparr>"

definition create_import_errors :: table where
  "create_import_errors = \<lparr>tab_name = ''import_errors'',
    tab_columns = [
      id_column,
      import_id_column,
      plain_column ''row_number'' Integer False,
      plain_column ''field'' (Varchar 255) False,
      plain_column ''error'' Text False,
      plain_column ''raw_data'' Jsonb False,
      defaulting_to ''now()'' (plain_column ''created_at'' Timestamptz False)],
    tab_checks = [], tab_uniques = []\<rparr>"

definition upgrade_0002 :: "ddl list" where
  "upgrade_0002 = [
     Create_Table create_import_jobs,
     Create_Index ''ix_import_jobs_status'' ''import_jobs'' [''status''],
     Create_Index ''ix_import_jobs_status_last_heartbeat_at'' ''import_jobs'' [''status'', ''last_heartbeat_at''],
     Create_Table create_import_dispatch_outbox,
     Create_Index ''ix_import_dispatch_outbox_status_available_at'' ''import_dispatch_outbox'' [''status'', ''available_at''],
     Create_Index ''ix_import_dispatch_outbox_status_claimed_at'' ''import_dispatch_outbox'' [''status'', ''claimed_at''],
     Create_Table create_shipments,
     Create_Table create_import_errors,
     Create_Index ''ix_import_errors_import_id_row_number_id'' ''import_errors'' [''import_id'', ''row_number'', ''id'']]"

definition downgrade_0002 :: "ddl list" where
  "downgrade_0002 = [
     Drop_Index ''ix_import_errors_import_id_row_number_id'' ''import_errors'',
     Drop_Table ''import_errors'',
     Drop_Table ''shipments'',
     Drop_Index ''ix_import_dispatch_outbox_status_claimed_at'' ''import_dispatch_outbox'',
     Drop_Index ''ix_import_dispatch_outbox_status_available_at'' ''import_dispatch_outbox'',
     Drop_Table ''import_dispatch_outbox'',
     Drop_Index ''ix_import_jobs_status_last_heartbeat_at'' ''import_jobs'',
     Drop_Index ''ix_import_jobs_status'' ''import_jobs'',
     Drop_Table ''import_jobs'']"

section \<open>The chain of revisions\<close>

record migration =
  mig_revision :: string
  mig_down_revision :: "string option"
  mig_upgrade :: "ddl list"
  mig_downgrade :: "ddl list"

definition migration_0001 :: migration where
  "migration_0001 = \<lparr>mig_revision = ''0001_runtime_baseline'', mig_down_revision = None,
     mig_upgrade = [], mig_downgrade = []\<rparr>"

definition migration_0002 :: migration where
  "migration_0002 = \<lparr>mig_revision = ''0002_models'', mig_down_revision = Some ''0001_runtime_baseline'',
     mig_upgrade = upgrade_0002, mig_downgrade = downgrade_0002\<rparr>"

definition migration_0003 :: migration where
  "migration_0003 = \<lparr>mig_revision = ''0003_fingerprint_index'', mig_down_revision = Some ''0002_models'',
     mig_upgrade = [Create_Index ''ix_import_jobs_idempotency_fingerprint'' ''import_jobs'' [''idempotency_fingerprint'']],
     mig_downgrade = [Drop_Index ''ix_import_jobs_idempotency_fingerprint'' ''import_jobs'']\<rparr>"

definition migrations :: "migration list" where
  "migrations = [migration_0001, migration_0002, migration_0003]"

text \<open>A chain: each revision names the one before it, so there is one order to run them in.\<close>

fun revision_chain :: "string option \<Rightarrow> migration list \<Rightarrow> bool" where
  "revision_chain r [] = True"
| "revision_chain r (m # ms) = (mig_down_revision m = r \<and> revision_chain (Some (mig_revision m)) ms)"

definition upgrade_head :: "catalog \<Rightarrow> ddl_error + catalog" where
  "upgrade_head = run_ddl (concat (map mig_upgrade migrations))"

lemma migrations_chain: "revision_chain None migrations"
  by code_simp

section \<open>The models\<close>

text \<open>
  \<^verbatim>\<open>mapped_column\<close>: beside what the database sees, the default the ORM fills in and the
  \<^verbatim>\<open>onupdate\<close> expression. \<^verbatim>\<open>func.now()\<close> is rendered \<^verbatim>\<open>now()\<close>.
\<close>

datatype orm_default = Orm_uuid4 | Orm_text string | Orm_int int

record mapped_column = column +
  mc_default :: "orm_default option"
  mc_onupdate :: "string option"

definition func_now :: string where
  "func_now = ''now()''"

definition mapped :: "column \<Rightarrow> mapped_column" where
  "mapped c = column.extend c (mapped_column.fields None None)"

definition orm_default :: "orm_default \<Rightarrow> mapped_column \<Rightarrow> mapped_column" where
  "orm_default d c = c\<lparr>mc_default := Some d\<rparr>"

record orm_model =
  model_table :: string
  model_columns :: "mapped_column list"
  model_checks :: "(string \<times> check) list"
  model_uniques :: "(string \<times> string list) list"
  model_indexes :: "(string \<times> string list) list"

definition orm_id :: mapped_column where
  "orm_id = orm_default Orm_uuid4 (mapped ((plain_column ''id'' Uuid False)\<lparr>col_primary_key := True\<rparr>))"

definition orm_import_id :: mapped_column where
  "orm_import_id = mapped ((plain_column ''import_id'' Uuid False)
     \<lparr>col_foreign_key := Some (''import_jobs'', ''id'', ''CASCADE'')\<rparr>)"

definition orm_status :: mapped_column where
  "orm_status = orm_default (Orm_text ''PENDING'')
     (mapped (defaulting_to (quoted ''PENDING'') (plain_column ''status'' (Varchar 32) False)))"

definition orm_counter :: "string \<Rightarrow> mapped_column" where
  "orm_counter name = orm_default (Orm_int 0) (mapped (defaulting_to ''0'' (plain_column name Integer False)))"

definition orm_created_at :: mapped_column where
  "orm_created_at = mapped (defaulting_to func_now (plain_column ''created_at'' Timestamptz False))"

definition orm_updated_at :: mapped_column where
  "orm_updated_at = (mapped (defaulting_to func_now (plain_column ''updated_at'' Timestamptz False)))
     \<lparr>mc_onupdate := Some func_now\<rparr>"

definition ImportJob_model :: orm_model where
  "ImportJob_model = \<lparr>model_table = ''import_jobs'',
    model_columns = [
      orm_id,
      orm_status,
      mapped (plain_column ''original_file_name'' (Varchar 255) False),
      mapped (plain_column ''stored_file_path'' (Varchar 1024) False),
      mapped (plain_column ''file_size_bytes'' Integer False),
      mapped (plain_column ''content_type'' (Varchar 255) True),
      mapped (plain_column ''idempotency_key'' (Varchar 255) True),
      mapped (plain_column ''idempotency_fingerprint'' (Varchar 64) False),
      orm_counter ''total_rows'',
      orm_counter ''processed_rows'',
      orm_counter ''success_count'',
      orm_counter ''failed_count'',
      orm_counter ''attempt_count'',
      mapped (plain_column ''max_attempts'' Integer False),
      mapped (plain_column ''processing_token'' Uuid True),
      mapped (plain_column ''locked_by_worker'' (Varchar 255) True),
      mapped (plain_column ''started_at'' Timestamptz True),
      mapped (plain_column ''last_heartbeat_at'' Timestamptz True),
      mapped (plain_column ''finished_at'' Timestamptz True),
      mapped (plain_column ''last_failure_reason'' Text True),
      mapped (plain_column ''failure_reason'' Text True),
      mapped (plain_column ''last_requeued_at'' Timestamptz True),
      orm_created_at,
      orm_updated_at],
    model_checks = [
      (''ck_import_jobs_status'', Is_In ''status'' [''PENDING'', ''PROCESSING'', ''COMPLETED'', ''FAILED'']),
      (''ck_import_jobs_failure_reason_terminal'',
        Or_Check (And_Check (Is_Eq ''status'' ''FAILED'') (Is_Not_Null ''failure_reason''))
          (And_Check (Is_Neq ''status'' ''FAILED'') (Is_Null ''failure_reason'')))],
    model_uniques = [(''uq_import_jobs_idempotency_key'', [''idempotency_key''])],
    model_indexes = [
      (''ix_import_jobs_status'', [''status'']),
      (''ix_import_jobs_status_last_heartbeat_at'', [''status'', ''last_heartbeat_at'']),
      (''ix_import_jobs_idempotency_fingerprint'', [''idempotency_fingerprint''])]\<rparr>"

definition ImportDispatchOutbox_model :: orm_model where
  "ImportDispatchOutbox_model = \<lparr>model_table = ''import_dispatch_outbox'',
    model_columns = [
      orm_id,
      orm_import_id,
      orm_status,
      orm_counter ''attempt_count'',
      mapped (defaulting_to func_now (plain_column ''available_at'' Timestamptz False)),
      mapped (plain_column ''claimed_at'' Timestamptz True),
      mapped (plain_column ''claim_token'' Uuid True),
      mapped (plain_column ''published_at'' Timestamptz True),
      mapped (plain_column ''last_error'' Text True),
      orm_created_at,
      orm_updated_at],
    model_checks = [(''ck_import_dispatch_outbox_status'',
      Is_In ''status'' [''PENDING'', ''PROCESSING'', ''PUBLISHED'', ''FAILED''])],
    model_uniques = [],
    model_indexes = [
      (''ix_import_dispatch_outbox_status_available_at'', [''status'', ''available_at'']),
      (''ix_import_dispatch_outbox_status_claimed_at'', [''status'', ''claimed_at''])]\<rparr>"

definition Shipment_model :: orm_model where
  "Shipment_model = \<lparr>model_table = ''shipments'',
    model_columns = [
      orm_id,
      orm_import_id,
      mapped (plain_column ''shipment_code'' (Varchar 128) False),
      mapped (plain_column ''customer_name'' (Varchar 150) False),
      mapped (plain_column ''origin_city'' (Varchar 255) False),
      mapped (plain_column ''destination_city'' (Varchar 255) False),
      mapped (plain_column ''weight_kg'' (Numeric 12 3) False),
      mapped (plain_column ''price'' (Numeric 18 2) False),
      orm_status,
      mapped (plain_column ''delivery_date'' Date True),
      orm_created_at,
      orm_updated_at],
    model_checks = [
      (''ck_shipments_status'', Is_In ''status'' [''PENDING'', ''IN_TRANSIT'', ''DELIVERED'', ''CANCELED'']),
      (''ck_shipments_weight_kg_positive'', Gt_Zero ''weight_kg''),
      (''ck_shipments_price_non_negative'', Ge_Zero ''price'')],
    model_uniques = [(''uq_shipments_shipment_code'', [''shipment_code''])],
    model_indexes = []\<rparr>"

definition ImportError_model :: orm_model where
  "ImportError_model = \<lparr>model_table = ''import_errors'',
    model_columns = [
      orm_id,
      orm_import_id,
      mapped (plain_column ''row_number'' Integer False),
      mapped (plain_column ''field'' (Varchar 255) False),
      mapped (plain_column ''error'' Text False),
      mapped (plain_column ''raw_data'' Jsonb False),
      orm_created_at],
    model_checks = [], model_uniques = [],
    model_indexes = [(''ix_import_errors_import_id_row_number_id'', [''import_id'', ''row_number'', ''id''])]\<rparr>"

text \<open>\<^verbatim>\<open>Base.metadata\<close>: the tables and indexes of the models that are imported (app/db/models/__init__.py).\<close>

definition Base_metadata :: "orm_model list" where
  "Base_metadata = [ImportDispatchOutbox_model, ImportError_model, ImportJob_model, Shipment_model]"

definition table_of_model :: "orm_model \<Rightarrow> table" where
  "table_of_model m = \<lparr>tab_name = model_table m, tab_columns = map column.truncate (model_columns m),
     tab_checks = model_checks m, tab_uniques = model_uniques m\<rparr>"

definition indexes_of_model :: "orm_model \<Rightarrow> index list" where
  "indexes_of_model m = map (\<lambda>(name, cols). \<lparr>ix_name = name, ix_table = model_table m, ix_columns = cols\<rparr>) (model_indexes m)"

end
