(* ===== verification/Migrations_Spec.thy ===== *)
theory Migrations_Spec
  imports Migrations
begin

text \<open>
  What the schema guarantees: the migrations build the catalog of the models and can be undone,
  and the tables admit exactly the rows the constraint functions of Db_Models accept.
\<close>

section \<open>Downgrading\<close>

lemma migration_undone:
  "m \<in> set migrations \<Longrightarrow> mig_downgrade m = rev (map undo_ddl (mig_upgrade m)) \<and> list_all creates (mig_upgrade m)"
proof -
  have "\<forall>m \<in> set migrations. mig_downgrade m = rev (map undo_ddl (mig_upgrade m)) \<and> list_all creates (mig_upgrade m)"
    by (simp add: migrations_def migration_0001_def migration_0002_def migration_0003_def upgrade_0002_def
        downgrade_0002_def create_import_jobs_def create_import_dispatch_outbox_def create_shipments_def
        create_import_errors_def creates_def)
  then show "m \<in> set migrations \<Longrightarrow> mig_downgrade m = rev (map undo_ddl (mig_upgrade m)) \<and> list_all creates (mig_upgrade m)"
    by blast
qed

lemma downgrades_undo:
  "set ms \<subseteq> set migrations \<Longrightarrow>
     concat (map mig_downgrade (rev ms)) = rev (map undo_ddl (concat (map mig_upgrade ms))) \<and>
     list_all creates (concat (map mig_upgrade ms))"
  by (induction ms) (auto simp: migration_undone)

section \<open>The rows of the model as rows of the tables\<close>

definition opt_value :: "('a \<Rightarrow> sql_value) \<Rightarrow> 'a option \<Rightarrow> sql_value" where
  "opt_value f v = (case v of None \<Rightarrow> Null | Some x \<Rightarrow> f x)"

definition job_sql_row :: "import_job \<Rightarrow> sql_row" where
  "job_sql_row j = [(''id'', Key (job_id j)), (''status'', Txt (import_status_str (job_status j))),
     (''original_file_name'', Txt (job_original_file_name j)), (''stored_file_path'', Txt (job_stored_file_path j)),
     (''file_size_bytes'', Whole (job_file_size_bytes j)), (''content_type'', opt_value Txt (job_content_type j)),
     (''idempotency_key'', opt_value Txt (job_idempotency_key j)),
     (''idempotency_fingerprint'', Txt (job_idempotency_fingerprint j)),
     (''total_rows'', Whole (int (job_total_rows j))), (''processed_rows'', Whole (int (job_processed_rows j))),
     (''success_count'', Whole (int (job_success_count j))), (''failed_count'', Whole (int (job_failed_count j))),
     (''attempt_count'', Whole (job_attempt_count j)), (''max_attempts'', Whole (job_max_attempts j)),
     (''processing_token'', opt_value Key (job_processing_token j)),
     (''locked_by_worker'', opt_value Txt (job_locked_by_worker j)),
     (''started_at'', opt_value At (job_started_at j)), (''last_heartbeat_at'', opt_value At (job_last_heartbeat_at j)),
     (''finished_at'', opt_value At (job_finished_at j)), (''last_failure_reason'', opt_value Txt (job_last_failure_reason j)),
     (''failure_reason'', opt_value Txt (job_failure_reason j)),
     (''last_requeued_at'', opt_value At (job_last_requeued_at j)),
     (''created_at'', At (job_created_at j)), (''updated_at'', At (job_updated_at j))]"

definition outbox_status_name :: "outbox_status \<Rightarrow> string" where
  "outbox_status_name s = (case s of OutboxPENDING \<Rightarrow> ''PENDING'' | OutboxPROCESSING \<Rightarrow> ''PROCESSING''
     | OutboxPUBLISHED \<Rightarrow> ''PUBLISHED'' | OutboxFAILED \<Rightarrow> ''FAILED'')"

definition outbox_sql_row :: "import_dispatch_outbox \<Rightarrow> sql_row" where
  "outbox_sql_row r = [(''id'', Key (ob_id r)), (''import_id'', Key (ob_import_id r)),
     (''status'', Txt (outbox_status_name (ob_status r))), (''attempt_count'', Whole (ob_attempt_count r)),
     (''available_at'', At (ob_available_at r)), (''claimed_at'', opt_value At (ob_claimed_at r)),
     (''claim_token'', opt_value Key (ob_claim_token r)), (''published_at'', opt_value At (ob_published_at r)),
     (''last_error'', opt_value Txt (ob_last_error r)),
     (''created_at'', At (ob_created_at r)), (''updated_at'', At (ob_updated_at r))]"

definition shipment_sql_row :: "timestamp \<Rightarrow> shipment \<Rightarrow> sql_row" where
  "shipment_sql_row now s = [(''id'', Key (ship_id s)), (''import_id'', Key (ship_import_id s)),
     (''shipment_code'', Txt (ship_shipment_code s)), (''customer_name'', Txt (ship_customer_name s)),
     (''origin_city'', Txt (ship_origin_city s)), (''destination_city'', Txt (ship_destination_city s)),
     (''weight_kg'', Dec (ship_weight_kg s)), (''price'', Dec (ship_price s)), (''status'', Txt (ship_status s)),
     (''delivery_date'', opt_value Day (ship_delivery_date s)), (''created_at'', At now), (''updated_at'', At now)]"

definition error_sql_row :: "timestamp \<Rightarrow> import_error \<Rightarrow> sql_row" where
  "error_sql_row now r = [(''id'', Key (err_id r)), (''import_id'', Key (err_import_id r)),
     (''row_number'', Whole (int (err_row_number r))), (''field'', Txt (err_field r)), (''error'', Txt (err_error r)),
     (''raw_data'', Doc (err_raw_data r)), (''created_at'', At now)]"

lemma opt_value_simps [simp]:
  "opt_value f None = Null" "opt_value f (Some x) = f x"
  "type_admits (Varchar n) (opt_value Txt v) \<longleftrightarrow> varchar_ok n v" "type_admits Text (opt_value Txt v)"
  "type_admits Uuid (opt_value Key u)" "type_admits Timestamptz (opt_value At x)" "type_admits Date (opt_value Day d)"
  "opt_value Txt v = Null \<longleftrightarrow> v = None"
  by (simp_all add: opt_value_def varchar_ok_def split: option.split)

lemmas column_simps = plain_column_def defaulting_to_def id_column_def import_id_column_def

lemma job_columns_admitted:
  assumes "int4 (job_file_size_bytes j)" "\<forall>n \<in> {job_total_rows j, job_processed_rows j, job_success_count j, job_failed_count j}. int4 (int n)"
    "int4 (job_attempt_count j)" "int4 (job_max_attempts j)"
  shows "list_all (column_admits (job_sql_row j)) (tab_columns create_import_jobs) \<longleftrightarrow>
    varchar_ok 255 (Some (job_original_file_name j)) \<and> varchar_ok 1024 (Some (job_stored_file_path j)) \<and>
    varchar_ok 255 (job_content_type j) \<and> varchar_ok 255 (job_idempotency_key j) \<and>
    varchar_ok 64 (Some (job_idempotency_fingerprint j)) \<and> varchar_ok 255 (job_locked_by_worker j)"
  using assms
  by (cases "job_status j") (simp_all add: create_import_jobs_def column_admits_def column_simps value_of_def job_sql_row_def
      import_status_str_def varchar_ok_def [of _ "Some _"])

lemma job_checks_admitted:
  "list_all (\<lambda>(_, c). eval_check (job_sql_row j) c \<noteq> Some False) (tab_checks create_import_jobs) \<longleftrightarrow>
     ck_failure_reason_terminal j"
  by (cases "job_status j"; cases "job_failure_reason j")
    (simp_all add: create_import_jobs_def value_of_def job_sql_row_def import_status_str_def text_compare_def
      ck_failure_reason_terminal_def)

lemma shipment_columns_admitted:
  assumes "numeric_fits 12 3 (ship_weight_kg s)" "numeric_fits 18 2 (ship_price s)"
  shows "list_all (column_admits (shipment_sql_row now s)) (tab_columns create_shipments) \<longleftrightarrow>
    length (ship_shipment_code s) \<le> 128 \<and> length (ship_customer_name s) \<le> 150 \<and>
    length (ship_origin_city s) \<le> 255 \<and> length (ship_destination_city s) \<le> 255 \<and> length (ship_status s) \<le> 32"
  using assms by (simp add: create_shipments_def column_admits_def column_simps value_of_def shipment_sql_row_def)

lemma shipment_checks_admitted:
  "list_all (\<lambda>(_, c). eval_check (shipment_sql_row now s) c \<noteq> Some False) (tab_checks create_shipments) \<longleftrightarrow>
     ship_status s \<in> {''PENDING'', ''IN_TRANSIT'', ''DELIVERED'', ''CANCELED''} \<and>
     \<not> decimal_le_0 (ship_weight_kg s) \<and> \<not> decimal_lt_0 (ship_price s)"
  by (simp add: create_shipments_def value_of_def shipment_sql_row_def text_compare_def number_compare_def)

section \<open>The catalog of the models\<close>

definition head_catalog :: catalog where
  "head_catalog = \<lparr>cat_tables = [create_import_jobs, create_import_dispatch_outbox, create_shipments, create_import_errors],
     cat_indexes = map (\<lambda>(name, tab, cols). \<lparr>ix_name = name, ix_table = tab, ix_columns = cols\<rparr>)
       [(''ix_import_jobs_status'', ''import_jobs'', [''status'']),
        (''ix_import_jobs_status_last_heartbeat_at'', ''import_jobs'', [''status'', ''last_heartbeat_at'']),
        (''ix_import_dispatch_outbox_status_available_at'', ''import_dispatch_outbox'', [''status'', ''available_at'']),
        (''ix_import_dispatch_outbox_status_claimed_at'', ''import_dispatch_outbox'', [''status'', ''claimed_at'']),
        (''ix_import_errors_import_id_row_number_id'', ''import_errors'', [''import_id'', ''row_number'', ''id'']),
        (''ix_import_jobs_idempotency_fingerprint'', ''import_jobs'', [''idempotency_fingerprint''])]\<rparr>"

lemma upgrade_head_catalog: "upgrade_head empty_catalog = Inr head_catalog"
  by code_simp

lemmas model_simps = table_of_model_def mapped_def orm_default_def orm_id_def orm_import_id_def orm_status_def orm_counter_def
  orm_created_at_def orm_updated_at_def func_now_def column.defs mapped_column.defs column_simps

lemma table_of_jobs: "table_of_model ImportJob_model = create_import_jobs"
  by (simp add: ImportJob_model_def create_import_jobs_def model_simps)

lemma table_of_outbox: "table_of_model ImportDispatchOutbox_model = create_import_dispatch_outbox"
  by (simp add: ImportDispatchOutbox_model_def create_import_dispatch_outbox_def model_simps)

lemma table_of_shipments: "table_of_model Shipment_model = create_shipments"
  by (simp add: Shipment_model_def create_shipments_def model_simps)

lemma table_of_errors: "table_of_model ImportError_model = create_import_errors"
  by (simp add: ImportError_model_def create_import_errors_def model_simps)

section \<open>Properties\<close>

text \<open>
  C39. The migrations and the models agree: upgrading an empty database to the last revision
  succeeds, and its tables (columns with their types, nullability, defaults and keys, CHECK and
  UNIQUE constraints, foreign keys) and indexes are exactly those the SQLAlchemy models declare.
\<close>

theorem migrations_build_models:
  "\<exists>c. upgrade_head empty_catalog = Inr c \<and>
     set (cat_tables c) = set (map table_of_model Base_metadata) \<and>
     set (cat_indexes c) = set (concat (map indexes_of_model Base_metadata)) \<and>
     distinct (relation_names c)"
proof -
  have "set (map table_of_model Base_metadata) = set (cat_tables head_catalog)"
    by (auto simp: Base_metadata_def table_of_jobs table_of_outbox table_of_shipments table_of_errors head_catalog_def)
  moreover have "set (concat (map indexes_of_model Base_metadata)) = set (cat_indexes head_catalog)"
    by (auto simp: Base_metadata_def indexes_of_model_def ImportJob_model_def ImportDispatchOutbox_model_def
        Shipment_model_def ImportError_model_def head_catalog_def)
  moreover have "distinct (relation_names head_catalog)" by code_simp
  ultimately show ?thesis using upgrade_head_catalog by blast
qed

text \<open>
  C40. Migrations can be undone: from any consistent catalog, whatever else it holds, upgrading by
  the first \<open>n\<close> revisions and downgrading by the same revisions gives the catalog back.
\<close>

theorem downgrade_reverts:
  assumes "catalog_ok c" "run_ddl (concat (map mig_upgrade (take n migrations))) c = Inr c'"
  shows "run_ddl (concat (map mig_downgrade (rev (take n migrations)))) c' = Inr c"
proof -
  have "set (take n migrations) \<subseteq> set migrations" by (rule set_take_subset)
  from downgrades_undo [OF this] assms show ?thesis by (metis undo_all)
qed

definition versioned_catalog :: "table list \<Rightarrow> index list \<Rightarrow> catalog" where
  "versioned_catalog ts is = \<lparr>cat_tables = \<lparr>tab_name = ''alembic_version'',
     tab_columns = [plain_column ''version_num'' (Varchar 32) False], tab_checks = [], tab_uniques = []\<rparr> # ts,
     cat_indexes = is\<rparr>"

theorem downgrade_reverts_witness:
  "run_ddl (concat (map mig_downgrade (rev (take 3 migrations))))
     (versioned_catalog (cat_tables head_catalog) (cat_indexes head_catalog)) = Inr (versioned_catalog [] [])"
proof (rule downgrade_reverts)
  show "catalog_ok (versioned_catalog [] [])"
    by (simp add: catalog_ok_def versioned_catalog_def references_def plain_column_def List.map_filter_def)
  show "run_ddl (concat (map mig_upgrade (take 3 migrations))) (versioned_catalog [] []) =
      Inr (versioned_catalog (cat_tables head_catalog) (cat_indexes head_catalog))"
    by code_simp
qed

text \<open>
  C37. The constraint functions of the database model are the constraints of the schema: the table
  of the migration admits a row (each value fits the type of its column and no CHECK is false)
  exactly when the function that the statements of the model apply accepts it, for each of the
  four tables. Whole numbers are taken to fit INTEGER, stored amounts their NUMERIC.
\<close>

theorem schema_admits_iff:
  assumes "int4 (job_file_size_bytes j)" "int4 (job_attempt_count j)" "int4 (job_max_attempts j)"
    and "\<forall>n \<in> {job_total_rows j, job_processed_rows j, job_success_count j, job_failed_count j}. int4 (int n)"
    and "int4 (ob_attempt_count r)" "int4 (int (err_row_number e))"
    and "numeric_fits 12 3 (ship_weight_kg s)" "numeric_fits 18 2 (ship_price s)"
  shows "(table_admits create_import_jobs (job_sql_row j) \<longleftrightarrow> job_constraints j = None) \<and>
    table_admits create_import_dispatch_outbox (outbox_sql_row r) \<and>
    (table_admits create_shipments (shipment_sql_row now s) \<longleftrightarrow> shipment_constraints s = None) \<and>
    (table_admits create_import_errors (error_sql_row now e) \<longleftrightarrow> length (err_field e) \<le> 255 \<and> json_document (err_raw_data e))"
proof (intro conjI)
  show "table_admits create_import_jobs (job_sql_row j) \<longleftrightarrow> job_constraints j = None"
    unfolding table_admits_def job_columns_admitted [OF assms(1,4,2,3)] job_checks_admitted job_constraints_def by auto
  show "table_admits create_shipments (shipment_sql_row now s) \<longleftrightarrow> shipment_constraints s = None"
    using assms by (auto simp: table_admits_def shipment_columns_admitted shipment_checks_admitted shipment_constraints_def)
  show "table_admits create_import_dispatch_outbox (outbox_sql_row r)"
    using assms(5) by (cases "ob_status r") (simp_all add: table_admits_def create_import_dispatch_outbox_def column_admits_def
      column_simps value_of_def outbox_sql_row_def outbox_status_name_def text_compare_def)
  show "table_admits create_import_errors (error_sql_row now e) \<longleftrightarrow> length (err_field e) \<le> 255 \<and> json_document (err_raw_data e)"
    using assms(6) by (simp add: table_admits_def create_import_errors_def column_admits_def column_simps value_of_def
      error_sql_row_def)
qed

text \<open>A COMPLETED job with a failure reason, and a shipment without weight: both are refused.\<close>

definition refused_job :: import_job where
  "refused_job = \<lparr>job_id = 1, job_status = ImportCOMPLETED, job_original_file_name = ''a.xlsx'',
     job_stored_file_path = ''/s/a.xlsx'', job_file_size_bytes = 10, job_content_type = None,
     job_idempotency_key = None, job_idempotency_fingerprint = ''f'', job_total_rows = 0,
     job_processed_rows = 0, job_success_count = 0, job_failed_count = 0, job_attempt_count = 0,
     job_max_attempts = 3, job_processing_token = None, job_locked_by_worker = None,
     job_started_at = None, job_last_heartbeat_at = None, job_finished_at = None,
     job_last_failure_reason = None, job_failure_reason = Some ''late'', job_last_requeued_at = None,
     job_created_at = 0, job_updated_at = 0\<rparr>"

definition refused_shipment :: shipment where
  "refused_shipment = \<lparr>ship_id = 1, ship_import_id = 1, ship_shipment_code = ''A1'', ship_customer_name = ''Ann'',
     ship_origin_city = ''Oslo'', ship_destination_city = ''Rome'', ship_weight_kg = Decimal False 0 (- 3),
     ship_price = Decimal False 20 0, ship_status = ''PENDING'', ship_delivery_date = None\<rparr>"

definition some_intent :: import_dispatch_outbox where
  "some_intent = \<lparr>ob_id = 1, ob_import_id = 1, ob_status = OutboxPENDING, ob_attempt_count = 0, ob_available_at = 0,
     ob_claimed_at = None, ob_claim_token = None, ob_published_at = None, ob_last_error = None, ob_created_at = 0,
     ob_updated_at = 0\<rparr>"

definition some_error :: import_error where
  "some_error = \<lparr>err_id = 1, err_import_id = 1, err_row_number = 2, err_field = ''price'', err_error = ''Field required'',
     err_raw_data = PDict []\<rparr>"

theorem schema_admits_iff_witness:
  "\<not> table_admits create_import_jobs (job_sql_row refused_job) \<and>
   \<not> table_admits create_shipments (shipment_sql_row 5 refused_shipment) \<and>
   table_admits create_import_errors (error_sql_row 5 some_error)"
proof -
  have "job_constraints refused_job \<noteq> None" "shipment_constraints refused_shipment \<noteq> None" "length (err_field some_error) \<le> 255" "json_document (err_raw_data some_error)"
    by (simp_all add: refused_job_def job_constraints_def ck_failure_reason_terminal_def refused_shipment_def
        shipment_constraints_def decimal_le_0_def some_error_def)
  then show ?thesis
    using schema_admits_iff [of refused_job some_intent some_error refused_shipment 5]
    by (simp add: refused_job_def some_intent_def some_error_def refused_shipment_def int4_def numeric_fits_def)
qed

end
