(* ===== verification/Celery_App.thy ===== *)
theory Celery_App
  imports Settings
begin

text \<open>
  The Celery application (celery_app.py): the exchanges, the queues and the configuration, and where
  a message goes. Celery and RabbitMQ are not part of the repository: where a task is sent, to which
  queues an exchange delivers, where a rejected message goes and which queues a worker
  consumes are parameters, with their documented rules as hypotheses.
\<close>

section \<open>The application\<close>

record exchange =
  ex_name :: string
  ex_type :: string

record task_queue =
  qu_name :: string
  qu_exchange :: exchange
  qu_routing_key :: string
  qu_durable :: bool
  qu_arguments :: "(string \<times> string) list"

record beat_entry =
  be_task :: string
  be_schedule :: int

record celery_conf =
  cf_task_default_queue :: string
  cf_task_default_queue_type :: string
  cf_task_default_exchange :: string
  cf_task_default_exchange_type :: string
  cf_task_default_routing_key :: string
  cf_task_queues :: "task_queue list"
  cf_broker_transport_options :: "(string \<times> bool) list"
  cf_control_queue_exclusive :: bool
  cf_worker_detect_quorum_queues :: bool
  cf_worker_prefetch_multiplier :: int
  cf_task_acks_late :: bool
  cf_task_reject_on_worker_lost :: bool
  cf_beat_schedule :: "(string \<times> beat_entry) list"

record celery =
  ce_main :: string
  ce_broker :: string
  ce_include :: "string list"
  ce_conf :: celery_conf

definition import_exchange :: exchange where
  "import_exchange = \<lparr>ex_name = ''imports'', ex_type = ''direct''\<rparr>"

definition dlx_exchange :: exchange where
  "dlx_exchange = \<lparr>ex_name = ''imports.dlx'', ex_type = ''direct''\<rparr>"

definition dispatch_queue :: task_queue where
  "dispatch_queue = \<lparr>qu_name = ''imports.dispatch'', qu_exchange = import_exchange,
     qu_routing_key = ''imports.dispatch'', qu_durable = True,
     qu_arguments = [
       (''x-queue-type'', ''quorum''),
       (''x-dead-letter-exchange'', ex_name dlx_exchange),
       (''x-dead-letter-routing-key'', ''imports.dispatch.dlq'')]\<rparr>"

definition dead_letter_queue :: task_queue where
  "dead_letter_queue = \<lparr>qu_name = ''imports.dispatch.dlq'', qu_exchange = dlx_exchange,
     qu_routing_key = ''imports.dispatch.dlq'', qu_durable = True,
     qu_arguments = [(''x-queue-type'', ''quorum'')]\<rparr>"

definition celery_app :: "settings \<Rightarrow> celery" where
  "celery_app s = \<lparr>ce_main = ''shipment_imports'', ce_broker = set_rabbitmq_url s,
     ce_include = [''app.workers.tasks'', ''app.workers.startup_recovery'', ''app.workers.beat_schedule''],
     ce_conf = \<lparr>
       cf_task_default_queue = ''imports.dispatch'',
       cf_task_default_queue_type = ''quorum'',
       cf_task_default_exchange = ex_name import_exchange,
       cf_task_default_exchange_type = ex_type import_exchange,
       cf_task_default_routing_key = ''imports.dispatch'',
       cf_task_queues = [dispatch_queue, dead_letter_queue],
       cf_broker_transport_options = [(''confirm_publish'', True)],
       cf_control_queue_exclusive = True,
       cf_worker_detect_quorum_queues = True,
       cf_worker_prefetch_multiplier = set_celery_worker_prefetch_multiplier s,
       cf_task_acks_late = set_celery_task_acks_late s,
       cf_task_reject_on_worker_lost = set_celery_task_reject_on_worker_lost s,
       cf_beat_schedule = [(''recover-stale-imports'',
         \<lparr>be_task = ''imports.recover_stale_imports'', be_schedule = set_watchdog_interval_seconds s\<rparr>)]\<rparr>\<rparr>"

text \<open>The tasks the modules register, and the name the publisher sends.\<close>

definition process_import_task_name :: string where
  "process_import_task_name = ''imports.process_import''"

definition recover_stale_imports_task_name :: string where
  "recover_stale_imports_task_name = ''imports.recover_stale_imports''"

definition registered_tasks :: "(string \<times> string) list" where
  "registered_tasks = [(''app.workers.tasks'', process_import_task_name),
     (''app.workers.beat_schedule'', recover_stale_imports_task_name)]"

definition included_tasks :: "celery \<Rightarrow> string list" where
  "included_tasks app = map snd (filter (\<lambda>t. fst t \<in> set (ce_include app)) registered_tasks)"

definition dispatched_task :: string where
  "dispatched_task = ''imports.process_import''"

section \<open>The broker\<close>

text \<open>
  The parameters: the exchange and the routing key a task without a route of its own is sent with;
  the queues an exchange puts a message into; the exchange, if there is one, and the
  routing key with which a queue passes on a message that a consumer rejects; and the queues
  a worker consumes, started with or without \<^verbatim>\<open>-Q\<close>.
\<close>

record broker =
  br_destination :: "celery_conf \<Rightarrow> string \<times> string"
  br_bound :: "task_queue list \<Rightarrow> string \<Rightarrow> string \<Rightarrow> string list"
  br_dead_letter :: "task_queue \<Rightarrow> (string \<times> string) option"
  br_consumed :: "celery_conf \<Rightarrow> string list option \<Rightarrow> string list"

text \<open>
  Celery: a task goes to the default queue, when that is one of the task queues with the exchange and key
  of that queue; without \<^verbatim>\<open>-Q\<close> a worker consumes every task queue. RabbitMQ: a direct
  exchange delivers to the queues bound with the very routing key; a queue passes rejected
  messages on if it has a dead letter exchange.
\<close>

definition sends_to_default :: "broker \<Rightarrow> bool" where
  "sends_to_default br \<longleftrightarrow> (\<forall>conf q. q \<in> set (cf_task_queues conf) \<longrightarrow> distinct (map qu_name (cf_task_queues conf)) \<longrightarrow>
     qu_name q = cf_task_default_queue conf \<longrightarrow>
     br_destination br conf = (ex_name (qu_exchange q), qu_routing_key q))"

definition direct_routing :: "broker \<Rightarrow> bool" where
  "direct_routing br \<longleftrightarrow> (\<forall>qs ex key. (\<forall>q \<in> set qs. ex_name (qu_exchange q) = ex \<longrightarrow> ex_type (qu_exchange q) = ''direct'') \<longrightarrow>
     br_bound br qs ex key = map qu_name (filter (\<lambda>q. ex_name (qu_exchange q) = ex \<and> qu_routing_key q = key) qs))"

definition dead_letters :: "broker \<Rightarrow> bool" where
  "dead_letters br \<longleftrightarrow> (\<forall>q. br_dead_letter br q =
     (case map_of (qu_arguments q) ''x-dead-letter-exchange'' of
        None \<Rightarrow> None
      | Some ex \<Rightarrow> Some (ex, case map_of (qu_arguments q) ''x-dead-letter-routing-key'' of None \<Rightarrow> qu_routing_key q | Some key \<Rightarrow> key)))"

definition consumes_all :: "broker \<Rightarrow> bool" where
  "consumes_all br \<longleftrightarrow> (\<forall>conf. br_consumed br conf None = map qu_name (cf_task_queues conf))"

section \<open>The way of a message\<close>

text \<open>The queues that hold a copy of a message which was just sent, and after a consumer rejected each copy.\<close>

definition sent_to :: "broker \<Rightarrow> celery_conf \<Rightarrow> string list" where
  "sent_to br conf = (case br_destination br conf of (ex, key) \<Rightarrow> br_bound br (cf_task_queues conf) ex key)"

definition rejected_to :: "broker \<Rightarrow> celery_conf \<Rightarrow> string \<Rightarrow> string list" where
  "rejected_to br conf name = (case List.find (\<lambda>q. qu_name q = name) (cf_task_queues conf) of
     None \<Rightarrow> []
   | Some q \<Rightarrow> (case br_dead_letter br q of None \<Rightarrow> [] | Some (ex, key) \<Rightarrow> br_bound br (cf_task_queues conf) ex key))"

fun held_after :: "broker \<Rightarrow> celery_conf \<Rightarrow> nat \<Rightarrow> string list" where
  "held_after br conf 0 = sent_to br conf"
| "held_after br conf (Suc n) = concat (map (rejected_to br conf) (held_after br conf n))"

lemma held_after_lost: "held_after br conf n = [] \<Longrightarrow> n \<le> m \<Longrightarrow> held_after br conf m = []"
  by (induction m) (auto simp: le_Suc_eq)

lemma queue_fields [simp]:
  "qu_name dispatch_queue = ''imports.dispatch''" "qu_name dead_letter_queue = ''imports.dispatch.dlq''"
  "qu_exchange dispatch_queue = import_exchange" "qu_exchange dead_letter_queue = dlx_exchange"
  "qu_routing_key dispatch_queue = ''imports.dispatch''" "qu_routing_key dead_letter_queue = ''imports.dispatch.dlq''"
  by (simp_all add: dispatch_queue_def dead_letter_queue_def)

lemma celery_app_queues [simp]:
  "cf_task_queues (ce_conf (celery_app s)) = [dispatch_queue, dead_letter_queue]"
  "cf_task_default_queue (ce_conf (celery_app s)) = ''imports.dispatch''"
  by (simp_all add: celery_app_def)

lemma bound_queues:
  assumes "direct_routing br"
  shows "br_bound br [dispatch_queue, dead_letter_queue] ''imports'' ''imports.dispatch'' = [''imports.dispatch'']"
    and "br_bound br [dispatch_queue, dead_letter_queue] ''imports.dlx'' ''imports.dispatch.dlq'' = [''imports.dispatch.dlq'']"
proof -
  have "br_bound br [dispatch_queue, dead_letter_queue] ex key =
      map qu_name (filter (\<lambda>q. ex_name (qu_exchange q) = ex \<and> qu_routing_key q = key) [dispatch_queue, dead_letter_queue])" for ex key
    by (rule assms [unfolded direct_routing_def, rule_format]) (auto simp: import_exchange_def dlx_exchange_def)
  then show "br_bound br [dispatch_queue, dead_letter_queue] ''imports'' ''imports.dispatch'' = [''imports.dispatch'']"
    "br_bound br [dispatch_queue, dead_letter_queue] ''imports.dlx'' ''imports.dispatch.dlq'' = [''imports.dispatch.dlq'']"
    by (simp_all add: import_exchange_def dlx_exchange_def)
qed

lemma sent_to_dispatch:
  assumes "sends_to_default br" "direct_routing br"
  shows "sent_to br (ce_conf (celery_app s)) = [''imports.dispatch'']"
proof -
  have "br_destination br (ce_conf (celery_app s)) =
      (ex_name (qu_exchange dispatch_queue), qu_routing_key dispatch_queue)"
    by (rule assms(1) [unfolded sends_to_default_def, rule_format]) simp_all
  then show ?thesis by (simp add: sent_to_def bound_queues(1) [OF assms(2)] import_exchange_def)
qed

lemma rejected_to_dlq:
  assumes "direct_routing br" "dead_letters br"
  shows "rejected_to br (ce_conf (celery_app s)) ''imports.dispatch'' = [''imports.dispatch.dlq'']"
    and "rejected_to br (ce_conf (celery_app s)) ''imports.dispatch.dlq'' = []"
proof -
  have letters: "br_dead_letter br dispatch_queue = Some (''imports.dlx'', ''imports.dispatch.dlq'')"
    "br_dead_letter br dead_letter_queue = None"
    unfolding assms(2) [unfolded dead_letters_def, rule_format]
    by (simp_all add: dispatch_queue_def dead_letter_queue_def dlx_exchange_def)
  show "rejected_to br (ce_conf (celery_app s)) ''imports.dispatch'' = [''imports.dispatch.dlq'']"
    by (simp add: rejected_to_def letters bound_queues(2) [OF assms(1)])
  show "rejected_to br (ce_conf (celery_app s)) ''imports.dispatch.dlq'' = []"
    by (simp add: rejected_to_def letters)
qed

text \<open>
  C35. Where dispatched imports go: a sent task is in exactly one queue, imports.dispatch, and its
  name is registered by a module the worker includes, as is the name in the beat schedule. A message
  that a worker rejects moves to the dead letter queue and nowhere else. But a worker started
  without \<^verbatim>\<open>-Q\<close> consumes the dead letter queue as well, and a message it rejects there is in no
  queue any more.
\<close>

theorem dispatch_topology:
  assumes "sends_to_default br" "direct_routing br" "dead_letters br" "consumes_all br"
    and "conf = ce_conf (celery_app s)"
  shows "held_after br conf 0 = [''imports.dispatch''] \<and>
    dispatched_task \<in> set (included_tasks (celery_app s)) \<and>
    (\<forall>(name, entry) \<in> set (cf_beat_schedule conf). be_task entry \<in> set (included_tasks (celery_app s))) \<and>
    held_after br conf 1 = [''imports.dispatch.dlq''] \<and>
    set (held_after br conf 1) \<subseteq> set (br_consumed br conf None) \<and>
    (\<forall>n \<ge> 2. held_after br conf n = [])"
proof -
  have one: "held_after br conf 0 = [''imports.dispatch'']" "held_after br conf 1 = [''imports.dispatch.dlq'']"
    and two: "held_after br conf 2 = []"
    using rejected_to_dlq [OF assms(2,3), of s] sent_to_dispatch [OF assms(1,2), of s]
    unfolding assms(5) numeral_2_eq_2 by simp_all
  moreover have "br_consumed br conf None = [''imports.dispatch'', ''imports.dispatch.dlq'']"
    using assms(4) unfolding assms(5) by (simp add: consumes_all_def)
  moreover have "\<forall>n \<ge> 2. held_after br conf n = []" using held_after_lost [OF two] by blast
  moreover have "dispatched_task \<in> set (included_tasks (celery_app s))"
    "\<forall>(name, entry) \<in> set (cf_beat_schedule conf). be_task entry \<in> set (included_tasks (celery_app s))"
    unfolding assms(5) by (simp_all add: included_tasks_def registered_tasks_def process_import_task_name_def
        recover_stale_imports_task_name_def dispatched_task_def celery_app_def)
  ultimately show ?thesis by simp
qed

definition example_broker :: broker where
  "example_broker = \<lparr>
     br_destination = (\<lambda>conf. case List.find (\<lambda>q. qu_name q = cf_task_default_queue conf) (cf_task_queues conf) of
        None \<Rightarrow> (cf_task_default_exchange conf, cf_task_default_routing_key conf)
      | Some q \<Rightarrow> (ex_name (qu_exchange q), qu_routing_key q)),
     br_bound = (\<lambda>qs ex key. map qu_name (filter (\<lambda>q. ex_name (qu_exchange q) = ex \<and> qu_routing_key q = key) qs)),
     br_dead_letter = (\<lambda>q. case map_of (qu_arguments q) ''x-dead-letter-exchange'' of
        None \<Rightarrow> None
      | Some ex \<Rightarrow> Some (ex, case map_of (qu_arguments q) ''x-dead-letter-routing-key'' of None \<Rightarrow> qu_routing_key q | Some key \<Rightarrow> key)),
     br_consumed = (\<lambda>conf q. case q of None \<Rightarrow> map qu_name (cf_task_queues conf) | Some names \<Rightarrow> names)\<rparr>"

theorem dispatch_topology_witness:
  "held_after example_broker (ce_conf (celery_app default_settings)) 1 = [''imports.dispatch.dlq''] \<and>
   held_after example_broker (ce_conf (celery_app default_settings)) 2 = []"
proof -
  have "sends_to_default example_broker"
    unfolding sends_to_default_def
  proof (intro allI impI)
    fix conf :: celery_conf and q assume q: "q \<in> set (cf_task_queues conf)" "distinct (map qu_name (cf_task_queues conf))"
      "qu_name q = cf_task_default_queue conf"
    have "List.find (\<lambda>r. qu_name r = qu_name q) (cf_task_queues conf) = Some q" by (rule find_by_key [OF q(2,1)])
    then show "br_destination example_broker conf = (ex_name (qu_exchange q), qu_routing_key q)"
      using q(3) by (simp add: example_broker_def)
  qed
  moreover have "direct_routing example_broker" "dead_letters example_broker" "consumes_all example_broker"
    by (simp_all add: direct_routing_def dead_letters_def consumes_all_def example_broker_def)
  ultimately show ?thesis using dispatch_topology [OF _ _ _ _ refl, of example_broker default_settings] by auto
qed

end
