(* ===== verification/Engine.thy ===== *)
theory Engine
  imports Settings
begin

text \<open>
  The engine and the session factory (db/session.py): what they ask of SQLAlchemy. The drivername
  that \<^verbatim>\<open>make_url\<close> reads from the URL is a parameter. What a session does is in Db_Session.
\<close>

datatype engine_value = EngineBool bool | EngineInt int

record engine =
  en_url :: string
  en_kwargs :: "(string \<times> engine_value) list"

record session_factory =
  sf_bind :: engine
  sf_expire_on_commit :: bool
  sf_autoflush :: bool

definition create_engine_for_settings :: "(string \<Rightarrow> string) \<Rightarrow> settings \<Rightarrow> engine" where
  "create_engine_for_settings drivername s =
     (let engine_kwargs = [(''pool_pre_ping'', EngineBool True),
            (''pool_recycle'', EngineInt (set_db_pool_recycle_seconds s))];
          engine_kwargs = (if take 10 (drivername (set_database_url s)) = ''postgresql''
            then engine_kwargs @ [(''pool_size'', EngineInt (set_db_pool_size s)),
              (''max_overflow'', EngineInt (set_db_max_overflow s)),
              (''pool_timeout'', EngineInt (set_db_pool_timeout_seconds s))]
            else engine_kwargs)
      in \<lparr>en_url = set_database_url s, en_kwargs = engine_kwargs\<rparr>)"

definition build_session_factory :: "(string \<Rightarrow> string) \<Rightarrow> settings \<Rightarrow> settings option \<Rightarrow> session_factory" where
  "build_session_factory drivername current given =
     (let s = (case given of None \<Rightarrow> current | Some s \<Rightarrow> s)
      in \<lparr>sf_bind = create_engine_for_settings drivername s, sf_expire_on_commit = False, sf_autoflush = False\<rparr>)"

definition get_session_factory :: "(string \<Rightarrow> string) \<Rightarrow> settings \<Rightarrow> session_factory" where
  "get_session_factory drivername current = build_session_factory drivername current None"

text \<open>
  The most connections the pool opens: SQLAlchemy takes a size of 0 or an overflow of -1 as no limit.
\<close>

definition connection_limit :: "engine \<Rightarrow> int option" where
  "connection_limit e = (case (map_of (en_kwargs e) ''pool_size'', map_of (en_kwargs e) ''max_overflow'') of
     (Some (EngineInt n), Some (EngineInt k)) \<Rightarrow> if n = 0 \<or> k = -1 then None else Some (n + k)
   | _ \<Rightarrow> None)"

text \<open>
  With settings that pass the validators the sessions of a PostgreSQL database come from a pool
  whose size is bounded (no setting asks for an unlimited one), whose waits and whose
  connections' ages are bounded, and which tests a connection before it hands it out.
\<close>

theorem session_pool_bounded:
  assumes "settings_accepted s" "take 10 (drivername (set_database_url s)) = ''postgresql''"
  shows "let e = sf_bind (get_session_factory drivername s) in
    connection_limit e = Some (set_db_pool_size s + set_db_max_overflow s) \<and> 1 \<le> set_db_pool_size s + set_db_max_overflow s \<and>
    map_of (en_kwargs e) ''pool_pre_ping'' = Some (EngineBool True) \<and>
    (\<exists>t > 0. map_of (en_kwargs e) ''pool_timeout'' = Some (EngineInt t)) \<and>
    (\<exists>t > 0. map_of (en_kwargs e) ''pool_recycle'' = Some (EngineInt t))"
proof -
  have "0 < set_db_pool_size s" "0 \<le> set_db_max_overflow s" "0 < set_db_pool_timeout_seconds s"
    "0 < set_db_pool_recycle_seconds s"
    using assms(1) by (simp_all add: settings_accepted_def validators_ok positive_fields_def)
  then show ?thesis
    using assms(2)
    by (simp add: get_session_factory_def build_session_factory_def create_engine_for_settings_def connection_limit_def Let_def)
qed

theorem session_pool_bounded_witness:
  "connection_limit (sf_bind (get_session_factory (takeWhile (\<lambda>c. c \<noteq> CHR '':'')) default_settings)) = Some 30"
proof -
  have url: "take 10 (takeWhile (\<lambda>c. c \<noteq> CHR '':'') (set_database_url default_settings)) = ''postgresql''"
    by (simp add: default_settings_def)
  from session_pool_bounded [where drivername = "takeWhile (\<lambda>c. c \<noteq> CHR '':'')", OF default_settings_accepted url]
  show ?thesis by (simp add: Let_def default_settings_def)
qed

end
