(* ===== verification/Routes.thy ===== *)
theory Routes
  imports Settings
begin

text \<open>
  The routes of the application (main.py and the routers of api/v1): which endpoint answers which
  path. How Starlette matches a path against the path of a route is a parameter, with its
  documented rule as hypothesis; the endpoints are in Imports_Api and Api_Errors.
\<close>

datatype endpoint = Create_Import | List_Import_Errors | Get_Import_Status | List_Shipments | Healthcheck

record route =
  rt_method :: string
  rt_path :: string
  rt_endpoint :: endpoint

definition imports_router :: "route list" where
  "imports_router = [
     \<lparr>rt_method = ''POST'', rt_path = ''/imports'', rt_endpoint = Create_Import\<rparr>,
     \<lparr>rt_method = ''GET'', rt_path = ''/imports/{import_id}/errors'', rt_endpoint = List_Import_Errors\<rparr>,
     \<lparr>rt_method = ''GET'', rt_path = ''/imports/{import_id}'', rt_endpoint = Get_Import_Status\<rparr>]"

definition shipments_router :: "route list" where
  "shipments_router = [\<lparr>rt_method = ''GET'', rt_path = ''/shipments'', rt_endpoint = List_Shipments\<rparr>]"

definition health_router :: "route list" where
  "health_router = [\<lparr>rt_method = ''GET'', rt_path = ''/health'', rt_endpoint = Healthcheck\<rparr>]"

record application =
  ap_title :: string
  ap_routes :: "route list"

definition include_router :: "string \<Rightarrow> route list \<Rightarrow> application \<Rightarrow> application" where
  "include_router prefix router app = app\<lparr>ap_routes := ap_routes app @
     map (\<lambda>r. r\<lparr>rt_path := prefix @ rt_path r\<rparr>) router\<rparr>"

definition create_app :: "settings \<Rightarrow> application" where
  "create_app s =
     (let app = \<lparr>ap_title = set_app_name s, ap_routes = []\<rparr>;
          app = include_router ''/api/v1'' imports_router app;
          app = include_router ''/api/v1'' shipments_router app
      in include_router ''/api/v1'' health_router app)"

text \<open>
  Starlette: a path without parameters matches itself only; a parameter stands for one or more
  characters other than a slash; the first route that matches answers.
\<close>

definition path_params :: "(string \<Rightarrow> string \<Rightarrow> bool) \<Rightarrow> bool" where
  "path_params matches \<longleftrightarrow>
     (\<forall>t p. CHR ''{'' \<notin> set t \<longrightarrow> matches t p = (t = p)) \<and>
     (\<forall>a b p. CHR ''{'' \<notin> set (a @ b) \<longrightarrow>
        matches (a @ ''{import_id}'' @ b) p = (\<exists>x. x \<noteq> [] \<and> CHR ''/'' \<notin> set x \<and> p = a @ x @ b))"

definition answers :: "(string \<Rightarrow> string \<Rightarrow> bool) \<Rightarrow> application \<Rightarrow> string \<Rightarrow> string \<Rightarrow> endpoint option" where
  "answers matches app method path =
     map_option rt_endpoint (List.find (\<lambda>r. rt_method r = method \<and> matches (rt_path r) path) (ap_routes app))"

lemma create_app_routes:
  "map (\<lambda>r. (rt_method r, rt_path r, rt_endpoint r)) (ap_routes (create_app s)) =
     [(''POST'', ''/api/v1/imports'', Create_Import),
      (''GET'', ''/api/v1/imports/{import_id}/errors'', List_Import_Errors),
      (''GET'', ''/api/v1/imports/{import_id}'', Get_Import_Status),
      (''GET'', ''/api/v1/shipments'', List_Shipments), (''GET'', ''/api/v1/health'', Healthcheck)]"
  by (simp add: create_app_def include_router_def imports_router_def shipments_router_def health_router_def)

lemma matched:
  assumes "path_params matches"
  shows "matches ''/api/v1/imports'' p = (p = ''/api/v1/imports'')"
    and "matches ''/api/v1/shipments'' p = (p = ''/api/v1/shipments'')"
    and "matches ''/api/v1/health'' p = (p = ''/api/v1/health'')"
    and "matches ''/api/v1/imports/{import_id}/errors'' p =
      (\<exists>x. x \<noteq> [] \<and> CHR ''/'' \<notin> set x \<and> p = ''/api/v1/imports/'' @ x @ ''/errors'')"
    and "matches ''/api/v1/imports/{import_id}'' p =
      (\<exists>x. x \<noteq> [] \<and> CHR ''/'' \<notin> set x \<and> p = ''/api/v1/imports/'' @ x)"
proof -
  have plain: "CHR ''{'' \<notin> set t \<Longrightarrow> matches t p = (p = t)" for t using assms by (auto simp: path_params_def)
  show "matches ''/api/v1/imports'' p = (p = ''/api/v1/imports'')" "matches ''/api/v1/shipments'' p = (p = ''/api/v1/shipments'')"
    "matches ''/api/v1/health'' p = (p = ''/api/v1/health'')" by (simp_all add: plain)
  have param: "CHR ''{'' \<notin> set (a @ b) \<Longrightarrow>
      matches (a @ ''{import_id}'' @ b) p = (\<exists>x. x \<noteq> [] \<and> CHR ''/'' \<notin> set x \<and> p = a @ x @ b)" for a b
    using assms by (simp add: path_params_def)
  show "matches ''/api/v1/imports/{import_id}/errors'' p =
      (\<exists>x. x \<noteq> [] \<and> CHR ''/'' \<notin> set x \<and> p = ''/api/v1/imports/'' @ x @ ''/errors'')"
    using param [of "''/api/v1/imports/''" "''/errors''"] by simp
  show "matches ''/api/v1/imports/{import_id}'' p = (\<exists>x. x \<noteq> [] \<and> CHR ''/'' \<notin> set x \<and> p = ''/api/v1/imports/'' @ x)"
    using param [of "''/api/v1/imports/''" "[]"] by simp
qed

text \<open>Every endpoint is reached under its documented path, and the two paths below an import do not hide each other.\<close>

theorem endpoints_reached:
  assumes "path_params matches" "x \<noteq> []" "CHR ''/'' \<notin> set x"
  shows "answers matches (create_app s) ''POST'' ''/api/v1/imports'' = Some Create_Import \<and>
    answers matches (create_app s) ''GET'' (''/api/v1/imports/'' @ x @ ''/errors'') = Some List_Import_Errors \<and>
    answers matches (create_app s) ''GET'' (''/api/v1/imports/'' @ x) = Some Get_Import_Status \<and>
    answers matches (create_app s) ''GET'' ''/api/v1/shipments'' = Some List_Shipments \<and>
    answers matches (create_app s) ''GET'' ''/api/v1/health'' = Some Healthcheck \<and>
    (answers matches (create_app s) ''POST'' p \<noteq> None \<longleftrightarrow> p = ''/api/v1/imports'')"
proof -
  have "map_option rt_endpoint (List.find (\<lambda>r. rt_method r = m \<and> matches (rt_path r) p) rs) =
      map_option (snd \<circ> snd) (List.find (\<lambda>r. fst r = m \<and> matches (fst (snd r)) p)
        (map (\<lambda>r. (rt_method r, rt_path r, rt_endpoint r)) rs))" for m p rs
    by (induction rs) simp_all
  note run = this [of _ _ "ap_routes (create_app s)", folded answers_def, unfolded create_app_routes]
  have slash: "x @ ''/errors'' = y \<Longrightarrow> CHR ''/'' \<in> set y" for y by auto
  show ?thesis unfolding run using assms(2,3) by (auto simp: matched [OF assms(1)] dest: slash)
qed

end
