(* ===== verification/Known_Defects.thy ===== *)
theory Known_Defects
  imports Worker_Tasks Imports_Api_Spec
begin

text \<open>
  Runs of the model in which the program does not do what it means to: each is the evaluation of
  the definitions on a concrete input.
\<close>

section \<open>A cell with an infinite number\<close>

text \<open>
  openpyxl reads the cell 1E400 as the float infinity. No adapter takes it, so the row is to be
  reported; but its values go into the report, and PostgreSQL refuses Infinity in a JSONB
  document: the whole import fails.
\<close>

definition infinite_worker :: import_worker where
  "infinite_worker = \<lparr>wk_load = (\<lambda>_. Inr [\<lparr>ws_header = Inr (Some (map PStr REQUIRED_WORKBOOK_HEADERS)),
       ws_data = [[PStr ''A1'', PStr ''Ann'', PStr ''Oslo'', PStr ''Rome'', PFloat (Inf_Float False), PInt 20, PStr ''PENDING'']],
       ws_data_error = None\<rparr>]),
     wk_adapters = sheet_adapters, wk_chunk_size = 2, wk_worker_id = ''w1''\<rparr>"

lemma infinite_row_reported:
  "map (\<lambda>r. map issue_field (prep_issues (prepare_row sheet_adapters r)))
     (concat (fst (iter_chunks (wk_load infinite_worker) ''/s/a.xlsx'' 2))) = [[''weight_kg'']]"
  by code_simp

lemma infinite_cell_fails_import:
  "map (\<lambda>j. (job_status j, job_failure_reason j)) (db_jobs (committed (snd (process_import_run infinite_worker 1 sheet_run)))) =
     [(ImportFAILED, Some ''Import processing failed.'')] \<and>
   db_errors (committed (snd (process_import_run infinite_worker 1 sheet_run))) = []"
  by (rule conjI) code_simp+

section \<open>The file of a committed import is deleted\<close>

text \<open>
  The last statement of a creation, \<^verbatim>\<open>session.refresh\<close> after the COMMIT, fails with a database error:
  the client is answered with an internal error and the stored file is deleted, but the job and
  its intent are in the database, so a worker will look for the file in vain.
\<close>

definition refresh_fails :: "event list" where
  "refresh_fails = replicate 5 quiet @ [quiet\<lparr>ev_fault := Some OperationalError\<rparr>]"

definition lost_stored :: stored_file where
  "lost_stored = \<lparr>sf_original_file_name = ''b.xlsx'', sf_stored_file_path = ''up/b.xlsx'', sf_file_size_bytes = 5,
     sf_sha256_hex = ''g''\<rparr>"

definition lost_request :: request_state where
  "lost_request = (upload_request [] [])\<lparr>script := refresh_fails, rs_files := [(''up/b.xlsx'', [80, 75, 3, 4, 9])]\<rparr>"

definition lost_upload :: "(exn + import_create_outcome) \<times> request_state" where
  "lost_upload = try_except (persist_upload example_env xlsx_part None lost_stored)
     (create_import_failed example_env (Some lost_stored)) lost_request"

lemma lost_upload_response: "map_sum (\<lambda>e. e = SqlError OperationalError) (\<lambda>_. ()) (fst lost_upload) = Inl True"
  by code_simp

lemma lost_upload_job:
  "map (\<lambda>j. (job_status j, job_stored_file_path j)) (db_jobs (committed (snd lost_upload))) =
     [(ImportPENDING, ''/s/a.xlsx''), (ImportPENDING, ''up/b.xlsx'')]"
  by code_simp

lemma lost_upload_files: "rs_files (snd lost_upload) = []"
  by code_simp

end
