(* ===== verification/Spec2Isabelle.thy ===== *)
theory Spec2Isabelle
  imports Import_Outcome Import_System Row_Validation_Spec Import_Safety Import_Race Import_Failure Outbox_Round Fencing
    Recovery_Safety Pipeline Worker_Tasks Imports_Api_Spec Api_Errors Shipment_Query Migrations_Spec Celery_App Engine Routes
    Known_Defects
begin

text \<open>
  A verification development for the shipment import service: a FastAPI application that accepts
  Excel workbooks of shipments, a PostgreSQL database, and Celery workers that validate the rows
  and store them. It models the Python code under src/app and src/migrations; names of files below
  are relative to src/app.

  \<^bold>\<open>The program.\<close> \<^verbatim>\<open>POST /imports\<close> (api/v1/imports.py) stores the uploaded file
  (storage/local_file_storage.py) and CreateImportService commits an import job with its dispatch
  intent in one transaction (imports/services/create_import.py). A publisher claims due intents and
  hands them to the broker (outbox). A worker (workers/tasks.py) claims the job, reads the workbook
  in chunks (imports/parsers), validates each chunk (imports/services/row_validation.py), stores
  shipments and row errors in short transactions and completes the job
  (imports/services/process_import.py). Recovery (imports/services/recover_stale_imports.py) takes
  jobs over whose worker died. Clients read the state of an import, its row errors and the stored
  shipments. The processes meet only in the database: a job in progress and an intent being
  published carry a token that fences out whoever lost it.

  \<^bold>\<open>State and steps.\<close> A table is the list of its rows, a row a record with the
  columns of the model class (Db_Models); a statement changes all four tables at once or raises.
  A service method is an action on a \<open>world\<close> (Db_Session): the committed database, the one
  the transaction sees, the clock, and a script of what happens before each statement and each
  commit: time passes, other sessions commit, rows are locked, the server fails, a commit fails
  with or without being applied. An event names the advisory lock its session holds, if any; an event whose
  lock this session holds does not take place until the transaction ends (\<open>advisory\<close>, \<open>ev_holds\<close>). The theorems on invariants, safety and errors of a run quantify over
  all scripts, so over all interleavings of statements; those on its outcome are about sessions
  nothing interferes with. What other sessions may do is a hypothesis on \<open>ev_others\<close>
  (that they keep the invariant and move rows along their life cycles), and the theorems
  named \<open>_keeps\<close> and \<open>_tolerated\<close> show that the program's own processes meet it.
  Local variables an \<^verbatim>\<open>except\<close> clause reads are fields added to the world (Process_Import,
  Outbox); a request adds the file system with its faults (Storage). Exceptions are the datatype
  \<open>exn\<close> (Errors), with the subclass test of each \<^verbatim>\<open>except\<close> written out.

  \<^bold>\<open>Theories and what they model.\<close>

  \<^item> Ground. Py_Prelude: the string operations of Python, \<^verbatim>\<open>int(text)\<close>, \<^verbatim>\<open>str(int)\<close>,
    list and option lemmas. Py_Dates, Py_Values, Py_Times: dates with their order and ISO forms, Decimal,
    workbook cells, timestamps and uuids as text. Jsonb: imports/jsonb.py.
    Errors: the exceptions.
  \<^item> Domain. Shipment_Rules: domain/shipment_rules.py, domain/errors.py, domain/import_states.py.
    Settings: core/settings.py, the fields with their defaults and every validator.
  \<^item> Reading a workbook. Xlsx_Parser: imports/parsers. Row_Validation: row_validation.py,
    duplicate_tracker.py and schemas/shipment_row.py. Row_Facts and Row_Validation_Spec: what validation
    guarantees, chunk by chunk and for the whole file.
  \<^item> Database. Db_Models: db/models and their constraints. Sql_Schema, Migrations, Migrations_Spec:
    the DDL of migrations/versions, the metadata of the models, and that the two agree with each
    other and with the constraint functions of Db_Models. Engine: db/session.py. Db_Session,
    Quiet_Session: sessions under interference, and sessions nothing interferes with.
    Session_Time: what the clock of a session shows before its script has run out.
  \<^item> Contracts. Fenced_Rows: rows owned through a token (locale \<open>fenced_rows\<close>,
    interpreted on jobs and on intents). Db_Invariants: the consistency of the database.
    Job_Lifecycle: the life cycle of a job as labelled moves, and the locale \<open>db_invariant\<close>,
    what an invariant has to meet for the repositories to keep it. Import_Runs and Outbox_Facts prove each
    operation once under that locale and its extensions for intents (\<open>dispatch_invariant\<close>,
    \<open>publisher_invariant\<close>, \<open>intent_predicate\<close>); Recovery extends them
    (\<open>recovery_invariant\<close>). They are interpreted on consistency, on the tracking of moves and on
    the predicates of intents, and the properties are those interpretations' facts.
  \<^item> Processing. Import_Repositories: the five repositories of imports/repositories.
    Process_Import: process_import.py with all its handlers. Import_Safety: what a run keeps under
    interference. Import_Outcome: what an undisturbed run achieves.
    Import_Race: the duplicate race with another import. Import_Failure: what a run leaves when the
    workbook cannot be read or a row fits no column. Worker_Tasks: workers/tasks.py,
    and the deliveries of one task by the broker, with the retries Celery sends and the workers that are
    lost with the message. Fencing: a worker or a publisher
    that lost its row can no longer write.
  \<^item> Dispatch. Outbox: outbox_repository.py and publish_outbox.py. Outbox_Safety, Outbox_Round:
    what a publisher keeps and raises, that PUBLISHED means sent, and a round as one function.
    Recovery, Recovery_Safety: recover_stale_imports.py, startup_recovery.py, beat_schedule.py.
    Celery_App: celery_app.py, and the queues a message passes through.
  \<^item> Clients. Create_Import, Create_Import_Spec: create_import.py, idempotency and uniqueness of
    content. Storage: local_file_storage.py. Imports_Api, Imports_Api_Spec, Api_Errors: api/v1 and
    api/errors.py. Routes: main.py and the routers. Pagination: common/pagination.py. Import_Queries: get_import_status.py,
    list_import_errors.py. Shipment_Query: list_shipments.py, shipment_query_repository.py.
  \<^item> Together. Import_System: workers, publishers, recoveries and creations as one transition
    relation, from the empty database. Pipeline: the way of an import through creation or recovery,
    publisher and worker to its completion. Known_Defects: runs in which the program does not do
    what it means to.

  \<^bold>\<open>What is shown.\<close> Every process keeps the constraints, the ownership rules and the
  counters of the database, whatever fails and whatever the other processes do in between; terminal
  jobs stay as they are; an intent is published only if it was sent. An undisturbed worker
  completes the job with exactly the shipments and errors the validation of the whole file gives,
  which does not depend on the size of the chunks; when the workbook cannot be read, or a row passes
  validation that the tables refuse, it fails the job and keeps the chunks before. Undisturbed
  publishers, recoveries and creations are functions of the database; one after the other they bring
  an upload, and an import whose worker died with attempts left, to its completion. An upload leaves
  a file exactly when it leaves a job;
  listings show the rows that meet the filters, and their pages partition them. The migrations
  build the schema of the models and can be undone, and the schema admits exactly the rows the
  model's constraint functions accept. An import task is delivered a bounded number of times for the
  workers it loses. Error theorems say which exceptions leave a component, arithmetic on timestamps
  included: the settings bound no duration from above, so a long one overflows the calendar.

  \<^bold>\<open>Parameters.\<close> Third-party code is an argument of the definitions:
  \<^verbatim>\<open>openpyxl.load_workbook\<close>, the type adapters of pydantic, sending a task to the broker, the broker's
  routing, the matching of paths, what Celery does on \<^verbatim>\<open>self.retry\<close> and which workers are lost, SHA-256, the rounding of
  NUMERIC, the drivername of a database URL, the server's UTC offset, fresh uuids. What the code relies on is a hypothesis of the theorem that needs it, with a witness in which it holds.

  \<^bold>\<open>Termination and bounds.\<close> The loops over chunks, over the bytes of an upload and over the
  repeated attempts after a conflict terminate by a measure, without fuel: a repeated attempt
  has one shipment less or has used up an event of the script. The publisher's process loops until it is stopped, so it takes
  the number of its rounds; theorems hold for every number. The deliveries of one task follow a
  schedule of which workers are lost; \<open>import_max_attempts\<close> deliveries for every loss and as many again
  are proved to be enough, and without a bound on the losses there is none on the deliveries. Integers of Python are
  \<open>int\<close> or \<open>nat\<close>; the ranges of dates and timestamps, the lengths of VARCHAR, the precision of NUMERIC
  columns and the BIGINT that LIMIT and OFFSET of a listing take are checked where the code or the server checks them.

  \<^bold>\<open>Not modelled.\<close> core/logging.py and migrations/env.py pass settings to third-party functions and
  hold no logic of their own; api/app.py and api/v1/runtime.py re-export. Logging is left
  out of the services. FastAPI's parsing of requests and the reading of the environment by pydantic
  are third-party. A JSONB document is refused for a NaN or an infinity only. Strings are lists
  of 8-bit characters: text beyond them and encodings are outside the model, as are NUL bytes except in the
  filters of a listing, the range of INTEGER columns in statements and of a LIMIT taken from the settings,
  spellings of a uuid other than hexadecimal digits with hyphens, and deadlocks.
\<close>

end
